(* ===== verification/Judge_Prelude.thy ===== *)
theory Judge_Prelude
  imports Main "HOL-Library.Word" "HOL-Library.Product_Lexorder" "HOL-Library.Option_ord"
begin

text \<open>
  Shared vocabulary of the development: fallible computations as a sum type, Go's 64-bit
  signed arithmetic, and SQL tables as lists of rows with the statements the repositories
  issue on them (\<^verbatim>\<open>SELECT ... LIMIT 1\<close>, \<^verbatim>\<open>ORDER BY\<close>, \<^verbatim>\<open>UPDATE\<close>, \<^verbatim>\<open>DELETE\<close>, \<^verbatim>\<open>COUNT\<close>).
  The lemmas on tables are collected in \<open>table_simps\<close>, the decomposition rules of the
  error monad in \<open>result_simps\<close>.
\<close>

named_theorems table_simps "rewrite rules for SQL tables as lists of rows"
named_theorems result_simps "rewrite rules for fallible computations"

section \<open>Fallible computations\<close>

text \<open>\<open>Inl\<close> carries the error a Go function returns, \<open>Inr\<close> its results.\<close>

definition bind_result :: "'e + 'a \<Rightarrow> ('a \<Rightarrow> 'e + 'b) \<Rightarrow> 'e + 'b" where
  "bind_result m k = (case m of Inl e \<Rightarrow> Inl e | Inr x \<Rightarrow> k x)"

definition guard_result :: "bool \<Rightarrow> 'e \<Rightarrow> 'e + unit" where
  "guard_result ok e = (if ok then Inr () else Inl e)"

lemma bind_result_simps [simp]:
  "bind_result (Inl e) k = Inl e"
  "bind_result (Inr x) k = k x"
  by (simp_all add: bind_result_def)

lemma bind_result_Inr_iff [result_simps]:
  "bind_result m k = Inr y \<longleftrightarrow> (\<exists>x. m = Inr x \<and> k x = Inr y)"
  by (cases m) simp_all

lemma guard_result_Inr_iff [simp]: "guard_result ok e = Inr u \<longleftrightarrow> ok"
  by (simp add: guard_result_def)

lemma guard_result_Inl_iff [simp]: "guard_result ok e = Inl e' \<longleftrightarrow> \<not> ok \<and> e' = e"
  by (auto simp: guard_result_def)

section \<open>Go's signed 64-bit integers\<close>

definition max_int64 :: int where
  "max_int64 = 9223372036854775807"

definition wrap64 :: "int \<Rightarrow> int" where
  "wrap64 x = (x + 9223372036854775808) mod 18446744073709551616 - 9223372036854775808"

definition in_int64 :: "int \<Rightarrow> bool" where
  "in_int64 x \<longleftrightarrow> -9223372036854775808 \<le> x \<and> x \<le> 9223372036854775807"

lemma wrap64_id: "in_int64 x \<Longrightarrow> wrap64 x = x"
  by (simp add: in_int64_def wrap64_def)

lemma wrap64_in: "in_int64 (wrap64 x)"
  by (simp add: in_int64_def wrap64_def)

text \<open>Attempt numbers are 32-bit unsigned: below the maximum, the increment does not wrap.\<close>

lemma uint32_inc:
  assumes "n \<noteq> (0xFFFFFFFF :: 32 word)"
  shows "unat (n + 1) = Suc (unat n)"
proof -
  have "unat n \<noteq> unat (0xFFFFFFFF :: 32 word)" using assms by (simp only: word_unat_eq_iff) simp
  then have "unat n \<noteq> 4294967295" by simp
  moreover have "unat n < 2 ^ LENGTH(32)" by (rule unsigned_less)
  ultimately have "unat n + unat (1 :: 32 word) < 2 ^ LENGTH(32)" by simp
  then show ?thesis by (simp only: unat_add_lem) simp
qed

section \<open>SQL tables\<close>

definition sql_update :: "('r \<Rightarrow> bool) \<Rightarrow> ('r \<Rightarrow> 'r) \<Rightarrow> 'r list \<Rightarrow> 'r list" where
  "sql_update p f t = map (\<lambda>r. if p r then f r else r) t"

text \<open>
  \<^verbatim>\<open>RowsAffected\<close> of the MySQL driver counts the rows a statement changed, not the rows its
  condition matched (the DSN does not set \<^verbatim>\<open>clientFoundRows\<close>).
\<close>

definition sql_affected :: "('r \<Rightarrow> bool) \<Rightarrow> ('r \<Rightarrow> 'r) \<Rightarrow> 'r list \<Rightarrow> nat" where
  "sql_affected p f t = length (filter (\<lambda>r. p r \<and> f r \<noteq> r) t)"

definition sql_delete :: "('r \<Rightarrow> bool) \<Rightarrow> 'r list \<Rightarrow> 'r list" where
  "sql_delete p t = filter (\<lambda>r. \<not> p r) t"

definition sql_count :: "('r \<Rightarrow> bool) \<Rightarrow> 'r list \<Rightarrow> nat" where
  "sql_count p t = length (filter p t)"

definition sql_exists :: "('r \<Rightarrow> bool) \<Rightarrow> 'r list \<Rightarrow> bool" where
  "sql_exists p t = list_ex p t"

text \<open>\<^verbatim>\<open>ORDER BY key LIMIT 1\<close>: the first row of least key.\<close>

fun min_row :: "('r \<Rightarrow> 'k::linorder) \<Rightarrow> 'r list \<Rightarrow> 'r option" where
  "min_row key [] = None"
| "min_row key (r # rs) =
     (case min_row key rs of
        None \<Rightarrow> Some r
      | Some m \<Rightarrow> if key r \<le> key m then Some r else Some m)"

lemma min_row_None_iff [table_simps]: "min_row key rs = None \<longleftrightarrow> rs = []"
  by (cases rs) (auto split: option.splits)

lemma min_row_mem: "min_row key rs = Some m \<Longrightarrow> m \<in> set rs"
  by (induction rs arbitrary: m) (auto split: option.splits if_splits)

lemma min_row_least: "min_row key rs = Some m \<Longrightarrow> r \<in> set rs \<Longrightarrow> key m \<le> key r"
proof (induction rs arbitrary: m)
  case Nil
  then show ?case by simp
next
  case (Cons x xs)
  show ?case
  proof (cases "min_row key xs")
    case None
    with Cons.prems show ?thesis by (simp add: min_row_None_iff)
  next
    case (Some m')
    with Cons.prems Cons.IH [OF Some] min_row_mem [OF Some] show ?thesis
      by (auto split: if_splits intro: order_trans)
  qed
qed

lemma sql_update_Nil [simp]: "sql_update p f [] = []"
  by (simp add: sql_update_def)

lemma sql_update_Cons [simp]:
  "sql_update p f (r # t) = (if p r then f r else r) # sql_update p f t"
  by (simp add: sql_update_def)

lemma set_sql_update [table_simps]:
  "set (sql_update p f t) = (\<lambda>r. if p r then f r else r) ` set t"
  by (simp add: sql_update_def)

lemma map_sql_update:
  "(\<And>r. p r \<Longrightarrow> k (f r) = k r) \<Longrightarrow> map k (sql_update p f t) = map k t"
  by (simp add: sql_update_def)

lemma sql_update_id: "(\<And>r. r \<in> set t \<Longrightarrow> \<not> p r) \<Longrightarrow> sql_update p f t = t"
  by (induction t) auto

lemma set_sql_delete [table_simps]: "set (sql_delete p t) = {r \<in> set t. \<not> p r}"
  by (simp add: sql_delete_def)

lemma find_Some_mem: "List.find p t = Some r \<Longrightarrow> r \<in> set t \<and> p r"
  by (auto simp: find_Some_iff)

lemma find_None_all: "List.find p t = None \<longleftrightarrow> (\<forall>r \<in> set t. \<not> p r)"
  by (auto simp: find_None_iff)

text \<open>A table with a unique key: two rows with the same key are the same row.\<close>

lemma distinct_key_unique:
  "distinct (map k t) \<Longrightarrow> r \<in> set t \<Longrightarrow> s \<in> set t \<Longrightarrow> k r = k s \<Longrightarrow> r = s"
  by (simp add: distinct_map inj_on_def)

lemma distinct_const_length: "distinct xs \<Longrightarrow> (\<And>x. x \<in> set xs \<Longrightarrow> x = c) \<Longrightarrow> length xs \<le> 1"
  by (cases xs rule: remdups_adj.cases) auto

lemma affected_unique:
  assumes "distinct (map k t)" and "\<And>r. p r \<Longrightarrow> k r = key"
  shows "sql_affected p f t \<le> 1"
proof -
  let ?m = "map k (filter (\<lambda>r. p r \<and> f r \<noteq> r) t)"
  have "distinct ?m"
    using assms(1) by (simp add: distinct_map_filter)
  then have "length ?m \<le> 1"
    by (rule distinct_const_length) (use assms(2) in auto)
  then show ?thesis by (simp add: sql_affected_def)
qed

lemma affected_one_matched:
  assumes "sql_affected p f t = 1"
  shows "\<exists>r \<in> set t. p r \<and> f r \<noteq> r"
proof -
  have "filter (\<lambda>r. p r \<and> f r \<noteq> r) t \<noteq> []"
    using assms by (auto simp: sql_affected_def)
  then show ?thesis by (auto simp: filter_empty_conv)
qed

text \<open>An update that matches exactly one row, by its key.\<close>

lemma update_one_sum:
  fixes g :: "'r \<Rightarrow> int"
  assumes "distinct (map k t)" "a \<in> set t" "p a" "\<And>b. b \<in> set t \<Longrightarrow> p b \<Longrightarrow> k b = k a"
  shows "sum_list (map g (sql_update p f t)) = sum_list (map g t) - g a + g (f a)"
  using assms
proof (induction t)
  case (Cons x t)
  have dist: "k x \<notin> k ` set t" "distinct (map k t)" using Cons.prems(1) by simp_all
  show ?case
  proof (cases "x = a")
    case True
    have "\<not> p r" if r: "r \<in> set t" for r
    proof
      assume "p r"
      then have "k r = k x" using Cons.prems(4) [of r] r True by simp
      with dist(1) imageI [OF r, of k] show False by simp
    qed
    then have "sql_update p f t = t" by (rule sql_update_id)
    then show ?thesis using True Cons.prems(3) by simp
  next
    case False
    then have a: "a \<in> set t" using Cons.prems(2) by simp
    have "\<not> p x"
    proof
      assume "p x"
      then have "k x = k a" using Cons.prems(4) [of x] by simp
      with dist(1) imageI [OF a, of k] show False by simp
    qed
    moreover have "sum_list (map g (sql_update p f t)) = sum_list (map g t) - g a + g (f a)"
      by (rule Cons.IH [OF dist(2) a Cons.prems(3)]) (use Cons.prems(4) in simp)
    ultimately show ?thesis by simp
  qed
qed simp

lemma map_eq_image: "map k xs = map k ys \<Longrightarrow> k ` set xs = k ` set ys"
  by (drule arg_cong [where f = set]) simp

lemma affected_one_obtain:
  assumes "sql_affected p f t = 1"
  obtains r where "r \<in> set t" "p r"
  using affected_one_matched [OF assms] by blast

lemma sql_exists_iff [table_simps]: "sql_exists p t \<longleftrightarrow> (\<exists>r \<in> set t. p r)"
  by (simp add: sql_exists_def list_ex_iff)

lemma mem_sql_updateE:
  assumes "r \<in> set (sql_update p f t)"
  obtains s where "s \<in> set t" "r = (if p s then f s else s)"
  using assms by (auto simp: set_sql_update)

lemma mem_sql_updateI: "s \<in> set t \<Longrightarrow> (if p s then f s else s) \<in> set (sql_update p f t)"
  by (simp add: set_sql_update)

lemma find_sql_update:
  assumes "\<And>r. P (f r) = P r"
  shows "List.find P (sql_update p f t) = map_option (\<lambda>r. if p r then f r else r) (List.find P t)"
  by (induction t) (auto simp: assms)

end
