(* ===== verification/Go_Strings.thy ===== *)
theory Go_Strings
  imports Judge_Prelude
begin

text \<open>
  The parts of Go's string library the judge relies on, on strings as byte sequences:
  \<^verbatim>\<open>strings.TrimSpace\<close> and \<^verbatim>\<open>strings.Fields\<close> (Unicode white space in its UTF-8 encoding),
  \<^verbatim>\<open>utf8.DecodeRuneInString\<close> and \<^verbatim>\<open>utf8.ValidString\<close>, the identifier patterns of the
  packages, and the UTF-16 accounting of \<^verbatim>\<open>internal/callback/text.go\<close>.
\<close>

abbreviation byte :: "char \<Rightarrow> nat" where
  "byte c \<equiv> of_char c"

section \<open>White space\<close>

text \<open>
  The encodings of Unicode's white space: six ASCII controls and the space, U+0085 and U+00A0,
  then U+1680, U+2000 to U+200A, U+2028, U+2029, U+202F, U+205F and U+3000.
\<close>

definition space1 :: "char \<Rightarrow> bool" where
  "space1 a \<longleftrightarrow> byte a \<in> {9, 10, 11, 12, 13, 32}"

definition space2 :: "char \<Rightarrow> char \<Rightarrow> bool" where
  "space2 a b \<longleftrightarrow> byte a = 194 \<and> byte b \<in> {133, 160}"

definition space3 :: "char \<Rightarrow> char \<Rightarrow> char \<Rightarrow> bool" where
  "space3 a b c \<longleftrightarrow>
     byte a = 225 \<and> byte b = 154 \<and> byte c = 128
   \<or> byte a = 226 \<and> byte b = 128 \<and> (128 \<le> byte c \<and> byte c \<le> 138 \<or> byte c \<in> {168, 169, 175})
   \<or> byte a = 226 \<and> byte b = 129 \<and> byte c = 159
   \<or> byte a = 227 \<and> byte b = 128 \<and> byte c = 128"

text \<open>The width in bytes of the white-space rune a string starts with, 0 if there is none.\<close>

fun space_width :: "string \<Rightarrow> nat" where
  "space_width [] = 0"
| "space_width [a] = (if space1 a then 1 else 0)"
| "space_width [a, b] = (if space1 a then 1 else if space2 a b then 2 else 0)"
| "space_width (a # b # c # s) =
     (if space1 a then 1 else if space2 a b then 2 else if space3 a b c then 3 else 0)"

lemma space_width_le: "space_width s \<le> length s"
  by (cases s rule: space_width.cases) auto

lemma space_width_pos: "0 < space_width s \<Longrightarrow> s \<noteq> []"
  by auto

definition graph :: "char \<Rightarrow> bool" where
  "graph c \<longleftrightarrow> 33 \<le> byte c \<and> byte c \<le> 126"

lemma graph_not_space:
  "graph a \<Longrightarrow> \<not> space1 a" "graph a \<Longrightarrow> \<not> space2 a b" "graph b \<Longrightarrow> \<not> space2 a b"
  "graph a \<Longrightarrow> \<not> space3 a b c" "graph b \<Longrightarrow> \<not> space3 a b c" "graph c \<Longrightarrow> \<not> space3 a b c"
  by (auto simp: graph_def space1_def space2_def space3_def)

lemma space_width_graph: "graph c \<Longrightarrow> space_width (c # s) = 0"
  by (cases "c # s" rule: space_width.cases) (auto simp: graph_not_space)

lemma space_width_no_graph: "k < space_width s \<Longrightarrow> \<not> graph (s ! k)"
  by (cases s rule: space_width.cases)
    (auto simp: nth_Cons less_Suc_eq numeral_2_eq_2 numeral_3_eq_3 dest: graph_not_space split: if_splits)

function trim_left :: "string \<Rightarrow> string" where
  "trim_left s = (if 0 < space_width s then trim_left (drop (space_width s) s) else s)"
  by pat_completeness auto
termination
proof (relation "measure length", goal_cases)
  case (2 s)
  with space_width_pos [of s] show ?case by simp
qed simp

definition trailing_space_width :: "string \<Rightarrow> nat" where
  "trailing_space_width s =
     (let n = length s in
      if 1 \<le> n \<and> space_width (drop (n - 1) s) = 1 then 1
      else if 2 \<le> n \<and> space_width (drop (n - 2) s) = 2 then 2
      else if 3 \<le> n \<and> space_width (drop (n - 3) s) = 3 then 3
      else 0)"

lemma trailing_space_width_le: "trailing_space_width s \<le> length s"
  by (auto simp: trailing_space_width_def Let_def)

function trim_right :: "string \<Rightarrow> string" where
  "trim_right s =
     (if 0 < trailing_space_width s
      then trim_right (take (length s - trailing_space_width s) s) else s)"
  by pat_completeness auto
termination
proof (relation "measure length", goal_cases)
  case 1
  show ?case by simp
next
  case (2 s)
  with trailing_space_width_le [of s] show ?case by simp
qed

declare trim_left.simps [simp del] trim_right.simps [simp del]

definition TrimSpace :: "string \<Rightarrow> string" where
  "TrimSpace s = trim_right (trim_left s)"

text \<open>\<^verbatim>\<open>strings.Fields\<close>: the maximal runs of bytes that start no white-space rune.\<close>

function fields_from :: "string \<Rightarrow> string \<Rightarrow> string list" where
  "fields_from cur s =
     (case s of
        [] \<Rightarrow> if cur = [] then [] else [rev cur]
      | c # cs \<Rightarrow>
          (let w = space_width s in
           if 0 < w then
             (if cur = [] then fields_from [] (drop w s) else rev cur # fields_from [] (drop w s))
           else fields_from (c # cur) cs))"
  by pat_completeness auto
termination
  by (relation "measure (\<lambda>(cur, s). length s)") auto

declare fields_from.simps [simp del]

definition Fields :: "string \<Rightarrow> string list" where
  "Fields s = fields_from [] s"

text \<open>A string that starts with a visible ASCII character is not blank.\<close>

lemma trim_left_graph: "graph c \<Longrightarrow> trim_left (c # s) = c # s"
  by (simp add: trim_left.simps space_width_graph)

lemma trailing_space_no_graph:
  assumes w: "0 < trailing_space_width s" and "k < length s"
    and "length s - trailing_space_width s \<le> k"
  shows "\<not> graph (s ! k)"
proof -
  define w where "w = trailing_space_width s"
  have le: "w \<le> length s" using trailing_space_width_le w_def by simp
  have sw: "space_width (drop (length s - w) s) = w"
    using w unfolding w_def by (auto simp: trailing_space_width_def Let_def split: if_splits)
  have "k - (length s - w) < w" using assms le w_def by linarith
  then have "\<not> graph (drop (length s - w) s ! (k - (length s - w)))"
    using space_width_no_graph [of "k - (length s - w)" "drop (length s - w) s"] sw by simp
  moreover have "drop (length s - w) s ! (k - (length s - w)) = s ! k"
    using assms le w_def by simp
  ultimately show ?thesis by simp
qed

lemma trim_right_graph_ne: "(\<exists>c \<in> set s. graph c) \<Longrightarrow> trim_right s \<noteq> []"
proof (induction s rule: trim_right.induct)
  case (1 s)
  show ?case
  proof (cases "0 < trailing_space_width s")
    case False
    with "1.prems" show ?thesis by (subst trim_right.simps) auto
  next
    case True
    from "1.prems" obtain k where k: "k < length s" "graph (s ! k)"
      by (auto simp: in_set_conv_nth)
    have lt: "k < length s - trailing_space_width s"
      using trailing_space_no_graph [OF True k(1)] k by (meson not_le_imp_less)
    let ?t = "take (length s - trailing_space_width s) s"
    have "?t ! k \<in> set ?t" using lt k(1) by (intro nth_mem) simp
    then have "\<exists>c \<in> set ?t. graph c"
      using k lt by auto
    from "1.IH" [OF True this] True show ?thesis by (subst trim_right.simps) simp
  qed
qed

lemma TrimSpace_graph_ne: "graph c \<Longrightarrow> TrimSpace (c # s) \<noteq> []"
  by (simp add: TrimSpace_def trim_left_graph trim_right_graph_ne)

section \<open>UTF-8\<close>

definition cont_byte :: "char \<Rightarrow> bool" where
  "cont_byte c \<longleftrightarrow> 128 \<le> byte c \<and> byte c \<le> 191"

text \<open>The accepted range of the second byte depends on the first (\<^verbatim>\<open>utf8.acceptRanges\<close>).\<close>

definition second_byte_ok :: "char \<Rightarrow> char \<Rightarrow> bool" where
  "second_byte_ok a b \<longleftrightarrow>
     (if byte a = 224 then 160 \<le> byte b \<and> byte b \<le> 191
      else if byte a = 237 then 128 \<le> byte b \<and> byte b \<le> 159
      else if byte a = 240 then 144 \<le> byte b \<and> byte b \<le> 191
      else if byte a = 244 then 128 \<le> byte b \<and> byte b \<le> 143
      else cont_byte b)"

definition rune_error :: nat where
  "rune_error = 65533"

definition decode_rune :: "string \<Rightarrow> nat \<times> nat" where
  "decode_rune s =
     (case s of
        [] \<Rightarrow> (rune_error, 0)
      | a # r \<Rightarrow>
          if byte a < 128 then (byte a, 1)
          else if 194 \<le> byte a \<and> byte a \<le> 223 then
            (case r of b # _ \<Rightarrow>
               if cont_byte b then ((byte a - 192) * 64 + (byte b - 128), 2) else (rune_error, 1)
             | _ \<Rightarrow> (rune_error, 1))
          else if 224 \<le> byte a \<and> byte a \<le> 239 then
            (case r of b # c # _ \<Rightarrow>
               if second_byte_ok a b \<and> cont_byte c
               then ((byte a - 224) * 4096 + (byte b - 128) * 64 + (byte c - 128), 3)
               else (rune_error, 1)
             | _ \<Rightarrow> (rune_error, 1))
          else if 240 \<le> byte a \<and> byte a \<le> 244 then
            (case r of b # c # d # _ \<Rightarrow>
               if second_byte_ok a b \<and> cont_byte c \<and> cont_byte d
               then ((byte a - 240) * 262144 + (byte b - 128) * 4096
                      + (byte c - 128) * 64 + (byte d - 128), 4)
               else (rune_error, 1)
             | _ \<Rightarrow> (rune_error, 1))
          else (rune_error, 1))"

lemma decode_rune_width:
  "s \<noteq> [] \<Longrightarrow> 1 \<le> snd (decode_rune s) \<and> snd (decode_rune s) \<le> length s"
  by (auto simp: decode_rune_def split: list.splits)

lemma decode_rune_shorter: "s \<noteq> [] \<Longrightarrow> length s - snd (decode_rune s) < length s"
  using decode_rune_width [of s] by simp

function utf8_valid :: "string \<Rightarrow> bool" where
  "utf8_valid s \<longleftrightarrow>
     (if s = [] then True
      else \<not> (fst (decode_rune s) = rune_error \<and> snd (decode_rune s) = 1)
           \<and> utf8_valid (drop (snd (decode_rune s)) s))"
  by pat_completeness auto
termination
  by (relation "measure length") (auto simp: decode_rune_shorter)

text \<open>\<^verbatim>\<open>for _, r := range s\<close>: the runes of a string, an invalid byte reads as U+FFFD.\<close>

function runes :: "string \<Rightarrow> nat list" where
  "runes s =
     (if s = [] then [] else fst (decode_rune s) # runes (drop (snd (decode_rune s)) s))"
  by pat_completeness auto
termination
  by (relation "measure length") (auto simp: decode_rune_shorter)

declare utf8_valid.simps [simp del] runes.simps [simp del]

definition scalar :: "nat \<Rightarrow> bool" where
  "scalar r \<longleftrightarrow> r < 55296 \<or> 57344 \<le> r \<and> r \<le> 1114111"

lemma scalar_two:
  assumes "x \<le> 31" "y \<le> 63"
  shows "scalar (x * 64 + y)"
  using assms by (simp add: scalar_def)

lemma scalar_three:
  assumes "x \<le> 15" "y \<le> 63" "z \<le> 63" "x = 13 \<Longrightarrow> y < 32"
  shows "scalar (x * 4096 + y * 64 + z)"
proof -
  consider "x \<le> 12" | "x = 13" | "14 \<le> x" by linarith
  then show ?thesis using assms by cases (auto simp: scalar_def)
qed

lemma scalar_four:
  assumes "x \<le> 4" "y \<le> 63" "z \<le> 63" "w \<le> 63" "x = 4 \<Longrightarrow> y < 16" "x = 0 \<Longrightarrow> 16 \<le> y"
  shows "scalar (x * 262144 + y * 4096 + z * 64 + w)"
proof -
  consider "x = 0" | "1 \<le> x" "x \<le> 3" | "x = 4" using assms(1) by linarith
  then show ?thesis using assms by cases (auto simp: scalar_def)
qed

lemma cont_byte_diff: "cont_byte c \<Longrightarrow> byte c - 128 \<le> 63"
  by (auto simp: cont_byte_def)

lemma second_byte_diff:
  assumes "second_byte_ok a b"
  shows "byte b - 128 \<le> 63" "byte a = 237 \<Longrightarrow> byte b - 128 < 32"
    "byte a = 244 \<Longrightarrow> byte b - 128 < 16" "byte a = 240 \<Longrightarrow> 16 \<le> byte b - 128"
  using assms by (auto simp: second_byte_ok_def cont_byte_def split: if_splits)

lemma decode_rune_scalar: "scalar (fst (decode_rune s))"
proof (cases s)
  case Nil
  then show ?thesis by (simp add: decode_rune_def scalar_def rune_error_def)
next
  case (Cons a r)
  have one: "byte a < 128 \<Longrightarrow> scalar (byte a)" and err: "scalar rune_error"
    by (simp_all add: scalar_def rune_error_def)
  have two: "cont_byte b \<Longrightarrow> byte a \<le> 223 \<Longrightarrow>
      scalar ((byte a - 192) * 64 + (byte b - 128))" for b
    by (rule scalar_two) (auto dest: cont_byte_diff)
  have three: "second_byte_ok a b \<Longrightarrow> cont_byte c \<Longrightarrow> byte a \<le> 239 \<Longrightarrow>
      scalar ((byte a - 224) * 4096 + (byte b - 128) * 64 + (byte c - 128))" for b c
    using second_byte_diff [of a b] by (intro scalar_three) (auto dest: cont_byte_diff)
  have four: "second_byte_ok a b \<Longrightarrow> cont_byte c \<Longrightarrow> cont_byte d \<Longrightarrow> 240 \<le> byte a \<Longrightarrow> byte a \<le> 244 \<Longrightarrow>
      scalar ((byte a - 240) * 262144 + (byte b - 128) * 4096 + (byte c - 128) * 64 + (byte d - 128))"
    for b c d
    using second_byte_diff [of a b] by (intro scalar_four) (auto dest: cont_byte_diff)
  show ?thesis
    unfolding Cons decode_rune_def
    by (simp add: one err two three four split: list.split)
qed

lemma runes_Nil [simp]: "runes [] = []"
  by (simp add: runes.simps)

lemma runes_scalar: "r \<in> set (runes s) \<Longrightarrow> scalar r"
proof (induction s rule: runes.induct)
  case (1 s)
  show ?case
  proof (cases "s = []")
    case False
    then have "runes s = fst (decode_rune s) # runes (drop (snd (decode_rune s)) s)"
      by (subst runes.simps) simp
    with 1 False show ?thesis by (auto simp: decode_rune_scalar)
  qed (use 1 in simp)
qed

definition encode_rune :: "nat \<Rightarrow> string" where
  "encode_rune r =
     (if r < 128 then [char_of r]
      else if r < 2048 then [char_of (192 + r div 64), char_of (128 + r mod 64)]
      else if r < 65536 then
        [char_of (224 + r div 4096), char_of (128 + r div 64 mod 64), char_of (128 + r mod 64)]
      else
        [char_of (240 + r div 262144), char_of (128 + r div 4096 mod 64),
         char_of (128 + r div 64 mod 64), char_of (128 + r mod 64)])"

lemma encode_rune_not_Nil [simp]: "encode_rune r \<noteq> []"
  by (simp add: encode_rune_def)

lemma byte_char_of: "n < 256 \<Longrightarrow> byte (char_of n) = n"
  by simp

lemma cont_char_of: "n < 64 \<Longrightarrow> cont_byte (char_of (128 + n)) \<and> byte (char_of (128 + n)) = 128 + n"
  by (simp add: cont_byte_def)

lemma decode_encode_three:
  assumes "x < 16" "y < 64" "z < 64" "x = 0 \<Longrightarrow> 32 \<le> y" "x = 13 \<Longrightarrow> y < 32"
  shows "decode_rune (char_of (224 + x) # char_of (128 + y) # char_of (128 + z) # s)
           = (x * 4096 + y * 64 + z, 3)"
proof -
  have a: "byte (char_of (224 + x)) = 224 + x" using assms by (intro byte_char_of) simp
  note y = cont_char_of [OF assms(2)] and z = cont_char_of [OF assms(3)]
  have ok: "second_byte_ok (char_of (224 + x)) (char_of (128 + y))"
    unfolding second_byte_ok_def a using y assms by (auto simp del: of_char_of)
  show ?thesis
    using assms(1) ok y z by (simp add: decode_rune_def a del: of_char_of)
qed

lemma decode_encode_four:
  assumes "x < 5" "y < 64" "z < 64" "w < 64" "x = 0 \<Longrightarrow> 16 \<le> y" "x = 4 \<Longrightarrow> y < 16"
  shows "decode_rune (char_of (240 + x) # char_of (128 + y) # char_of (128 + z) # char_of (128 + w) # s)
           = (x * 262144 + y * 4096 + z * 64 + w, 4)"
proof -
  have a: "byte (char_of (240 + x)) = 240 + x" using assms by (intro byte_char_of) simp
  note y = cont_char_of [OF assms(2)] and z = cont_char_of [OF assms(3)]
    and w = cont_char_of [OF assms(4)]
  have ok: "second_byte_ok (char_of (240 + x)) (char_of (128 + y))"
    unfolding second_byte_ok_def a using y assms by (auto simp del: of_char_of)
  show ?thesis
    using assms(1) ok y z w by (simp add: decode_rune_def a del: of_char_of)
qed

lemma decode_encode_rune:
  assumes "scalar r"
  shows "decode_rune (encode_rune r @ s) = (r, length (encode_rune r))"
proof -
  consider "r < 128" | "128 \<le> r" "r < 2048" | "2048 \<le> r" "r < 65536" | "65536 \<le> r" "r \<le> 1114111"
    using assms by (fastforce simp: scalar_def)
  then show ?thesis
  proof cases
    case 1
    then show ?thesis by (simp add: encode_rune_def decode_rune_def)
  next
    case 2
    then have "r div 64 < 32" "2 \<le> r div 64" by auto
    with 2 show ?thesis
      by (simp add: encode_rune_def decode_rune_def cont_byte_def)
  next
    case 3
    have q: "r div 4096 = r div 64 div 64" by (simp add: div_mult2_eq [symmetric])
    have e: "r div 64 div 64 * 64 + r div 64 mod 64 = r div 64" "r div 64 * 64 + r mod 64 = r"
      and b: "r div 64 mod 64 < 64" "r mod 64 < 64" by simp_all
    have "decode_rune (char_of (224 + r div 4096) # char_of (128 + r div 64 mod 64)
            # char_of (128 + r mod 64) # s)
          = (r div 4096 * 4096 + r div 64 mod 64 * 64 + r mod 64, 3)"
      using 3 assms e b unfolding scalar_def q by (intro decode_encode_three) linarith+
    moreover have "r div 4096 * 4096 + r div 64 mod 64 * 64 + r mod 64 = r"
      using e unfolding q by linarith
    ultimately show ?thesis using 3 by (simp add: encode_rune_def)
  next
    case 4
    have q: "r div 4096 = r div 64 div 64" "r div 262144 = r div 64 div 64 div 64"
      by (simp_all add: div_mult2_eq [symmetric])
    have e: "r div 64 div 64 div 64 * 64 + r div 64 div 64 mod 64 = r div 64 div 64"
      "r div 64 div 64 * 64 + r div 64 mod 64 = r div 64" "r div 64 * 64 + r mod 64 = r"
      and b: "r div 64 div 64 mod 64 < 64" "r div 64 mod 64 < 64" "r mod 64 < 64" by simp_all
    have "decode_rune (char_of (240 + r div 262144) # char_of (128 + r div 4096 mod 64)
            # char_of (128 + r div 64 mod 64) # char_of (128 + r mod 64) # s)
          = (r div 262144 * 262144 + r div 4096 mod 64 * 4096 + r div 64 mod 64 * 64 + r mod 64, 4)"
      using 4 assms e b unfolding scalar_def q by (intro decode_encode_four) linarith+
    moreover have "r div 262144 * 262144 + r div 4096 mod 64 * 4096 + r div 64 mod 64 * 64 + r mod 64 = r"
      using e unfolding q by linarith
    ultimately show ?thesis using 4 by (simp add: encode_rune_def)
  qed
qed

lemma runes_encode:
  "(\<And>r. r \<in> set rs \<Longrightarrow> scalar r) \<Longrightarrow> runes (concat (map encode_rune rs)) = rs"
proof (induction rs)
  case Nil
  then show ?case by (simp add: runes.simps)
next
  case (Cons r rs)
  have "decode_rune (encode_rune r @ concat (map encode_rune rs)) = (r, length (encode_rune r))"
    by (rule decode_encode_rune) (use Cons.prems in simp)
  with Cons show ?case by (simp add: runes.simps [of "encode_rune r @ _"])
qed

section \<open>Identifier patterns\<close>

definition lower_letter :: "char \<Rightarrow> bool" where
  "lower_letter c \<longleftrightarrow> 97 \<le> byte c \<and> byte c \<le> 122"

definition upper_letter :: "char \<Rightarrow> bool" where
  "upper_letter c \<longleftrightarrow> 65 \<le> byte c \<and> byte c \<le> 90"

definition digit :: "char \<Rightarrow> bool" where
  "digit c \<longleftrightarrow> 48 \<le> byte c \<and> byte c \<le> 57"

text \<open>\<^verbatim>\<open>^[a-z2-7]{26}$\<close>\<close>

definition externalIDPattern :: "string \<Rightarrow> bool" where
  "externalIDPattern s \<longleftrightarrow>
     length s = 26 \<and> list_all (\<lambda>c. lower_letter c \<or> 50 \<le> byte c \<and> byte c \<le> 55) s"

text \<open>\<^verbatim>\<open>^[a-z][a-z0-9._-]{1,31}$\<close>\<close>

definition languageIDPattern :: "string \<Rightarrow> bool" where
  "languageIDPattern s \<longleftrightarrow>
     (case s of
        [] \<Rightarrow> False
      | c # cs \<Rightarrow> lower_letter c \<and> 1 \<le> length cs \<and> length cs \<le> 31
          \<and> list_all (\<lambda>d. lower_letter d \<or> digit d \<or> byte d \<in> {45, 46, 95}) cs)"

text \<open>\<^verbatim>\<open>^[A-Z][A-Z0-9_]{0,63}$\<close>\<close>

definition infrastructureCodePattern :: "string \<Rightarrow> bool" where
  "infrastructureCodePattern s \<longleftrightarrow>
     (case s of
        [] \<Rightarrow> False
      | c # cs \<Rightarrow> upper_letter c \<and> length cs \<le> 63
          \<and> list_all (\<lambda>d. upper_letter d \<or> digit d \<or> byte d = 95) cs)"

text \<open>\<^verbatim>\<open>^[A-Za-z0-9][A-Za-z0-9._-]{0,63}$\<close>\<close>

definition caseIDPattern :: "string \<Rightarrow> bool" where
  "caseIDPattern s \<longleftrightarrow>
     (case s of
        [] \<Rightarrow> False
      | c # cs \<Rightarrow> (lower_letter c \<or> upper_letter c \<or> digit c) \<and> length cs \<le> 63
          \<and> list_all (\<lambda>d. lower_letter d \<or> upper_letter d \<or> digit d \<or> byte d \<in> {45, 46, 95}) cs)"

text \<open>\<^verbatim>\<open>^[0-9a-f]{64}$\<close>\<close>

definition lowerSHA256Pattern :: "string \<Rightarrow> bool" where
  "lowerSHA256Pattern s \<longleftrightarrow>
     length s = 64 \<and> list_all (\<lambda>c. digit c \<or> 97 \<le> byte c \<and> byte c \<le> 102) s"

lemma caseIDPattern_not_blank: "caseIDPattern s \<Longrightarrow> TrimSpace s \<noteq> []"
  by (cases s)
    (auto simp: caseIDPattern_def lower_letter_def upper_letter_def digit_def graph_def
      intro!: TrimSpace_graph_ne)

lemma caseIDPattern_length: "caseIDPattern s \<Longrightarrow> s \<noteq> [] \<and> length s \<le> 64"
  by (cases s) (auto simp: caseIDPattern_def)

lemma infrastructureCodePattern_not_blank: "infrastructureCodePattern s \<Longrightarrow> TrimSpace s \<noteq> [] \<and> s \<noteq> []"
  by (cases s)
    (auto simp: infrastructureCodePattern_def upper_letter_def graph_def intro!: TrimSpace_graph_ne)

section \<open>UTF-16 accounting (internal/callback/text.go)\<close>

text \<open>\<^verbatim>\<open>utf16.RuneLen\<close>: the code units of a rune, -1 for a surrogate or an invalid value.\<close>

definition utf16_RuneLen :: "nat \<Rightarrow> int" where
  "utf16_RuneLen r =
     (if r < 55296 \<or> 57344 \<le> r \<and> r < 65536 then 1
      else if 65536 \<le> r \<and> r \<le> 1114111 then 2
      else -1)"

definition UTF16Len :: "string \<Rightarrow> int" where
  "UTF16Len value = sum_list (map utf16_RuneLen (runes value))"

fun take_units :: "int \<Rightarrow> int \<Rightarrow> nat list \<Rightarrow> nat list" where
  "take_units limit used [] = []"
| "take_units limit used (c # cs) =
     (if used + utf16_RuneLen c > limit then []
      else c # take_units limit (used + utf16_RuneLen c) cs)"

definition TruncateUTF16 :: "string \<Rightarrow> int \<Rightarrow> string" where
  "TruncateUTF16 value limit =
     (if limit \<le> 0 then []
      else if UTF16Len value \<le> limit then value
      else concat (map encode_rune (take_units limit 0 (runes value))))"

lemma take_units_subset: "set (take_units limit used cs) \<subseteq> set cs"
  by (induction cs arbitrary: used) auto

lemma take_units_bound:
  "used \<le> limit \<Longrightarrow> used + sum_list (map utf16_RuneLen (take_units limit used cs)) \<le> limit"
  by (induction cs arbitrary: used) (auto simp: add.assoc [symmetric])

lemma UTF16Len_TruncateUTF16_le:
  assumes "0 \<le> limit"
  shows "UTF16Len (TruncateUTF16 value limit) \<le> limit"
proof -
  have sc: "\<And>r. r \<in> set (take_units limit 0 (runes value)) \<Longrightarrow> scalar r"
    using take_units_subset runes_scalar by blast
  have nil: "UTF16Len [] = 0" by (simp add: UTF16Len_def runes.simps)
  show ?thesis
    using take_units_bound [OF assms, of "runes value"] assms
    by (auto simp: TruncateUTF16_def nil UTF16Len_def [of "concat _"] runes_encode [OF sc])
qed

section \<open>Trimming is idempotent\<close>

lemma space_width_take: "0 < space_width (take n s) \<Longrightarrow> 0 < space_width s"
proof (cases s rule: space_width.cases)
  case (4 a b c t)
  moreover assume "0 < space_width (take n s)"
  ultimately show ?thesis by (cases n; cases "n - 1"; cases "n - 2") (auto split: if_splits)
qed (auto simp: take_Cons' split: if_splits)

lemma trim_left_stops: "space_width (trim_left s) = 0"
  by (induction s rule: trim_left.induct) (subst trim_left.simps, auto)

lemma trim_left_id: "space_width s = 0 \<Longrightarrow> trim_left s = s"
  by (subst trim_left.simps) simp

lemma trim_right_prefix: "\<exists>n. trim_right s = take n s"
proof (induction s rule: trim_right.induct)
  case (1 s)
  show ?case
  proof (cases "0 < trailing_space_width s")
    case True
    then have "trim_right s = trim_right (take (length s - trailing_space_width s) s)" by (subst trim_right.simps) simp
    with 1 [OF True] show ?thesis by (metis take_take)
  next
    case False
    then show ?thesis by (subst trim_right.simps) (auto intro: exI [of _ "length s"])
  qed
qed

lemma trim_right_idem: "trim_right (trim_right s) = trim_right s"
proof (induction s rule: trim_right.induct)
  case (1 s)
  then show ?case
    by (cases "0 < trailing_space_width s") (simp_all add: trim_right.simps [of s])
qed

lemma TrimSpace_idem [simp]: "TrimSpace (TrimSpace s) = TrimSpace s"
proof -
  obtain n where n: "trim_right (trim_left s) = take n (trim_left s)" using trim_right_prefix by blast
  have "space_width (trim_right (trim_left s)) = 0"
    using space_width_take [of n "trim_left s"] trim_left_stops [of s] unfolding n by auto
  then show ?thesis by (simp add: TrimSpace_def trim_left_id trim_right_idem)
qed

end
