(* ===== verification/Judge_Contract.thy ===== *)
theory Judge_Contract
  imports Go_Strings
begin

text \<open>
  The immutable contract shared by the REST API, the bundle manifests and the sandbox protocol
  (internal/judgecontract/registry.go): the supported languages and checkers, and their lookup.
\<close>

record LanguageDefinition =
  PublicID :: string
  SandboxID :: string
  DisplayName :: string
  Runtime :: string

definition CheckerExact :: string where "CheckerExact = ''exact''"
definition CheckerToken :: string where "CheckerToken = ''token''"
definition CheckerSpecial :: string where "CheckerSpecial = ''special''"

lemmas checker_defs = CheckerExact_def CheckerToken_def CheckerSpecial_def

definition canonicalLanguages :: "LanguageDefinition list" where
  "canonicalLanguages =
    [\<lparr>PublicID = ''go'', SandboxID = ''go'', DisplayName = ''Go'', Runtime = ''go''\<rparr>,
     \<lparr>PublicID = ''cpp'', SandboxID = ''cpp'', DisplayName = ''C++ 17'', Runtime = ''gcc''\<rparr>,
     \<lparr>PublicID = ''python'', SandboxID = ''python'', DisplayName = ''Python 3'', Runtime = ''python3''\<rparr>,
     \<lparr>PublicID = ''java'', SandboxID = ''java'', DisplayName = ''Java'', Runtime = ''java''\<rparr>,
     \<lparr>PublicID = ''javascript'', SandboxID = ''javascript'', DisplayName = ''JavaScript'',
      Runtime = ''node''\<rparr>]"

definition canonicalCheckers :: "string list" where
  "canonicalCheckers = [CheckerExact, CheckerToken, CheckerSpecial]"

definition CanonicalLanguages :: "LanguageDefinition list" where
  "CanonicalLanguages = canonicalLanguages"

fun resolve_in :: "string \<Rightarrow> LanguageDefinition list \<Rightarrow> LanguageDefinition option" where
  "resolve_in publicID [] = None"
| "resolve_in publicID (language # rest) =
     (if PublicID language = publicID then Some language else resolve_in publicID rest)"

definition ResolveLanguage :: "string \<Rightarrow> LanguageDefinition option" where
  "ResolveLanguage publicID = resolve_in publicID canonicalLanguages"

definition CanonicalCheckers :: "string list" where
  "CanonicalCheckers = canonicalCheckers"

definition IsCanonicalChecker :: "string \<Rightarrow> bool" where
  "IsCanonicalChecker value = list_ex (\<lambda>checker. checker = value) canonicalCheckers"

lemma IsCanonicalChecker_iff:
  "IsCanonicalChecker value \<longleftrightarrow> value \<in> {CheckerExact, CheckerToken, CheckerSpecial}"
  by (auto simp: IsCanonicalChecker_def canonicalCheckers_def)

text \<open>A resolved language is stored under its public identifier, which is the sandbox's.\<close>

lemma resolve_in_sound: "resolve_in i ls = Some l \<Longrightarrow> l \<in> set ls \<and> PublicID l = i"
  by (induction ls) (auto split: if_splits)

lemma canonical_same_id: "list_all (\<lambda>l. SandboxID l = PublicID l) canonicalLanguages"
  by (simp add: canonicalLanguages_def)

lemma canonical_resolves:
  "list_all (\<lambda>l. resolve_in (PublicID l) canonicalLanguages = Some l) canonicalLanguages"
  by (simp add: canonicalLanguages_def)

lemma ResolveLanguage_sound:
  assumes "ResolveLanguage publicID = Some l"
  shows "l \<in> set CanonicalLanguages \<and> PublicID l = publicID \<and> SandboxID l = publicID"
proof -
  have "l \<in> set canonicalLanguages \<and> PublicID l = publicID"
    using assms resolve_in_sound unfolding ResolveLanguage_def by blast
  then show ?thesis
    using canonical_same_id by (simp add: CanonicalLanguages_def list_all_iff)
qed

lemma ResolveLanguage_complete:
  assumes "l \<in> set CanonicalLanguages"
  shows "ResolveLanguage (PublicID l) = Some l"
  using assms canonical_resolves
  by (simp add: ResolveLanguage_def CanonicalLanguages_def list_all_iff)

end
