(* ===== verification/Bundle_Manifest.thy ===== *)
theory Bundle_Manifest
  imports Judge_Contract
begin

text \<open>
  Problem manifests (internal/bundle/manifest.go): the data the manifest carries, the validation
  of artifact paths with Go's \<^verbatim>\<open>path.Clean\<close>, and \<open>Validate\<close> with the loop over the cases. The
  declarative reading of an accepted manifest is \<open>manifest_ok\<close>; \<open>Validate_iff\<close> shows that the code
  accepts exactly those manifests.
\<close>

section \<open>Data\<close>

record Limits =
  TimeLimitMillis :: int
  MemoryLimitMiB :: int

record SpecialJudge =
  sj_Language :: string
  sj_Source :: string
  sj_SourceSHA256 :: string
  sj_TimeLimitMillis :: int
  sj_MemoryLimitMiB :: int

record Case =
  case_ID :: string
  case_Input :: string
  case_Output :: string
  case_Weight :: int

record Manifest =
  SchemaVersion :: int
  m_JudgeMode :: string
  m_Checker :: string
  m_Limits :: Limits
  TotalScore :: "int option"
  m_SpecialJudge :: "SpecialJudge option"
  Cases :: "Case list"

definition JudgeModeACM :: string where "JudgeModeACM = ''ACM''"
definition JudgeModeOI :: string where "JudgeModeOI = ''OI''"
definition maxCases :: nat where "maxCases = 10000"
definition maxTotalScore :: int where "maxTotalScore = 1000000000"
definition maxExecutionMillis :: int where "maxExecutionMillis = 86400000"
definition maxMemoryMiB :: int where "maxMemoryMiB = 2147483647"

lemmas manifest_consts = JudgeModeACM_def JudgeModeOI_def maxCases_def maxTotalScore_def
  maxExecutionMillis_def maxMemoryMiB_def

datatype manifest_error =
    UnsupportedSchemaVersion
  | LimitsOutOfBounds
  | V1ExactTokenOnly
  | UnsupportedJudgeMode
  | UnsupportedChecker
  | SpecialJudgeRequired
  | SpecialJudgeLanguageUnsupported
  | SpecialJudgeSourceInvalid
  | SpecialJudgeSHA256Invalid
  | SpecialJudgeLimitsOutOfBounds
  | SpecialJudgeUnexpected
  | CaseCountOutOfBounds
  | CaseIDInvalid
  | CaseIDDuplicate
  | ACMWeightInvalid
  | OIWeightInvalid
  | WeightsExceedTotal
  | ArtifactPathInvalid
  | ArtifactPathUnsafe
  | ReservedManifestPath
  | CasePathDuplicate
  | OITotalScoreMismatch
  | TotalScoreUnexpected
  | ManifestNotUTF8
  | ManifestNotJSON

section \<open>path.Clean\<close>

text \<open>
  Go's lexical path cleaning, read per component: empty and \<^verbatim>\<open>.\<close> components are dropped, a
  \<^verbatim>\<open>..\<close> removes the component before it, and is kept at the start of a relative path. The stack
  holds the components written so far, the last one first.
\<close>

fun split_slash :: "string \<Rightarrow> string list" where
  "split_slash [] = [[]]"
| "split_slash (c # s) =
     (if c = CHR ''/'' then [] # split_slash s
      else (case split_slash s of [] \<Rightarrow> [[c]] | h # t \<Rightarrow> (c # h) # t))"

fun join_slash :: "string list \<Rightarrow> string" where
  "join_slash [] = []"
| "join_slash [c] = c"
| "join_slash (c # cs) = c @ CHR ''/'' # join_slash cs"

fun clean_comps :: "bool \<Rightarrow> string list \<Rightarrow> string list \<Rightarrow> string list" where
  "clean_comps rooted stack [] = rev stack"
| "clean_comps rooted stack (c # cs) =
     (if c = [] \<or> c = ''.'' then clean_comps rooted stack cs
      else if c = ''..'' then
        (case stack of
           [] \<Rightarrow> clean_comps rooted (if rooted then [] else [''..'']) cs
         | prev # below \<Rightarrow>
             clean_comps rooted (if prev = ''..'' then ''..'' # stack else below) cs)
      else clean_comps rooted (c # stack) cs)"

definition path_Clean :: "string \<Rightarrow> string" where
  "path_Clean p =
     (if p = [] then ''.''
      else if hd p = CHR ''/'' then CHR ''/'' # join_slash (clean_comps True [] (split_slash p))
      else let out = join_slash (clean_comps False [] (split_slash p)) in
        if out = [] then ''.'' else out)"

definition has_prefix :: "string \<Rightarrow> string \<Rightarrow> bool" where
  "has_prefix s p = (take (length p) s = p)"

definition validateArtifactPath :: "string \<Rightarrow> manifest_error + unit" where
  "validateArtifactPath name =
     (if name = [] \<or> length name > 512 \<or> \<not> utf8_valid name \<or> CHR 0x00 \<in> set name
         \<or> CHR 0x5C \<in> set name \<or> has_prefix name ''/''
      then Inl ArtifactPathInvalid
      else let cleaned = path_Clean name in
        if cleaned = ''.'' \<or> cleaned \<noteq> name \<or> has_prefix cleaned ''../''
        then Inl ArtifactPathUnsafe
        else Inr ())"

section \<open>Validate\<close>

fun validate_names :: "string list \<Rightarrow> string list \<Rightarrow> manifest_error + string list" where
  "validate_names paths [] = Inr paths"
| "validate_names paths (name # names) =
     bind_result (validateArtifactPath name) (\<lambda>_.
       if name = ''manifest.json'' then Inl ReservedManifestPath
       else if name \<in> set paths then Inl CasePathDuplicate
       else validate_names (name # paths) names)"

fun validate_cases ::
  "string \<Rightarrow> string list \<Rightarrow> string list \<Rightarrow> int \<Rightarrow> Case list \<Rightarrow> manifest_error + int" where
  "validate_cases mode ids paths weightSum [] = Inr weightSum"
| "validate_cases mode ids paths weightSum (testCase # rest) =
     (if \<not> caseIDPattern (case_ID testCase) then Inl CaseIDInvalid
      else if case_ID testCase \<in> set ids then Inl CaseIDDuplicate
      else if mode = JudgeModeACM \<and> case_Weight testCase \<noteq> 1 then Inl ACMWeightInvalid
      else if mode = JudgeModeOI \<and> (case_Weight testCase \<le> 0 \<or> case_Weight testCase > maxTotalScore)
        then Inl OIWeightInvalid
      else let sum' = wrap64 (weightSum + case_Weight testCase) in
        if sum' > maxTotalScore then Inl WeightsExceedTotal
        else bind_result (validate_names paths [case_Input testCase, case_Output testCase]) (\<lambda>paths'.
          validate_cases mode (case_ID testCase # ids) paths' sum' rest))"

definition within_limits :: "int \<Rightarrow> int \<Rightarrow> bool" where
  "within_limits millis mib \<longleftrightarrow>
     \<not> (millis \<le> 0 \<or> millis > maxExecutionMillis \<or> mib \<le> 0 \<or> mib > maxMemoryMiB)"

definition validate_schema :: "Manifest \<Rightarrow> manifest_error + unit" where
  "validate_schema m =
     (if SchemaVersion m = 1 then
        if m_JudgeMode m \<noteq> JudgeModeACM \<or> \<not> IsCanonicalChecker (m_Checker m)
           \<or> TotalScore m \<noteq> None \<or> m_SpecialJudge m \<noteq> None
        then Inl V1ExactTokenOnly else Inr ()
      else if m_JudgeMode m \<noteq> JudgeModeACM \<and> m_JudgeMode m \<noteq> JudgeModeOI
        then Inl UnsupportedJudgeMode
      else if \<not> IsCanonicalChecker (m_Checker m) \<and> m_Checker m \<noteq> CheckerSpecial
        then Inl UnsupportedChecker
      else Inr ())"

definition validate_special :: "Manifest \<Rightarrow> manifest_error + unit" where
  "validate_special m =
     (if m_Checker m = CheckerSpecial then
        (case m_SpecialJudge m of
           None \<Rightarrow> Inl SpecialJudgeRequired
         | Some sj \<Rightarrow>
             if ResolveLanguage (sj_Language sj) = None then Inl SpecialJudgeLanguageUnsupported
             else if validateArtifactPath (sj_Source sj) \<noteq> Inr () \<or> sj_Source sj = ''manifest.json''
               then Inl SpecialJudgeSourceInvalid
             else if \<not> lowerSHA256Pattern (sj_SourceSHA256 sj) then Inl SpecialJudgeSHA256Invalid
             else if \<not> within_limits (sj_TimeLimitMillis sj) (sj_MemoryLimitMiB sj)
               then Inl SpecialJudgeLimitsOutOfBounds
             else Inr ())
      else if m_SpecialJudge m \<noteq> None then Inl SpecialJudgeUnexpected
      else Inr ())"

definition validate_total :: "Manifest \<Rightarrow> int \<Rightarrow> manifest_error + unit" where
  "validate_total m weightSum =
     (if m_JudgeMode m = JudgeModeOI then
        (case TotalScore m of
           None \<Rightarrow> Inl OITotalScoreMismatch
         | Some score \<Rightarrow>
             if score \<le> 0 \<or> score > maxTotalScore \<or> score \<noteq> weightSum
             then Inl OITotalScoreMismatch else Inr ())
      else if TotalScore m \<noteq> None then Inl TotalScoreUnexpected
      else Inr ())"

definition Validate :: "Manifest \<Rightarrow> manifest_error + unit" where
  "Validate m =
     (if SchemaVersion m \<noteq> 1 \<and> SchemaVersion m \<noteq> 2 then Inl UnsupportedSchemaVersion
      else if \<not> within_limits (TimeLimitMillis (m_Limits m)) (MemoryLimitMiB (m_Limits m))
        then Inl LimitsOutOfBounds
      else bind_result (validate_schema m) (\<lambda>_.
        bind_result (validate_special m) (\<lambda>_.
          if length (Cases m) = 0 \<or> length (Cases m) > maxCases then Inl CaseCountOutOfBounds
          else bind_result
            (validate_cases (m_JudgeMode m) []
               (case m_SpecialJudge m of None \<Rightarrow> [] | Some sj \<Rightarrow> [sj_Source sj]) 0 (Cases m))
            (\<lambda>weightSum. validate_total m weightSum))))"

text \<open>
  \<open>ParseManifest\<close>: the JSON decoder (strict fields, exactly one document) is the argument
  \<open>decode\<close>.
\<close>

definition ParseManifest ::
  "(string \<Rightarrow> Manifest option) \<Rightarrow> string \<Rightarrow> manifest_error + Manifest" where
  "ParseManifest decode data =
     (if \<not> utf8_valid data then Inl ManifestNotUTF8
      else case decode data of
        None \<Rightarrow> Inl ManifestNotJSON
      | Some m \<Rightarrow> bind_result (Validate m) (\<lambda>_. Inr m))"

section \<open>Paths the code accepts\<close>

definition plain_comp :: "string \<Rightarrow> bool" where
  "plain_comp c \<longleftrightarrow> c \<noteq> [] \<and> c \<noteq> ''.'' \<and> c \<noteq> ''..''"

lemma split_slash_ne [simp]: "split_slash s \<noteq> []"
  by (cases s) (auto split: list.split)

lemma split_slash_no_slash: "c \<in> set (split_slash s) \<Longrightarrow> CHR ''/'' \<notin> set c"
  by (induction s arbitrary: c) (auto split: if_splits list.splits)

lemma join_slash_Cons: "cs \<noteq> [] \<Longrightarrow> join_slash (c # cs) = c @ CHR ''/'' # join_slash cs"
  by (cases cs) auto

lemma split_slash_append:
  "CHR ''/'' \<notin> set c \<Longrightarrow> split_slash (c @ CHR ''/'' # s) = c # split_slash s"
  by (induction c) auto

lemma split_slash_single: "CHR ''/'' \<notin> set c \<Longrightarrow> split_slash c = [c]"
  by (induction c) auto

lemma split_join_slash:
  "cs \<noteq> [] \<Longrightarrow> (\<And>c. c \<in> set cs \<Longrightarrow> CHR ''/'' \<notin> set c) \<Longrightarrow> split_slash (join_slash cs) = cs"
proof (induction cs rule: join_slash.induct)
  case (2 c)
  then show ?case by (simp add: split_slash_single)
next
  case (3 c d cs)
  then show ?case by (simp add: split_slash_append)
qed simp

lemma clean_comps_subset: "set (clean_comps rooted stack cs) \<subseteq> set stack \<union> set cs \<union> {''..''}"
proof (induction cs arbitrary: stack)
  case (Cons c cs)
  have "set (clean_comps rooted st cs) \<subseteq> set st \<union> set cs \<union> {''..''}" for st by (rule Cons.IH)
  then show ?case by (cases stack) (fastforce split: if_splits)+
qed auto

text \<open>The cleaned components of a relative path: leading \<^verbatim>\<open>..\<close>s, then plain components.\<close>

lemma clean_comps_form:
  "list_all plain_comp ns \<Longrightarrow>
   \<exists>ns' k'. clean_comps False (ns @ replicate k ''..'') cs = replicate k' ''..'' @ ns'
     \<and> list_all plain_comp ns'"
proof (induction cs arbitrary: ns k)
  case Nil
  then show ?case
    by (intro exI [of _ "rev ns"] exI [of _ k]) (simp add: list_all_iff)
next
  case (Cons c cs)
  consider "c = [] \<or> c = ''.''" | "c = ''..''" | "plain_comp c" by (auto simp: plain_comp_def)
  then show ?case
  proof cases
    case 1
    with Cons show ?thesis by auto
  next
    case 2
    show ?thesis
    proof (cases ns)
      case Nil
      then have "clean_comps False (ns @ replicate k ''..'') (c # cs)
          = clean_comps False ([] @ replicate (Suc k) ''..'') cs"
        using 2 by (cases k) simp_all
      with Cons.IH [of "[]" "Suc k"] show ?thesis by simp
    next
      case (Cons n ns')
      with Cons.prems have "list_all plain_comp ns'" "n \<noteq> ''..''" by (simp_all add: plain_comp_def [of n])
      with Cons.IH [of ns' k] 2 Cons show ?thesis by simp
    qed
  next
    case 3
    with Cons.prems Cons.IH [of "c # ns" k] show ?thesis by (auto simp: plain_comp_def)
  qed
qed

lemma join_dotdot_prefix:
  assumes "0 < k" "replicate k ''..'' @ ns \<noteq> [''..'']"
  shows "has_prefix (join_slash (replicate k ''..'' @ ns)) ''../''"
proof -
  obtain j where j: "k = Suc j" using assms(1) by (cases k) auto
  then have "replicate j ''..'' @ ns \<noteq> []" using assms(2) by auto
  then show ?thesis unfolding j by (simp add: join_slash_Cons has_prefix_def)
qed

lemma validateArtifactPath_plain:
  assumes "validateArtifactPath name = Inr ()" "name \<noteq> ''..''"
  shows "name \<noteq> [] \<and> length name \<le> 512 \<and> (\<forall>c \<in> set (split_slash name). plain_comp c)"
proof -
  let ?out = "clean_comps False [] (split_slash name)"
  have ne: "name \<noteq> []" "length name \<le> 512" "hd name \<noteq> CHR ''/''"
    using assms(1) by (cases name; auto simp: validateArtifactPath_def has_prefix_def split: if_splits)+
  have cl: "path_Clean name = name" "name \<noteq> ''.''" "\<not> has_prefix name ''../''"
    using assms(1) by (auto simp: validateArtifactPath_def Let_def split: if_splits)
  then have out: "join_slash ?out = name" "?out \<noteq> []"
    using ne by (auto simp: path_Clean_def Let_def split: if_splits)
  have noslash: "CHR ''/'' \<notin> set c" if "c \<in> set ?out" for c
    using that clean_comps_subset [of False "[]" "split_slash name"] split_slash_no_slash by fastforce
  have split: "split_slash name = ?out"
    using split_join_slash [OF out(2) noslash] out(1) by simp
  obtain ns k where form: "?out = replicate k ''..'' @ ns" "list_all plain_comp ns"
    using clean_comps_form [of "[]" 0 "split_slash name"] by auto
  have "k = 0"
  proof (rule ccontr)
    assume "k \<noteq> 0"
    moreover have "?out \<noteq> [''..'']" using out assms(2) by auto
    ultimately have "has_prefix (join_slash ?out) ''../''"
      unfolding form(1) using join_dotdot_prefix by simp
    with cl out show False by simp
  qed
  with form split ne show ?thesis by (simp add: list_all_iff)
qed

section \<open>Manifests the code accepts\<close>

definition artifact_ok :: "string \<Rightarrow> bool" where
  "artifact_ok name \<longleftrightarrow> validateArtifactPath name = Inr () \<and> name \<noteq> ''manifest.json''"

definition case_names :: "Case \<Rightarrow> string list" where
  "case_names c = [case_Input c, case_Output c]"

definition weight_ok :: "string \<Rightarrow> int \<Rightarrow> bool" where
  "weight_ok mode w \<longleftrightarrow> (if mode = JudgeModeACM then w = 1 else 0 < w \<and> w \<le> maxTotalScore)"

definition case_ok :: "string \<Rightarrow> Case \<Rightarrow> bool" where
  "case_ok mode c \<longleftrightarrow> caseIDPattern (case_ID c) \<and> weight_ok mode (case_Weight c)
     \<and> (\<forall>n \<in> set (case_names c). artifact_ok n)"

definition special_ok :: "SpecialJudge \<Rightarrow> bool" where
  "special_ok sj \<longleftrightarrow> ResolveLanguage (sj_Language sj) \<noteq> None \<and> artifact_ok (sj_Source sj)
     \<and> lowerSHA256Pattern (sj_SourceSHA256 sj)
     \<and> within_limits (sj_TimeLimitMillis sj) (sj_MemoryLimitMiB sj)"

definition special_paths :: "Manifest \<Rightarrow> string list" where
  "special_paths m = (case m_SpecialJudge m of None \<Rightarrow> [] | Some sj \<Rightarrow> [sj_Source sj])"

definition manifest_paths :: "Manifest \<Rightarrow> string list" where
  "manifest_paths m = special_paths m @ concat (map case_names (Cases m))"

definition weight_total :: "Case list \<Rightarrow> int" where
  "weight_total cs = sum_list (map case_Weight cs)"

definition schema_ok :: "Manifest \<Rightarrow> bool" where
  "schema_ok m \<longleftrightarrow>
     (SchemaVersion m = 1 \<and> m_JudgeMode m = JudgeModeACM \<and> m_Checker m \<in> {CheckerExact, CheckerToken}
      \<or> SchemaVersion m = 2 \<and> m_JudgeMode m \<in> {JudgeModeACM, JudgeModeOI}
        \<and> m_Checker m \<in> {CheckerExact, CheckerToken, CheckerSpecial})
     \<and> (m_SpecialJudge m \<noteq> None \<longleftrightarrow> m_Checker m = CheckerSpecial)
     \<and> (\<forall>sj. m_SpecialJudge m = Some sj \<longrightarrow> special_ok sj)"

definition manifest_ok :: "Manifest \<Rightarrow> bool" where
  "manifest_ok m \<longleftrightarrow> schema_ok m
     \<and> within_limits (TimeLimitMillis (m_Limits m)) (MemoryLimitMiB (m_Limits m))
     \<and> 1 \<le> length (Cases m) \<and> length (Cases m) \<le> maxCases
     \<and> (\<forall>c \<in> set (Cases m). case_ok (m_JudgeMode m) c)
     \<and> distinct (map case_ID (Cases m)) \<and> distinct (manifest_paths m)
     \<and> weight_total (Cases m) \<le> maxTotalScore
     \<and> TotalScore m = (if m_JudgeMode m = JudgeModeOI then Some (weight_total (Cases m)) else None)"

lemma modes_differ [simp]: "JudgeModeACM \<noteq> JudgeModeOI" "JudgeModeOI \<noteq> JudgeModeACM"
  by (simp_all add: JudgeModeACM_def JudgeModeOI_def)

lemma checkers_differ [simp]:
  "CheckerExact \<noteq> CheckerSpecial" "CheckerToken \<noteq> CheckerSpecial" "CheckerExact \<noteq> CheckerToken"
  "CheckerSpecial \<noteq> CheckerExact" "CheckerSpecial \<noteq> CheckerToken" "CheckerToken \<noteq> CheckerExact"
  by (simp_all add: checker_defs)

lemma validate_names_iff:
  "validate_names paths names = Inr paths' \<longleftrightarrow>
     (\<forall>n \<in> set names. artifact_ok n) \<and> distinct names \<and> set names \<inter> set paths = {}
     \<and> paths' = rev names @ paths"
  by (induction names arbitrary: paths) (auto simp: result_simps artifact_ok_def)

lemma weight_total_Cons [simp]: "weight_total (c # cs) = case_Weight c + weight_total cs"
  by (simp add: weight_total_def)

lemma weight_total_Nil [simp]: "weight_total [] = 0"
  by (simp add: weight_total_def)

lemma weight_ok_pos: "weight_ok mode w \<Longrightarrow> 1 \<le> w \<and> w \<le> maxTotalScore"
  by (auto simp: weight_ok_def maxTotalScore_def split: if_splits)

lemma weight_total_nonneg: "(\<And>c. c \<in> set cs \<Longrightarrow> case_ok mode c) \<Longrightarrow> 0 \<le> weight_total cs"
  by (induction cs) (fastforce simp: case_ok_def dest: weight_ok_pos)+

text \<open>The running sum never wraps: it is bounded before every addition.\<close>

lemma weight_sum_no_wrap:
  "0 \<le> ws \<Longrightarrow> ws \<le> maxTotalScore \<Longrightarrow> weight_ok mode w \<Longrightarrow> wrap64 (ws + w) = ws + w"
  by (rule wrap64_id) (auto dest!: weight_ok_pos simp: in_int64_def maxTotalScore_def)

lemma validate_cases_iff:
  assumes "mode \<in> {JudgeModeACM, JudgeModeOI}" "0 \<le> ws" "ws \<le> maxTotalScore"
  shows "validate_cases mode ids paths ws cs = Inr t \<longleftrightarrow>
     (\<forall>c \<in> set cs. case_ok mode c) \<and> distinct (map case_ID cs) \<and> case_ID ` set cs \<inter> set ids = {}
     \<and> distinct (concat (map case_names cs)) \<and> set (concat (map case_names cs)) \<inter> set paths = {}
     \<and> ws + weight_total cs \<le> maxTotalScore \<and> t = ws + weight_total cs"
  using assms(2,3)
proof (induction cs arbitrary: ids paths ws)
  case Nil
  then show ?case by auto
next
  case (Cons c cs)
  have W: "(mode = JudgeModeACM \<and> case_Weight c \<noteq> 1) = False \<and>
      (mode = JudgeModeOI \<and> (case_Weight c \<le> 0 \<or> case_Weight c > maxTotalScore)) = False
      \<longleftrightarrow> weight_ok mode (case_Weight c)"
    using assms(1) by (auto simp: weight_ok_def)
  show ?case
  proof (cases "caseIDPattern (case_ID c) \<and> case_ID c \<notin> set ids \<and> weight_ok mode (case_Weight c)
      \<and> ws + case_Weight c \<le> maxTotalScore")
    case False
    have "\<not> ws + weight_total (c # cs) \<le> maxTotalScore"
      if "ws + case_Weight c > maxTotalScore" "\<forall>d \<in> set cs. case_ok mode d"
      using that weight_total_nonneg [of cs mode] by auto
    moreover have "validate_cases mode ids paths ws (c # cs) \<noteq> Inr t"
      using False W Cons.prems weight_sum_no_wrap [of ws mode "case_Weight c"]
      by (auto simp: Let_def simp del: validate_names.simps split: if_splits)
    ultimately show ?thesis using False by (auto simp: case_ok_def)
  next
    case True
    note nw = weight_sum_no_wrap [OF Cons.prems, of mode "case_Weight c"]
    have pos: "0 \<le> ws + case_Weight c"
      using True Cons.prems by (auto dest: weight_ok_pos)
    have step: "validate_cases mode ids paths ws (c # cs) =
        bind_result (validate_names paths (case_names c)) (\<lambda>paths'.
          validate_cases mode (case_ID c # ids) paths' (ws + case_Weight c) cs)"
      using True W nw by (auto simp: Let_def case_names_def)
    show ?thesis
      unfolding step bind_result_Inr_iff validate_names_iff
      using True pos by (auto simp: Cons.IH case_ok_def add.assoc)
  qed
qed

lemma validate_schema_special_iff:
  "(SchemaVersion m = 1 \<or> SchemaVersion m = 2) \<and> validate_schema m = Inr () \<and> validate_special m = Inr ()
   \<longleftrightarrow> schema_ok m \<and> (SchemaVersion m = 1 \<longrightarrow> TotalScore m = None)"
  by (auto simp: validate_schema_def validate_special_def IsCanonicalChecker_iff special_ok_def
      artifact_ok_def schema_ok_def split: if_splits option.splits)

lemma schema_ok_mode:
  "schema_ok m \<Longrightarrow> m_JudgeMode m \<in> {JudgeModeACM, JudgeModeOI}"
  "schema_ok m \<Longrightarrow> SchemaVersion m = 1 \<Longrightarrow> m_JudgeMode m = JudgeModeACM"
  by (auto simp: schema_ok_def)

lemma manifest_ok_v1_total: "manifest_ok m \<Longrightarrow> SchemaVersion m = 1 \<Longrightarrow> TotalScore m = None"
  using schema_ok_mode(2) [of m] by (simp add: manifest_ok_def)

definition header_ok :: "Manifest \<Rightarrow> bool" where
  "header_ok m \<longleftrightarrow> within_limits (TimeLimitMillis (m_Limits m)) (MemoryLimitMiB (m_Limits m))
     \<and> ((SchemaVersion m = 1 \<or> SchemaVersion m = 2) \<and> validate_schema m = Inr ()
        \<and> validate_special m = Inr ())
     \<and> 1 \<le> length (Cases m) \<and> length (Cases m) \<le> maxCases"

lemma Validate_header:
  "Validate m = Inr () \<longleftrightarrow> header_ok m
     \<and> bind_result (validate_cases (m_JudgeMode m) [] (special_paths m) 0 (Cases m)) (validate_total m)
        = Inr ()"
  unfolding Validate_def header_ok_def special_paths_def [symmetric]
  by (cases "validate_schema m"; cases "validate_special m") (auto simp: Suc_le_eq)

lemma manifest_ok_header: "manifest_ok m \<Longrightarrow> header_ok m"
  unfolding header_ok_def validate_schema_special_iff
  using manifest_ok_v1_total [of m] by (simp add: manifest_ok_def)

lemma validate_total_iff:
  assumes "m_JudgeMode m \<in> {JudgeModeACM, JudgeModeOI}" "0 < ws" "ws \<le> maxTotalScore"
  shows "validate_total m ws = Inr () \<longleftrightarrow>
    TotalScore m = (if m_JudgeMode m = JudgeModeOI then Some ws else None)"
  using assms by (auto simp: validate_total_def split: if_splits option.splits)

lemma weight_total_pos:
  "cs \<noteq> [] \<Longrightarrow> (\<And>c. c \<in> set cs \<Longrightarrow> case_ok mode c) \<Longrightarrow> 0 < weight_total cs"
  using weight_total_nonneg [of "tl cs" mode]
  by (cases cs) (fastforce simp: case_ok_def dest: weight_ok_pos)+

lemma Validate_spec: "Validate m = Inr () \<longleftrightarrow> manifest_ok m"
proof (cases "header_ok m")
  case False
  with Validate_header [of m] manifest_ok_header [of m] show ?thesis by blast
next
  case True
  let ?mode = "m_JudgeMode m" and ?cs = "Cases m"
  have schema: "schema_ok m"
    using True unfolding header_ok_def validate_schema_special_iff by simp
  note mode = schema_ok_mode(1) [OF schema]
  have ne: "?cs \<noteq> []" using True by (auto simp: header_ok_def)
  have "Validate m = Inr () \<longleftrightarrow>
      (\<exists>t. validate_cases ?mode [] (special_paths m) 0 ?cs = Inr t \<and> validate_total m t = Inr ())"
    using True by (simp add: Validate_header result_simps)
  also have "\<dots> \<longleftrightarrow> (\<forall>c \<in> set ?cs. case_ok ?mode c) \<and> distinct (map case_ID ?cs)
      \<and> distinct (manifest_paths m) \<and> weight_total ?cs \<le> maxTotalScore
      \<and> validate_total m (weight_total ?cs) = Inr ()"
    using validate_cases_iff [OF mode, of 0 "[]" "special_paths m" ?cs]
    by (auto simp: manifest_paths_def maxTotalScore_def special_paths_def split: option.splits)
  also have "\<dots> \<longleftrightarrow> manifest_ok m"
    using True schema validate_total_iff [OF mode, of "weight_total ?cs"]
      weight_total_pos [OF ne, of ?mode]
    by (auto simp: manifest_ok_def header_ok_def)
  finally show ?thesis .
qed

section \<open>Properties\<close>

text \<open>C36: \<open>Validate\<close> accepts exactly the well-formed manifests: version 1 is ACM with the exact or the
  token checker, version 2 adds OI and the special checker, every identifier and path is distinct and
  well-formed, the weights are those of the mode and OI's total score is their sum. In particular the
  64-bit running sum of the weights never wraps.\<close>

theorem Validate_iff: "Validate m = Inr () \<longleftrightarrow> manifest_ok m"
  by (rule Validate_spec)

text \<open>C37: an accepted artifact path other than \<^verbatim>\<open>..\<close> consists of plain components only: no empty
  component, no \<^verbatim>\<open>.\<close> and no \<^verbatim>\<open>..\<close>, so resolving it below a directory stays below that directory.\<close>

theorem artifact_path_stays_below:
  assumes "validateArtifactPath name = Inr ()" and "name \<noteq> ''..''"
  shows "list_all (\<lambda>c. c \<noteq> [] \<and> c \<noteq> ''.'' \<and> c \<noteq> ''..'') (split_slash name)"
  using validateArtifactPath_plain [OF assms] by (simp add: plain_comp_def list_all_iff)

lemma utf8_valid_ascii: "list_all (\<lambda>c. byte c < 128) s \<Longrightarrow> utf8_valid s"
proof (induction s)
  case Nil
  then show ?case by (simp add: utf8_valid.simps)
next
  case (Cons c s)
  then show ?case
    by (simp add: utf8_valid.simps [of "c # s"] decode_rune_def rune_error_def)
qed

theorem artifact_path_stays_below_witness:
  "validateArtifactPath ''cases/1.in'' = Inr ()
   \<and> list_all (\<lambda>c. c \<noteq> [] \<and> c \<noteq> ''.'' \<and> c \<noteq> ''..'') (split_slash ''cases/1.in'')"
proof -
  have "validateArtifactPath ''cases/1.in'' = Inr ()"
    by (simp add: validateArtifactPath_def has_prefix_def path_Clean_def utf8_valid_ascii)
  with artifact_path_stays_below [of "''cases/1.in''"] show ?thesis by simp
qed


end
