(* ===== verification/Lease_Machine.thy ===== *)
theory Lease_Machine
  imports Main
begin

text \<open>
  The contracts every leased work item of the service shares, whatever its storage: an in-memory
  durable job, a job row of the database, a webhook delivery row. A machine moves by steps, its
  terminal states never change again, and an epoch (the attempt number) never decreases. A claim
  is issued for one epoch. The lemmas here are proved once and interpreted for each machine.
\<close>

locale absorbing_machine =
  fixes step :: "'s \<Rightarrow> 's \<Rightarrow> bool"
    and inv :: "'s \<Rightarrow> bool"
    and view :: "'s \<Rightarrow> 'v"
    and terminal :: "'v \<Rightarrow> bool"
  assumes inv_step: "step s t \<Longrightarrow> inv s \<Longrightarrow> inv t"
    and terminal_step: "step s t \<Longrightarrow> inv s \<Longrightarrow> terminal (view s) \<Longrightarrow> view t = view s"
begin

lemma inv_steps: "step\<^sup>*\<^sup>* s t \<Longrightarrow> inv s \<Longrightarrow> inv t"
  by (induction rule: rtranclp_induct) (auto intro: inv_step)

lemma terminal_steps: "step\<^sup>*\<^sup>* s t \<Longrightarrow> inv s \<Longrightarrow> terminal (view s) \<Longrightarrow> view t = view s"
proof (induction rule: rtranclp_induct)
  case (step t u)
  then show ?case using terminal_step [OF step.hyps(2) inv_steps [OF step.hyps(1)]] by simp
qed simp

end

locale leased_machine = absorbing_machine step inv view terminal
  for step :: "'s \<Rightarrow> 's \<Rightarrow> bool" and inv and view :: "'s \<Rightarrow> 'v" and terminal +
  fixes epoch :: "'v \<Rightarrow> nat"
    and holds :: "'c \<Rightarrow> int \<Rightarrow> 'v \<Rightarrow> bool"
    and issued :: "'c \<Rightarrow> nat"
  assumes epoch_step: "step s t \<Longrightarrow> inv s \<Longrightarrow> epoch (view s) \<le> epoch (view t)"
    and holds_epoch: "inv s \<Longrightarrow> holds c now (view s) \<Longrightarrow> issued c = epoch (view s)"
    and holds_live: "inv s \<Longrightarrow> holds c now (view s) \<Longrightarrow> \<not> terminal (view s)"
begin

lemma epoch_steps: "step\<^sup>*\<^sup>* s t \<Longrightarrow> inv s \<Longrightarrow> epoch (view s) \<le> epoch (view t)"
proof (induction rule: rtranclp_induct)
  case (step t u)
  then show ?case using epoch_step [OF step.hyps(2) inv_steps [OF step.hyps(1)]] by force
qed simp

text \<open>A claim of an earlier epoch never holds again, whatever happens afterwards.\<close>

lemma fenced_forever:
  assumes "step\<^sup>*\<^sup>* s t" "inv s" "issued c < epoch (view s)"
  shows "\<not> holds c now (view t)"
  using epoch_steps [OF assms(1,2)] inv_steps [OF assms(1,2)] assms(3) holds_epoch by fastforce

lemma no_claim_after_terminal:
  assumes "step\<^sup>*\<^sup>* s t" "inv s" "terminal (view s)"
  shows "\<not> holds c now (view t)"
  using inv_steps [OF assms(1,2)] terminal_steps [OF assms] holds_live assms(3) by metis

lemma holders_agree:
  assumes "inv s" "holds c now (view s)" "holds d now' (view s)"
  shows "issued c = issued d"
  using holds_epoch [OF assms(1)] assms(2,3) by metis

end

end
