(* ===== verification/Job_State.thy ===== *)
theory Job_State
  imports Go_Strings Lease_Machine
begin

text \<open>
  The durable job state machine (internal/external/job_state.go): the validation of a terminal
  result and the operations \<open>Claim\<close>, \<open>Heartbeat\<close>, \<open>RequestCancel\<close>, \<open>Complete\<close> and \<open>FailInfrastructure\<close>
  on a job, with the step relation of one job and its invariant. Instants and durations are
  integers, \<open>time_zero\<close> is Go's zero instant; receivers are not nil. An operation returns its error
  before it writes a field, so \<open>Inl\<close> leaves the job as it is.
\<close>

section \<open>Data\<close>

datatype JobStatus =
  JobStatusQueued | JobStatusRunning | JobStatusSucceeded | JobStatusFailed | JobStatusCancelled
| UnknownStatus string

datatype state_error = ErrJobNotClaimable | ErrStaleJobClaim | ErrInvalidJobState

record JobClaim =
  jc_WorkerID :: string
  jc_AttemptNo :: "32 word"

record DurableCaseResult =
  dc_CaseID :: string
  dc_Verdict :: string
  dc_TimeMillis :: int
  dc_MemoryBytes :: int
  dc_Score :: "int option"
  dc_MaxScore :: "int option"

record DurableJobResult =
  dr_Verdict :: string
  dr_CompileStatus :: string
  dr_TimeMillis :: int
  dr_MemoryBytes :: int
  dr_Score :: "int option"
  dr_TotalScore :: "int option"
  dr_Cases :: "DurableCaseResult list"

record DurableJob =
  ExternalID :: string
  Status :: JobStatus
  AttemptNo :: "32 word"
  WorkerID :: string
  LeaseUntil :: int
  NextAttemptAt :: int
  CancelRequestedAt :: "int option"
  Result :: "DurableJobResult option"
  FailureCode :: string
  StartedAt :: "int option"
  CompletedAt :: "int option"

definition time_zero :: int where "time_zero = -62135596800000"

section \<open>Terminal results\<close>

definition blank :: "string \<Rightarrow> bool" where
  "blank s \<longleftrightarrow> TrimSpace s = []"

definition validScorePair :: "int option \<Rightarrow> int option \<Rightarrow> bool" where
  "validScorePair score maximum =
     (if (score = None) \<noteq> (maximum = None) then False
      else case (score, maximum) of
        (Some s, Some m) \<Rightarrow> m > 0 \<and> m \<le> 1000000000 \<and> s \<ge> 0 \<and> s \<le> m
      | _ \<Rightarrow> True)"

definition invalid_case_fields :: "DurableCaseResult \<Rightarrow> bool" where
  "invalid_case_fields item \<longleftrightarrow>
     blank (dc_CaseID item) \<or> length (dc_CaseID item) > 128
     \<or> blank (dc_Verdict item) \<or> length (dc_Verdict item) > 64
     \<or> dc_TimeMillis item < 0 \<or> dc_MemoryBytes item < 0"

text \<open>
  The loop over the cases: \<open>scored\<close> says whether the result carries a score, the two sums are Go's
  64-bit \<^verbatim>\<open>caseScoreSum\<close> and \<^verbatim>\<open>caseMaximumSum\<close>.
\<close>

fun validate_case_results ::
  "bool \<Rightarrow> string list \<Rightarrow> int \<Rightarrow> int \<Rightarrow> DurableCaseResult list \<Rightarrow> (int \<times> int) option" where
  "validate_case_results scored caseIDs scoreSum maxSum [] = Some (scoreSum, maxSum)"
| "validate_case_results scored caseIDs scoreSum maxSum (item # rest) =
     (if invalid_case_fields item then None
      else if \<not> validScorePair (dc_Score item) (dc_MaxScore item) then None
      else case (scored, dc_Score item, dc_MaxScore item) of
        (False, None, _) \<Rightarrow>
          (if dc_CaseID item \<in> set caseIDs then None
           else validate_case_results scored (dc_CaseID item # caseIDs) scoreSum maxSum rest)
      | (True, Some s, Some m) \<Rightarrow>
          (if dc_Verdict item = ''ACCEPTED'' \<and> s \<noteq> m \<or> dc_Verdict item \<noteq> ''ACCEPTED'' \<and> s \<noteq> 0 then None
           else if dc_CaseID item \<in> set caseIDs then None
           else validate_case_results scored (dc_CaseID item # caseIDs)
                  (wrap64 (scoreSum + s)) (wrap64 (maxSum + m)) rest)
      | _ \<Rightarrow> None)"

definition validateDurableJobResult :: "DurableJobResult \<Rightarrow> bool" where
  "validateDurableJobResult r =
     (if blank (dr_Verdict r) \<or> length (dr_Verdict r) > 64
         \<or> blank (dr_CompileStatus r) \<or> length (dr_CompileStatus r) > 64
         \<or> dr_TimeMillis r < 0 \<or> dr_MemoryBytes r < 0 \<or> length (dr_Cases r) > 256 then False
      else if \<not> validScorePair (dr_Score r) (dr_TotalScore r) then False
      else case validate_case_results (dr_Score r \<noteq> None) [] 0 0 (dr_Cases r) of
        None \<Rightarrow> False
      | Some (scoreSum, maxSum) \<Rightarrow>
          (case (dr_Score r, dr_TotalScore r) of
             (Some s, Some t) \<Rightarrow>
               if dr_CompileStatus r = ''FAILED'' then
                 \<not> (dr_Verdict r \<noteq> ''COMPILE_ERROR'' \<or> s \<noteq> 0 \<or> length (dr_Cases r) \<noteq> 0)
               else if dr_CompileStatus r \<noteq> ''SUCCEEDED'' \<or> scoreSum \<noteq> s \<or> maxSum \<noteq> t then False
               else \<not> (s = t \<and> dr_Verdict r \<noteq> ''ACCEPTED'' \<or> s < t \<and> dr_Verdict r \<noteq> ''WRONG_ANSWER'')
           | _ \<Rightarrow> True))"

section \<open>Operations\<close>

definition ownsActiveClaim :: "DurableJob \<Rightarrow> JobClaim \<Rightarrow> int \<Rightarrow> bool" where
  "ownsActiveClaim job claim now \<longleftrightarrow>
     Status job = JobStatusRunning \<and> jc_AttemptNo claim > 0
     \<and> AttemptNo job = jc_AttemptNo claim \<and> WorkerID job = jc_WorkerID claim
     \<and> jc_WorkerID claim \<noteq> [] \<and> LeaseUntil job > now"

definition clearLease :: "DurableJob \<Rightarrow> DurableJob" where
  "clearLease job = job\<lparr>WorkerID := [], LeaseUntil := time_zero\<rparr>"

definition DurableJob_Claim ::
  "DurableJob \<Rightarrow> string \<Rightarrow> int \<Rightarrow> int \<Rightarrow> state_error + (JobClaim \<times> DurableJob)" where
  "DurableJob_Claim job workerID now leaseDuration =
     (if blank workerID \<or> length workerID > 128 \<or> leaseDuration \<le> 0 then Inl ErrInvalidJobState
      else
        let claimable = (Status job = JobStatusQueued \<and> \<not> NextAttemptAt job > now
                         \<or> Status job = JobStatusRunning \<and> \<not> LeaseUntil job > now) in
        if \<not> claimable \<or> Status job = JobStatusQueued \<and> CancelRequestedAt job \<noteq> None
           \<or> AttemptNo job = 0xFFFFFFFF
        then Inl ErrJobNotClaimable
        else
          let job' = job\<lparr>AttemptNo := AttemptNo job + 1, Status := JobStatusRunning,
                WorkerID := workerID, LeaseUntil := now + leaseDuration,
                NextAttemptAt := time_zero, FailureCode := [],
                StartedAt := (if StartedAt job = None then Some now else StartedAt job)\<rparr> in
          Inr (\<lparr>jc_WorkerID = workerID, jc_AttemptNo = AttemptNo job'\<rparr>, job'))"

definition DurableJob_Heartbeat ::
  "DurableJob \<Rightarrow> JobClaim \<Rightarrow> int \<Rightarrow> int \<Rightarrow> state_error + DurableJob" where
  "DurableJob_Heartbeat job claim now leaseDuration =
     (if leaseDuration \<le> 0 \<or> \<not> ownsActiveClaim job claim now then Inl ErrStaleJobClaim
      else Inr (job\<lparr>LeaseUntil := now + leaseDuration\<rparr>))"

definition DurableJob_RequestCancel :: "DurableJob \<Rightarrow> int \<Rightarrow> state_error + (bool \<times> DurableJob)" where
  "DurableJob_RequestCancel job now =
     (case Status job of
        JobStatusQueued \<Rightarrow>
          Inr (True, clearLease (job\<lparr>Status := JobStatusCancelled,
                CancelRequestedAt := Some now, CompletedAt := Some now\<rparr>))
      | JobStatusRunning \<Rightarrow>
          if CancelRequestedAt job \<noteq> None then Inr (False, job)
          else Inr (True, job\<lparr>CancelRequestedAt := Some now\<rparr>)
      | JobStatusSucceeded \<Rightarrow> Inr (False, job)
      | JobStatusFailed \<Rightarrow> Inr (False, job)
      | JobStatusCancelled \<Rightarrow> Inr (False, job)
      | UnknownStatus _ \<Rightarrow> Inl ErrInvalidJobState)"

definition DurableJob_Complete ::
  "DurableJob \<Rightarrow> JobClaim \<Rightarrow> DurableJobResult \<Rightarrow> int \<Rightarrow> state_error + DurableJob" where
  "DurableJob_Complete job claim result now =
     (if \<not> ownsActiveClaim job claim now then Inl ErrStaleJobClaim
      else if CancelRequestedAt job \<noteq> None then
        Inr (clearLease (job\<lparr>Status := JobStatusCancelled, Result := None, FailureCode := [],
              CompletedAt := Some now\<rparr>))
      else if \<not> validateDurableJobResult result then Inl ErrInvalidJobState
      else
        Inr (clearLease (job\<lparr>Status := JobStatusSucceeded, Result := Some result, FailureCode := [],
              CompletedAt := Some now\<rparr>)))"

definition DurableJob_FailInfrastructure ::
  "DurableJob \<Rightarrow> JobClaim \<Rightarrow> string \<Rightarrow> 32 word \<Rightarrow> int \<Rightarrow> int \<Rightarrow> state_error + (bool \<times> DurableJob)" where
  "DurableJob_FailInfrastructure job claim failureCode maximumAttempts now retryDelay =
     (if \<not> ownsActiveClaim job claim now then Inl ErrStaleJobClaim
      else if blank failureCode \<or> length failureCode > 64 \<or> maximumAttempts = 0 \<or> retryDelay < 0
        then Inl ErrInvalidJobState
      else if CancelRequestedAt job \<noteq> None then
        Inr (True, clearLease (job\<lparr>Status := JobStatusCancelled, CompletedAt := Some now\<rparr>))
      else if AttemptNo job < maximumAttempts then
        Inr (False, clearLease (job\<lparr>Status := JobStatusQueued, NextAttemptAt := now + retryDelay\<rparr>))
      else
        Inr (True, clearLease (job\<lparr>Status := JobStatusFailed, FailureCode := failureCode,
              CompletedAt := Some now\<rparr>)))"

lemmas job_ops = DurableJob_Claim_def DurableJob_Heartbeat_def DurableJob_RequestCancel_def
  DurableJob_Complete_def DurableJob_FailInfrastructure_def

section \<open>The step relation of one job\<close>

inductive job_step :: "DurableJob \<Rightarrow> DurableJob \<Rightarrow> bool" where
  step_claim: "DurableJob_Claim job w now lease = Inr (c, job') \<Longrightarrow> job_step job job'"
| step_heartbeat: "DurableJob_Heartbeat job c now lease = Inr job' \<Longrightarrow> job_step job job'"
| step_cancel: "DurableJob_RequestCancel job now = Inr (b, job') \<Longrightarrow> job_step job job'"
| step_complete: "DurableJob_Complete job c r now = Inr job' \<Longrightarrow> job_step job job'"
| step_fail: "DurableJob_FailInfrastructure job c code maxi now delay = Inr (b, job') \<Longrightarrow> job_step job job'"

definition job_terminal :: "DurableJob \<Rightarrow> bool" where
  "job_terminal job \<longleftrightarrow> Status job \<in> {JobStatusSucceeded, JobStatusFailed, JobStatusCancelled}"

text \<open>A job as \<open>Submit\<close> creates it.\<close>

definition new_job :: "string \<Rightarrow> int \<Rightarrow> DurableJob" where
  "new_job i due =
     \<lparr>ExternalID = i, Status = JobStatusQueued, AttemptNo = 0, WorkerID = [], LeaseUntil = time_zero,
      NextAttemptAt = due, CancelRequestedAt = None, Result = None, FailureCode = [],
      StartedAt = None, CompletedAt = None\<rparr>"

definition job_inv :: "DurableJob \<Rightarrow> bool" where
  "job_inv job \<longleftrightarrow>
     (\<forall>s. Status job \<noteq> UnknownStatus s)
     \<and> (Status job = JobStatusRunning \<longleftrightarrow> WorkerID job \<noteq> [])
     \<and> (Status job = JobStatusRunning \<longrightarrow>
          \<not> blank (WorkerID job) \<and> length (WorkerID job) \<le> 128 \<and> AttemptNo job > 0 \<and> StartedAt job \<noteq> None)
     \<and> (Status job \<noteq> JobStatusRunning \<longrightarrow> LeaseUntil job = time_zero)
     \<and> (CompletedAt job \<noteq> None \<longleftrightarrow> job_terminal job)
     \<and> (Result job \<noteq> None \<longleftrightarrow> Status job = JobStatusSucceeded)
     \<and> (\<forall>r. Result job = Some r \<longrightarrow> validateDurableJobResult r)
     \<and> (FailureCode job \<noteq> [] \<longleftrightarrow> Status job = JobStatusFailed)
     \<and> (Status job = JobStatusCancelled \<longrightarrow> CancelRequestedAt job \<noteq> None)
     \<and> (Status job \<in> {JobStatusQueued, JobStatusSucceeded, JobStatusFailed} \<longrightarrow> CancelRequestedAt job = None)"

section \<open>Results the code accepts\<close>

definition case_scored :: "DurableCaseResult \<Rightarrow> bool" where
  "case_scored item \<longleftrightarrow> (\<exists>m. 0 < m \<and> m \<le> 1000000000 \<and> dc_MaxScore item = Some m
     \<and> dc_Score item = Some (if dc_Verdict item = ''ACCEPTED'' then m else 0))"

definition case_unscored :: "DurableCaseResult \<Rightarrow> bool" where
  "case_unscored item \<longleftrightarrow> dc_Score item = None \<and> dc_MaxScore item = None"

definition score_total :: "DurableCaseResult list \<Rightarrow> int" where
  "score_total items = sum_list (map (\<lambda>i. the (dc_Score i)) items)"

definition max_total :: "DurableCaseResult list \<Rightarrow> int" where
  "max_total items = sum_list (map (\<lambda>i. the (dc_MaxScore i)) items)"

definition cases_ok :: "DurableCaseResult list \<Rightarrow> bool" where
  "cases_ok items \<longleftrightarrow> (\<forall>i \<in> set items. \<not> invalid_case_fields i) \<and> distinct (map dc_CaseID items)"

definition durable_ok :: "DurableJobResult \<Rightarrow> bool" where
  "durable_ok r \<longleftrightarrow>
     \<not> blank (dr_Verdict r) \<and> length (dr_Verdict r) \<le> 64
     \<and> \<not> blank (dr_CompileStatus r) \<and> length (dr_CompileStatus r) \<le> 64
     \<and> 0 \<le> dr_TimeMillis r \<and> 0 \<le> dr_MemoryBytes r
     \<and> length (dr_Cases r) \<le> 256 \<and> cases_ok (dr_Cases r)
     \<and> (case (dr_Score r, dr_TotalScore r) of
          (None, None) \<Rightarrow> \<forall>i \<in> set (dr_Cases r). case_unscored i
        | (Some s, Some t) \<Rightarrow>
            0 \<le> s \<and> s \<le> t \<and> 0 < t \<and> t \<le> 1000000000 \<and> (\<forall>i \<in> set (dr_Cases r). case_scored i)
            \<and> (if dr_CompileStatus r = ''FAILED''
               then dr_Verdict r = ''COMPILE_ERROR'' \<and> s = 0 \<and> dr_Cases r = []
               else dr_CompileStatus r = ''SUCCEEDED'' \<and> s = score_total (dr_Cases r)
                 \<and> t = max_total (dr_Cases r)
                 \<and> dr_Verdict r = (if s = t then ''ACCEPTED'' else ''WRONG_ANSWER''))
        | _ \<Rightarrow> False)"

lemma totals_simps [simp]:
  "score_total [] = 0" "max_total [] = 0"
  "score_total (i # is) = the (dc_Score i) + score_total is"
  "max_total (i # is) = the (dc_MaxScore i) + max_total is"
  by (simp_all add: score_total_def max_total_def)

lemma validScorePair_simps:
  "validScorePair None None" "\<not> validScorePair (Some s) None" "\<not> validScorePair None (Some m)"
  "validScorePair (Some s) (Some m) \<longleftrightarrow> 0 < m \<and> m \<le> 1000000000 \<and> 0 \<le> s \<and> s \<le> m"
  by (auto simp: validScorePair_def)

lemma unscored_step:
  "validate_case_results False ids a b (i # is) =
     (if invalid_case_fields i \<or> \<not> case_unscored i \<or> dc_CaseID i \<in> set ids then None
      else validate_case_results False (dc_CaseID i # ids) a b is)"
  by (cases "dc_Score i"; cases "dc_MaxScore i") (auto simp: case_unscored_def validScorePair_simps)

lemma scored_step:
  "validate_case_results True ids a b (i # is) =
     (if invalid_case_fields i \<or> \<not> case_scored i \<or> dc_CaseID i \<in> set ids then None
      else validate_case_results True (dc_CaseID i # ids)
             (wrap64 (a + the (dc_Score i))) (wrap64 (b + the (dc_MaxScore i))) is)"
  by (cases "dc_Score i"; cases "dc_MaxScore i") (auto simp: case_scored_def validScorePair_simps)

lemma validate_unscored_iff:
  "validate_case_results False ids a b is = Some p \<longleftrightarrow>
     cases_ok is \<and> (\<forall>i \<in> set is. case_unscored i) \<and> dc_CaseID ` set is \<inter> set ids = {} \<and> p = (a, b)"
  by (induction "is" arbitrary: ids)
    (auto simp: unscored_step cases_ok_def simp del: validate_case_results.simps(2))

lemma case_scored_bounds:
  "case_scored i \<Longrightarrow> 0 \<le> the (dc_Score i) \<and> the (dc_Score i) \<le> 1000000000
     \<and> 0 \<le> the (dc_MaxScore i) \<and> the (dc_MaxScore i) \<le> 1000000000"
  by (auto simp: case_scored_def)

text \<open>With at most 256 cases of at most \<open>10\<^sup>9\<close> points the 64-bit sums are the true sums.\<close>

lemma validate_scored_iff:
  assumes "0 \<le> a" "0 \<le> b" "a \<le> 1000000000 * k" "b \<le> 1000000000 * k" "k + int (length is) \<le> 256"
  shows "validate_case_results True ids a b is = Some p \<longleftrightarrow>
     cases_ok is \<and> (\<forall>i \<in> set is. case_scored i) \<and> dc_CaseID ` set is \<inter> set ids = {}
     \<and> p = (a + score_total is, b + max_total is)"
  using assms
proof (induction "is" arbitrary: ids a b k)
  case Nil
  then show ?case by (auto simp: cases_ok_def)
next
  case (Cons i "is")
  show ?case
  proof (cases "case_scored i")
    case True
    note B = case_scored_bounds [OF True]
    have nw: "wrap64 (a + the (dc_Score i)) = a + the (dc_Score i)"
      "wrap64 (b + the (dc_MaxScore i)) = b + the (dc_MaxScore i)"
      using Cons.prems B by (auto intro!: wrap64_id simp: in_int64_def)
    have IH: "validate_case_results True (dc_CaseID i # ids) (a + the (dc_Score i))
          (b + the (dc_MaxScore i)) is = Some p \<longleftrightarrow>
        cases_ok is \<and> (\<forall>i \<in> set is. case_scored i) \<and> dc_CaseID ` set is \<inter> set (dc_CaseID i # ids) = {}
        \<and> p = (a + the (dc_Score i) + score_total is, b + the (dc_MaxScore i) + max_total is)"
      by (rule Cons.IH [of _ _ "k + 1"]) (use Cons.prems B in auto)
    show ?thesis
      unfolding scored_step nw IH using True by (auto simp: cases_ok_def add.assoc IH)
  qed (auto simp: scored_step simp del: validate_case_results.simps(2))
qed

lemma score_total_le:
  "(\<And>i. i \<in> set is \<Longrightarrow> case_scored i) \<Longrightarrow> 0 \<le> score_total is \<and> score_total is \<le> max_total is"
  by (induction "is") (fastforce simp: case_scored_def)+

lemma validate_scored_eq:
  assumes "length is \<le> 256"
  shows "validate_case_results True [] 0 0 is =
    (if cases_ok is \<and> (\<forall>i \<in> set is. case_scored i) then Some (score_total is, max_total is) else None)"
  using validate_scored_iff [of 0 0 0 "is" "[]"] assms
  by (cases "validate_case_results True [] 0 0 is") auto

lemma validate_unscored_eq:
  "validate_case_results False [] 0 0 is =
    (if cases_ok is \<and> (\<forall>i \<in> set is. case_unscored i) then Some (0, 0) else None)"
  using validate_unscored_iff [of "[]" 0 0 "is"]
  by (cases "validate_case_results False [] 0 0 is") auto

lemma validate_result_iff: "validateDurableJobResult r \<longleftrightarrow> durable_ok r"
proof (cases "length (dr_Cases r) \<le> 256")
  case False
  then show ?thesis by (auto simp: validateDurableJobResult_def durable_ok_def)
next
  case True
  then show ?thesis
    by (cases "dr_Score r"; cases "dr_TotalScore r")
      (auto simp: validateDurableJobResult_def durable_ok_def validScorePair_simps
        validate_scored_eq validate_unscored_eq)
qed

section \<open>The invariant and the lease contract\<close>

lemma blank_Nil [simp]: "blank []"
  by (simp add: blank_def TrimSpace_def trim_left.simps trim_right.simps trailing_space_width_def)

lemma not_blank_graph: "graph c \<Longrightarrow> \<not> blank (c # s)"
  by (simp add: blank_def TrimSpace_graph_ne)

lemma job_step_cases:
  assumes "job_step job job'"
  obtains (claim) w now lease c where "DurableJob_Claim job w now lease = Inr (c, job')"
  | (owned) c now where "ownsActiveClaim job c now" "AttemptNo job' = AttemptNo job" "\<not> job_terminal job"
      "job_inv job \<Longrightarrow> job_inv job'"
  | (cancel) now b where "DurableJob_RequestCancel job now = Inr (b, job')"
  using assms
proof cases
  case (step_heartbeat c now lease)
  then show ?thesis
    by (intro owned [of c now])
      (auto simp: DurableJob_Heartbeat_def ownsActiveClaim_def job_terminal_def job_inv_def split: if_splits)
next
  case (step_complete c r now)
  then show ?thesis
    by (intro owned [of c now])
      (auto simp: DurableJob_Complete_def ownsActiveClaim_def job_terminal_def job_inv_def clearLease_def
        split: if_splits)
next
  case (step_fail c code maxi now delay b)
  then show ?thesis
    by (intro owned [of c now])
      (auto simp: DurableJob_FailInfrastructure_def ownsActiveClaim_def job_terminal_def job_inv_def
        clearLease_def split: if_splits)
qed

lemma Claim_facts:
  assumes "DurableJob_Claim job w now lease = Inr (c, job')"
  shows "\<not> job_terminal job" "unat (AttemptNo job') = Suc (unat (AttemptNo job))"
    "jc_AttemptNo c = AttemptNo job'" "jc_WorkerID c = w" "0 < lease" "\<not> blank w"
    "ownsActiveClaim job' c now" "job_inv job \<Longrightarrow> job_inv job'"
proof -
  have ne: "AttemptNo job \<noteq> 0xFFFFFFFF" and w: "\<not> blank w" "length w \<le> 128"
    and l: "0 < lease"
    and st: "Status job = JobStatusQueued \<and> CancelRequestedAt job = None \<or> Status job = JobStatusRunning"
    and c: "c = \<lparr>jc_WorkerID = w, jc_AttemptNo = AttemptNo job + 1\<rparr>"
    and j: "job' = job\<lparr>AttemptNo := AttemptNo job + 1, Status := JobStatusRunning, WorkerID := w,
        LeaseUntil := now + lease, NextAttemptAt := time_zero, FailureCode := [],
        StartedAt := (if StartedAt job = None then Some now else StartedAt job)\<rparr>"
    using assms by (auto simp: DurableJob_Claim_def Let_def split: if_splits)
  have pos: "0 < AttemptNo job + 1"
    using uint32_inc [OF ne] by (metis nat.distinct(1) unat_0 word_gt_0)
  have wne: "w \<noteq> []" using w(1) by auto
  show "\<not> job_terminal job" using st by (auto simp: job_terminal_def)
  show "unat (AttemptNo job') = Suc (unat (AttemptNo job))" using j uint32_inc [OF ne] by simp
  show "jc_AttemptNo c = AttemptNo job'" "jc_WorkerID c = w" "0 < lease" "\<not> blank w"
    using c j l w by simp_all
  show "ownsActiveClaim job' c now"
    unfolding c j ownsActiveClaim_def using l wne pos by simp
  show "job_inv job'" if inv: "job_inv job"
  proof -
    have "Result job = None" "CompletedAt job = None"
      using inv st by (cases "Status job"; simp add: job_inv_def job_terminal_def)+
    then show ?thesis
      unfolding j job_inv_def job_terminal_def using w wne pos by simp
  qed
qed

lemma RequestCancel_facts:
  assumes "DurableJob_RequestCancel job now = Inr (b, job')"
  shows "job_terminal job \<Longrightarrow> job' = job" "AttemptNo job' = AttemptNo job" "job_inv job \<Longrightarrow> job_inv job'"
  using assms
  by (auto simp: DurableJob_RequestCancel_def clearLease_def job_terminal_def job_inv_def
      split: JobStatus.splits if_splits)

lemma job_step_inv: "job_step job job' \<Longrightarrow> job_inv job \<Longrightarrow> job_inv job'"
  by (erule job_step_cases) (auto dest: Claim_facts(8) RequestCancel_facts(3))

lemma job_step_terminal: "job_step job job' \<Longrightarrow> job_terminal job \<Longrightarrow> job' = job"
  by (erule job_step_cases) (auto dest: Claim_facts(1) RequestCancel_facts(1))

lemma job_step_attempt: "job_step job job' \<Longrightarrow> unat (AttemptNo job) \<le> unat (AttemptNo job')"
  by (erule job_step_cases) (auto dest: Claim_facts(2) RequestCancel_facts(2))

lemma new_job_inv: "job_inv (new_job i due)"
  by (simp add: new_job_def job_inv_def job_terminal_def)

interpretation durable_job: leased_machine job_step job_inv "\<lambda>job. job" job_terminal
  "\<lambda>job. unat (AttemptNo job)" "\<lambda>c now job. ownsActiveClaim job c now" "\<lambda>c. unat (jc_AttemptNo c)"
  by unfold_locales
    (auto intro: job_step_inv job_step_attempt dest: job_step_terminal
      simp: ownsActiveClaim_def job_terminal_def)

section \<open>Properties\<close>

text \<open>C35: the validation of a terminal result accepts exactly the results whose fields are within
  bounds, whose case identifiers are distinct, and whose scores add up: a scored result is either a
  compile error with no case and no point, or has the sum of its cases as score and total and the
  verdict ACCEPTED exactly when all points are won. The 64-bit sums do not wrap.\<close>

theorem validateDurableJobResult_iff: "validateDurableJobResult r \<longleftrightarrow> durable_ok r"
  by (rule validate_result_iff)

text \<open>C32: every state a submitted job reaches by the operations is well-formed: it has an owner exactly
  while it runs, a completion time exactly when it is terminal, a valid result exactly when it
  succeeded, a failure code exactly when it failed, and a cancelled job was asked to cancel.\<close>

theorem durable_job_invariant:
  assumes "job_step\<^sup>*\<^sup>* (new_job i due) job"
  shows "job_inv job"
  using durable_job.inv_steps [OF assms new_job_inv] .

definition claimed_example :: DurableJob where
  "claimed_example =
     (new_job ''j'' 0)\<lparr>AttemptNo := 1, Status := JobStatusRunning, WorkerID := ''w'', LeaseUntil := 15,
       NextAttemptAt := time_zero, StartedAt := Some 5\<rparr>"

lemma claim_example:
  "DurableJob_Claim (new_job ''j'' 0) ''w'' 5 10
     = Inr (\<lparr>jc_WorkerID = ''w'', jc_AttemptNo = 1\<rparr>, claimed_example)"
  by (simp add: DurableJob_Claim_def new_job_def claimed_example_def not_blank_graph graph_def time_zero_def)

theorem durable_job_invariant_witness: "job_inv claimed_example \<and> Status claimed_example = JobStatusRunning"
  using durable_job_invariant [OF r_into_rtranclp [of job_step, OF step_claim [OF claim_example]]]
  by (simp add: claimed_example_def)

text \<open>C34: a terminal job never changes again, and no claim on it is ever accepted.\<close>

theorem durable_job_terminal_absorbing:
  assumes "job_inv job" and "job_terminal job" and "job_step\<^sup>*\<^sup>* job job'"
  shows "job' = job \<and> \<not> ownsActiveClaim job' c now"
  using durable_job.terminal_steps [OF assms(3,1,2)]
    durable_job.no_claim_after_terminal [OF assms(3,1,2)] by blast

definition cancelled_example :: DurableJob where
  "cancelled_example =
     (new_job ''j'' 0)\<lparr>Status := JobStatusCancelled, CancelRequestedAt := Some 3, CompletedAt := Some 3\<rparr>"

theorem durable_job_terminal_absorbing_witness:
  "DurableJob_RequestCancel (new_job ''j'' 0) 3 = Inr (True, cancelled_example)
   \<and> DurableJob_RequestCancel cancelled_example 4 = Inr (False, cancelled_example)
   \<and> (\<forall>c. \<not> ownsActiveClaim cancelled_example c 4)"
proof -
  have eq: "DurableJob_RequestCancel (new_job ''j'' 0) 3 = Inr (True, cancelled_example)"
    "DurableJob_RequestCancel cancelled_example 4 = Inr (False, cancelled_example)"
    by (simp_all add: DurableJob_RequestCancel_def new_job_def cancelled_example_def clearLease_def
        time_zero_def)
  have "job_inv cancelled_example"
    by (rule job_step_inv [OF step_cancel [OF eq(1)] new_job_inv])
  moreover have "job_terminal cancelled_example"
    by (simp add: cancelled_example_def job_terminal_def)
  ultimately show ?thesis
    using durable_job_terminal_absorbing [of cancelled_example cancelled_example _ 4] eq by simp
qed

text \<open>C33: fencing. Once a job is claimed again, every earlier claim is stale for ever: whatever
  operations follow, its heartbeat, its result and its failure report are all refused.\<close>

theorem durable_job_fencing:
  assumes "job_inv job" and "unat (jc_AttemptNo old) \<le> unat (AttemptNo job)"
    and "DurableJob_Claim job w now lease = Inr (c, job')" and "job_step\<^sup>*\<^sup>* job' later"
  shows "DurableJob_Heartbeat later old t d = Inl ErrStaleJobClaim
    \<and> DurableJob_Complete later old r t = Inl ErrStaleJobClaim
    \<and> DurableJob_FailInfrastructure later old code maxi t d = Inl ErrStaleJobClaim"
proof -
  have "unat (jc_AttemptNo old) < unat (AttemptNo job')"
    using Claim_facts(2) [OF assms(3)] assms(2) by simp
  with durable_job.fenced_forever [OF assms(4) Claim_facts(8) [OF assms(3,1)]]
  have "\<not> ownsActiveClaim later old t" by blast
  then show ?thesis
    by (simp add: DurableJob_Heartbeat_def DurableJob_Complete_def DurableJob_FailInfrastructure_def)
qed

theorem durable_job_fencing_witness:
  "\<exists>c job'. DurableJob_Claim claimed_example ''v'' 20 10 = Inr (c, job')
     \<and> DurableJob_Heartbeat job' \<lparr>jc_WorkerID = ''w'', jc_AttemptNo = 1\<rparr> 21 10 = Inl ErrStaleJobClaim
     \<and> (\<forall>r. DurableJob_Complete job' \<lparr>jc_WorkerID = ''w'', jc_AttemptNo = 1\<rparr> r 21
          = Inl ErrStaleJobClaim)"
proof -
  let ?old = "\<lparr>jc_WorkerID = ''w'', jc_AttemptNo = 1\<rparr>"
  have inv: "job_inv claimed_example"
    by (rule Claim_facts(8) [OF claim_example new_job_inv])
  have claimable: "\<not> isl (DurableJob_Claim claimed_example ''v'' 20 10)"
    by (simp add: DurableJob_Claim_def claimed_example_def new_job_def not_blank_graph graph_def Let_def)
  then obtain c job' where cl: "DurableJob_Claim claimed_example ''v'' 20 10 = Inr (c, job')"
    by (cases "DurableJob_Claim claimed_example ''v'' 20 10") auto
  have "unat (jc_AttemptNo ?old) \<le> unat (AttemptNo claimed_example)"
    by (simp add: claimed_example_def)
  from durable_job_fencing [OF inv this cl, of job' 21 10] cl show ?thesis by auto
qed

end
