(* ===== verification/Job_Tables.thy ===== *)
theory Job_Tables
  imports Bundle_Manifest Job_State
begin

text \<open>
  The relational state of the external judge (the tables of internal/external/migrations) and the
  parts of the repositories every transaction shares: tenant policies, the job row joined with its
  tenant, bundle, source and callback, and the outbox event a terminal job leaves. A table is a list
  of rows, a JSON column holds what its strict decoder yields (\<open>None\<close> for a text it refuses), an
  instant is a number of milliseconds since the Unix epoch, a date a number of days.
\<close>

section \<open>Tenant policies (provision.go)\<close>

record TenantPolicy =
  MaxQueuedJobs :: int
  MaxRunningJobs :: int
  MaxSourceBytes :: int
  MaxRetainedBundles :: int
  DailyExecutionMillis :: int
  MaxInfrastructureTries :: int
  MaxTimeLimitMillis :: int
  MaxMemoryLimitMiB :: int

definition MaximumSourceBytes :: int where "MaximumSourceBytes = 67108864 - 16"

definition policy_validate :: "TenantPolicy \<Rightarrow> bool" where
  "policy_validate p =
     (if MaxQueuedJobs p \<le> 0 \<or> MaxRunningJobs p \<le> 0 \<or> MaxRunningJobs p > MaxQueuedJobs p then False
      else if MaxSourceBytes p \<le> 0 \<or> MaxSourceBytes p > MaximumSourceBytes
        \<or> MaxRetainedBundles p \<le> 0 \<or> DailyExecutionMillis p \<le> 0 then False
      else if MaxInfrastructureTries p \<le> 0 \<or> MaxInfrastructureTries p > 10 then False
      else if MaxTimeLimitMillis p \<le> 0 \<or> MaxMemoryLimitMiB p \<le> 0 then False
      else True)"

text \<open>
  The policy column: what the strict decoder yields, and the integers \<^verbatim>\<open>JSON_EXTRACT\<close> finds at the two
  paths the claim query reads (\<open>None\<close> when the path holds no integer).
\<close>

record policy_json =
  pj_decoded :: "TenantPolicy option"
  pj_tries :: "int option"
  pj_running :: "int option"

definition decodeTenantPolicy :: "policy_json \<Rightarrow> TenantPolicy option" where
  "decodeTenantPolicy encoded =
     (case pj_decoded encoded of
        None \<Rightarrow> None
      | Some policy \<Rightarrow> if policy_validate policy then Some policy else None)"

section \<open>Rows\<close>

record tenant_row =
  tn_id :: nat
  tn_external_id :: string
  tn_status :: string
  tn_policy :: policy_json
  tn_last_claimed_at :: "int option"

record callback_row =
  cb_id :: nat
  cb_external_id :: string
  cb_tenant_id :: nat
  cb_destination_url :: string
  cb_allowed_host :: string
  cb_allowed_port :: nat
  cb_secret_ciphertext :: string
  cb_secret_nonce :: string
  cb_secret_key_version :: nat
  cb_disabled_at :: "int option"

record bundle_row =
  bd_id :: nat
  bd_external_id :: string
  bd_tenant_id :: nat
  bd_sha256 :: string
  bd_object_key :: string
  bd_size_bytes :: int
  bd_manifest :: "Manifest option"
  bd_publication_status :: string
  bd_ready_at :: "int option"
  bd_delete_marked_at :: "int option"
  bd_deleted_at :: "int option"

record source_row =
  so_id :: nat
  so_external_id :: string
  so_tenant_id :: nat
  so_object_key :: string
  so_sha256 :: string
  so_size_bytes :: int
  so_key_version :: nat
  so_nonce :: string
  so_delete_marked_at :: "int option"
  so_delete_token :: "string option"
  so_delete_lease_until :: "int option"
  so_delete_next_attempt_at :: "int option"
  so_delete_attempt_count :: nat
  so_delete_last_error_code :: "string option"
  so_deleted_at :: "int option"

record job_row =
  jb_id :: nat
  jb_external_id :: string
  jb_tenant_id :: nat
  jb_bundle_id :: nat
  jb_source_object_id :: nat
  jb_callback_id :: "nat option"
  jb_status :: JobStatus
  jb_language_id :: string
  jb_stop_on_failure :: bool
  jb_client_reference :: "string option"
  jb_attempt_no :: "32 word"
  jb_worker_id :: "string option"
  jb_lease_token :: "string option"
  jb_lease_until :: "int option"
  jb_next_attempt_at :: int
  jb_cancel_requested_at :: "int option"
  jb_result :: "DurableJobResult option"
  jb_failure_code :: "string option"
  jb_created_at :: int
  jb_started_at :: "int option"
  jb_completed_at :: "int option"

datatype attempt_status =
  AttemptRunning | AttemptSucceeded | AttemptFailed | AttemptCancelled | AttemptExpired

record attempt_row =
  at_tenant_id :: nat
  at_job_id :: nat
  at_attempt_no :: "32 word"
  at_worker_id :: string
  at_lease_token :: "string option"
  at_status :: attempt_status
  at_lease_until :: int
  at_accounting_day :: "int option"
  at_reserved :: int
  at_consumed :: int
  at_started_at :: int
  at_finished_at :: "int option"
  at_failure_code :: "string option"

record daily_row =
  dy_tenant_id :: nat
  dy_day :: int
  dy_reserved :: int
  dy_consumed :: int

text \<open>The body of a terminal event, field by field (the JSON text is a function of it).\<close>

record terminalWebhookPayload =
  pl_SchemaVersion :: int
  pl_EventID :: string
  pl_EventType :: string
  pl_OccurredAt :: int
  pl_TenantID :: string
  pl_JobID :: string
  pl_ClientReference :: string
  pl_Status :: JobStatus
  pl_Result :: "DurableJobResult option"
  pl_FailureCode :: string

datatype outbox_status = OutboxPending | OutboxDelivering | OutboxDelivered | OutboxDead

record outbox_row =
  ob_id :: nat
  ob_event_id :: string
  ob_tenant_id :: nat
  ob_job_id :: nat
  ob_callback_id :: nat
  ob_event_type :: string
  ob_payload :: terminalWebhookPayload
  ob_status :: outbox_status
  ob_worker_id :: "string option"
  ob_lease_token :: "string option"
  ob_lease_until :: "int option"
  ob_attempt_count :: nat
  ob_next_attempt_at :: int
  ob_last_http_status :: "int option"
  ob_last_error_code :: "string option"
  ob_created_at :: int
  ob_delivered_at :: "int option"
  ob_dead_at :: "int option"
  ob_expires_at :: int

record db =
  tenants :: "tenant_row list"
  callbacks :: "callback_row list"
  bundles :: "bundle_row list"
  sources :: "source_row list"
  jobs :: "job_row list"
  attempts :: "attempt_row list"
  daily :: "daily_row list"
  outbox :: "outbox_row list"

section \<open>Errors\<close>

text \<open>
  \<open>RepositoryUnavailable\<close> is \<^verbatim>\<open>repositoryUnavailable(operation, err)\<close>, which wraps
  \<^verbatim>\<open>ErrExternalJobUnavailable\<close>.
\<close>

datatype job_error =
    JobState state_error
  | ErrExternalJobNotFound
  | ErrExternalJobConflict
  | ErrExternalJobInvalid
  | ErrExternalJobUnavailable
  | ErrQueuedQuotaExceeded
  | ErrInvalidJobCursor
  | ErrSourceEncryption
  | RepositoryUnavailable string

section \<open>Reading a job (externalJobSelect, scanExternalJob)\<close>

record SourceObjectMetadata =
  sm_InternalID :: nat
  sm_ExternalID :: string
  sm_ObjectKey :: string
  sm_SHA256 :: string
  sm_SizeBytes :: int
  sm_KeyVersion :: nat
  sm_Nonce :: string

record ExternalJobRecord =
  ej_InternalID :: nat
  ej_TenantInternalID :: nat
  ej_ExternalID :: string
  ej_TenantExternalID :: string
  ej_BundleExternalID :: string
  ej_Source :: SourceObjectMetadata
  ej_CallbackID :: string
  ej_Status :: JobStatus
  ej_Language :: string
  ej_StopOnFailure :: bool
  ej_ClientReference :: string
  ej_AttemptNo :: "32 word"
  ej_WorkerID :: string
  ej_LeaseUntil :: "int option"
  ej_CancelRequested :: "int option"
  ej_Result :: "DurableJobResult option"
  ej_FailureCode :: string
  ej_CreatedAt :: int
  ej_StartedAt :: "int option"
  ej_CompletedAt :: "int option"

text \<open>A \<^verbatim>\<open>sql.NullString\<close> read as a string.\<close>

definition null_string :: "string option \<Rightarrow> string" where
  "null_string v = (case v of None \<Rightarrow> [] | Some s \<Rightarrow> s)"

definition tenant_of :: "db \<Rightarrow> job_row \<Rightarrow> tenant_row option" where
  "tenant_of d j = List.find (\<lambda>t. tn_id t = jb_tenant_id j) (tenants d)"

definition bundle_of :: "db \<Rightarrow> job_row \<Rightarrow> bundle_row option" where
  "bundle_of d j =
     List.find (\<lambda>b. bd_id b = jb_bundle_id j \<and> bd_tenant_id b = jb_tenant_id j) (bundles d)"

definition source_of :: "db \<Rightarrow> job_row \<Rightarrow> source_row option" where
  "source_of d j =
     List.find (\<lambda>s. so_id s = jb_source_object_id j \<and> so_tenant_id s = jb_tenant_id j) (sources d)"

definition callback_external_id :: "db \<Rightarrow> job_row \<Rightarrow> string option" where
  "callback_external_id d j =
     (case jb_callback_id j of
        None \<Rightarrow> None
      | Some c \<Rightarrow> map_option cb_external_id
          (List.find (\<lambda>r. cb_id r = c \<and> cb_tenant_id r = jb_tenant_id j) (callbacks d)))"

definition scanExternalJob ::
  "job_row \<Rightarrow> tenant_row \<Rightarrow> bundle_row \<Rightarrow> source_row \<Rightarrow> string option \<Rightarrow> ExternalJobRecord option" where
  "scanExternalJob j t b s callback =
     (if so_key_version s = 0 \<or> so_key_version s > 65535 then None
      else if (case jb_result j of None \<Rightarrow> False | Some r \<Rightarrow> \<not> validateDurableJobResult r) then None
      else Some
        \<lparr>ej_InternalID = jb_id j, ej_TenantInternalID = jb_tenant_id j, ej_ExternalID = jb_external_id j,
         ej_TenantExternalID = tn_external_id t, ej_BundleExternalID = bd_external_id b,
         ej_Source = \<lparr>sm_InternalID = so_id s, sm_ExternalID = so_external_id s,
           sm_ObjectKey = so_object_key s, sm_SHA256 = so_sha256 s, sm_SizeBytes = so_size_bytes s,
           sm_KeyVersion = so_key_version s, sm_Nonce = so_nonce s\<rparr>,
         ej_CallbackID = null_string callback, ej_Status = jb_status j, ej_Language = jb_language_id j,
         ej_StopOnFailure = jb_stop_on_failure j,
         ej_ClientReference = null_string (jb_client_reference j), ej_AttemptNo = jb_attempt_no j,
         ej_WorkerID = null_string (jb_worker_id j), ej_LeaseUntil = jb_lease_until j,
         ej_CancelRequested = jb_cancel_requested_at j, ej_Result = jb_result j,
         ej_FailureCode = null_string (jb_failure_code j), ej_CreatedAt = jb_created_at j,
         ej_StartedAt = jb_started_at j, ej_CompletedAt = jb_completed_at j\<rparr>)"

text \<open>\<open>externalJobSelect\<close> on one row: \<open>None\<close> when an inner join finds no partner or the scan fails.\<close>

definition read_job :: "db \<Rightarrow> job_row \<Rightarrow> ExternalJobRecord option" where
  "read_job d j =
     (case (tenant_of d j, bundle_of d j, source_of d j) of
        (Some t, Some b, Some s) \<Rightarrow> scanExternalJob j t b s (callback_external_id d j)
      | _ \<Rightarrow> None)"

definition getExternalJobByInternalID :: "db \<Rightarrow> nat \<Rightarrow> ExternalJobRecord option" where
  "getExternalJobByInternalID d i =
     (case List.find (\<lambda>j. jb_id j = i) (jobs d) of None \<Rightarrow> None | Some j \<Rightarrow> read_job d j)"

section \<open>Terminal events (webhook_event.go)\<close>

definition terminalWebhookSchemaVersion :: int where "terminalWebhookSchemaVersion = 1"

definition terminal_payload ::
  "string \<Rightarrow> int \<Rightarrow> ExternalJobRecord \<Rightarrow> string \<Rightarrow> DurableJobResult option \<Rightarrow> string \<Rightarrow> terminalWebhookPayload" where
  "terminal_payload eventID occurredAt job eventType result failureCode =
     \<lparr>pl_SchemaVersion = terminalWebhookSchemaVersion, pl_EventID = eventID, pl_EventType = eventType,
      pl_OccurredAt = occurredAt, pl_TenantID = ej_TenantExternalID job, pl_JobID = ej_ExternalID job,
      pl_ClientReference = ej_ClientReference job, pl_Status = ej_Status job,
      pl_Result = result, pl_FailureCode = failureCode\<rparr>"

definition EncodeTerminalWebhookEvent ::
  "string \<Rightarrow> int \<Rightarrow> ExternalJobRecord \<Rightarrow> (string \<times> terminalWebhookPayload) option" where
  "EncodeTerminalWebhookEvent eventID occurredAt job =
     (if \<not> externalIDPattern eventID \<or> occurredAt = time_zero
         \<or> \<not> externalIDPattern (ej_TenantExternalID job) \<or> \<not> externalIDPattern (ej_ExternalID job)
         \<or> length (ej_ClientReference job) > 255 \<or> \<not> utf8_valid (ej_ClientReference job)
      then None
      else case ej_Status job of
        JobStatusSucceeded \<Rightarrow>
          (case ej_Result job of
             None \<Rightarrow> None
           | Some r \<Rightarrow>
               if ej_FailureCode job \<noteq> [] \<or> \<not> validateDurableJobResult r then None
               else Some (''judge.job.completed'',
                 terminal_payload eventID occurredAt job ''judge.job.completed'' (Some r) []))
      | JobStatusFailed \<Rightarrow>
          if ej_Result job \<noteq> None \<or> \<not> infrastructureCodePattern (ej_FailureCode job) then None
          else Some (''judge.job.failed'',
            terminal_payload eventID occurredAt job ''judge.job.failed'' None (ej_FailureCode job))
      | JobStatusCancelled \<Rightarrow>
          if ej_Result job \<noteq> None \<or> ej_FailureCode job \<noteq> [] then None
          else Some (''judge.job.cancelled'',
            terminal_payload eventID occurredAt job ''judge.job.cancelled'' None [])
      | _ \<Rightarrow> None)"

section \<open>The outbox insert (mysql_webhook_event.go)\<close>

text \<open>
  \<open>ids\<close> are the identifiers the random source yields, at most eight are tried. A unique key of the
  outbox (event or job) refuses a duplicate; an event of the same job must agree with this one.
\<close>

definition next_outbox_id :: "db \<Rightarrow> nat" where
  "next_outbox_id d = Suc (fold max (map ob_id (outbox d)) 0)"

definition pending_event ::
  "nat \<Rightarrow> string \<Rightarrow> nat \<Rightarrow> nat \<Rightarrow> nat \<Rightarrow> string \<Rightarrow> terminalWebhookPayload \<Rightarrow> int \<Rightarrow> int \<Rightarrow> outbox_row" where
  "pending_event i eventID tenant job callback eventType payload now window =
     \<lparr>ob_id = i, ob_event_id = eventID, ob_tenant_id = tenant, ob_job_id = job, ob_callback_id = callback,
      ob_event_type = eventType, ob_payload = payload, ob_status = OutboxPending, ob_worker_id = None,
      ob_lease_token = None, ob_lease_until = None, ob_attempt_count = 0, ob_next_attempt_at = now,
      ob_last_http_status = None, ob_last_error_code = None, ob_created_at = now, ob_delivered_at = None,
      ob_dead_at = None, ob_expires_at = now + window\<rparr>"

fun insert_event ::
  "nat \<Rightarrow> string list \<Rightarrow> int \<Rightarrow> int \<Rightarrow> job_row \<Rightarrow> nat \<Rightarrow> ExternalJobRecord \<Rightarrow> db \<Rightarrow> job_error + (string \<times> db)" where
  "insert_event 0 ids window now j callback job d = Inl (RepositoryUnavailable ''persist terminal webhook event'')"
| "insert_event (Suc n) [] window now j callback job d =
     Inl (RepositoryUnavailable ''generate terminal webhook event ID'')"
| "insert_event (Suc n) (eventID # ids) window now j callback job d =
     (case EncodeTerminalWebhookEvent eventID now job of
        None \<Rightarrow> Inl (RepositoryUnavailable ''encode terminal webhook event'')
      | Some (eventType, payload) \<Rightarrow>
          if \<not> sql_exists (\<lambda>e. ob_event_id e = eventID \<or> ob_job_id e = ej_InternalID job) (outbox d) then
            Inr (eventID, d\<lparr>outbox := outbox d @
              [pending_event (next_outbox_id d) eventID (jb_tenant_id j) (ej_InternalID job) callback
                 eventType payload now window]\<rparr>)
          else case List.find (\<lambda>e. ob_job_id e = ej_InternalID job) (outbox d) of
            None \<Rightarrow> insert_event n ids window now j callback job d
          | Some e' \<Rightarrow>
              (case EncodeTerminalWebhookEvent (ob_event_id e') (ob_created_at e') job of
                 None \<Rightarrow> Inl (RepositoryUnavailable ''verify authoritative terminal webhook event'')
               | Some (expectedType, expectedBody) \<Rightarrow>
                   if ob_tenant_id e' \<noteq> jb_tenant_id j \<or> ob_callback_id e' \<noteq> callback
                      \<or> ob_event_type e' \<noteq> expectedType \<or> ob_payload e' \<noteq> expectedBody
                   then Inl (RepositoryUnavailable ''verify authoritative terminal webhook event'')
                   else Inr (ob_event_id e', d)))"

definition insertTerminalWebhookEvent ::
  "string list \<Rightarrow> int \<Rightarrow> int \<Rightarrow> ExternalJobRecord \<Rightarrow> db \<Rightarrow> job_error + (string \<times> db)" where
  "insertTerminalWebhookEvent ids window now job d =
     (case List.find (\<lambda>j. jb_id j = ej_InternalID job) (jobs d) of
        None \<Rightarrow> Inl (RepositoryUnavailable ''read terminal webhook ownership'')
      | Some j \<Rightarrow>
          (case jb_callback_id j of
             None \<Rightarrow> Inr ([], d)
           | Some callback \<Rightarrow> insert_event 8 ids window now j callback job d))"

text \<open>Read a job back and leave its event, as every terminal transition does.\<close>

definition emit_terminal ::
  "string \<Rightarrow> string list \<Rightarrow> int \<Rightarrow> int \<Rightarrow> nat \<Rightarrow> db \<Rightarrow> job_error + (ExternalJobRecord \<times> db)" where
  "emit_terminal what ids window now i d =
     (case getExternalJobByInternalID d i of
        None \<Rightarrow> Inl (RepositoryUnavailable what)
      | Some job \<Rightarrow> bind_result (insertTerminalWebhookEvent ids window now job d) (\<lambda>(_, d'). Inr (job, d')))"

end
