(* ===== verification/Go_Crypto.thy ===== *)
theory Go_Crypto
  imports Go_Strings
begin

text \<open>
  The encodings and digests of Go's standard library the judge relies on, on strings as byte
  sequences: big-endian integers, hexadecimal and unpadded URL-safe base64, SHA-256 and HMAC-SHA-256.
  Encoding is inverted by decoding; the digests are computed, so that a test vector can be evaluated.
\<close>

unbundle bit_operations_syntax

section \<open>Hexadecimal (encoding/hex)\<close>

definition hex_digit :: "nat \<Rightarrow> char" where
  "hex_digit n = (if n < 10 then char_of (48 + n) else char_of (87 + n))"

definition hex_encode :: "string \<Rightarrow> string" where
  "hex_encode s = concat (map (\<lambda>c. [hex_digit (byte c div 16), hex_digit (byte c mod 16)]) s)"

section \<open>Big-endian integers (encoding/binary)\<close>

fun be_bytes :: "nat \<Rightarrow> nat \<Rightarrow> string" where
  "be_bytes 0 n = []"
| "be_bytes (Suc k) n = be_bytes k (n div 256) @ [char_of (n mod 256)]"

fun be_value :: "string \<Rightarrow> nat" where
  "be_value s = foldl (\<lambda>n c. n * 256 + byte c) 0 s"

section \<open>SHA-256 (crypto/sha256)\<close>

text \<open>
  The constants of the standard are the first 32 bits of the fractional parts of roots of primes: cube
  roots of the first 64 primes for the rounds, square roots of the first 8 for the initial state. \<open>iroot k n\<close>
  is the integer part of the \<open>k\<close>-th root, found bit by bit.
\<close>

definition iroot :: "nat \<Rightarrow> int \<Rightarrow> int" where
  "iroot k n = fold (\<lambda>b r. if (r + 2 ^ b) ^ k \<le> n then r + 2 ^ b else r) (rev [0..<40]) 0"

definition root_fraction :: "nat \<Rightarrow> int \<Rightarrow> 32 word" where
  "root_fraction k p = word_of_int (iroot k (p * 2 ^ (32 * k)))"

definition primes_below :: "int \<Rightarrow> int list" where
  "primes_below n = filter (\<lambda>p. list_all (\<lambda>d. p mod d \<noteq> 0) [2..p - 1]) [2..n - 1]"

definition sha_K :: "32 word list" where
  "sha_K = map (root_fraction 3) (primes_below 312)"

type_synonym sha_state = "32 word list"

definition sha_init :: sha_state where
  "sha_init = map (root_fraction 2) [2, 3, 5, 7, 11, 13, 17, 19]"

definition sha_pad :: "string \<Rightarrow> string" where
  "sha_pad s =
     s @ char_of (128 :: nat) # replicate ((119 - length s mod 64) mod 64) (char_of (0 :: nat)) @ be_bytes 8 (8 * length s)"

fun chunks :: "nat \<Rightarrow> 'a list \<Rightarrow> 'a list list" where
  "chunks 0 xs = []"
| "chunks (Suc k) xs = take 64 xs # chunks k (drop 64 xs)"

fun block_words :: "string \<Rightarrow> 32 word list" where
  "block_words (a # b # c # d # s) = of_nat (be_value [a, b, c, d]) # block_words s"
| "block_words s = []"

definition small_sigma :: "nat \<Rightarrow> nat \<Rightarrow> nat \<Rightarrow> 32 word \<Rightarrow> 32 word" where
  "small_sigma i j k x = word_rotr i x XOR word_rotr j x XOR drop_bit k x"

definition big_sigma :: "nat \<Rightarrow> nat \<Rightarrow> nat \<Rightarrow> 32 word \<Rightarrow> 32 word" where
  "big_sigma i j k x = word_rotr i x XOR word_rotr j x XOR word_rotr k x"

text \<open>The message schedule, newest word first.\<close>

fun sha_schedule :: "nat \<Rightarrow> 32 word list \<Rightarrow> 32 word list" where
  "sha_schedule 0 ws = ws"
| "sha_schedule (Suc n) ws =
     sha_schedule n ((small_sigma 17 19 10 (ws ! 1) + ws ! 6 + small_sigma 7 18 3 (ws ! 14) + ws ! 15) # ws)"

fun sha_round :: "32 word \<times> 32 word \<Rightarrow> sha_state \<Rightarrow> sha_state" where
  "sha_round (k, w) [a, b, c, d, e, f, g, h] =
     (let t1 = h + big_sigma 6 11 25 e + ((e AND f) XOR (NOT e AND g)) + k + w;
          t2 = big_sigma 2 13 22 a + ((a AND b) XOR (a AND c) XOR (b AND c)) in
      [t1 + t2, a, b, c, d + t1, e, f, g])"
| "sha_round kw st = st"

definition sha_block :: "string \<Rightarrow> sha_state \<Rightarrow> sha_state" where
  "sha_block b st =
     map2 (+) st (fold sha_round (zip sha_K (rev (sha_schedule 48 (rev (block_words b))))) st)"

definition sha256 :: "string \<Rightarrow> string" where
  "sha256 s =
     (let p = sha_pad s in
      concat (map (\<lambda>w. be_bytes 4 (unat w)) (fold sha_block (chunks (length p div 64) p) sha_init)))"

section \<open>HMAC (crypto/hmac)\<close>

definition xor_byte :: "nat \<Rightarrow> char \<Rightarrow> char" where
  "xor_byte k c = char_of ((k :: nat) XOR byte c)"

definition hmac_key :: "string \<Rightarrow> string" where
  "hmac_key key =
     (let k = (if length key > 64 then sha256 key else key) in k @ replicate (64 - length k) (char_of (0 :: nat)))"

definition hmac_sha256 :: "string \<Rightarrow> string \<Rightarrow> string" where
  "hmac_sha256 key s =
     sha256 (map (xor_byte 92) (hmac_key key) @ sha256 (map (xor_byte 54) (hmac_key key) @ s))"

section \<open>Unpadded URL-safe base64 (encoding/base64)\<close>

definition b64_char :: "nat \<Rightarrow> char" where
  "b64_char n = (if n < 26 then char_of (65 + n) else if n < 52 then char_of (71 + n)
     else if n < 62 then char_of (n - 4) else if n = 62 then CHR ''-'' else CHR ''_'')"

definition b64_value :: "char \<Rightarrow> nat option" where
  "b64_value c =
     (let n = byte c in
      if 65 \<le> n \<and> n \<le> 90 then Some (n - 65) else if 97 \<le> n \<and> n \<le> 122 then Some (n - 71)
      else if 48 \<le> n \<and> n \<le> 57 then Some (n + 4) else if c = CHR ''-'' then Some 62
      else if c = CHR ''_'' then Some 63 else None)"

fun b64_encode :: "string \<Rightarrow> string" where
  "b64_encode (a # b # c # s) =
     (let n = byte a * 65536 + byte b * 256 + byte c in
      b64_char (n div 262144) # b64_char (n div 4096 mod 64) # b64_char (n div 64 mod 64) # b64_char (n mod 64)
        # b64_encode s)"
| "b64_encode [a, b] =
     (let n = byte a * 1024 + byte b * 4 in [b64_char (n div 4096), b64_char (n div 64 mod 64), b64_char (n mod 64)])"
| "b64_encode [a] = (let n = byte a * 16 in [b64_char (n div 64), b64_char (n mod 64)])"
| "b64_encode [] = []"

text \<open>Line breaks are skipped and the unused bits of the last character are not looked at.\<close>

fun b64_groups :: "string \<Rightarrow> string option" where
  "b64_groups (a # b # c # d # s) =
     (case (b64_value a, b64_value b, b64_value c, b64_value d, b64_groups s) of
        (Some w, Some x, Some y, Some z, Some r) \<Rightarrow>
          (let n = w * 262144 + x * 4096 + y * 64 + z in
           Some (char_of (n div 65536) # char_of (n div 256 mod 256) # char_of (n mod 256) # r))
      | _ \<Rightarrow> None)"
| "b64_groups [a, b, c] =
     (case (b64_value a, b64_value b, b64_value c) of
        (Some w, Some x, Some y) \<Rightarrow>
          (let n = w * 4096 + x * 64 + y in Some [char_of (n div 1024), char_of (n div 4 mod 256)])
      | _ \<Rightarrow> None)"
| "b64_groups [a, b] =
     (case (b64_value a, b64_value b) of
        (Some w, Some x) \<Rightarrow> Some [char_of ((w * 64 + x) div 16)]
      | _ \<Rightarrow> None)"
| "b64_groups [a] = None"
| "b64_groups [] = Some []"

definition b64_decode :: "string \<Rightarrow> string option" where
  "b64_decode s = b64_groups (filter (\<lambda>c. byte c \<noteq> 10 \<and> byte c \<noteq> 13) s)"

section \<open>Lengths and inverses\<close>

lemma length_be_bytes [simp]: "length (be_bytes k n) = k"
  by (induction k arbitrary: n) auto

lemma be_bytes_inj: "be_bytes k n = be_bytes k m \<Longrightarrow> n < 256 ^ k \<Longrightarrow> m < 256 ^ k \<Longrightarrow> n = m"
proof (induction k arbitrary: n m)
  case (Suc k)
  have "n div 256 = m div 256"
    by (rule Suc.IH) (use Suc.prems in \<open>auto simp: less_mult_imp_div_less mult.commute\<close>)
  moreover have "char_of (n mod 256) = (char_of (m mod 256) :: char)" using Suc.prems(1) by simp
  then have "n mod 256 = m mod 256" by (metis of_char_of mod_mod_trivial)
  ultimately show ?case by (metis div_mult_mod_eq)
qed simp

lemma length_hex_encode [simp]: "length (hex_encode s) = 2 * length s"
  by (induction s) (auto simp: hex_encode_def)

lemma hex_digit_inj: "n < 16 \<Longrightarrow> m < 16 \<Longrightarrow> hex_digit n = hex_digit m \<Longrightarrow> n = m"
proof -
  assume a: "n < 16" "m < 16" "hex_digit n = hex_digit m"
  then have "byte (hex_digit n) = byte (hex_digit m)" by simp
  with a(1,2) show "n = m" by (auto simp: hex_digit_def split: if_splits)
qed

lemma hex_encode_Cons: "hex_encode (c # s) = hex_digit (byte c div 16) # hex_digit (byte c mod 16) # hex_encode s"
  by (simp add: hex_encode_def)

lemma byte_lt: "byte c < 256"
  by simp

lemma hex_encode_inj: "hex_encode s = hex_encode t \<Longrightarrow> s = t"
proof (induction s arbitrary: t)
  case Nil
  then show ?case by (cases t) (auto simp: hex_encode_def)
next
  case (Cons c s)
  then obtain d t' where t: "t = d # t'" by (cases t) (auto simp: hex_encode_def)
  have "byte c div 16 = byte d div 16" "byte c mod 16 = byte d mod 16"
    using Cons.prems byte_lt [of c] byte_lt [of d]
    by (auto simp: t hex_encode_Cons less_mult_imp_div_less intro!: hex_digit_inj)
  then have "byte c = byte d" by (metis div_mult_mod_eq)
  then have "c = d" by simp
  moreover have "s = t'" using Cons by (simp add: t hex_encode_Cons)
  ultimately show ?case using t by simp
qed

lemma length_sha_round: "length (sha_round kw st) = length st"
  by (cases "(kw, st)" rule: sha_round.cases) (auto simp: Let_def)

lemma length_fold_rounds: "length (fold sha_round kws st) = length st"
  by (induction kws arbitrary: st) (auto simp: length_sha_round)

lemma length_fold_blocks: "length (fold sha_block bs st) = length st"
  by (induction bs arbitrary: st) (auto simp: sha_block_def length_fold_rounds)

lemma length_sha256 [simp]: "length (sha256 s) = 32"
proof -
  have "length (concat (map (\<lambda>w. be_bytes 4 (unat w)) ws)) = 4 * length ws" for ws :: "32 word list"
    by (induction ws) auto
  then show ?thesis by (simp add: sha256_def Let_def length_fold_blocks sha_init_def)
qed

lemma length_hmac_sha256 [simp]: "length (hmac_sha256 key s) = 32"
  by (simp add: hmac_sha256_def)

lemma b64_value_char:
  assumes "n < 64"
  shows "b64_value (b64_char n) = Some n" "byte (b64_char n) \<noteq> 10 \<and> byte (b64_char n) \<noteq> 13"
    "b64_char n \<noteq> CHR ''.''"
proof -
  consider "n < 26" | "26 \<le> n" "n < 52" | "52 \<le> n" "n < 62" | "n = 62" | "n = 63" using assms by linarith
  then show "b64_value (b64_char n) = Some n" "byte (b64_char n) \<noteq> 10 \<and> byte (b64_char n) \<noteq> 13"
    "b64_char n \<noteq> CHR ''.''"
    by (cases; auto simp: b64_char_def b64_value_def Let_def dest: arg_cong [of _ _ byte])+
qed

lemma b64_char_image: "n < 64 \<Longrightarrow> b64_char n \<in> b64_char ` {..<64}" "b64_char (m mod 64) \<in> b64_char ` {..<64}"
  by auto

lemma b64_encode_chars: "set (b64_encode s) \<subseteq> b64_char ` {..<64}"
proof (induction s rule: b64_encode.induct)
  case (1 a b c s)
  have "(byte a * 65536 + byte b * 256 + byte c) div 262144 < 64"
    using byte_lt [of a] byte_lt [of b] byte_lt [of c] by linarith
  with 1 show ?case by (simp add: Let_def b64_char_image)
next
  case (2 a b)
  have "(byte a * 1024 + byte b * 4) div 4096 < 64" using byte_lt [of a] byte_lt [of b] by linarith
  then show ?case by (simp add: Let_def b64_char_image)
next
  case (3 a)
  have "byte a * 16 div 64 < 64" using byte_lt [of a] by linarith
  then show ?case by (simp add: Let_def b64_char_image)
qed simp

lemma base64_digits:
  fixes n :: nat
  shows "n div 4096 * 4096 + n div 64 mod 64 * 64 + n mod 64 = n"
    "n div 262144 * 262144 + n div 4096 mod 64 * 4096 + n div 64 mod 64 * 64 + n mod 64 = n"
proof -
  have "n div 4096 = n div 64 div 64" "n div 262144 = n div 64 div 64 div 64"
    by (simp_all add: div_mult2_eq [symmetric])
  moreover have "n div 64 * 64 + n mod 64 = n" "n div 64 div 64 * 64 + n div 64 mod 64 = n div 64"
    "n div 64 div 64 div 64 * 64 + n div 64 div 64 mod 64 = n div 64 div 64"
    by (rule div_mult_mod_eq)+
  moreover have "y * 4096 + b * 64 + a = m \<and> z * 262144 + c * 4096 + b * 64 + a = m"
    if "x * 64 + a = m" "y * 64 + b = x" "z * 64 + c = y" for a b c m x y z :: nat
    using that by linarith
  ultimately show "n div 4096 * 4096 + n div 64 mod 64 * 64 + n mod 64 = n"
    "n div 262144 * 262144 + n div 4096 mod 64 * 4096 + n div 64 mod 64 * 64 + n mod 64 = n"
    by metis+
qed

lemma char_of_low: "n mod 256 = byte c \<Longrightarrow> char_of n = c"
  by (metis char_of_mod_256 char_of_char)

lemma b64_groups_encode: "b64_groups (b64_encode s) = Some s"
proof (induction s rule: b64_encode.induct)
  case (1 a b c s)
  let ?n = "byte a * 65536 + byte b * 256 + byte c"
  have lt: "?n div 262144 < 64" using byte_lt [of a] byte_lt [of b] byte_lt [of c] by linarith
  have "?n div 65536 = byte a" "?n div 256 = byte a * 256 + byte b"
    using byte_lt [of a] byte_lt [of b] byte_lt [of c] by linarith+
  moreover have "?n = (byte a * 256 + byte b) * 256 + byte c" by simp
  then have "?n mod 256 = byte c" by (metis mod_mult_self3 mod_less byte_lt)
  then have "char_of ?n = c" by (rule char_of_low)
  moreover have "char_of (byte a * 256 + byte b) = b" by (rule char_of_low) simp
  ultimately show ?case using lt 1 by (simp add: Let_def b64_value_char base64_digits(2))
next
  case (2 a b)
  let ?n = "byte a * 1024 + byte b * 4"
  have lt: "?n div 4096 < 64" using byte_lt [of a] byte_lt [of b] by linarith
  have "?n div 1024 = byte a" "?n div 4 = byte a * 256 + byte b"
    using byte_lt [of a] byte_lt [of b] by linarith+
  moreover have "char_of (256 * byte a + byte b) = b" by (rule char_of_low) simp
  ultimately show ?case using lt by (simp add: Let_def b64_value_char base64_digits(1))
next
  case (3 a)
  have "byte a * 16 div 64 < 64" using byte_lt [of a] by linarith
  moreover have "byte a div 4 * 64 + byte a * 16 mod 64 = byte a * 16"
    using div_mult_mod_eq [of "byte a * 16" 64] by simp
  ultimately show ?case by (simp add: Let_def b64_value_char)
qed simp

lemma b64_decode_encode [simp]: "b64_decode (b64_encode s) = Some s"
proof -
  have "filter (\<lambda>c. byte c \<noteq> 10 \<and> byte c \<noteq> 13) (b64_encode s) = b64_encode s"
    using b64_encode_chars [of s] b64_value_char(2) by (intro filter_True) blast
  then show ?thesis by (simp add: b64_decode_def b64_groups_encode)
qed

lemma b64_encode_no_dot: "CHR ''.'' \<notin> set (b64_encode s)"
  using b64_encode_chars [of s] b64_value_char(3) by fastforce

end
