(* ===== verification/Job_Worker.thy ===== *)
theory Job_Worker
  imports Job_Tables Go_Crypto
begin

text \<open>
  The transactions of the job repository (internal/external/mysql_job_worker.go and the cancellation
  of mysql_job_repository.go). Each transaction is one function on the database: \<open>Inl\<close> is a
  rolled-back transaction, \<open>Inr\<close> a committed one. The database clock, the lease token, the event
  identifiers and the rows other transactions have locked (\<^verbatim>\<open>SKIP LOCKED\<close>) are arguments; a
  statement that fails in the driver behaves as a rolled-back transaction.
\<close>

section \<open>Reservations a manifest needs\<close>

definition maximumManifestExecutionMillis :: "Manifest \<Rightarrow> int option" where
  "maximumManifestExecutionMillis m =
     (if length (Cases m) = 0 \<or> TimeLimitMillis (m_Limits m) \<le> 0 then None
      else
        let perCase = TimeLimitMillis (m_Limits m); caseCount = int (length (Cases m)) in
        case m_SpecialJudge m of
          None \<Rightarrow>
            if perCase > max_int64 div caseCount then None else Some (wrap64 (perCase * caseCount))
        | Some sj \<Rightarrow>
            let checkerMillis = sj_TimeLimitMillis sj in
            if checkerMillis \<le> 0 \<or> perCase > max_int64 - checkerMillis then None
            else
              let perCase' = wrap64 (perCase + checkerMillis) in
              if perCase' > max_int64 div caseCount then None else Some (wrap64 (perCase' * caseCount)))"

definition manifestWithinExecutionCeilings :: "Manifest \<Rightarrow> int \<Rightarrow> int \<Rightarrow> bool" where
  "manifestWithinExecutionCeilings m maxTime maxMemory =
     (if maxTime \<le> 0 \<or> maxMemory \<le> 0 \<or> TimeLimitMillis (m_Limits m) \<le> 0
         \<or> TimeLimitMillis (m_Limits m) > maxTime \<or> MemoryLimitMiB (m_Limits m) \<le> 0
         \<or> MemoryLimitMiB (m_Limits m) > maxMemory then False
      else case m_SpecialJudge m of
        None \<Rightarrow> True
      | Some sj \<Rightarrow> sj_TimeLimitMillis sj > 0 \<and> sj_TimeLimitMillis sj \<le> maxTime
          \<and> sj_MemoryLimitMiB sj > 0 \<and> sj_MemoryLimitMiB sj \<le> maxMemory)"

fun capped_from :: "int \<Rightarrow> int \<Rightarrow> DurableCaseResult list \<Rightarrow> int" where
  "capped_from reservation used [] = used"
| "capped_from reservation used (item # rest) =
     (if dc_TimeMillis item \<ge> wrap64 (reservation - used) then reservation
      else capped_from reservation (wrap64 (used + dc_TimeMillis item)) rest)"

definition cappedCaseExecutionMillis :: "DurableCaseResult list \<Rightarrow> int \<Rightarrow> int" where
  "cappedCaseExecutionMillis cases reservation =
     (if reservation \<le> 0 then 0 else capped_from reservation 0 cases)"

section \<open>Claims\<close>

record WorkerJobClaim =
  wc_Job :: ExternalJobRecord
  wc_WorkerID :: string
  wc_AttemptNo :: "32 word"
  wc_LeaseToken :: string
  wc_LeaseUntil :: int

definition validWorkerID :: "string \<Rightarrow> bool" where
  "validWorkerID workerID =
     (if length workerID = 0 \<or> length workerID > 128 \<or> TrimSpace workerID \<noteq> workerID then False
      else list_all (\<lambda>c. \<not> (byte c < 0x21 \<or> byte c > 0x7e)) workerID)"

definition validWorkerClaim :: "WorkerJobClaim \<Rightarrow> bool" where
  "validWorkerClaim claim \<longleftrightarrow>
     ej_InternalID (wc_Job claim) > 0 \<and> wc_AttemptNo claim > 0 \<and> validWorkerID (wc_WorkerID claim)
     \<and> length (wc_LeaseToken claim) = 32"

definition maximumLease :: int where "maximumLease = 15 * 60000"

text \<open>The condition every fenced statement puts on the job row.\<close>

definition claim_row :: "WorkerJobClaim \<Rightarrow> job_row \<Rightarrow> bool" where
  "claim_row claim j \<longleftrightarrow>
     jb_id j = ej_InternalID (wc_Job claim) \<and> jb_status j = JobStatusRunning
     \<and> jb_attempt_no j = wc_AttemptNo claim \<and> jb_worker_id j = Some (wc_WorkerID claim)
     \<and> jb_lease_token j = Some (wc_LeaseToken claim)"

definition lease_after :: "job_row \<Rightarrow> int \<Rightarrow> bool" where
  "lease_after j now \<longleftrightarrow> (case jb_lease_until j of None \<Rightarrow> False | Some l \<Rightarrow> l > now)"

definition lease_over :: "job_row \<Rightarrow> int \<Rightarrow> bool" where
  "lease_over j now \<longleftrightarrow> (case jb_lease_until j of None \<Rightarrow> False | Some l \<Rightarrow> l \<le> now)"

definition attempt_claim_row :: "WorkerJobClaim \<Rightarrow> attempt_row \<Rightarrow> bool" where
  "attempt_claim_row claim a \<longleftrightarrow>
     at_job_id a = ej_InternalID (wc_Job claim) \<and> at_attempt_no a = wc_AttemptNo claim
     \<and> at_worker_id a = wc_WorkerID claim \<and> at_lease_token a = Some (wc_LeaseToken claim)
     \<and> at_status a = AttemptRunning"

definition clear_row_lease :: "job_row \<Rightarrow> job_row" where
  "clear_row_lease j = j\<lparr>jb_worker_id := None, jb_lease_token := None, jb_lease_until := None\<rparr>"

section \<open>The daily ledger\<close>

datatype dailyReservationDecision =
  dailyReservationAllowed | dailyReservationDeferred | dailyReservationImpossible

definition day_millis :: int where "day_millis = 86400000"

definition daily_row_of :: "nat \<Rightarrow> int \<Rightarrow> daily_row \<Rightarrow> bool" where
  "daily_row_of tenant day r \<longleftrightarrow> dy_tenant_id r = tenant \<and> dy_day r = day"

definition ensure_daily :: "nat \<Rightarrow> int \<Rightarrow> db \<Rightarrow> db" where
  "ensure_daily tenant day d =
     (if sql_exists (daily_row_of tenant day) (daily d) then d
      else d\<lparr>daily := daily d @ [\<lparr>dy_tenant_id = tenant, dy_day = day, dy_reserved = 0, dy_consumed = 0\<rparr>]\<rparr>)"

definition reserveDailyExecution ::
  "nat \<Rightarrow> int \<Rightarrow> int \<Rightarrow> int \<Rightarrow> db \<Rightarrow> job_error + (dailyReservationDecision \<times> db)" where
  "reserveDailyExecution tenant day dailyLimit reserveMillis d =
     (if dailyLimit \<le> 0 \<or> reserveMillis \<le> 0 then Inl ErrExternalJobUnavailable
      else if reserveMillis > dailyLimit then Inr (dailyReservationImpossible, d)
      else
        let d1 = ensure_daily tenant day d in
        case List.find (daily_row_of tenant day) (daily d1) of
          None \<Rightarrow> Inl (RepositoryUnavailable ''lock daily execution ledger'')
        | Some r \<Rightarrow>
            if dy_consumed r > dailyLimit - reserveMillis
               \<or> dy_reserved r > dailyLimit - reserveMillis - dy_consumed r
            then Inr (dailyReservationDeferred, d1)
            else
              let f = (\<lambda>r. r\<lparr>dy_reserved := dy_reserved r + reserveMillis\<rparr>) in
              if sql_affected (daily_row_of tenant day) f (daily d1) \<noteq> 1
              then Inl (RepositoryUnavailable ''reserve daily execution'')
              else Inr (dailyReservationAllowed, d1\<lparr>daily := sql_update (daily_row_of tenant day) f (daily d1)\<rparr>))"

definition running_attempt :: "nat \<Rightarrow> nat \<Rightarrow> 32 word \<Rightarrow> attempt_row \<Rightarrow> bool" where
  "running_attempt tenant job attemptNo a \<longleftrightarrow>
     at_tenant_id a = tenant \<and> at_job_id a = job \<and> at_attempt_no a = attemptNo
     \<and> at_status a = AttemptRunning"

definition wake_deferred :: "nat \<Rightarrow> int \<Rightarrow> int \<Rightarrow> db \<Rightarrow> db" where
  "wake_deferred tenant day now d =
     d\<lparr>jobs := sql_update
        (\<lambda>j. jb_tenant_id j = tenant \<and> jb_status j = JobStatusQueued
             \<and> jb_next_attempt_at j = (day + 1) * day_millis)
        (\<lambda>j. j\<lparr>jb_next_attempt_at := now\<rparr>) (jobs d)\<rparr>"

definition releaseAttemptReservation ::
  "nat \<Rightarrow> nat \<Rightarrow> 32 word \<Rightarrow> int \<Rightarrow> DurableCaseResult list \<Rightarrow> bool \<Rightarrow> db \<Rightarrow> job_error + (int \<times> db)" where
  "releaseAttemptReservation tenant job attemptNo now cases chargeFull d =
     (case List.find (running_attempt tenant job attemptNo) (attempts d) of
        None \<Rightarrow> Inl (JobState ErrStaleJobClaim)
      | Some a \<Rightarrow>
          (case at_accounting_day a of
             None \<Rightarrow> Inl ErrExternalJobUnavailable
           | Some day \<Rightarrow>
               if at_reserved a \<le> 0 then Inl ErrExternalJobUnavailable
               else
                 let reserved = at_reserved a;
                     consumedMillis = (if chargeFull then reserved else cappedCaseExecutionMillis cases reserved);
                     p = (\<lambda>r. daily_row_of tenant day r \<and> dy_reserved r \<ge> reserved);
                     f = (\<lambda>r. r\<lparr>dy_reserved := dy_reserved r - reserved,
                               dy_consumed := dy_consumed r + consumedMillis\<rparr>) in
                 if sql_affected p f (daily d) \<noteq> 1
                 then Inl (RepositoryUnavailable ''settle daily execution ledger'')
                 else Inr (consumedMillis,
                   wake_deferred tenant day now (d\<lparr>daily := sql_update p f (daily d)\<rparr>))))"

definition settleAttemptReservation ::
  "WorkerJobClaim \<Rightarrow> int \<Rightarrow> DurableCaseResult list \<Rightarrow> bool \<Rightarrow> db \<Rightarrow> job_error + (int \<times> db)" where
  "settleAttemptReservation claim now cases chargeFull d =
     releaseAttemptReservation (ej_TenantInternalID (wc_Job claim)) (ej_InternalID (wc_Job claim))
       (wc_AttemptNo claim) now cases chargeFull d"

definition expired_attempt :: "int \<Rightarrow> attempt_row \<Rightarrow> attempt_row" where
  "expired_attempt now a =
     a\<lparr>at_status := AttemptExpired, at_lease_token := None, at_finished_at := Some now,
       at_failure_code := Some ''LEASE_EXPIRED'', at_reserved := 0\<rparr>"

definition expireAttempt :: "nat \<Rightarrow> nat \<Rightarrow> 32 word \<Rightarrow> int \<Rightarrow> db \<Rightarrow> job_error + db" where
  "expireAttempt tenant job attemptNo now d =
     bind_result (releaseAttemptReservation tenant job attemptNo now [] False d) (\<lambda>(_, d1).
       if sql_affected (running_attempt tenant job attemptNo) (expired_attempt now) (attempts d1) \<noteq> 1
       then Inl (JobState ErrStaleJobClaim)
       else Inr (d1\<lparr>attempts :=
              sql_update (running_attempt tenant job attemptNo) (expired_attempt now) (attempts d1)\<rparr>))"

definition finished_attempt ::
  "attempt_status \<Rightarrow> string \<Rightarrow> int \<Rightarrow> int \<Rightarrow> attempt_row \<Rightarrow> attempt_row" where
  "finished_attempt status failureCode consumedMillis now a =
     a\<lparr>at_status := status, at_lease_token := None, at_finished_at := Some now,
       at_failure_code := (if failureCode = [] then None else Some failureCode),
       at_reserved := 0, at_consumed := consumedMillis\<rparr>"

definition finishAttempt ::
  "WorkerJobClaim \<Rightarrow> attempt_status \<Rightarrow> string \<Rightarrow> int \<Rightarrow> int \<Rightarrow> db \<Rightarrow> job_error + db" where
  "finishAttempt claim status failureCode consumedMillis now d =
     (let f = finished_attempt status failureCode consumedMillis now in
      if sql_affected (attempt_claim_row claim) f (attempts d) \<noteq> 1 then Inl (JobState ErrStaleJobClaim)
      else Inr (d\<lparr>attempts := sql_update (attempt_claim_row claim) f (attempts d)\<rparr>))"

section \<open>Claiming the next job\<close>

text \<open>
  What a claim transaction reads from outside the database: its clock and date, the rows that other
  transactions hold locked, the random lease token, the random event identifiers, and the configured
  delivery window of webhooks.
\<close>

record claim_env =
  ce_now :: int
  ce_day :: int
  ce_tenant_locked :: "nat \<Rightarrow> bool"
  ce_job_locked :: "nat \<Rightarrow> bool"
  ce_token :: string
  ce_event_ids :: "string list"
  ce_window :: int

definition has_expired :: "db \<Rightarrow> int \<Rightarrow> nat \<Rightarrow> bool" where
  "has_expired d now tenant =
     sql_exists (\<lambda>j. jb_tenant_id j = tenant \<and> jb_status j = JobStatusRunning \<and> lease_over j now) (jobs d)"

definition has_due :: "db \<Rightarrow> int \<Rightarrow> nat \<Rightarrow> bool" where
  "has_due d now tenant =
     sql_exists (\<lambda>j. jb_tenant_id j = tenant \<and> jb_status j = JobStatusQueued
       \<and> jb_next_attempt_at j \<le> now) (jobs d)"

definition running_count :: "db \<Rightarrow> nat \<Rightarrow> nat" where
  "running_count d tenant =
     sql_count (\<lambda>j. jb_tenant_id j = tenant \<and> jb_status j = JobStatusRunning) (jobs d)"

text \<open>\<^verbatim>\<open>CAST(... AS UNSIGNED)\<close> of an integer.\<close>

definition cast_unsigned :: "int \<Rightarrow> int" where
  "cast_unsigned x = x mod 18446744073709551616"

definition below_running_limit :: "db \<Rightarrow> tenant_row \<Rightarrow> bool" where
  "below_running_limit d t =
     (case pj_running (tn_policy t) of
        None \<Rightarrow> False
      | Some m \<Rightarrow> cast_unsigned m > int (running_count d (tn_id t)))"

definition tenant_claimable :: "db \<Rightarrow> int \<Rightarrow> tenant_row \<Rightarrow> bool" where
  "tenant_claimable d now t \<longleftrightarrow>
     has_expired d now (tn_id t)
     \<or> tn_status t = ''ACTIVE''
       \<and> (case pj_tries (tn_policy t) of
            None \<Rightarrow> False
          | Some k \<Rightarrow> 1 \<le> cast_unsigned k \<and> cast_unsigned k \<le> 10)
       \<and> below_running_limit d t \<and> has_due d now (tn_id t)"

definition tenant_due :: "db \<Rightarrow> int \<Rightarrow> tenant_row \<Rightarrow> bool" where
  "tenant_due d now t \<longleftrightarrow>
     has_expired d now (tn_id t)
     \<or> tn_status t = ''ACTIVE'' \<and> below_running_limit d t \<and> has_due d now (tn_id t)"

definition tenant_key :: "db \<Rightarrow> int \<Rightarrow> tenant_row \<Rightarrow> bool \<times> bool \<times> int option \<times> nat" where
  "tenant_key d now t =
     (\<not> has_expired d now (tn_id t), tn_last_claimed_at t \<noteq> None, tn_last_claimed_at t, tn_id t)"

definition select_claim_tenant :: "claim_env \<Rightarrow> db \<Rightarrow> tenant_row option" where
  "select_claim_tenant env d =
     min_row (tenant_key d (ce_now env))
       (filter (\<lambda>t. tenant_claimable d (ce_now env) t \<and> \<not> ce_tenant_locked env (tn_id t)) (tenants d))"

definition job_claimable :: "db \<Rightarrow> int \<Rightarrow> tenant_row \<Rightarrow> job_row \<Rightarrow> bool" where
  "job_claimable d now t j \<longleftrightarrow>
     bundle_of d j \<noteq> None \<and> jb_tenant_id j = tn_id t
     \<and> (tn_status t = ''ACTIVE'' \<and> jb_status j = JobStatusQueued \<and> jb_next_attempt_at j \<le> now
        \<or> jb_status j = JobStatusRunning \<and> lease_over j now)"

definition job_key :: "job_row \<Rightarrow> bool \<times> int \<times> int \<times> nat" where
  "job_key j = (jb_status j \<noteq> JobStatusRunning, jb_next_attempt_at j, jb_created_at j, jb_id j)"

definition select_claim_job :: "claim_env \<Rightarrow> tenant_row \<Rightarrow> db \<Rightarrow> job_row option" where
  "select_claim_job env t d =
     min_row job_key
       (filter (\<lambda>j. job_claimable d (ce_now env) t j \<and> \<not> ce_job_locked env (jb_id j)) (jobs d))"

definition advanceTenantFairness :: "nat \<Rightarrow> int \<Rightarrow> db \<Rightarrow> db" where
  "advanceTenantFairness tenant now d =
     d\<lparr>tenants := sql_update (\<lambda>t. tn_id t = tenant) (\<lambda>t. t\<lparr>tn_last_claimed_at := Some now\<rparr>) (tenants d)\<rparr>"

definition job_at :: "nat \<Rightarrow> JobStatus \<Rightarrow> 32 word \<Rightarrow> job_row \<Rightarrow> bool" where
  "job_at i status attemptNo j \<longleftrightarrow> jb_id j = i \<and> jb_status j = status \<and> jb_attempt_no j = attemptNo"

definition failed_row :: "string \<Rightarrow> int \<Rightarrow> job_row \<Rightarrow> job_row" where
  "failed_row code now j =
     clear_row_lease (j\<lparr>jb_status := JobStatusFailed, jb_failure_code := Some code, jb_completed_at := Some now\<rparr>)"

definition cancelled_row :: "int \<Rightarrow> job_row \<Rightarrow> job_row" where
  "cancelled_row now j =
     clear_row_lease (j\<lparr>jb_status := JobStatusCancelled, jb_result := None, jb_failure_code := None,
       jb_completed_at := Some now\<rparr>)"

definition update_jobs :: "(job_row \<Rightarrow> bool) \<Rightarrow> (job_row \<Rightarrow> job_row) \<Rightarrow> db \<Rightarrow> db" where
  "update_jobs p f d = d\<lparr>jobs := sql_update p f (jobs d)\<rparr>"

definition failImpossibleDailyExecution ::
  "claim_env \<Rightarrow> nat \<Rightarrow> nat \<Rightarrow> JobStatus \<Rightarrow> 32 word \<Rightarrow> db \<Rightarrow> job_error + db" where
  "failImpossibleDailyExecution env tenant i status attemptNo d =
     (let p = (\<lambda>j. jb_tenant_id j = tenant \<and> job_at i status attemptNo j);
          f = failed_row ''DAILY_EXECUTION_LIMIT_TOO_LOW'' (ce_now env) in
      if sql_affected p f (jobs d) \<noteq> 1 then Inl (JobState ErrJobNotClaimable)
      else
        bind_result
          (emit_terminal ''read impossible daily execution job'' (ce_event_ids env) (ce_window env)
            (ce_now env) i (advanceTenantFairness tenant (ce_now env) (update_jobs p f d)))
          (\<lambda>(_, d'). Inr d'))"

text \<open>A branch either ends the transaction (committed, try again) or goes on to the claim itself.\<close>

datatype 'd claim_branch = CommitRetry 'd | Proceed 'd

definition settle_expired ::
  "claim_env \<Rightarrow> string \<Rightarrow> (job_row \<Rightarrow> job_row) \<Rightarrow> job_row \<Rightarrow> db \<Rightarrow> job_error + db claim_branch" where
  "settle_expired env what f j d =
     bind_result
       (emit_terminal what (ce_event_ids env) (ce_window env) (ce_now env) (jb_id j)
         (update_jobs (job_at (jb_id j) JobStatusRunning (jb_attempt_no j)) f d))
       (\<lambda>(_, d'). Inr (CommitRetry d'))"

definition reserve_or_settle ::
  "claim_env \<Rightarrow> tenant_row \<Rightarrow> job_row \<Rightarrow> int \<Rightarrow> int \<Rightarrow> (job_row \<Rightarrow> bool) \<Rightarrow> (job_row \<Rightarrow> job_row) \<Rightarrow> db
     \<Rightarrow> job_error + db claim_branch" where
  "reserve_or_settle env t j dailyLimit reserved p f d =
     bind_result (reserveDailyExecution (tn_id t) (ce_day env) dailyLimit reserved d) (\<lambda>(decision, d1).
       case decision of
         dailyReservationImpossible \<Rightarrow>
           bind_result
             (failImpossibleDailyExecution env (tn_id t) (jb_id j) (jb_status j) (jb_attempt_no j) d1)
             (\<lambda>d2. Inr (CommitRetry d2))
       | dailyReservationDeferred \<Rightarrow>
           Inr (CommitRetry (advanceTenantFairness (tn_id t) (ce_now env) (update_jobs p f d1)))
       | dailyReservationAllowed \<Rightarrow> Inr (Proceed d1))"

definition deferred_until :: "claim_env \<Rightarrow> int" where
  "deferred_until env = (ce_day env + 1) * day_millis"

definition claim_recover ::
  "claim_env \<Rightarrow> tenant_row \<Rightarrow> TenantPolicy \<Rightarrow> job_row \<Rightarrow> int \<Rightarrow> db \<Rightarrow> job_error + db claim_branch" where
  "claim_recover env t policy j reserved d =
     bind_result (expireAttempt (tn_id t) (jb_id j) (jb_attempt_no j) (ce_now env) d) (\<lambda>d1.
       if tn_status t \<noteq> ''ACTIVE'' then
         settle_expired env ''read disabled tenant job'' (failed_row ''TENANT_DISABLED'' (ce_now env)) j d1
       else if jb_cancel_requested_at j \<noteq> None then
         settle_expired env ''read recovered cancellation'' (cancelled_row (ce_now env)) j d1
       else if int (unat (jb_attempt_no j)) \<ge> MaxInfrastructureTries policy then
         settle_expired env ''read exhausted expired job'' (failed_row ''LEASE_EXPIRED'' (ce_now env)) j d1
       else
         reserve_or_settle env t j (DailyExecutionMillis policy) reserved
           (job_at (jb_id j) JobStatusRunning (jb_attempt_no j))
           (\<lambda>r. clear_row_lease (r\<lparr>jb_status := JobStatusQueued, jb_next_attempt_at := deferred_until env\<rparr>))
           d1)"

definition claim_queued ::
  "claim_env \<Rightarrow> tenant_row \<Rightarrow> TenantPolicy \<Rightarrow> job_row \<Rightarrow> int \<Rightarrow> db \<Rightarrow> (job_error \<times> bool) + db claim_branch" where
  "claim_queued env t policy j reserved d =
     (if int (running_count d (tn_id t)) \<ge> MaxRunningJobs policy then Inl (JobState ErrJobNotClaimable, True)
      else if reserved \<le> 0 then Inl (ErrExternalJobUnavailable, False)
      else
        case reserve_or_settle env t j (DailyExecutionMillis policy) reserved
          (\<lambda>r. jb_id r = jb_id j \<and> jb_status r = JobStatusQueued)
          (\<lambda>r. r\<lparr>jb_next_attempt_at := deferred_until env\<rparr>) d of
          Inl e \<Rightarrow> Inl (e, False)
        | Inr b \<Rightarrow> Inr b)"

definition claimed_row :: "string \<Rightarrow> string \<Rightarrow> int \<Rightarrow> int \<Rightarrow> 32 word \<Rightarrow> job_row \<Rightarrow> job_row" where
  "claimed_row workerID token leaseUntil now attemptNo j =
     j\<lparr>jb_status := JobStatusRunning, jb_attempt_no := attemptNo, jb_worker_id := Some workerID,
       jb_lease_token := Some token, jb_lease_until := Some leaseUntil,
       jb_started_at := (case jb_started_at j of None \<Rightarrow> Some now | Some s \<Rightarrow> Some s),
       jb_failure_code := None\<rparr>"

definition claim_commit ::
  "claim_env \<Rightarrow> string \<Rightarrow> int \<Rightarrow> tenant_row \<Rightarrow> job_row \<Rightarrow> int \<Rightarrow> db \<Rightarrow> job_error + (WorkerJobClaim \<times> db)" where
  "claim_commit env workerID leaseDuration t j reserved d =
     (if jb_attempt_no j = 0xFFFFFFFF then Inl ErrExternalJobUnavailable
      else
        let newAttemptNo = jb_attempt_no j + 1;
            leaseUntil = ce_now env + leaseDuration;
            p = job_at (jb_id j) (jb_status j) (jb_attempt_no j);
            f = claimed_row workerID (ce_token env) leaseUntil (ce_now env) newAttemptNo in
        if sql_affected p f (jobs d) \<noteq> 1 then Inl (JobState ErrJobNotClaimable)
        else if sql_exists (\<lambda>a. at_job_id a = jb_id j \<and> at_attempt_no a = newAttemptNo) (attempts d)
          then Inl (RepositoryUnavailable ''persist worker attempt'')
        else
          let attempt = \<lparr>at_tenant_id = tn_id t, at_job_id = jb_id j, at_attempt_no = newAttemptNo,
                at_worker_id = workerID, at_lease_token = Some (ce_token env), at_status = AttemptRunning,
                at_lease_until = leaseUntil, at_accounting_day = Some (ce_day env),
                at_reserved = reserved, at_consumed = 0, at_started_at = ce_now env,
                at_finished_at = None, at_failure_code = None\<rparr>;
              d1 = update_jobs p f d;
              d2 = advanceTenantFairness (tn_id t) (ce_now env) (d1\<lparr>attempts := attempts d1 @ [attempt]\<rparr>) in
          case getExternalJobByInternalID d2 (jb_id j) of
            None \<Rightarrow> Inl (RepositoryUnavailable ''read claimed job'')
          | Some job \<Rightarrow>
              Inr (\<lparr>wc_Job = job, wc_WorkerID = workerID, wc_AttemptNo = newAttemptNo,
                    wc_LeaseToken = ce_token env, wc_LeaseUntil = leaseUntil\<rparr>, d2))"

text \<open>The manifest column of the bundle, parsed and validated (\<open>ParseManifest\<close>).\<close>

definition bundle_manifest :: "db \<Rightarrow> job_row \<Rightarrow> Manifest option" where
  "bundle_manifest d j =
     (case bundle_of d j of
        None \<Rightarrow> None
      | Some b \<Rightarrow>
          (case bd_manifest b of
             None \<Rightarrow> None
           | Some m \<Rightarrow> if Validate m = Inr () then Some m else None))"

text \<open>
  One claim transaction: \<open>Inl (e, retry)\<close> rolled back, \<open>Inr (None, d)\<close> committed some recovery or
  deferral and asks for another round, \<open>Inr (Some claim, d)\<close> committed a claim.
\<close>

definition no_policy :: TenantPolicy where
  "no_policy = \<lparr>MaxQueuedJobs = 0, MaxRunningJobs = 0, MaxSourceBytes = 0, MaxRetainedBundles = 0,
     DailyExecutionMillis = 0, MaxInfrastructureTries = 0, MaxTimeLimitMillis = 0, MaxMemoryLimitMiB = 0\<rparr>"

definition claim_selected ::
  "claim_env \<Rightarrow> string \<Rightarrow> int \<Rightarrow> tenant_row \<Rightarrow> TenantPolicy \<Rightarrow> job_row \<Rightarrow> db
     \<Rightarrow> (job_error \<times> bool) + (WorkerJobClaim option \<times> db)" where
  "claim_selected env workerID leaseDuration t policy j d =
     (case bundle_manifest d j of
        None \<Rightarrow> Inl (RepositoryUnavailable ''validate claim bundle execution limits'', False)
      | Some m \<Rightarrow>
          if tn_status t = ''ACTIVE''
             \<and> \<not> manifestWithinExecutionCeilings m (MaxTimeLimitMillis policy) (MaxMemoryLimitMiB policy)
          then Inl (RepositoryUnavailable ''validate claim bundle execution limits'', False)
          else case maximumManifestExecutionMillis m of
            None \<Rightarrow> Inl (RepositoryUnavailable ''calculate claim execution reservation'', False)
          | Some reserved \<Rightarrow>
              (case (if jb_status j = JobStatusRunning
                     then (case claim_recover env t policy j reserved d of
                             Inl e \<Rightarrow> Inl (e, False) | Inr b \<Rightarrow> Inr b)
                     else if jb_status j = JobStatusQueued then claim_queued env t policy j reserved d
                     else Inl (JobState ErrJobNotClaimable, False)) of
                 Inl e \<Rightarrow> Inl e
               | Inr (CommitRetry d1) \<Rightarrow> Inr (None, d1)
               | Inr (Proceed d1) \<Rightarrow>
                   (case claim_commit env workerID leaseDuration t j reserved d1 of
                      Inl e \<Rightarrow> Inl (e, False)
                    | Inr (claim, d2) \<Rightarrow> Inr (Some claim, d2))))"

definition claimOneWithClock ::
  "claim_env \<Rightarrow> string \<Rightarrow> int \<Rightarrow> db \<Rightarrow> (job_error \<times> bool) + (WorkerJobClaim option \<times> db)" where
  "claimOneWithClock env workerID leaseDuration d =
     (case select_claim_tenant env d of
        None \<Rightarrow> Inl (JobState ErrJobNotClaimable, sql_exists (tenant_due d (ce_now env)) (tenants d))
      | Some t \<Rightarrow>
          (case (if tn_status t = ''ACTIVE'' then decodeTenantPolicy (tn_policy t) else Some no_policy) of
             None \<Rightarrow> Inl (ErrExternalJobUnavailable, False)
           | Some policy \<Rightarrow>
               (case select_claim_job env t d of
                  None \<Rightarrow> Inl (JobState ErrJobNotClaimable, True)
                | Some j \<Rightarrow> claim_selected env workerID leaseDuration t policy j d)))"

text \<open>
  The rounds of \<open>ClaimNext\<close>. \<open>env k\<close> is what round \<open>k\<close> reads from outside, \<open>ctxDone k\<close> says that the
  context ended while waiting after it. Committed rounds stay committed, so the database is returned
  in every case.
\<close>

fun claim_rounds ::
  "nat \<Rightarrow> nat \<Rightarrow> (nat \<Rightarrow> claim_env) \<Rightarrow> (nat \<Rightarrow> bool) \<Rightarrow> string \<Rightarrow> int \<Rightarrow> db
     \<Rightarrow> (job_error + WorkerJobClaim) \<times> db" where
  "claim_rounds 0 k env ctxDone workerID leaseDuration d = (Inl (JobState ErrJobNotClaimable), d)"
| "claim_rounds (Suc n) k env ctxDone workerID leaseDuration d =
     (case claimOneWithClock (env k) workerID leaseDuration d of
        Inl (e, retry) \<Rightarrow>
          if retry \<and> e = JobState ErrJobNotClaimable then
            if ctxDone k then (Inl (RepositoryUnavailable ''wait for worker claim contention''), d)
            else claim_rounds n (Suc k) env ctxDone workerID leaseDuration d
          else (Inl e, d)
      | Inr (Some claim, d') \<Rightarrow> (Inr claim, d')
      | Inr (None, d') \<Rightarrow>
          if ctxDone k then (Inl (RepositoryUnavailable ''wait for worker claim recovery''), d')
          else claim_rounds n (Suc k) env ctxDone workerID leaseDuration d')"

definition maximumClaimRetries :: nat where "maximumClaimRetries = 32"

definition ClaimNext ::
  "(nat \<Rightarrow> claim_env) \<Rightarrow> (nat \<Rightarrow> bool) \<Rightarrow> string \<Rightarrow> int \<Rightarrow> db \<Rightarrow> (job_error + WorkerJobClaim) \<times> db" where
  "ClaimNext env ctxDone workerID leaseDuration d =
     (if \<not> validWorkerID workerID \<or> leaseDuration \<le> 0 \<or> leaseDuration > maximumLease
      then (Inl (JobState ErrInvalidJobState), d)
      else claim_rounds maximumClaimRetries 0 env ctxDone workerID leaseDuration d)"

section \<open>Fenced operations of a claim holder\<close>

definition job_Heartbeat :: "WorkerJobClaim \<Rightarrow> int \<Rightarrow> int \<Rightarrow> db \<Rightarrow> job_error + db" where
  "job_Heartbeat claim leaseDuration now d =
     (if \<not> validWorkerClaim claim \<or> leaseDuration \<le> 0 \<or> leaseDuration > maximumLease
      then Inl (JobState ErrStaleJobClaim)
      else
        let leaseUntil = now + leaseDuration;
            p = (\<lambda>j. claim_row claim j \<and> lease_after j now);
            f = (\<lambda>j. j\<lparr>jb_lease_until := Some leaseUntil\<rparr>);
            g = (\<lambda>a. a\<lparr>at_lease_until := leaseUntil\<rparr>) in
        if sql_affected p f (jobs d) \<noteq> 1 then Inl (JobState ErrStaleJobClaim)
        else
          let d1 = update_jobs p f d in
          if sql_affected (attempt_claim_row claim) g (attempts d1) \<noteq> 1 then Inl (JobState ErrStaleJobClaim)
          else Inr (d1\<lparr>attempts := sql_update (attempt_claim_row claim) g (attempts d1)\<rparr>))"

definition ClaimCancelled :: "WorkerJobClaim \<Rightarrow> int \<Rightarrow> db \<Rightarrow> job_error + bool" where
  "ClaimCancelled claim now d =
     (if \<not> validWorkerClaim claim then Inl (JobState ErrStaleJobClaim)
      else case List.find (\<lambda>j. claim_row claim j \<and> lease_after j now) (jobs d) of
        None \<Rightarrow> Inl (JobState ErrStaleJobClaim)
      | Some j \<Rightarrow> Inr (jb_cancel_requested_at j \<noteq> None))"

definition lockActiveClaim :: "WorkerJobClaim \<Rightarrow> int \<Rightarrow> db \<Rightarrow> job_error + bool" where
  "lockActiveClaim claim now d =
     (case List.find (\<lambda>j. claim_row claim j \<and> lease_after j now) (jobs d) of
        None \<Rightarrow> Inl (JobState ErrStaleJobClaim)
      | Some j \<Rightarrow> Inr (jb_cancel_requested_at j \<noteq> None))"

text \<open>\<open>lockNow\<close> is the clock of the locking statement, which may be later than the transaction's.\<close>

definition lockActiveClaimAndPolicy ::
  "WorkerJobClaim \<Rightarrow> int \<Rightarrow> db \<Rightarrow> job_error + (bool \<times> policy_json)" where
  "lockActiveClaimAndPolicy claim lockNow d =
     (case List.find (\<lambda>j. jb_id j = ej_InternalID (wc_Job claim)) (jobs d) of
        None \<Rightarrow> Inl (JobState ErrStaleJobClaim)
      | Some j0 \<Rightarrow>
          (case List.find (\<lambda>t. tn_id t = jb_tenant_id j0) (tenants d) of
             None \<Rightarrow> Inl (RepositoryUnavailable ''lock active claim tenant'')
           | Some t \<Rightarrow>
               (case List.find (\<lambda>j. jb_tenant_id j = jb_tenant_id j0 \<and> claim_row claim j
                                 \<and> lease_after j lockNow) (jobs d) of
                  None \<Rightarrow> Inl (JobState ErrStaleJobClaim)
                | Some j \<Rightarrow> Inr (jb_cancel_requested_at j \<noteq> None, tn_policy t))))"

record finish_env =
  fe_now :: int
  fe_lock_now :: int
  fe_event_ids :: "string list"
  fe_window :: int

definition succeeded_row :: "DurableJobResult \<Rightarrow> int \<Rightarrow> job_row \<Rightarrow> job_row" where
  "succeeded_row result now j =
     clear_row_lease (j\<lparr>jb_status := JobStatusSucceeded, jb_result := Some result, jb_failure_code := None,
       jb_completed_at := Some now\<rparr>)"

definition job_Complete ::
  "finish_env \<Rightarrow> WorkerJobClaim \<Rightarrow> DurableJobResult \<Rightarrow> db \<Rightarrow> job_error + db" where
  "job_Complete env claim result d =
     (if \<not> validWorkerClaim claim \<or> \<not> validateDurableJobResult result then Inl (JobState ErrInvalidJobState)
      else
        bind_result (lockActiveClaimAndPolicy claim (fe_lock_now env) d) (\<lambda>(cancelled, _).
          let f = (if cancelled then cancelled_row (fe_now env) else succeeded_row result (fe_now env));
              attemptStatus = (if cancelled then AttemptCancelled else AttemptSucceeded);
              chargeFull = (length (dr_Cases result) = 0 \<and> (cancelled \<or> dr_CompileStatus result = ''FAILED'')) in
          if sql_affected (claim_row claim) f (jobs d) \<noteq> 1 then Inl (JobState ErrStaleJobClaim)
          else
            bind_result
              (settleAttemptReservation claim (fe_now env) (dr_Cases result) chargeFull
                (update_jobs (claim_row claim) f d)) (\<lambda>(consumedMillis, d1).
              bind_result (finishAttempt claim attemptStatus [] consumedMillis (fe_now env) d1) (\<lambda>d2.
                bind_result
                  (emit_terminal ''read completed job'' (fe_event_ids env) (fe_window env) (fe_now env)
                    (ej_InternalID (wc_Job claim)) d2) (\<lambda>(_, d3). Inr d3)))))"

record InfrastructureFailure =
  if_Code :: string
  if_RetryDelay :: int
  if_ChargeFullReservation :: bool
  if_Permanent :: bool

datatype FailureDisposition = FailureRequeued | FailureTerminal | FailureCancelled

definition failure_disposition ::
  "bool \<Rightarrow> InfrastructureFailure \<Rightarrow> 32 word \<Rightarrow> TenantPolicy \<Rightarrow> FailureDisposition" where
  "failure_disposition cancelled failure attemptNo policy =
     (if cancelled then FailureCancelled
      else if \<not> if_Permanent failure \<and> int (unat attemptNo) < MaxInfrastructureTries policy then FailureRequeued
      else FailureTerminal)"

definition failure_row ::
  "FailureDisposition \<Rightarrow> InfrastructureFailure \<Rightarrow> int \<Rightarrow> job_row \<Rightarrow> job_row" where
  "failure_row disposition failure now j =
     (case disposition of
        FailureTerminal \<Rightarrow>
          clear_row_lease (j\<lparr>jb_status := JobStatusFailed, jb_next_attempt_at := now,
            jb_failure_code := Some (if_Code failure), jb_completed_at := Some now\<rparr>)
      | FailureCancelled \<Rightarrow>
          clear_row_lease (j\<lparr>jb_status := JobStatusCancelled, jb_next_attempt_at := now,
            jb_failure_code := None, jb_completed_at := Some now\<rparr>)
      | FailureRequeued \<Rightarrow>
          clear_row_lease (j\<lparr>jb_status := JobStatusQueued,
            jb_next_attempt_at := now + if_RetryDelay failure,
            jb_failure_code := None, jb_completed_at := None\<rparr>))"

definition maximumRetryDelay :: int where "maximumRetryDelay = 3600000"

definition job_FailInfrastructure ::
  "finish_env \<Rightarrow> WorkerJobClaim \<Rightarrow> InfrastructureFailure \<Rightarrow> db \<Rightarrow> job_error + (FailureDisposition \<times> db)" where
  "job_FailInfrastructure env claim failure d =
     (if \<not> validWorkerClaim claim \<or> \<not> infrastructureCodePattern (if_Code failure)
         \<or> if_RetryDelay failure < 0 \<or> if_RetryDelay failure > maximumRetryDelay
      then Inl (JobState ErrInvalidJobState)
      else
        bind_result (lockActiveClaimAndPolicy claim (fe_lock_now env) d) (\<lambda>(cancelled, encoded).
          case decodeTenantPolicy encoded of
            None \<Rightarrow> Inl ErrExternalJobUnavailable
          | Some policy \<Rightarrow>
              let disposition = failure_disposition cancelled failure (wc_AttemptNo claim) policy;
                  f = failure_row disposition failure (fe_now env);
                  attemptStatus = (if cancelled then AttemptCancelled else AttemptFailed);
                  attemptCode = (if cancelled then [] else if_Code failure) in
              if sql_affected (claim_row claim) f (jobs d) \<noteq> 1 then Inl (JobState ErrStaleJobClaim)
              else
                bind_result
                  (settleAttemptReservation claim (fe_now env) [] (if_ChargeFullReservation failure)
                    (update_jobs (claim_row claim) f d)) (\<lambda>(consumedMillis, d1).
                  bind_result (finishAttempt claim attemptStatus attemptCode consumedMillis (fe_now env) d1)
                    (\<lambda>d2.
                      if disposition \<noteq> FailureRequeued then
                        bind_result
                          (emit_terminal ''read terminal failed job'' (fe_event_ids env) (fe_window env)
                            (fe_now env) (ej_InternalID (wc_Job claim)) d2)
                          (\<lambda>(_, d3). Inr (disposition, d3))
                      else Inr (disposition, d2)))))"

section \<open>Reading and cancelling (mysql_job_repository.go)\<close>

definition job_named :: "db \<Rightarrow> string \<Rightarrow> string \<Rightarrow> job_row \<Rightarrow> bool" where
  "job_named d tenantExternalID jobExternalID j \<longleftrightarrow>
     jb_external_id j = jobExternalID
     \<and> (case tenant_of d j of None \<Rightarrow> False | Some t \<Rightarrow> tn_external_id t = tenantExternalID)
     \<and> bundle_of d j \<noteq> None \<and> source_of d j \<noteq> None"

definition getExternalJob :: "db \<Rightarrow> string \<Rightarrow> string \<Rightarrow> (job_row \<times> ExternalJobRecord option) option" where
  "getExternalJob d tenantExternalID jobExternalID =
     (case List.find (job_named d tenantExternalID jobExternalID) (jobs d) of
        None \<Rightarrow> None
      | Some j \<Rightarrow> Some (j, read_job d j))"

definition job_Get :: "string \<Rightarrow> string \<Rightarrow> db \<Rightarrow> job_error + ExternalJobRecord" where
  "job_Get tenantExternalID jobExternalID d =
     (if \<not> externalIDPattern tenantExternalID \<or> \<not> externalIDPattern jobExternalID
      then Inl ErrExternalJobNotFound
      else case getExternalJob d tenantExternalID jobExternalID of
        None \<Rightarrow> Inl ErrExternalJobNotFound
      | Some (_, None) \<Rightarrow> Inl (RepositoryUnavailable ''read job'')
      | Some (_, Some job) \<Rightarrow> Inr job)"

definition job_Cancel ::
  "finish_env \<Rightarrow> string \<Rightarrow> string \<Rightarrow> db \<Rightarrow> job_error + (ExternalJobRecord \<times> db)" where
  "job_Cancel env tenantExternalID jobExternalID d =
     (if \<not> externalIDPattern tenantExternalID \<or> \<not> externalIDPattern jobExternalID
      then Inl ErrExternalJobNotFound
      else if \<not> sql_exists (\<lambda>t. tn_external_id t = tenantExternalID) (tenants d)
      then Inl ErrExternalJobNotFound
      else case getExternalJob d tenantExternalID jobExternalID of
        None \<Rightarrow> Inl ErrExternalJobNotFound
      | Some (_, None) \<Rightarrow> Inl (RepositoryUnavailable ''lock job for cancellation'')
      | Some (_, Some job) \<Rightarrow>
          let i = ej_InternalID job; now = fe_now env;
              reread = (\<lambda>d'. case getExternalJob d' tenantExternalID jobExternalID of
                 Some (_, Some job') \<Rightarrow> Inr job'
               | _ \<Rightarrow> Inl (RepositoryUnavailable ''read cancelled job'')) in
          (case ej_Status job of
             JobStatusQueued \<Rightarrow>
               let d1 = update_jobs (\<lambda>j. jb_id j = i \<and> jb_status j = JobStatusQueued)
                     (\<lambda>j. clear_row_lease (j\<lparr>jb_status := JobStatusCancelled,
                        jb_cancel_requested_at := Some now, jb_completed_at := Some now\<rparr>)) d in
               bind_result (reread d1) (\<lambda>job'.
                 bind_result (insertTerminalWebhookEvent (fe_event_ids env) (fe_window env) now job' d1)
                   (\<lambda>(_, d2). Inr (job', d2)))
           | JobStatusRunning \<Rightarrow>
               let d1 = (if ej_CancelRequested job = None
                     then update_jobs (\<lambda>j. jb_id j = i \<and> jb_status j = JobStatusRunning)
                            (\<lambda>j. j\<lparr>jb_cancel_requested_at := Some now\<rparr>) d
                     else d) in
               bind_result (reread d1) (\<lambda>job'. Inr (job', d1))
           | UnknownStatus _ \<Rightarrow> Inl ErrExternalJobUnavailable
           | _ \<Rightarrow> bind_result (reread d) (\<lambda>job'. Inr (job', d))))"

section \<open>The input of an attempt\<close>

record WorkerBundleInput =
  wb_ObjectKey :: string
  wb_SHA256 :: string
  wb_SizeBytes :: int
  wb_Manifest :: Manifest

record WorkerExecutionInput =
  wi_Language :: string
  wi_SourceCode :: string
  wi_StopOnFailure :: bool
  wi_Bundle :: WorkerBundleInput

definition sourceCiphertextOverheadBytes :: int where "sourceCiphertextOverheadBytes = 16"

text \<open>
  The object store (\<open>fetch\<close>, by key and size bound) and the authenticated decryption (\<open>decrypt\<close>, by
  tenant, source, ciphertext, nonce, key version, digest and size) are arguments.
\<close>

definition LoadClaimInput ::
  "(string \<Rightarrow> int \<Rightarrow> string option)
     \<Rightarrow> (string \<Rightarrow> string \<Rightarrow> string \<Rightarrow> source_row \<Rightarrow> string option)
     \<Rightarrow> WorkerJobClaim \<Rightarrow> int \<Rightarrow> db \<Rightarrow> job_error + WorkerExecutionInput" where
  "LoadClaimInput fetch decrypt claim now d =
     (if \<not> validWorkerClaim claim then Inl (JobState ErrInvalidJobState)
      else case List.find (\<lambda>j. claim_row claim j \<and> lease_after j now) (jobs d) of
        None \<Rightarrow> Inl (JobState ErrStaleJobClaim)
      | Some j \<Rightarrow>
          (case (tenant_of d j, source_of d j, bundle_of d j) of
             (Some t, Some s, Some b) \<Rightarrow>
               if tn_status t \<noteq> ''ACTIVE'' \<or> bd_publication_status b \<noteq> ''READY'' \<or> bd_ready_at b = None
                  \<or> bd_delete_marked_at b \<noteq> None \<or> bd_deleted_at b \<noteq> None
               then Inl (JobState ErrStaleJobClaim)
               else if so_key_version s = 0 \<or> so_key_version s > 65535
               then Inl (RepositoryUnavailable ''load authoritative execution metadata'')
               else (case bundle_manifest d j of
                  None \<Rightarrow> Inl (RepositoryUnavailable ''validate authoritative bundle manifest'')
                | Some m \<Rightarrow>
                    (case decodeTenantPolicy (tn_policy t) of
                       None \<Rightarrow> Inl (RepositoryUnavailable ''enforce authoritative bundle limits'')
                     | Some policy \<Rightarrow>
                         if \<not> manifestWithinExecutionCeilings m (MaxTimeLimitMillis policy) (MaxMemoryLimitMiB policy)
                         then Inl (RepositoryUnavailable ''enforce authoritative bundle limits'')
                         else if length (bd_sha256 b) \<noteq> 32
                         then Inl (RepositoryUnavailable ''validate authoritative bundle digest'')
                         else (case fetch (so_object_key s) (so_size_bytes s + sourceCiphertextOverheadBytes) of
                            None \<Rightarrow> Inl ErrSourceEncryption
                          | Some ciphertext \<Rightarrow>
                              (case decrypt (tn_external_id t) (so_external_id s) ciphertext s of
                                 None \<Rightarrow> Inl ErrSourceEncryption
                               | Some plaintext \<Rightarrow>
                                   Inr \<lparr>wi_Language = jb_language_id j, wi_SourceCode = plaintext,
                                     wi_StopOnFailure = jb_stop_on_failure j,
                                     wi_Bundle = \<lparr>wb_ObjectKey = bd_object_key b,
                                       wb_SHA256 = hex_encode (bd_sha256 b), wb_SizeBytes = bd_size_bytes b,
                                       wb_Manifest = m\<rparr>\<rparr>))))
           | _ \<Rightarrow> Inl (JobState ErrStaleJobClaim)))"

definition LoadClaimSource ::
  "(string \<Rightarrow> int \<Rightarrow> string option)
     \<Rightarrow> (string \<Rightarrow> string \<Rightarrow> string \<Rightarrow> source_row \<Rightarrow> string option)
     \<Rightarrow> WorkerJobClaim \<Rightarrow> int \<Rightarrow> db \<Rightarrow> job_error + string" where
  "LoadClaimSource fetch decrypt claim now d =
     bind_result (LoadClaimInput fetch decrypt claim now d) (\<lambda>input. Inr (wi_SourceCode input))"

end
