(* ===== verification/Job_Ledger.thy ===== *)
theory Job_Ledger
  imports Job_Worker
begin

text \<open>
  The accounting invariant of the job store: the reserved milliseconds of a day are exactly the
  reservations of the attempts that run on it, and only running attempts hold one. The invariant is
  stated on the attempt and daily tables alone; reserving, releasing and renewing preserve it.
\<close>

definition att_key :: "attempt_row \<Rightarrow> nat \<times> 32 word" where
  "att_key a = (at_job_id a, at_attempt_no a)"

definition day_key :: "daily_row \<Rightarrow> nat \<times> int" where
  "day_key r = (dy_tenant_id r, dy_day r)"

definition share :: "nat \<Rightarrow> int \<Rightarrow> attempt_row \<Rightarrow> int" where
  "share tenant day a = (if at_tenant_id a = tenant \<and> at_accounting_day a = Some day then at_reserved a else 0)"

definition reserved_for :: "nat \<Rightarrow> int \<Rightarrow> attempt_row list \<Rightarrow> int" where
  "reserved_for tenant day as = sum_list (map (share tenant day) as)"

definition attempt_funded :: "daily_row list \<Rightarrow> attempt_row \<Rightarrow> bool" where
  "attempt_funded ds a \<longleftrightarrow>
     (if at_status a = AttemptRunning
      then 0 < at_reserved a \<and> at_reserved a \<le> max_int64
        \<and> (\<exists>day. at_accounting_day a = Some day \<and> (at_tenant_id a, day) \<in> day_key ` set ds)
      else at_reserved a = 0)"

definition ledger_inv :: "attempt_row list \<Rightarrow> daily_row list \<Rightarrow> bool" where
  "ledger_inv as ds \<longleftrightarrow>
     distinct (map att_key as) \<and> distinct (map day_key ds)
     \<and> (\<forall>a \<in> set as. attempt_funded ds a)
     \<and> (\<forall>r \<in> set ds. dy_reserved r = reserved_for (dy_tenant_id r) (dy_day r) as \<and> 0 \<le> dy_consumed r)"

lemma daily_row_of_key: "daily_row_of t day r \<longleftrightarrow> day_key r = (t, day)"
  by (auto simp: daily_row_of_def day_key_def)

lemma ledger_invD:
  assumes "ledger_inv as ds"
  shows "distinct (map att_key as)" "distinct (map day_key ds)"
    "a \<in> set as \<Longrightarrow> attempt_funded ds a"
    "r \<in> set ds \<Longrightarrow> dy_reserved r = reserved_for (dy_tenant_id r) (dy_day r) as"
    "r \<in> set ds \<Longrightarrow> 0 \<le> dy_consumed r"
  using assms by (auto simp: ledger_inv_def)

lemma funded_keys: "day_key ` set ds \<subseteq> day_key ` set ds' \<Longrightarrow> attempt_funded ds a \<Longrightarrow> attempt_funded ds' a"
  by (auto simp: attempt_funded_def split: if_splits)

lemma reserved_for_append [simp]:
  "reserved_for t day (as @ [a]) = reserved_for t day as + share t day a"
  by (simp add: reserved_for_def)

lemma reserved_for_update:
  assumes "distinct (map att_key as)" "a \<in> set as" "q a" "\<And>b. b \<in> set as \<Longrightarrow> q b \<Longrightarrow> att_key b = att_key a"
  shows "reserved_for t day (sql_update q g as) = reserved_for t day as - share t day a + share t day (g a)"
  unfolding reserved_for_def by (rule update_one_sum [where k = att_key and p = q, OF assms(1-3)]) (rule assms(4))

text \<open>A day without a row holds no reservation.\<close>

lemma reserved_for_missing:
  assumes "\<And>a. a \<in> set as \<Longrightarrow> attempt_funded ds a" "(t, day) \<notin> day_key ` set ds"
  shows "reserved_for t day as = 0"
proof -
  have "share t day a = 0" if "a \<in> set as" for a
    using assms(1) [OF that] assms(2) by (auto simp: share_def attempt_funded_def split: if_splits)
  then have "map (share t day) as = map (\<lambda>_. 0) as" by simp
  then show ?thesis unfolding reserved_for_def by (simp del: map_eq_conv)
qed

section \<open>Moves\<close>

lemma ledger_ensure:
  assumes "ledger_inv as (daily d)"
  shows "ledger_inv as (daily (ensure_daily t day d))"
proof (cases "sql_exists (daily_row_of t day) (daily d)")
  case True
  then show ?thesis using assms by (simp add: ensure_daily_def)
next
  case False
  let ?r = "\<lparr>dy_tenant_id = t, dy_day = day, dy_reserved = 0, dy_consumed = 0\<rparr>"
  have miss: "(t, day) \<notin> day_key ` set (daily d)"
    using False by (auto simp: sql_exists_iff daily_row_of_key)
  have eq: "daily (ensure_daily t day d) = daily d @ [?r]"
    using False by (simp add: ensure_daily_def)
  have key: "day_key ?r = (t, day)" by (simp add: day_key_def)
  note inv = ledger_invD [OF assms]
  have "reserved_for t day as = 0" by (rule reserved_for_missing [OF inv(3) miss])
  moreover have "attempt_funded (daily d @ [?r]) a" if "a \<in> set as" for a
    by (rule funded_keys [OF _ inv(3) [OF that]]) auto
  ultimately show ?thesis
    unfolding ledger_inv_def eq using inv miss key by auto
qed

text \<open>Adding a reservation to the row of a day together with the attempt that holds it.\<close>

lemma ledger_acquire:
  assumes inv: "ledger_inv as ds" and m: "0 < m" "m \<le> max_int64" and fresh: "att_key a \<notin> att_key ` set as"
    and a: "at_status a = AttemptRunning" "at_tenant_id a = t" "at_accounting_day a = Some day" "at_reserved a = m"
    and row: "(t, day) \<in> day_key ` set ds"
  shows "ledger_inv (as @ [a])
    (sql_update (daily_row_of t day) (\<lambda>r. r\<lparr>dy_reserved := dy_reserved r + m\<rparr>) ds)"
proof -
  let ?f = "\<lambda>r. r\<lparr>dy_reserved := dy_reserved r + m\<rparr>" and ?p = "daily_row_of t day"
  note I = ledger_invD [OF inv]
  have keys: "map day_key (sql_update ?p ?f ds) = map day_key ds"
    by (rule map_sql_update) (simp add: day_key_def)
  then have kset: "day_key ` set (sql_update ?p ?f ds) = day_key ` set ds"
    by (rule map_eq_image)
  have "attempt_funded (sql_update ?p ?f ds) b" if "b \<in> set (as @ [a])" for b
  proof (cases "b = a")
    case True
    then show ?thesis using a m row kset by (simp add: attempt_funded_def)
  next
    case False
    then show ?thesis using that funded_keys [OF _ I(3)] kset by auto
  qed
  moreover have "dy_reserved r = reserved_for (dy_tenant_id r) (dy_day r) (as @ [a]) \<and> 0 \<le> dy_consumed r"
    if r: "r \<in> set (sql_update ?p ?f ds)" for r
  proof -
    from r obtain s where s: "s \<in> set ds" "r = (if ?p s then ?f s else s)" by (rule mem_sql_updateE)
    then show ?thesis using I(4,5) [OF s(1)] a
      by (auto simp: share_def daily_row_of_def)
  qed
  ultimately show ?thesis
    unfolding ledger_inv_def using I(1,2) keys fresh by simp
qed

text \<open>Settling an attempt: its reservation leaves the day, part of it becomes consumption.\<close>

lemma ledger_release:
  assumes inv: "ledger_inv as ds"
    and a: "a \<in> set as" "at_tenant_id a = t" "at_accounting_day a = Some day" "at_reserved a = m"
    and q: "q a" "\<And>b. b \<in> set as \<Longrightarrow> q b \<Longrightarrow> att_key b = att_key a"
    and g: "\<And>b. att_key (g b) = att_key b" "\<And>b. at_tenant_id (g b) = at_tenant_id b"
      "\<And>b. at_accounting_day (g b) = at_accounting_day b" "\<And>b. at_reserved (g b) = 0"
      "\<And>b. at_status (g b) \<noteq> AttemptRunning"
    and c: "0 \<le> c"
    and hit: "sql_affected (\<lambda>r. daily_row_of t day r \<and> dy_reserved r \<ge> m)
      (\<lambda>r. r\<lparr>dy_reserved := dy_reserved r - m, dy_consumed := dy_consumed r + c\<rparr>) ds = 1"
  shows "ledger_inv (sql_update q g as)
    (sql_update (\<lambda>r. daily_row_of t day r \<and> dy_reserved r \<ge> m)
      (\<lambda>r. r\<lparr>dy_reserved := dy_reserved r - m, dy_consumed := dy_consumed r + c\<rparr>) ds)"
proof -
  let ?p = "\<lambda>r. daily_row_of t day r \<and> dy_reserved r \<ge> m"
    and ?f = "\<lambda>r. r\<lparr>dy_reserved := dy_reserved r - m, dy_consumed := dy_consumed r + c\<rparr>"
  note I = ledger_invD [OF inv]
  have keys: "map day_key (sql_update ?p ?f ds) = map day_key ds"
    by (rule map_sql_update) (simp add: day_key_def)
  then have kset: "day_key ` set (sql_update ?p ?f ds) = day_key ` set ds"
    by (rule map_eq_image)
  have akeys: "map att_key (sql_update q g as) = map att_key as"
    by (rule map_sql_update) (rule g(1))
  from hit obtain r0 where r0: "r0 \<in> set ds" "?p r0" by (rule affected_one_obtain)
  have res: "reserved_for T D (sql_update q g as) = reserved_for T D as - share T D a" for T D
  proof -
    have "reserved_for T D (sql_update q g as) = reserved_for T D as - share T D a + share T D (g a)"
      by (rule reserved_for_update [where q = q, OF I(1) a(1) q(1)]) (rule q(2))
    then show ?thesis using g(4) by (simp add: share_def)
  qed
  have "attempt_funded (sql_update ?p ?f ds) b" if b: "b \<in> set (sql_update q g as)" for b
  proof -
    from b obtain e where e: "e \<in> set as" "b = (if q e then g e else e)" by (rule mem_sql_updateE)
    show ?thesis
    proof (cases "q e")
      case True
      then show ?thesis using e g(4,5) by (simp add: attempt_funded_def)
    next
      case False
      then show ?thesis using e funded_keys [OF _ I(3) [OF e(1)]] kset by simp
    qed
  qed
  moreover have "dy_reserved r = reserved_for (dy_tenant_id r) (dy_day r) (sql_update q g as) \<and> 0 \<le> dy_consumed r"
    if r: "r \<in> set (sql_update ?p ?f ds)" for r
  proof -
    from r obtain s where s: "s \<in> set ds" "r = (if ?p s then ?f s else s)" by (rule mem_sql_updateE)
    show ?thesis
    proof (cases "daily_row_of t day s")
      case True
      then have "s = r0"
        using distinct_key_unique [OF I(2) s(1) r0(1)] r0(2) by (simp add: daily_row_of_key)
      then show ?thesis
        using s r0 I(4,5) [OF s(1)] True a c unfolding res by (simp add: share_def daily_row_of_def)
    next
      case False
      then have "share (dy_tenant_id s) (dy_day s) a = 0"
        using a by (auto simp: share_def daily_row_of_def)
      then show ?thesis using s False I(4,5) [OF s(1)] unfolding res by simp
    qed
  qed
  ultimately show ?thesis
    unfolding ledger_inv_def keys akeys using I(1,2) by blast
qed

lemma ledger_renew:
  assumes inv: "ledger_inv as ds"
    and g: "\<And>b. att_key (g b) = att_key b" "\<And>b. at_tenant_id (g b) = at_tenant_id b"
      "\<And>b. at_accounting_day (g b) = at_accounting_day b" "\<And>b. at_reserved (g b) = at_reserved b"
      "\<And>b. at_status (g b) = at_status b"
  shows "ledger_inv (sql_update q g as) ds"
proof -
  have "share T D (g b) = share T D b" for T D b using g by (simp add: share_def)
  then have "reserved_for T D (sql_update q g as) = reserved_for T D as" for T D
    by (simp add: reserved_for_def sql_update_def comp_def if_distrib cong: if_cong)
  moreover have "map att_key (sql_update q g as) = map att_key as"
    by (rule map_sql_update) (rule g(1))
  moreover have "attempt_funded ds (g b) = attempt_funded ds b" for b
    using g by (simp add: attempt_funded_def)
  ultimately show ?thesis
    using inv by (auto simp: ledger_inv_def set_sql_update)
qed

section \<open>Consumption never exceeds the reservation\<close>

lemma capped_exact:
  assumes "0 \<le> used" "reservation \<le> max_int64" "used \<le> reservation"
    "\<And>i. i \<in> set items \<Longrightarrow> 0 \<le> dc_TimeMillis i"
  shows "capped_from reservation used items = min reservation (used + sum_list (map dc_TimeMillis items))"
  using assms
proof (induction items arbitrary: used)
  case (Cons i items)
  have w: "wrap64 (reservation - used) = reservation - used"
    using Cons.prems by (intro wrap64_id) (simp add: in_int64_def max_int64_def)
  have nn: "0 \<le> dc_TimeMillis i" "0 \<le> sum_list (map dc_TimeMillis items)"
    using Cons.prems(4) by (auto intro!: sum_list_nonneg)
  show ?case
  proof (cases "dc_TimeMillis i \<ge> reservation - used")
    case True
    then show ?thesis using w nn by simp
  next
    case False
    then have "wrap64 (used + dc_TimeMillis i) = used + dc_TimeMillis i"
      using Cons.prems(1-3) nn(1) by (intro wrap64_id) (simp add: in_int64_def max_int64_def)
    moreover have "capped_from reservation (used + dc_TimeMillis i) items
        = min reservation (used + dc_TimeMillis i + sum_list (map dc_TimeMillis items))"
      by (rule Cons.IH) (use Cons.prems False nn in auto)
    ultimately show ?thesis using False w by (simp add: add.assoc)
  qed
qed simp

lemma cappedCaseExecutionMillis_exact:
  assumes "0 < reservation" "reservation \<le> max_int64" "\<And>i. i \<in> set items \<Longrightarrow> 0 \<le> dc_TimeMillis i"
  shows "cappedCaseExecutionMillis items reservation = min reservation (sum_list (map dc_TimeMillis items))"
  using capped_exact [of 0 reservation items] assms by (simp add: cappedCaseExecutionMillis_def)

lemma cappedCaseExecutionMillis_bounds:
  assumes "0 < reservation" "reservation \<le> max_int64" "\<And>i. i \<in> set items \<Longrightarrow> 0 \<le> dc_TimeMillis i"
  shows "0 \<le> cappedCaseExecutionMillis items reservation"
    "cappedCaseExecutionMillis items reservation \<le> reservation"
proof -
  have "0 \<le> sum_list (map dc_TimeMillis items)" using assms(3) by (auto intro!: sum_list_nonneg)
  then show "0 \<le> cappedCaseExecutionMillis items reservation"
    "cappedCaseExecutionMillis items reservation \<le> reservation"
    using cappedCaseExecutionMillis_exact [OF assms] assms(1) by simp_all
qed

end
