(* ===== verification/Job_Lease.thy ===== *)
theory Job_Lease
  imports Job_Ledger
begin

text \<open>
  The other invariants of the job store, each on the tables it concerns: every job row is
  well-formed (\<open>rows_ok\<close>), a running job is held by exactly one running attempt with the same worker,
  token and lease (\<open>lease_inv\<close>), and a terminal job with a callback has exactly one event in the
  outbox (\<open>outbox_inv\<close>). The set \<open>X\<close> names jobs in the middle of a transaction: their attempt is
  already settled, or their event not yet written. Each invariant comes with its moves.
\<close>

section \<open>Rows\<close>

definition row_terminal :: "job_row \<Rightarrow> bool" where
  "row_terminal j \<longleftrightarrow> jb_status j \<in> {JobStatusSucceeded, JobStatusFailed, JobStatusCancelled}"

definition row_ok :: "job_row \<Rightarrow> bool" where
  "row_ok j \<longleftrightarrow>
     (\<forall>s. jb_status j \<noteq> UnknownStatus s)
     \<and> (if jb_status j = JobStatusRunning
        then jb_worker_id j \<noteq> None \<and> jb_lease_token j \<noteq> None \<and> jb_lease_until j \<noteq> None
          \<and> 0 < jb_attempt_no j \<and> jb_started_at j \<noteq> None
        else jb_worker_id j = None \<and> jb_lease_token j = None \<and> jb_lease_until j = None)
     \<and> (jb_completed_at j \<noteq> None \<longleftrightarrow> row_terminal j)
     \<and> (jb_result j = None \<longleftrightarrow> jb_status j \<noteq> JobStatusSucceeded)
     \<and> (\<forall>r. jb_result j = Some r \<longrightarrow> validateDurableJobResult r)
     \<and> (jb_failure_code j = None \<longleftrightarrow> jb_status j \<noteq> JobStatusFailed)
     \<and> (\<forall>c. jb_failure_code j = Some c \<longrightarrow> infrastructureCodePattern c)
     \<and> (jb_status j = JobStatusCancelled \<longrightarrow> jb_cancel_requested_at j \<noteq> None)
     \<and> (jb_status j \<in> {JobStatusQueued, JobStatusSucceeded} \<longrightarrow> jb_cancel_requested_at j = None)"

definition rows_ok :: "job_row list \<Rightarrow> bool" where
  "rows_ok js \<longleftrightarrow> distinct (map jb_id js) \<and> (\<forall>j \<in> set js. row_ok j)"

text \<open>What a job row says about leases and outcomes, leaving aside when it is next due.\<close>

definition job_core :: "job_row \<Rightarrow> job_row" where
  "job_core j = j\<lparr>jb_next_attempt_at := 0\<rparr>"

lemma job_core_simps [simp]:
  "jb_id (job_core j) = jb_id j" "jb_status (job_core j) = jb_status j"
  "jb_tenant_id (job_core j) = jb_tenant_id j" "jb_attempt_no (job_core j) = jb_attempt_no j"
  "jb_worker_id (job_core j) = jb_worker_id j" "jb_lease_token (job_core j) = jb_lease_token j"
  "jb_lease_until (job_core j) = jb_lease_until j" "jb_callback_id (job_core j) = jb_callback_id j"
  "jb_result (job_core j) = jb_result j" "jb_started_at (job_core j) = jb_started_at j"
  "jb_cancel_requested_at (job_core j) = jb_cancel_requested_at j"
  "row_ok (job_core j) = row_ok j" "row_terminal (job_core j) = row_terminal j"
  by (simp_all add: job_core_def row_ok_def row_terminal_def)

section \<open>Leases\<close>

definition held_by :: "job_row \<Rightarrow> attempt_row \<Rightarrow> bool" where
  "held_by j a \<longleftrightarrow>
     jb_status j = JobStatusRunning \<and> jb_attempt_no j = at_attempt_no a
     \<and> jb_worker_id j = Some (at_worker_id a) \<and> jb_lease_token j = at_lease_token a
     \<and> jb_lease_until j = Some (at_lease_until a)"

definition attempt_ok :: "nat set \<Rightarrow> job_row list \<Rightarrow> attempt_row \<Rightarrow> bool" where
  "attempt_ok X js a \<longleftrightarrow>
     (\<exists>j \<in> set js. jb_id j = at_job_id a \<and> jb_tenant_id j = at_tenant_id a
        \<and> unat (at_attempt_no a) \<le> unat (jb_attempt_no j)
        \<and> (at_status a = AttemptRunning \<longrightarrow> jb_id j \<notin> X \<and> held_by j a))"

definition lease_inv :: "nat set \<Rightarrow> job_row list \<Rightarrow> attempt_row list \<Rightarrow> bool" where
  "lease_inv X js as \<longleftrightarrow>
     (\<forall>a \<in> set as. attempt_ok X js a)
     \<and> (\<forall>j \<in> set js. jb_status j = JobStatusRunning \<and> jb_id j \<notin> X \<longrightarrow>
          (\<exists>a \<in> set as. at_status a = AttemptRunning \<and> at_job_id a = jb_id j))"

lemma lease_invD:
  assumes "lease_inv X js as"
  shows "a \<in> set as \<Longrightarrow> attempt_ok X js a"
    "j \<in> set js \<Longrightarrow> jb_status j = JobStatusRunning \<Longrightarrow> jb_id j \<notin> X \<Longrightarrow>
       \<exists>a \<in> set as. at_status a = AttemptRunning \<and> at_job_id a = jb_id j"
  using assms by (auto simp: lease_inv_def)

lemma lease_inv_core:
  assumes "map job_core js = map job_core js'"
  shows "lease_inv X js as = lease_inv X js' as"
proof -
  have img: "job_core ` set js = job_core ` set js'" by (rule map_eq_image [OF assms])
  have ok: "attempt_ok X js a \<longleftrightarrow> (\<exists>j \<in> job_core ` set js. jb_id j = at_job_id a
      \<and> jb_tenant_id j = at_tenant_id a \<and> unat (at_attempt_no a) \<le> unat (jb_attempt_no j)
      \<and> (at_status a = AttemptRunning \<longrightarrow> jb_id j \<notin> X \<and> held_by j a))" for a js
    by (simp add: attempt_ok_def held_by_def)
  have run: "(\<forall>j \<in> set js. P (jb_status j) (jb_id j)) \<longleftrightarrow> (\<forall>j \<in> job_core ` set js. P (jb_status j) (jb_id j))"
    for P and js
    by simp
  show ?thesis
    unfolding lease_inv_def ok
    using run [of js "\<lambda>s i. s = JobStatusRunning \<and> i \<notin> X \<longrightarrow> (\<exists>a \<in> set as. at_status a = AttemptRunning \<and> at_job_id a = i)"]
      run [of js' "\<lambda>s i. s = JobStatusRunning \<and> i \<notin> X \<longrightarrow> (\<exists>a \<in> set as. at_status a = AttemptRunning \<and> at_job_id a = i)"]
    unfolding img by blast
qed

lemma job_by_id:
  assumes "distinct (map jb_id js)" "j \<in> set js" "j' \<in> set js" "jb_id j = jb_id j'"
  shows "j = j'"
  by (rule distinct_key_unique [OF assms])

text \<open>The running attempt of a held job is the one with the job's attempt number.\<close>

lemma running_attempt_held:
  assumes "lease_inv X js as" "distinct (map jb_id js)" "a \<in> set as" "at_status a = AttemptRunning"
    "j \<in> set js" "jb_id j = at_job_id a"
  shows "held_by j a \<and> jb_tenant_id j = at_tenant_id a \<and> jb_id j \<notin> X"
  using lease_invD(1) [OF assms(1,3)] job_by_id [OF assms(2) _ assms(5)] assms(4,6)
  by (auto simp: attempt_ok_def)

text \<open>M1: an attempt stops running; its job is in transition.\<close>

lemma lease_settle:
  assumes inv: "lease_inv {} js as" and dj: "distinct (map jb_id js)"
    and j: "j \<in> set js"
    and q: "\<And>b. b \<in> set as \<Longrightarrow> at_status b = AttemptRunning \<Longrightarrow> at_job_id b = jb_id j \<Longrightarrow> q b"
      "\<And>b. b \<in> set as \<Longrightarrow> q b \<Longrightarrow> at_job_id b = jb_id j"
    and g: "\<And>b. at_job_id (g b) = at_job_id b" "\<And>b. at_tenant_id (g b) = at_tenant_id b"
      "\<And>b. at_attempt_no (g b) = at_attempt_no b" "\<And>b. at_status (g b) \<noteq> AttemptRunning"
  shows "lease_inv {jb_id j} js (sql_update q g as)"
proof -
  have "attempt_ok {jb_id j} js b" if b: "b \<in> set (sql_update q g as)" for b
  proof -
    from b obtain e where e: "e \<in> set as" "b = (if q e then g e else e)" by (rule mem_sql_updateE)
    note ok = lease_invD(1) [OF inv e(1)]
    show ?thesis
    proof (cases "q e")
      case True
      then have "b = g e" using e by simp
      then show ?thesis using ok g unfolding attempt_ok_def by auto
    next
      case False
      then have "\<not> (at_status e = AttemptRunning \<and> at_job_id e = jb_id j)" using q(1) e(1) by blast
      then show ?thesis using e False ok by (auto simp: attempt_ok_def)
    qed
  qed
  moreover have "\<exists>a \<in> set (sql_update q g as). at_status a = AttemptRunning \<and> at_job_id a = jb_id k"
    if k: "k \<in> set js" "jb_status k = JobStatusRunning" "jb_id k \<noteq> jb_id j" for k
  proof -
    obtain e where e: "e \<in> set as" "at_status e = AttemptRunning" "at_job_id e = jb_id k"
      using lease_invD(2) [OF inv k(1,2)] by blast
    then have "\<not> q e" using q(2) k(3) by auto
    with mem_sql_updateI [OF e(1), of q g] e show ?thesis by (intro bexI [of _ e]) auto
  qed
  ultimately show ?thesis by (simp add: lease_inv_def)
qed

text \<open>M2: the job in transition stops running.\<close>

lemma lease_leave:
  assumes inv: "lease_inv {i} js as"
    and p: "\<And>k. k \<in> set js \<Longrightarrow> p k \<Longrightarrow> jb_id k = i"
    and hit: "\<And>k. k \<in> set js \<Longrightarrow> jb_id k = i \<Longrightarrow> jb_status k = JobStatusRunning \<Longrightarrow> p k"
    and f: "\<And>k. jb_id (f k) = jb_id k" "\<And>k. jb_tenant_id (f k) = jb_tenant_id k"
      "\<And>k. jb_attempt_no (f k) = jb_attempt_no k"
      "\<And>k. k \<in> set js \<Longrightarrow> p k \<Longrightarrow> jb_status (f k) \<noteq> JobStatusRunning"
  shows "lease_inv {} (sql_update p f js) as"
proof -
  have "attempt_ok {} (sql_update p f js) a" if a: "a \<in> set as" for a
  proof -
    obtain k where k: "k \<in> set js" "jb_id k = at_job_id a" "jb_tenant_id k = at_tenant_id a"
      "unat (at_attempt_no a) \<le> unat (jb_attempt_no k)"
      "at_status a = AttemptRunning \<longrightarrow> jb_id k \<noteq> i \<and> held_by k a"
      using lease_invD(1) [OF inv a] by (auto simp: attempt_ok_def)
    have "\<not> (at_status a = AttemptRunning \<and> p k)" using k(5) p [OF k(1)] by blast
    then show ?thesis
      using k f mem_sql_updateI [OF k(1), of p f]
      unfolding attempt_ok_def by (intro bexI [of _ "if p k then f k else k"]) auto
  qed
  moreover have "\<exists>a \<in> set as. at_status a = AttemptRunning \<and> at_job_id a = jb_id k"
    if k: "k \<in> set (sql_update p f js)" "jb_status k = JobStatusRunning" for k
  proof -
    from k(1) obtain s where s: "s \<in> set js" "k = (if p s then f s else s)" by (rule mem_sql_updateE)
    then have "k = s" "\<not> p s" using k(2) f(4) [OF s(1)] by auto
    moreover have "jb_id s \<noteq> i" using hit [OF s(1)] \<open>\<not> p s\<close> k(2) \<open>k = s\<close> by auto
    ultimately show ?thesis using lease_invD(2) [OF inv s(1)] k(2) by auto
  qed
  ultimately show ?thesis by (simp add: lease_inv_def)
qed

text \<open>M3: a job that no attempt holds is claimed with a new attempt.\<close>

lemma lease_claim:
  assumes inv: "lease_inv X js as" and X: "X \<subseteq> {jb_id j}" and dj: "distinct (map jb_id js)"
    and j: "j \<in> set js" "p j" "jb_status j = JobStatusRunning \<Longrightarrow> jb_id j \<in> X"
    and p: "\<And>k. k \<in> set js \<Longrightarrow> p k \<Longrightarrow> jb_id k = jb_id j"
    and f: "jb_id (f j) = jb_id j" "jb_tenant_id (f j) = jb_tenant_id j"
      "unat (jb_attempt_no j) \<le> unat (jb_attempt_no (f j))"
    and a: "at_status a = AttemptRunning" "at_job_id a = jb_id j" "at_tenant_id a = jb_tenant_id j" "held_by (f j) a"
  shows "lease_inv {} (sql_update p f js) (as @ [a])"
proof -
  have only: "k = j" if "k \<in> set js" "p k" for k
    using job_by_id [OF dj that(1) j(1)] p [OF that] by simp
  have none: "\<not> (at_status b = AttemptRunning \<and> at_job_id b = jb_id j)" if "b \<in> set as" for b
    using running_attempt_held [OF inv dj that _ j(1)] j(3) by (auto simp: held_by_def)
  have fj: "f j \<in> set (sql_update p f js)"
    using mem_sql_updateI [OF j(1), of p f] j(2) by simp
  have "attempt_ok {} (sql_update p f js) b" if b: "b \<in> set (as @ [a])" for b
  proof (cases "b \<in> set as")
    case True
    obtain k where k: "k \<in> set js" "jb_id k = at_job_id b" "jb_tenant_id k = at_tenant_id b"
      "unat (at_attempt_no b) \<le> unat (jb_attempt_no k)" "at_status b = AttemptRunning \<longrightarrow> held_by k b"
      using lease_invD(1) [OF inv True] by (auto simp: attempt_ok_def)
    show ?thesis
    proof (cases "p k")
      case True
      then have "k = j" using only k(1) by simp
      then show ?thesis
        using k f none [OF \<open>b \<in> set as\<close>] fj unfolding attempt_ok_def by (intro bexI [OF _ fj]) auto
    next
      case False
      then show ?thesis
        using k mem_sql_updateI [OF k(1), of p f] unfolding attempt_ok_def by (intro bexI [of _ k]) auto
    qed
  next
    case False
    then have "b = a" using b by simp
    then show ?thesis
      using a f fj unfolding attempt_ok_def by (intro bexI [OF _ fj]) (auto simp: held_by_def)
  qed
  moreover have "\<exists>b \<in> set (as @ [a]). at_status b = AttemptRunning \<and> at_job_id b = jb_id k"
    if k: "k \<in> set (sql_update p f js)" "jb_status k = JobStatusRunning" for k
  proof (cases "jb_id k = jb_id j")
    case True
    then show ?thesis using a by auto
  next
    case False
    from k(1) obtain s where s: "s \<in> set js" "k = (if p s then f s else s)" by (rule mem_sql_updateE)
    then have "\<not> p s" using False only [OF s(1)] f(1) by auto
    then show ?thesis using lease_invD(2) [OF inv s(1)] s k(2) False X by auto
  qed
  ultimately show ?thesis by (simp add: lease_inv_def)
qed

text \<open>M4: a heartbeat moves the lease of a job and of its attempt together.\<close>

lemma lease_renew:
  assumes inv: "lease_inv {} js as" and dj: "distinct (map jb_id js)"
    and j: "j \<in> set js" "p j" and p: "\<And>k. k \<in> set js \<Longrightarrow> p k \<Longrightarrow> jb_id k = jb_id j"
    and q: "\<And>b. b \<in> set as \<Longrightarrow> q b \<longleftrightarrow> at_status b = AttemptRunning \<and> at_job_id b = jb_id j"
  shows "lease_inv {} (sql_update p (\<lambda>k. k\<lparr>jb_lease_until := Some l\<rparr>) js)
    (sql_update q (\<lambda>b. b\<lparr>at_lease_until := l\<rparr>) as)"
proof -
  let ?f = "\<lambda>k. k\<lparr>jb_lease_until := Some l\<rparr>" and ?g = "\<lambda>b. b\<lparr>at_lease_until := l\<rparr>"
  have pj: "p k \<longleftrightarrow> k = j" if "k \<in> set js" for k
    using job_by_id [OF dj that j(1)] p [OF that] j(2) by auto
  have "attempt_ok {} (sql_update p ?f js) b" if b: "b \<in> set (sql_update q ?g as)" for b
  proof -
    from b obtain e where e: "e \<in> set as" "b = (if q e then ?g e else e)" by (rule mem_sql_updateE)
    obtain k where k: "k \<in> set js" "jb_id k = at_job_id e" "jb_tenant_id k = at_tenant_id e"
      "unat (at_attempt_no e) \<le> unat (jb_attempt_no k)" "at_status e = AttemptRunning \<longrightarrow> held_by k e"
      using lease_invD(1) [OF inv e(1)] by (auto simp: attempt_ok_def)
    have "at_status e = AttemptRunning \<longrightarrow> q e = p k"
      using q [OF e(1)] pj [OF k(1)] k(2) job_by_id [OF dj k(1) j(1)] by auto
    then show ?thesis
      using k e mem_sql_updateI [OF k(1), of p ?f] unfolding attempt_ok_def
      by (intro bexI [of _ "if p k then ?f k else k"]) (auto simp: held_by_def)
  qed
  moreover have "\<exists>b \<in> set (sql_update q ?g as). at_status b = AttemptRunning \<and> at_job_id b = jb_id k"
    if k: "k \<in> set (sql_update p ?f js)" "jb_status k = JobStatusRunning" for k
  proof -
    from k(1) obtain s where s: "s \<in> set js" "k = (if p s then ?f s else s)" by (rule mem_sql_updateE)
    then obtain e where e: "e \<in> set as" "at_status e = AttemptRunning" "at_job_id e = jb_id k"
      using lease_invD(2) [OF inv s(1)] k(2) by (auto split: if_splits)
    from mem_sql_updateI [OF e(1), of q ?g] e show ?thesis
      by (intro bexI [of _ "if q e then ?g e else e"]) auto
  qed
  ultimately show ?thesis by (simp add: lease_inv_def)
qed

section \<open>Job rows under updates\<close>

lemma rows_ok_core:
  assumes "map job_core js = map job_core js'"
  shows "rows_ok js = rows_ok js'"
proof -
  have "map jb_id js = map jb_id js'"
    using arg_cong [OF assms, of "map jb_id"] by (simp add: comp_def)
  moreover have "(\<forall>j \<in> set ks. row_ok j) \<longleftrightarrow> (\<forall>j \<in> job_core ` set ks. row_ok j)" for ks by simp
  ultimately show ?thesis
    unfolding rows_ok_def using map_eq_image [OF assms] by metis
qed

lemma rows_ok_update:
  assumes "rows_ok js" "\<And>k. jb_id (f k) = jb_id k" "\<And>k. k \<in> set js \<Longrightarrow> p k \<Longrightarrow> row_ok (f k)"
  shows "rows_ok (sql_update p f js)"
proof -
  have "map jb_id (sql_update p f js) = map jb_id js" by (rule map_sql_update) (rule assms(2))
  with assms(1,3) show ?thesis by (auto simp: rows_ok_def set_sql_update)
qed

section \<open>The outbox\<close>

definition event_ok :: "job_row list \<Rightarrow> outbox_row \<Rightarrow> bool" where
  "event_ok js e \<longleftrightarrow>
     (\<exists>j \<in> set js. jb_id j = ob_job_id e \<and> row_terminal j \<and> jb_callback_id j = Some (ob_callback_id e)
        \<and> jb_tenant_id j = ob_tenant_id e
        \<and> pl_Status (ob_payload e) = jb_status j \<and> pl_Result (ob_payload e) = jb_result j)"

definition outbox_inv :: "nat set \<Rightarrow> job_row list \<Rightarrow> outbox_row list \<Rightarrow> bool" where
  "outbox_inv X js es \<longleftrightarrow>
     distinct (map ob_job_id es) \<and> distinct (map ob_event_id es)
     \<and> (\<forall>e \<in> set es. event_ok js e)
     \<and> (\<forall>j \<in> set js. row_terminal j \<and> jb_callback_id j \<noteq> None \<and> jb_id j \<notin> X \<longrightarrow>
          (\<exists>e \<in> set es. ob_job_id e = jb_id j))"

lemma outbox_invD:
  assumes "outbox_inv X js es"
  shows "distinct (map ob_job_id es)" "distinct (map ob_event_id es)" "e \<in> set es \<Longrightarrow> event_ok js e"
    "j \<in> set js \<Longrightarrow> row_terminal j \<Longrightarrow> jb_callback_id j \<noteq> None \<Longrightarrow> jb_id j \<notin> X \<Longrightarrow>
       \<exists>e \<in> set es. ob_job_id e = jb_id j"
  using assms by (auto simp: outbox_inv_def)

lemma outbox_inv_core:
  assumes "map job_core js = map job_core js'"
  shows "outbox_inv X js es = outbox_inv X js' es"
proof -
  have img: "job_core ` set js = job_core ` set js'" by (rule map_eq_image [OF assms])
  have ok: "event_ok ks e \<longleftrightarrow> (\<exists>j \<in> job_core ` set ks. jb_id j = ob_job_id e \<and> row_terminal j
      \<and> jb_callback_id j = Some (ob_callback_id e) \<and> jb_tenant_id j = ob_tenant_id e
      \<and> pl_Status (ob_payload e) = jb_status j \<and> pl_Result (ob_payload e) = jb_result j)" for ks e
    by (simp add: event_ok_def)
  have all: "(\<forall>j \<in> set ks. row_terminal j \<and> jb_callback_id j \<noteq> None \<and> jb_id j \<notin> X \<longrightarrow> P (jb_id j)) \<longleftrightarrow>
      (\<forall>j \<in> job_core ` set ks. row_terminal j \<and> jb_callback_id j \<noteq> None \<and> jb_id j \<notin> X \<longrightarrow> P (jb_id j))"
    for ks P
    by simp
  show ?thesis
    unfolding outbox_inv_def ok
    using all [of js "\<lambda>i. \<exists>e \<in> set es. ob_job_id e = i"] all [of js' "\<lambda>i. \<exists>e \<in> set es. ob_job_id e = i"]
    unfolding img by blast
qed

text \<open>O1: a live job changes, possibly into a terminal one.\<close>

lemma outbox_update:
  assumes inv: "outbox_inv {} js es"
    and p: "\<And>k. k \<in> set js \<Longrightarrow> p k \<Longrightarrow> \<not> row_terminal k \<and> (row_terminal (f k) \<longrightarrow> jb_id k \<in> X)"
    and f: "\<And>k. jb_id (f k) = jb_id k"
  shows "outbox_inv X (sql_update p f js) es"
proof -
  have "event_ok (sql_update p f js) e" if e: "e \<in> set es" for e
  proof -
    obtain j where j: "j \<in> set js" "jb_id j = ob_job_id e" "row_terminal j"
      "jb_callback_id j = Some (ob_callback_id e)" "jb_tenant_id j = ob_tenant_id e"
      "pl_Status (ob_payload e) = jb_status j" "pl_Result (ob_payload e) = jb_result j"
      using outbox_invD(3) [OF inv e] by (auto simp: event_ok_def)
    then have "\<not> p j" using p by blast
    with mem_sql_updateI [OF j(1), of p f] j show ?thesis
      unfolding event_ok_def by (intro bexI [of _ j]) auto
  qed
  moreover have "\<exists>e \<in> set es. ob_job_id e = jb_id k"
    if k: "k \<in> set (sql_update p f js)" "row_terminal k" "jb_callback_id k \<noteq> None" "jb_id k \<notin> X" for k
  proof -
    from k(1) obtain s where s: "s \<in> set js" "k = (if p s then f s else s)" by (rule mem_sql_updateE)
    have "\<not> p s"
    proof
      assume "p s"
      with s have "k = f s" by simp
      with p [OF s(1) \<open>p s\<close>] k(2,4) f show False by simp
    qed
    with s k show ?thesis using outbox_invD(4) [OF inv s(1)] by simp
  qed
  ultimately show ?thesis
    using outbox_invD(1,2) [OF inv] by (simp add: outbox_inv_def)
qed

text \<open>O2: the event of a terminal job is written.\<close>

lemma outbox_insert:
  assumes inv: "outbox_inv {i} js es" and j: "j \<in> set js" "jb_id j = i" "row_terminal j"
    and e: "ob_job_id e = i" "ob_callback_id e = c" "jb_callback_id j = Some c" "ob_tenant_id e = jb_tenant_id j"
      "pl_Status (ob_payload e) = jb_status j" "pl_Result (ob_payload e) = jb_result j"
    and fresh: "i \<notin> ob_job_id ` set es" "ob_event_id e \<notin> ob_event_id ` set es"
  shows "outbox_inv {} js (es @ [e])"
proof -
  have "event_ok js e" using j e unfolding event_ok_def by auto
  moreover have "\<exists>x \<in> set (es @ [e]). ob_job_id x = jb_id k"
    if k: "k \<in> set js" "row_terminal k" "jb_callback_id k \<noteq> None" for k
  proof (cases "jb_id k = i")
    case False
    then show ?thesis using outbox_invD(4) [OF inv k] by auto
  qed (use e in simp)
  ultimately show ?thesis
    using outbox_invD(1-3) [OF inv] fresh e(1) by (auto simp: outbox_inv_def)
qed

lemma outbox_present:
  assumes inv: "outbox_inv {i} js es"
    and "\<And>k. k \<in> set js \<Longrightarrow> jb_id k = i \<Longrightarrow> jb_callback_id k \<noteq> None \<Longrightarrow> i \<in> ob_job_id ` set es"
  shows "outbox_inv {} js es"
proof -
  have "\<exists>e \<in> set es. ob_job_id e = jb_id k"
    if k: "k \<in> set js" "row_terminal k" "jb_callback_id k \<noteq> None" for k
    using outbox_invD(4) [OF inv k] assms(2) [OF k(1) _ k(3)] by (cases "jb_id k = i") force+
  then show ?thesis using outbox_invD(1-3) [OF inv] by (simp add: outbox_inv_def)
qed

end
