(* ===== verification/Job_Invariant.thy ===== *)
theory Job_Invariant
  imports Job_Lease
begin

text \<open>
  Every transaction of the job repository preserves the invariant of the store: well-formed rows,
  leases, accounting and outbox. \<open>store_mid X Y\<close> is the invariant inside a transaction, with the jobs
  of \<open>X\<close> not held by an attempt and the events of the jobs of \<open>Y\<close> not yet written.
\<close>

section \<open>The invariant\<close>

definition store_mid :: "nat set \<Rightarrow> nat set \<Rightarrow> db \<Rightarrow> bool" where
  "store_mid X Y d \<longleftrightarrow>
     rows_ok (jobs d) \<and> lease_inv X (jobs d) (attempts d) \<and> ledger_inv (attempts d) (daily d)
     \<and> outbox_inv Y (jobs d) (outbox d) \<and> distinct (map tn_id (tenants d))"

definition store_inv :: "db \<Rightarrow> bool" where
  "store_inv d \<longleftrightarrow> store_mid {} {} d"

lemma store_midD:
  assumes "store_mid X Y d"
  shows "rows_ok (jobs d)" "lease_inv X (jobs d) (attempts d)" "ledger_inv (attempts d) (daily d)"
    "outbox_inv Y (jobs d) (outbox d)" "distinct (map tn_id (tenants d))"
    "distinct (map jb_id (jobs d))" "j \<in> set (jobs d) \<Longrightarrow> row_ok j"
  using assms by (auto simp: store_mid_def rows_ok_def)

text \<open>Changing when jobs are due, or whom a tenant claimed for last, changes nothing.\<close>

lemma store_mid_core:
  assumes "store_mid X Y d" "map job_core (jobs d') = map job_core (jobs d)" "attempts d' = attempts d"
    "daily d' = daily d" "outbox d' = outbox d" "map tn_id (tenants d') = map tn_id (tenants d)"
  shows "store_mid X Y d'"
  using assms(1) rows_ok_core [OF assms(2)] lease_inv_core [OF assms(2), of X "attempts d"]
    outbox_inv_core [OF assms(2), of Y "outbox d"]
  by (simp add: store_mid_def assms(3-6))

lemma wake_core: "map job_core (jobs (wake_deferred t day now d)) = map job_core (jobs d)"
  unfolding wake_deferred_def by (simp add: map_sql_update job_core_def)

lemma wake_simps [simp]:
  "attempts (wake_deferred t day now d) = attempts d" "daily (wake_deferred t day now d) = daily d"
  "outbox (wake_deferred t day now d) = outbox d" "tenants (wake_deferred t day now d) = tenants d"
  "bundles (wake_deferred t day now d) = bundles d"
  by (simp_all add: wake_deferred_def)

lemma fairness_simps [simp]:
  "jobs (advanceTenantFairness t now d) = jobs d" "attempts (advanceTenantFairness t now d) = attempts d"
  "daily (advanceTenantFairness t now d) = daily d" "outbox (advanceTenantFairness t now d) = outbox d"
  "map tn_id (tenants (advanceTenantFairness t now d)) = map tn_id (tenants d)"
  by (simp_all add: advanceTenantFairness_def map_sql_update)

lemma update_jobs_simps [simp]:
  "jobs (update_jobs p f d) = sql_update p f (jobs d)" "attempts (update_jobs p f d) = attempts d"
  "daily (update_jobs p f d) = daily d" "outbox (update_jobs p f d) = outbox d"
  "tenants (update_jobs p f d) = tenants d"
  by (simp_all add: update_jobs_def)

lemma ensure_daily_simps [simp]:
  "jobs (ensure_daily t day d) = jobs d" "attempts (ensure_daily t day d) = attempts d"
  "outbox (ensure_daily t day d) = outbox d" "tenants (ensure_daily t day d) = tenants d"
  by (simp_all add: ensure_daily_def)

lemma mid_fairness: "store_mid X Y d \<Longrightarrow> store_mid X Y (advanceTenantFairness t now d)"
  by (rule store_mid_core [of X Y d]) simp_all

section \<open>Settling an attempt\<close>

lemma releaseE:
  assumes "releaseAttemptReservation t i n now cs full d = Inr (c, d1)"
  obtains a day where "a \<in> set (attempts d)" "running_attempt t i n a" "at_accounting_day a = Some day"
    "0 < at_reserved a"
    "c = (if full then at_reserved a else cappedCaseExecutionMillis cs (at_reserved a))"
    "sql_affected (\<lambda>r. daily_row_of t day r \<and> dy_reserved r \<ge> at_reserved a)
       (\<lambda>r. r\<lparr>dy_reserved := dy_reserved r - at_reserved a, dy_consumed := dy_consumed r + c\<rparr>) (daily d) = 1"
    "d1 = wake_deferred t day now (d\<lparr>daily :=
       sql_update (\<lambda>r. daily_row_of t day r \<and> dy_reserved r \<ge> at_reserved a)
         (\<lambda>r. r\<lparr>dy_reserved := dy_reserved r - at_reserved a, dy_consumed := dy_consumed r + c\<rparr>) (daily d)\<rparr>)"
  using assms
  by (auto simp: releaseAttemptReservation_def Let_def split: option.splits if_splits dest!: find_Some_mem)

text \<open>
  The attempt of a held job is settled by \<open>q\<close> and \<open>g\<close> after its reservation was released. The jobs of
  the database may already have been updated by the caller, so the leases are those before.
\<close>

lemma settle_attempt:
  assumes led: "ledger_inv (attempts d) (daily d)" and lease: "lease_inv {} js (attempts d)"
    and dj: "distinct (map jb_id js)"
    and j: "j \<in> set js" "jb_id j = i" "jb_attempt_no j = n" "jb_status j = JobStatusRunning"
    and rel: "releaseAttemptReservation t i n now cs full d = Inr (c, d1)"
    and cs: "\<And>x. x \<in> set cs \<Longrightarrow> 0 \<le> dc_TimeMillis x"
    and hit: "sql_affected q g (attempts d) = 1"
    and q: "\<And>b. q b \<Longrightarrow> at_job_id b = i \<and> at_attempt_no b = n \<and> at_status b = AttemptRunning"
      "\<And>b. held_by j b \<Longrightarrow> jb_tenant_id j = at_tenant_id b \<Longrightarrow> b \<in> set (attempts d) \<Longrightarrow> at_job_id b = i
         \<Longrightarrow> at_status b = AttemptRunning \<Longrightarrow> q b"
    and g: "\<And>b. at_job_id (g b) = at_job_id b" "\<And>b. at_tenant_id (g b) = at_tenant_id b"
      "\<And>b. at_attempt_no (g b) = at_attempt_no b" "\<And>b. at_status (g b) \<noteq> AttemptRunning"
      "\<And>b. at_accounting_day (g b) = at_accounting_day b" "\<And>b. at_reserved (g b) = 0"
  shows "lease_inv {i} js (sql_update q g (attempts d)) \<and> ledger_inv (sql_update q g (attempts d)) (daily d1)
    \<and> 0 \<le> c"
proof -
  obtain a day where a: "a \<in> set (attempts d)" "running_attempt t i n a" "at_accounting_day a = Some day"
      "0 < at_reserved a"
    and c: "c = (if full then at_reserved a else cappedCaseExecutionMillis cs (at_reserved a))"
    and aff: "sql_affected (\<lambda>r. daily_row_of t day r \<and> dy_reserved r \<ge> at_reserved a)
       (\<lambda>r. r\<lparr>dy_reserved := dy_reserved r - at_reserved a, dy_consumed := dy_consumed r + c\<rparr>) (daily d) = 1"
    and d1: "d1 = wake_deferred t day now (d\<lparr>daily :=
       sql_update (\<lambda>r. daily_row_of t day r \<and> dy_reserved r \<ge> at_reserved a)
         (\<lambda>r. r\<lparr>dy_reserved := dy_reserved r - at_reserved a, dy_consumed := dy_consumed r + c\<rparr>) (daily d)\<rparr>)"
    using rel by (rule releaseE)
  have ra: "at_tenant_id a = t" "at_job_id a = i" "at_attempt_no a = n" "at_status a = AttemptRunning"
    using a(2) by (auto simp: running_attempt_def)
  have "held_by j a \<and> jb_tenant_id j = at_tenant_id a"
    using running_attempt_held [OF lease dj a(1) ra(4) j(1)] j(2) ra(2) by simp
  then have qa: "q a" using q(2) a(1) ra by simp
  have key: "att_key b = att_key a" if "b \<in> set (attempts d)" "q b" for b
    using q(1) [OF that(2)] ra by (simp add: att_key_def)
  have "at_reserved a \<le> max_int64"
    using ledger_invD(3) [OF led a(1)] ra(4) by (simp add: attempt_funded_def)
  then have c0: "0 \<le> c"
    using cappedCaseExecutionMillis_bounds(1) [OF a(4) _ cs] a(4) unfolding c by simp
  have "lease_inv {jb_id j} js (sql_update q g (attempts d))"
  proof (rule lease_settle [OF lease dj j(1)])
    show "q b" if "b \<in> set (attempts d)" "at_status b = AttemptRunning" "at_job_id b = jb_id j" for b
      using running_attempt_held [OF lease dj that(1,2) j(1)] that q(2) j(2) by simp
    show "at_job_id b = jb_id j" if "q b" for b using q(1) [OF that] j(2) by simp
  qed (fact g)+
  moreover have "ledger_inv (sql_update q g (attempts d)) (daily d1)"
    unfolding d1 wake_simps
    using ledger_release [where q = q and g = g, OF led a(1) ra(1) a(3) refl qa key _ _ _ _ _ c0 aff] g
    by (simp add: att_key_def)
  ultimately show ?thesis using c0 j(2) by simp
qed

lemma expireAttempt_mid:
  assumes inv: "store_inv d" and j: "j \<in> set (jobs d)" "jb_status j = JobStatusRunning"
    and ex: "expireAttempt t (jb_id j) (jb_attempt_no j) now d = Inr d1"
  shows "store_mid {jb_id j} {} d1 \<and> map job_core (jobs d1) = map job_core (jobs d)
    \<and> outbox d1 = outbox d \<and> tenants d1 = tenants d \<and> attempts d1 =
       sql_update (running_attempt t (jb_id j) (jb_attempt_no j)) (expired_attempt now) (attempts d)"
proof -
  let ?q = "running_attempt t (jb_id j) (jb_attempt_no j)" and ?g = "expired_attempt now"
  note I = store_midD [OF inv [unfolded store_inv_def]]
  obtain c d0 where rel: "releaseAttemptReservation t (jb_id j) (jb_attempt_no j) now [] False d = Inr (c, d0)"
    and hit: "sql_affected ?q ?g (attempts d0) = 1"
    and d1: "d1 = d0\<lparr>attempts := sql_update ?q ?g (attempts d0)\<rparr>"
    using ex by (auto simp: expireAttempt_def result_simps split: if_splits)
  obtain a day where ra: "running_attempt t (jb_id j) (jb_attempt_no j) a" "a \<in> set (attempts d)"
    and d0: "d0 = wake_deferred t day now (d\<lparr>daily := daily d0\<rparr>)"
    using rel by (rule releaseE) auto
  have att: "attempts d0 = attempts d" and oth: "outbox d0 = outbox d" "tenants d0 = tenants d"
    by (subst d0, simp)+
  have core: "map job_core (jobs d0) = map job_core (jobs d)"
    by (subst d0) (simp add: wake_core)
  have tj: "jb_tenant_id j = t"
    using running_attempt_held [OF I(2,6) ra(2) _ j(1)] ra(1) by (auto simp: running_attempt_def)
  have settled: "lease_inv {jb_id j} (jobs d) (sql_update ?q ?g (attempts d))
      \<and> ledger_inv (sql_update ?q ?g (attempts d)) (daily d0) \<and> 0 \<le> c"
  proof (rule settle_attempt [OF I(3,2,6) j(1) refl refl j(2) rel])
    show "sql_affected ?q ?g (attempts d) = 1" using hit att by simp
  qed (auto simp: running_attempt_def expired_attempt_def held_by_def tj)
  have "store_mid {jb_id j} {} d1"
    using settled I(1,4,5) lease_inv_core [OF core] rows_ok_core [OF core] outbox_inv_core [OF core]
    by (simp add: store_mid_def d1 att oth)
  then show ?thesis using core by (simp add: d1 att oth)
qed

section \<open>A job leaves its lease\<close>

lemma mid_leave:
  assumes inv: "store_mid {i} {} d"
    and j: "j \<in> set (jobs d)" "jb_id j = i" "\<not> row_terminal j" "p j" "row_ok (f j)"
    and p: "\<And>k. k \<in> set (jobs d) \<Longrightarrow> p k \<Longrightarrow> jb_id k = i"
    and f: "\<And>k. jb_id (f k) = jb_id k" "\<And>k. jb_tenant_id (f k) = jb_tenant_id k"
      "\<And>k. jb_attempt_no (f k) = jb_attempt_no k"
      "\<And>k. k \<in> set (jobs d) \<Longrightarrow> p k \<Longrightarrow> jb_status (f k) \<noteq> JobStatusRunning"
    and Y: "row_terminal (f j) \<Longrightarrow> i \<in> Y"
  shows "store_mid {} Y (update_jobs p f d)"
proof -
  note I = store_midD [OF inv]
  have only: "k = j" if "k \<in> set (jobs d)" "jb_id k = i" for k
    using job_by_id [OF I(6) that(1) j(1)] that(2) j(2) by simp
  have "rows_ok (sql_update p f (jobs d))"
    by (rule rows_ok_update [OF I(1) f(1)]) (use only p j(5) in blast)
  moreover have "lease_inv {} (sql_update p f (jobs d)) (attempts d)"
    by (rule lease_leave [where p = p and f = f, OF I(2) p _ f]) (use only j(4) in blast)+
  moreover have "outbox_inv Y (sql_update p f (jobs d)) (outbox d)"
  proof (rule outbox_update [OF I(4) _ f(1)])
    fix k assume "k \<in> set (jobs d)" "p k"
    then have "k = j" using only p by blast
    then show "\<not> row_terminal k \<and> (row_terminal (f k) \<longrightarrow> jb_id k \<in> Y)"
      using j Y by auto
  qed
  ultimately show ?thesis using I(3,5) by (simp add: store_mid_def)
qed

section \<open>The event of a terminal job\<close>

lemma Encode_facts:
  assumes "EncodeTerminalWebhookEvent eid now job = Some (ty, pl)"
  shows "pl_Status pl = ej_Status job" "pl_Result pl = ej_Result job" "pl_FailureCode pl = ej_FailureCode job"
    "pl_EventID pl = eid" "pl_EventType pl = ty"
  using assms
  by (auto simp: EncodeTerminalWebhookEvent_def terminal_payload_def
      split: if_splits JobStatus.splits option.splits)

text \<open>The row an insert adds for a job, or the row of the same job that is already there.\<close>

definition event_for :: "nat \<Rightarrow> job_row \<Rightarrow> ExternalJobRecord \<Rightarrow> outbox_row list \<Rightarrow> outbox_row \<Rightarrow> bool" where
  "event_for c j job es e \<longleftrightarrow>
     ob_job_id e = ej_InternalID job \<and> ob_callback_id e = c \<and> ob_tenant_id e = jb_tenant_id j
     \<and> pl_Status (ob_payload e) = ej_Status job \<and> pl_Result (ob_payload e) = ej_Result job
     \<and> ej_InternalID job \<notin> ob_job_id ` set es \<and> ob_event_id e \<notin> ob_event_id ` set es"

lemma insert_event_effect:
  assumes "insert_event n ids w now j c job d = Inr (eid, d')"
  shows "d' = d \<and> ej_InternalID job \<in> ob_job_id ` set (outbox d)
    \<or> (\<exists>e. d' = d\<lparr>outbox := outbox d @ [e]\<rparr> \<and> event_for c j job (outbox d) e)"
  using assms
proof (induction n ids w now j c job d rule: insert_event.induct)
  case (3 n x ids w now j c job d)
  show ?case
  proof (cases "sql_exists (\<lambda>e. ob_event_id e = x \<or> ob_job_id e = ej_InternalID job) (outbox d)")
    case False
    obtain ty pl where enc: "EncodeTerminalWebhookEvent x now job = Some (ty, pl)"
      and d': "d' = d\<lparr>outbox := outbox d @ [pending_event (next_outbox_id d) x (jb_tenant_id j)
          (ej_InternalID job) c ty pl now w]\<rparr>"
      using "3.prems" False by (auto split: option.splits prod.splits)
    have "event_for c j job (outbox d) (pending_event (next_outbox_id d) x (jb_tenant_id j)
        (ej_InternalID job) c ty pl now w)"
      using False Encode_facts(1,2) [OF enc] by (auto simp: event_for_def pending_event_def sql_exists_iff)
    with d' show ?thesis by blast
  next
    case True
    show ?thesis
    proof (cases "List.find (\<lambda>e. ob_job_id e = ej_InternalID job) (outbox d)")
      case None
      obtain ty pl where enc: "EncodeTerminalWebhookEvent x now job = Some (ty, pl)"
        and rec: "insert_event n ids w now j c job d = Inr (eid, d')"
        using "3.prems" True None by (auto split: option.splits prod.splits)
      show ?thesis
        using "3.IH" [OF enc refl _ None rec] True by blast
    next
      case (Some e)
      then have "ej_InternalID job \<in> ob_job_id ` set (outbox d)"
        using find_Some_mem [OF Some] by force
      moreover have "d' = d"
        using "3.prems" True Some by (auto split: option.splits prod.splits if_splits)
      ultimately show ?thesis by blast
    qed
  qed
qed simp_all

lemma read_job_facts:
  assumes "read_job d j = Some job"
  shows "ej_InternalID job = jb_id j" "ej_Status job = jb_status j" "ej_Result job = jb_result j"
    "ej_TenantInternalID job = jb_tenant_id j" "ej_AttemptNo job = jb_attempt_no j"
    "ej_FailureCode job = null_string (jb_failure_code j)" "ej_CancelRequested job = jb_cancel_requested_at j"
  using assms by (auto simp: read_job_def scanExternalJob_def split: option.splits if_splits)

lemma insert_terminal_mid:
  assumes inv: "store_mid {} {i} d" and j: "j \<in> set (jobs d)" "jb_id j = i" "row_terminal j"
    and job: "ej_InternalID job = i" "ej_Status job = jb_status j" "ej_Result job = jb_result j"
    and ins: "insertTerminalWebhookEvent ids w now job d = Inr (eid, d')"
  shows "store_mid {} {} d' \<and> (\<exists>es. d' = d\<lparr>outbox := es\<rparr>)"
proof -
  note I = store_midD [OF inv]
  obtain j0 where f: "List.find (\<lambda>k. jb_id k = i) (jobs d) = Some j0"
    using ins job(1) by (auto simp: insertTerminalWebhookEvent_def split: option.splits)
  have "j0 = j"
    using find_Some_mem [OF f] job_by_id [OF I(6) _ j(1)] j(2) by auto
  show ?thesis
  proof (cases "jb_callback_id j")
    case None
    then have "d' = d" using ins f job(1) \<open>j0 = j\<close> by (simp add: insertTerminalWebhookEvent_def)
    moreover have "outbox_inv {} (jobs d) (outbox d)"
      by (rule outbox_present [OF I(4)]) (use None job_by_id [OF I(6) _ j(1)] j(2) in auto)
    ultimately show ?thesis using I by (auto simp: store_mid_def intro: exI [of _ "outbox d"])
  next
    case (Some c)
    then have "insert_event 8 ids w now j c job d = Inr (eid, d')"
      using ins f job(1) \<open>j0 = j\<close> by (simp add: insertTerminalWebhookEvent_def)
    then consider "d' = d" "i \<in> ob_job_id ` set (outbox d)"
      | e where "d' = d\<lparr>outbox := outbox d @ [e]\<rparr>" "event_for c j job (outbox d) e"
      using insert_event_effect job(1) by blast
    then show ?thesis
    proof cases
      case 1
      moreover have "outbox_inv {} (jobs d) (outbox d)"
        by (rule outbox_present [OF I(4)]) (rule 1(2))
      ultimately show ?thesis using I by (auto simp: store_mid_def intro: exI [of _ "outbox d"])
    next
      case (2 e)
      moreover have "outbox_inv {} (jobs d) (outbox d @ [e])"
        by (rule outbox_insert [OF I(4) j _ _ Some]) (use 2 job in \<open>simp_all add: event_for_def\<close>)
      ultimately show ?thesis using I(1-3,5) by (auto simp: store_mid_def)
    qed
  qed
qed

lemma emit_mid:
  assumes inv: "store_mid {} {i} d" and j: "j \<in> set (jobs d)" "jb_id j = i" "row_terminal j"
    and em: "emit_terminal what ids w now i d = Inr (job, d')"
  shows "store_mid {} {} d' \<and> (\<exists>es. d' = d\<lparr>outbox := es\<rparr>)"
proof -
  note I = store_midD [OF inv]
  obtain eid where g: "getExternalJobByInternalID d i = Some job"
    and ins: "insertTerminalWebhookEvent ids w now job d = Inr (eid, d')"
    using em by (auto simp: emit_terminal_def result_simps split: option.splits)
  obtain j0 where f: "List.find (\<lambda>k. jb_id k = i) (jobs d) = Some j0" and r: "read_job d j0 = Some job"
    using g by (auto simp: getExternalJobByInternalID_def split: option.splits)
  have "j0 = j"
    using find_Some_mem [OF f] job_by_id [OF I(6) _ j(1)] j(2) by auto
  with r have "ej_InternalID job = i" "ej_Status job = jb_status j" "ej_Result job = jb_result j"
    using read_job_facts j(2) by auto
  then show ?thesis by (rule insert_terminal_mid [OF inv j _ _ _ ins])
qed

section \<open>Claiming\<close>

lemma core_row:
  assumes "map job_core js' = map job_core js" "distinct (map jb_id js)"
    "j \<in> set js" "j' \<in> set js'" "jb_id j' = jb_id j"
  shows "job_core j' = job_core j"
proof -
  have "job_core j' \<in> job_core ` set js"
    using map_eq_image [OF assms(1)] assms(4) by blast
  then obtain k where k: "k \<in> set js" "job_core j' = job_core k" by blast
  then have "jb_id k = jb_id j" using assms(5) by (metis job_core_simps(1))
  then have "k = j" using job_by_id [OF assms(2) k(1) assms(3)] by simp
  then show ?thesis using k(2) by simp
qed

lemma core_fields:
  assumes "job_core j' = job_core j"
  shows "jb_id j' = jb_id j" "jb_status j' = jb_status j" "jb_tenant_id j' = jb_tenant_id j"
    "jb_attempt_no j' = jb_attempt_no j" "row_ok j' = row_ok j" "row_terminal j' = row_terminal j"
    "jb_cancel_requested_at j' = jb_cancel_requested_at j" "jb_started_at j' = jb_started_at j"
  using arg_cong [OF assms, of row_ok] arg_cong [OF assms, of row_terminal] arg_cong [OF assms, of jb_id]
    arg_cong [OF assms, of jb_status] arg_cong [OF assms, of jb_tenant_id] arg_cong [OF assms, of jb_attempt_no]
    arg_cong [OF assms, of jb_cancel_requested_at] arg_cong [OF assms, of jb_started_at]
  by simp_all

lemma core_exists:
  assumes "map job_core js' = map job_core js" "j \<in> set js"
  obtains j' where "j' \<in> set js'" "job_core j' = job_core j"
  using map_eq_image [OF assms(1)] assms(2) by (metis imageE imageI)

lemma mid_unheld:
  assumes "store_mid {} Y d" "j \<in> set (jobs d)" "jb_status j \<noteq> JobStatusRunning"
  shows "store_mid {jb_id j} Y d"
proof -
  note I = store_midD [OF assms(1)]
  have "attempt_ok {jb_id j} (jobs d) a" if a: "a \<in> set (attempts d)" for a
    using lease_invD(1) [OF I(2) a] job_by_id [OF I(6) _ assms(2)] assms(3)
    by (auto simp: attempt_ok_def held_by_def)
  then have "lease_inv {jb_id j} (jobs d) (attempts d)"
    using lease_invD(2) [OF I(2)] by (simp add: lease_inv_def)
  then show ?thesis using assms(1) by (simp add: store_mid_def)
qed

lemma failed_row_facts [simp]:
  "jb_id (failed_row c now k) = jb_id k" "jb_tenant_id (failed_row c now k) = jb_tenant_id k"
  "jb_attempt_no (failed_row c now k) = jb_attempt_no k" "jb_status (failed_row c now k) = JobStatusFailed"
  "row_terminal (failed_row c now k)"
  by (simp_all add: failed_row_def clear_row_lease_def row_terminal_def)

lemma cancelled_row_facts [simp]:
  "jb_id (cancelled_row now k) = jb_id k" "jb_tenant_id (cancelled_row now k) = jb_tenant_id k"
  "jb_attempt_no (cancelled_row now k) = jb_attempt_no k" "jb_status (cancelled_row now k) = JobStatusCancelled"
  "row_terminal (cancelled_row now k)"
  by (simp_all add: cancelled_row_def clear_row_lease_def row_terminal_def)

lemma failed_row_ok:
  assumes "row_ok k" "\<not> row_terminal k" "infrastructureCodePattern c"
  shows "row_ok (failed_row c now k)"
proof -
  have "jb_result k = None" using assms(1,2) by (auto simp: row_ok_def row_terminal_def)
  then show ?thesis using assms(3) by (simp add: row_ok_def failed_row_def clear_row_lease_def row_terminal_def)
qed

lemma cancelled_row_ok:
  assumes "jb_cancel_requested_at k \<noteq> None"
  shows "row_ok (cancelled_row now k)"
  using assms by (simp add: row_ok_def cancelled_row_def clear_row_lease_def row_terminal_def)

text \<open>A transition into a terminal row, then its event.\<close>

lemma mid_terminal_emit:
  assumes mid: "store_mid {i} {} d" and j: "j \<in> set (jobs d)" "jb_id j = i" "\<not> row_terminal j" "p j" "row_ok (f j)"
    and p: "\<And>k. k \<in> set (jobs d) \<Longrightarrow> p k \<Longrightarrow> jb_id k = i"
    and f: "\<And>k. jb_id (f k) = jb_id k" "\<And>k. jb_tenant_id (f k) = jb_tenant_id k"
      "\<And>k. jb_attempt_no (f k) = jb_attempt_no k" "\<And>k. jb_status (f k) \<noteq> JobStatusRunning" "row_terminal (f j)"
    and d1: "store_mid {} {i} (update_jobs p f d) \<Longrightarrow> store_mid {} {i} d1" "jobs d1 = sql_update p f (jobs d)"
    and em: "emit_terminal what ids w now i d1 = Inr (job, d')"
  shows "store_inv d'"
proof -
  have "store_mid {} {i} (update_jobs p f d)"
    by (rule mid_leave [where p = p and f = f, OF mid j p f(1-4)]) simp_all
  then have "store_mid {} {i} d1" by (rule d1(1))
  moreover have "f j \<in> set (jobs d1)"
    using mem_sql_updateI [OF j(1), of p f] j(4) d1(2) by simp
  ultimately show ?thesis
    using emit_mid [OF _ _ _ f(5) em] f(1) j(2) by (simp add: store_inv_def)
qed

lemma settle_expired_inv:
  assumes mid: "store_mid {jb_id j} {} d1" and core: "map job_core (jobs d1) = map job_core js"
    and js: "distinct (map jb_id js)" "j \<in> set js" "jb_status j = JobStatusRunning"
    and f: "\<And>k. jb_id (f k) = jb_id k" "\<And>k. jb_tenant_id (f k) = jb_tenant_id k"
      "\<And>k. jb_attempt_no (f k) = jb_attempt_no k" "\<And>k. jb_status (f k) \<noteq> JobStatusRunning" "\<And>k. row_terminal (f k)"
      "\<And>k. job_core k = job_core j \<Longrightarrow> row_ok k \<Longrightarrow> row_ok (f k)"
    and st: "settle_expired env what f j d1 = Inr b"
  shows "\<exists>d2. b = CommitRetry d2 \<and> store_inv d2"
proof -
  let ?p = "job_at (jb_id j) JobStatusRunning (jb_attempt_no j)"
  obtain job d2 where b: "b = CommitRetry d2"
    and em: "emit_terminal what (ce_event_ids env) (ce_window env) (ce_now env) (jb_id j) (update_jobs ?p f d1)
      = Inr (job, d2)"
    using st by (auto simp: settle_expired_def result_simps)
  obtain k where k: "k \<in> set (jobs d1)" "job_core k = job_core j" using core js(2) by (rule core_exists)
  note kf = core_fields [OF k(2)]
  have "store_inv d2"
    by (rule mid_terminal_emit [where p = ?p and f = f, OF mid k(1) kf(1) _ _ f(6) [OF k(2)] _ f(1-4) f(5) _ _ em])
      (use kf js(3) store_midD(7) [OF mid k(1)] in \<open>auto simp: job_at_def row_terminal_def\<close>)
  with b show ?thesis by blast
qed

text \<open>The ledger after a reservation that was allowed, before its attempt is inserted.\<close>

definition reserved_db :: "nat \<Rightarrow> int \<Rightarrow> int \<Rightarrow> db \<Rightarrow> db" where
  "reserved_db t day m d = (ensure_daily t day d)\<lparr>daily :=
     sql_update (daily_row_of t day) (\<lambda>r. r\<lparr>dy_reserved := dy_reserved r + m\<rparr>) (daily (ensure_daily t day d))\<rparr>"

lemma reserve_cases:
  assumes "reserveDailyExecution t day L m d = Inr (dec, d1)"
  obtains "dec = dailyReservationImpossible" "d1 = d" "0 < L" "L < m"
  | "dec = dailyReservationDeferred" "d1 = ensure_daily t day d" "0 < m" "m \<le> L"
  | r where "dec = dailyReservationAllowed" "d1 = reserved_db t day m d" "0 < m" "m \<le> L"
      "r \<in> set (daily (ensure_daily t day d))" "daily_row_of t day r" "dy_reserved r + dy_consumed r + m \<le> L"
  using assms
  by (auto simp: reserveDailyExecution_def reserved_db_def Let_def split: if_splits option.splits
      dest!: find_Some_mem)

lemma mid_ensure: "store_mid X Y d \<Longrightarrow> store_mid X Y (ensure_daily t day d)"
  by (simp add: store_mid_def ledger_ensure)

lemma ensure_row: "(t, day) \<in> day_key ` set (daily (ensure_daily t day d))"
proof (cases "sql_exists (daily_row_of t day) (daily d)")
  case True
  then show ?thesis by (force simp: ensure_daily_def sql_exists_iff daily_row_of_key)
qed (simp add: ensure_daily_def day_key_def)

lemma reserved_db_simps [simp]:
  "jobs (reserved_db t day m d) = jobs d" "attempts (reserved_db t day m d) = attempts d"
  "outbox (reserved_db t day m d) = outbox d" "tenants (reserved_db t day m d) = tenants d"
  by (simp_all add: reserved_db_def)

lemma failImpossible_inv:
  assumes mid: "store_mid {i} {} d" and k: "k \<in> set (jobs d)" "jb_id k = i" "\<not> row_terminal k"
      "jb_tenant_id k = t" "jb_status k = st" "jb_attempt_no k = n"
    and fi: "failImpossibleDailyExecution env t i st n d = Inr d'"
  shows "store_inv d'"
proof -
  let ?p = "\<lambda>j. jb_tenant_id j = t \<and> job_at i st n j"
    and ?f = "failed_row ''DAILY_EXECUTION_LIMIT_TOO_LOW'' (ce_now env)"
  obtain job where em: "emit_terminal ''read impossible daily execution job'' (ce_event_ids env) (ce_window env)
      (ce_now env) i (advanceTenantFairness t (ce_now env) (update_jobs ?p ?f d)) = Inr (job, d')"
    using fi by (auto simp: failImpossibleDailyExecution_def Let_def result_simps split: if_splits)
  have ok: "row_ok (?f k)"
    by (rule failed_row_ok [OF store_midD(7) [OF mid k(1)] k(3)])
      (simp add: infrastructureCodePattern_def upper_letter_def digit_def)
  show ?thesis
    by (rule mid_terminal_emit [where p = ?p and f = ?f, OF mid k(1-3) _ ok _ _ _ _ _ _ _ _ em])
      (use k in \<open>auto simp: job_at_def intro: mid_fairness\<close>)
qed

lemma reserve_or_settle_inv:
  assumes mid: "store_mid {jb_id j} {} d" and core: "map job_core (jobs d) = map job_core js"
    and js: "distinct (map jb_id js)" "j \<in> set js" "\<not> row_terminal j" "jb_tenant_id j = tn_id t"
    and p: "\<And>k. p k \<Longrightarrow> jb_id k = jb_id j" "\<And>k. job_core k = job_core j \<Longrightarrow> p k"
    and f: "\<And>k. jb_id (f k) = jb_id k" "\<And>k. jb_tenant_id (f k) = jb_tenant_id k"
      "\<And>k. jb_attempt_no (f k) = jb_attempt_no k" "\<And>k. p k \<Longrightarrow> jb_status (f k) = JobStatusQueued"
      "\<And>k. job_core k = job_core j \<Longrightarrow> row_ok k \<Longrightarrow> row_ok (f k)"
    and rs: "reserve_or_settle env t j L m p f d = Inr b"
  shows "(\<exists>d2. b = CommitRetry d2 \<and> store_inv d2)
    \<or> b = Proceed (reserved_db (tn_id t) (ce_day env) m d) \<and> 0 < m"
proof -
  obtain k where k: "k \<in> set (jobs d)" "job_core k = job_core j" using core js(2) by (rule core_exists)
  note kf = core_fields [OF k(2)]
  obtain dec d1 where res: "reserveDailyExecution (tn_id t) (ce_day env) L m d = Inr (dec, d1)"
    using rs by (auto simp: reserve_or_settle_def result_simps)
  from res show ?thesis
  proof (cases rule: reserve_cases)
    case 1
    then obtain d2 where d2: "b = CommitRetry d2"
      "failImpossibleDailyExecution env (tn_id t) (jb_id j) (jb_status j) (jb_attempt_no j) d = Inr d2"
      using rs res by (auto simp: reserve_or_settle_def result_simps)
    have "store_inv d2"
      by (rule failImpossible_inv [OF mid k(1) _ _ _ _ _ d2(2)]) (use kf js in simp_all)
    with d2 show ?thesis by blast
  next
    case 2
    then have b: "b = CommitRetry (advanceTenantFairness (tn_id t) (ce_now env)
        (update_jobs p f (ensure_daily (tn_id t) (ce_day env) d)))"
      using rs res by (simp add: reserve_or_settle_def)
    have "store_mid {} {} (update_jobs p f (ensure_daily (tn_id t) (ce_day env) d))"
    proof (rule mid_leave [where p = p and f = f and j = k, OF mid_ensure [OF mid]])
      show "row_ok (f k)" by (rule f(5) [OF k(2) store_midD(7) [OF mid k(1)]])
      show "row_terminal (f k) \<Longrightarrow> jb_id j \<in> {}" using f(4) p(2) [OF k(2)] by (simp add: row_terminal_def)
      show "\<not> row_terminal k" using kf(6) js(3) by simp
      show "k \<in> set (jobs (ensure_daily (tn_id t) (ce_day env) d))" using k(1) by simp
      show "jb_status (f x) \<noteq> JobStatusRunning" if "p x" for x using f(4) [OF that] by simp
    qed (rule kf(1) p(2) [OF k(2)] f(1-3) | erule p(1))+
    then show ?thesis using b mid_fairness by (auto simp: store_inv_def)
  next
    case (3 r)
    then show ?thesis using rs res by (simp add: reserve_or_settle_def)
  qed
qed

lemma claimed_row_facts [simp]:
  "jb_id (claimed_row w tok l now n k) = jb_id k" "jb_tenant_id (claimed_row w tok l now n k) = jb_tenant_id k"
  "jb_attempt_no (claimed_row w tok l now n k) = n" "jb_status (claimed_row w tok l now n k) = JobStatusRunning"
  "jb_worker_id (claimed_row w tok l now n k) = Some w" "jb_lease_token (claimed_row w tok l now n k) = Some tok"
  "jb_lease_until (claimed_row w tok l now n k) = Some l" "\<not> row_terminal (claimed_row w tok l now n k)"
  by (simp_all add: claimed_row_def row_terminal_def)

lemma claimed_row_ok:
  assumes "row_ok k" "\<not> row_terminal k" "0 < n"
  shows "row_ok (claimed_row w tok l now n k)"
proof -
  have "jb_result k = None" "jb_completed_at k = None"
    using assms(1,2) by (auto simp: row_ok_def row_terminal_def)
  then show ?thesis
    using assms(3) by (simp add: row_ok_def claimed_row_def row_terminal_def split: option.split)
qed

end
