(* ===== verification/Job_Transactions.thy ===== *)
theory Job_Transactions
  imports Job_Invariant
begin

text \<open>
  Each transaction of the job repository preserves the invariant of the store: the claim with its
  recovery, deferral and settlement branches, completion, infrastructure failure, heartbeat and
  cancellation.
\<close>

section \<open>Claims\<close>

lemma reservation_bounds:
  assumes "maximumManifestExecutionMillis m = Some r"
  shows "0 < r" "r \<le> max_int64"
proof -
  define n where "n = int (length (Cases m))"
  have ne: "0 < n" "0 < TimeLimitMillis (m_Limits m)"
    using assms by (auto simp: maximumManifestExecutionMillis_def n_def split: if_splits)
  have mult: "wrap64 (x * n) = x * n \<and> 0 < x * n \<and> x * n \<le> max_int64"
    if "0 < x" "x \<le> max_int64 div n" for x
  proof -
    have "x * n \<le> max_int64 div n * n" using that(2) ne(1) by simp
    also have "\<dots> \<le> max_int64" using ne(1) by (metis add.commute le_add_same_cancel2 mult_div_mod_eq
          mult.commute pos_mod_sign)
    finally have "x * n \<le> max_int64" .
    moreover have "0 < x * n" using that(1) ne(1) by simp
    ultimately show ?thesis by (auto intro!: wrap64_id simp: in_int64_def max_int64_def)
  qed
  have "0 < r \<and> r \<le> max_int64"
  proof (cases "m_SpecialJudge m")
    case None
    then show ?thesis
      using assms mult [of "TimeLimitMillis (m_Limits m)"] ne
      by (auto simp: maximumManifestExecutionMillis_def Let_def n_def split: if_splits)
  next
    case (Some sj)
    let ?x = "TimeLimitMillis (m_Limits m) + sj_TimeLimitMillis sj"
    have sj: "0 < sj_TimeLimitMillis sj" "TimeLimitMillis (m_Limits m) \<le> max_int64 - sj_TimeLimitMillis sj"
      using assms Some by (auto simp: maximumManifestExecutionMillis_def Let_def split: if_splits)
    then have "wrap64 ?x = ?x" using ne by (intro wrap64_id) (simp add: in_int64_def max_int64_def)
    then show ?thesis
      using assms mult [of ?x] ne Some sj
      by (auto simp: maximumManifestExecutionMillis_def Let_def n_def split: if_splits)
  qed
  then show "0 < r" "r \<le> max_int64" by simp_all
qed

lemma claim_commitE:
  assumes "claim_commit env w l t j m d = Inr (claim, d2)"
  obtains k where "jb_attempt_no j \<noteq> 0xFFFFFFFF" "k \<in> set (jobs d)"
    "job_at (jb_id j) (jb_status j) (jb_attempt_no j) k"
    "(jb_id j, jb_attempt_no j + 1) \<notin> att_key ` set (attempts d)"
    "wc_WorkerID claim = w" "wc_AttemptNo claim = jb_attempt_no j + 1" "wc_LeaseToken claim = ce_token env"
    "ej_InternalID (wc_Job claim) = jb_id j"
    "jobs d2 = sql_update (job_at (jb_id j) (jb_status j) (jb_attempt_no j))
      (claimed_row w (ce_token env) (ce_now env + l) (ce_now env) (jb_attempt_no j + 1)) (jobs d)"
    "attempts d2 = attempts d @ [\<lparr>at_tenant_id = tn_id t, at_job_id = jb_id j,
       at_attempt_no = jb_attempt_no j + 1, at_worker_id = w, at_lease_token = Some (ce_token env),
       at_status = AttemptRunning, at_lease_until = ce_now env + l, at_accounting_day = Some (ce_day env),
       at_reserved = m, at_consumed = 0, at_started_at = ce_now env, at_finished_at = None,
       at_failure_code = None\<rparr>]"
    "daily d2 = daily d" "outbox d2 = outbox d" "map tn_id (tenants d2) = map tn_id (tenants d)"
proof -
  let ?p = "job_at (jb_id j) (jb_status j) (jb_attempt_no j)"
    and ?f = "claimed_row w (ce_token env) (ce_now env + l) (ce_now env) (jb_attempt_no j + 1)"
  have aff: "sql_affected ?p ?f (jobs d) = 1" and ne: "jb_attempt_no j \<noteq> 0xFFFFFFFF"
    and fresh: "\<not> sql_exists (\<lambda>a. at_job_id a = jb_id j \<and> at_attempt_no a = jb_attempt_no j + 1) (attempts d)"
    using assms by (auto simp: claim_commit_def Let_def split: if_splits)
  obtain job where g: "getExternalJobByInternalID d2 (jb_id j) = Some job"
    and c: "claim = \<lparr>wc_Job = job, wc_WorkerID = w, wc_AttemptNo = jb_attempt_no j + 1,
      wc_LeaseToken = ce_token env, wc_LeaseUntil = ce_now env + l\<rparr>"
    and d2: "d2 = advanceTenantFairness (tn_id t) (ce_now env) ((update_jobs ?p ?f d)\<lparr>attempts :=
      attempts d @ [\<lparr>at_tenant_id = tn_id t, at_job_id = jb_id j,
       at_attempt_no = jb_attempt_no j + 1, at_worker_id = w, at_lease_token = Some (ce_token env),
       at_status = AttemptRunning, at_lease_until = ce_now env + l, at_accounting_day = Some (ce_day env),
       at_reserved = m, at_consumed = 0, at_started_at = ce_now env, at_finished_at = None,
       at_failure_code = None\<rparr>]\<rparr>)"
    using assms aff ne fresh by (auto simp: claim_commit_def Let_def split: option.splits)
  have "ej_InternalID job = jb_id j"
    using g by (auto simp: getExternalJobByInternalID_def split: option.splits
        dest!: find_Some_mem read_job_facts(1))
  moreover obtain k where "k \<in> set (jobs d)" "?p k" using aff by (rule affected_one_obtain)
  ultimately show ?thesis
    using ne fresh c d2 by (intro that [of k]) (auto simp: att_key_def sql_exists_iff)
qed

lemma claim_commit_inv:
  assumes mid: "store_mid {jb_id j} {} d" and core: "map job_core (jobs d) = map job_core js"
    and js: "distinct (map jb_id js)" "j \<in> set js" "\<not> row_terminal j" "jb_tenant_id j = tn_id t"
    and m: "0 < m" "m \<le> max_int64"
    and cc: "claim_commit env w l t j m (reserved_db (tn_id t) (ce_day env) m d) = Inr (claim, d2)"
  shows "store_inv d2"
proof -
  let ?p = "job_at (jb_id j) (jb_status j) (jb_attempt_no j)" and ?n = "jb_attempt_no j + 1"
    and ?f = "claimed_row w (ce_token env) (ce_now env + l) (ce_now env) (jb_attempt_no j + 1)"
  obtain k a where k: "k \<in> set (jobs d)" "?p k" and ne: "jb_attempt_no j \<noteq> 0xFFFFFFFF"
    and fresh: "(jb_id j, ?n) \<notin> att_key ` set (attempts d)"
    and d2: "jobs d2 = sql_update ?p ?f (jobs d)" "attempts d2 = attempts d @ [a]"
      "daily d2 = daily (reserved_db (tn_id t) (ce_day env) m d)" "outbox d2 = outbox d"
      "map tn_id (tenants d2) = map tn_id (tenants d)"
    and a: "a = \<lparr>at_tenant_id = tn_id t, at_job_id = jb_id j,
       at_attempt_no = ?n, at_worker_id = w, at_lease_token = Some (ce_token env),
       at_status = AttemptRunning, at_lease_until = ce_now env + l, at_accounting_day = Some (ce_day env),
       at_reserved = m, at_consumed = 0, at_started_at = ce_now env, at_finished_at = None,
       at_failure_code = None\<rparr>"
    using cc by (rule claim_commitE) simp
  note I = store_midD [OF mid]
  have ck: "job_core k = job_core j"
    by (rule core_row [OF core js(1,2) k(1)]) (use k(2) in \<open>simp add: job_at_def\<close>)
  note kf = core_fields [OF ck]
  have kt: "\<not> row_terminal k" "row_ok k" using kf js I(7) [OF k(1)] by simp_all
  have n: "unat ?n = Suc (unat (jb_attempt_no j))" by (rule uint32_inc [OF ne])
  then have pos: "0 < ?n" by (metis nat.distinct(1) unat_0 word_gt_0)
  have pk: "x = k" if "x \<in> set (jobs d)" "?p x" for x
    using job_by_id [OF I(6) that(1) k(1)] that(2) k(2) by (simp add: job_at_def)
  have "rows_ok (jobs d2)"
    unfolding d2 by (rule rows_ok_update [OF I(1)]) (use pk claimed_row_ok [OF kt(2,1) pos] in auto)
  moreover have "lease_inv {} (jobs d2) (attempts d2)"
    unfolding d2
  proof (rule lease_claim [where p = ?p and f = ?f, OF I(2) _ I(6) k])
    show "{jb_id j} \<subseteq> {jb_id k}" "jb_id k \<in> {jb_id j}" using kf by simp_all
    show "jb_id x = jb_id k" if "?p x" for x using that kf by (simp add: job_at_def)
    show "unat (jb_attempt_no k) \<le> unat (jb_attempt_no (?f k))" using n kf by simp
    show "held_by (?f k) a" by (simp add: held_by_def a)
  qed (use kf js a in simp_all)
  moreover have "ledger_inv (attempts d2) (daily d2)"
    unfolding d2 reserved_db_def
    using ledger_acquire [OF ledger_ensure [OF I(3)] m _ _ _ _ _ ensure_row, where a = a] fresh
    by (simp add: a att_key_def)
  moreover have "outbox_inv {} (jobs d2) (outbox d2)"
    unfolding d2 by (rule outbox_update [OF I(4)]) (use pk kt in auto)
  ultimately show ?thesis
    using I(5) d2(5) by (simp add: store_inv_def store_mid_def)
qed

text \<open>A branch of the claim: committed in a good state, or ready to claim from a good state.\<close>

definition branch_ok :: "job_row \<Rightarrow> tenant_row \<Rightarrow> claim_env \<Rightarrow> int \<Rightarrow> db \<Rightarrow> db claim_branch \<Rightarrow> bool" where
  "branch_ok j t env m d b \<longleftrightarrow>
     (\<exists>d2. b = CommitRetry d2 \<and> store_inv d2)
     \<or> (\<exists>d1. b = Proceed (reserved_db (tn_id t) (ce_day env) m d1) \<and> store_mid {jb_id j} {} d1
          \<and> map job_core (jobs d1) = map job_core (jobs d) \<and> outbox d1 = outbox d \<and> tenants d1 = tenants d)"

lemma pattern_codes:
  "infrastructureCodePattern ''TENANT_DISABLED''" "infrastructureCodePattern ''LEASE_EXPIRED''"
  "infrastructureCodePattern ''DAILY_EXECUTION_LIMIT_TOO_LOW''"
  by (simp_all add: infrastructureCodePattern_def upper_letter_def digit_def)

lemma claim_recover_inv:
  assumes inv: "store_inv d" and j: "j \<in> set (jobs d)" "jb_status j = JobStatusRunning" "jb_tenant_id j = tn_id t"
    and cr: "claim_recover env t policy j m d = Inr b"
  shows "branch_ok j t env m d b"
proof -
  let ?p = "job_at (jb_id j) JobStatusRunning (jb_attempt_no j)"
    and ?f = "\<lambda>r. clear_row_lease (r\<lparr>jb_status := JobStatusQueued, jb_next_attempt_at := deferred_until env\<rparr>)"
  note I = store_midD [OF inv [unfolded store_inv_def]]
  obtain d1 where ex: "expireAttempt (tn_id t) (jb_id j) (jb_attempt_no j) (ce_now env) d = Inr d1"
    using cr by (auto simp: claim_recover_def result_simps)
  note E = expireAttempt_mid [OF inv j(1,2) ex]
  then have mid: "store_mid {jb_id j} {} d1" and core: "map job_core (jobs d1) = map job_core (jobs d)" by simp_all
  have nt: "\<not> row_terminal j" using j(2) by (simp add: row_terminal_def)
  have run: "\<not> row_terminal k \<and> jb_cancel_requested_at k = jb_cancel_requested_at j"
    if "job_core k = job_core j" for k
    using core_fields(6,7) [OF that] nt by simp
  note settle = settle_expired_inv [OF mid core I(6) j(1,2)]
  have failed: "\<exists>d2. b = CommitRetry d2 \<and> store_inv d2"
    if "settle_expired env what (failed_row c (ce_now env)) j d1 = Inr b" "infrastructureCodePattern c" for what c
    by (rule settle [OF _ _ _ _ _ _ that(1)]) (use run failed_row_ok that(2) in auto)
  consider "tn_status t \<noteq> ''ACTIVE''" | "tn_status t = ''ACTIVE''" "jb_cancel_requested_at j \<noteq> None"
    | "tn_status t = ''ACTIVE''" "jb_cancel_requested_at j = None"
      "int (unat (jb_attempt_no j)) \<ge> MaxInfrastructureTries policy"
    | "tn_status t = ''ACTIVE''" "jb_cancel_requested_at j = None"
      "\<not> int (unat (jb_attempt_no j)) \<ge> MaxInfrastructureTries policy"
    by blast
  then show ?thesis
  proof cases
    case 1
    then show ?thesis
      using cr ex failed pattern_codes by (auto simp: claim_recover_def branch_ok_def)
  next
    case 2
    then have st: "settle_expired env ''read recovered cancellation'' (cancelled_row (ce_now env)) j d1 = Inr b"
      using cr ex by (simp add: claim_recover_def)
    have "\<exists>d2. b = CommitRetry d2 \<and> store_inv d2"
    proof (rule settle [OF _ _ _ _ _ _ st])
      show "row_ok (cancelled_row (ce_now env) k)" if "job_core k = job_core j" for k
        by (rule cancelled_row_ok) (use run [OF that] 2(2) in simp)
    qed simp_all
    then show ?thesis by (simp add: branch_ok_def)
  next
    case 3
    then show ?thesis
      using cr ex failed pattern_codes by (auto simp: claim_recover_def branch_ok_def)
  next
    case 4
    then have rs: "reserve_or_settle env t j (DailyExecutionMillis policy) m ?p ?f d1 = Inr b"
      using cr ex by (simp add: claim_recover_def)
    have "(\<exists>d2. b = CommitRetry d2 \<and> store_inv d2) \<or> b = Proceed (reserved_db (tn_id t) (ce_day env) m d1) \<and> 0 < m"
    proof (rule reserve_or_settle_inv [OF mid core I(6) j(1) nt j(3) _ _ _ _ _ _ _ rs])
      show "?p k" if "job_core k = job_core j" for k
        using core_fields [OF that] j(2) by (simp add: job_at_def)
      show "row_ok (?f k)" if "job_core k = job_core j" "row_ok k" for k
      proof -
        have "jb_cancel_requested_at k = None" using core_fields(7) [OF that(1)] 4(2) by simp
        moreover have "jb_status k = JobStatusRunning" using core_fields(2) [OF that(1)] j(2) by simp
        ultimately show ?thesis
          using that(2) by (simp add: row_ok_def clear_row_lease_def row_terminal_def)
      qed
    qed (simp_all add: job_at_def clear_row_lease_def)
    then show ?thesis using mid core E by (auto simp: branch_ok_def)
  qed
qed

lemma claim_queued_inv:
  assumes inv: "store_inv d" and j: "j \<in> set (jobs d)" "jb_status j = JobStatusQueued" "jb_tenant_id j = tn_id t"
    and cq: "claim_queued env t policy j m d = Inr b"
  shows "branch_ok j t env m d b"
proof -
  let ?p = "\<lambda>r. jb_id r = jb_id j \<and> jb_status r = JobStatusQueued"
    and ?f = "\<lambda>r. r\<lparr>jb_next_attempt_at := deferred_until env\<rparr>"
  note I = store_midD [OF inv [unfolded store_inv_def]]
  have mid: "store_mid {jb_id j} {} d"
    by (rule mid_unheld) (use inv j in \<open>simp_all add: store_inv_def\<close>)
  have rs: "reserve_or_settle env t j (DailyExecutionMillis policy) m ?p ?f d = Inr b"
    using cq by (auto simp: claim_queued_def split: if_splits sum.splits)
  have nt: "\<not> row_terminal j" using j(2) by (simp add: row_terminal_def)
  have "(\<exists>d2. b = CommitRetry d2 \<and> store_inv d2) \<or> b = Proceed (reserved_db (tn_id t) (ce_day env) m d) \<and> 0 < m"
  proof (rule reserve_or_settle_inv [OF mid refl I(6) j(1) nt j(3) _ _ _ _ _ _ _ rs])
    show "?p k" if "job_core k = job_core j" for k
      using core_fields [OF that] j(2) by simp
    show "row_ok (?f k)" if "row_ok k" for k
      using that by (simp add: row_ok_def row_terminal_def)
  qed simp_all
  then show ?thesis using mid by (auto simp: branch_ok_def)
qed

lemma select_job_facts:
  assumes "select_claim_job env t d = Some j"
  shows "j \<in> set (jobs d)" "jb_tenant_id j = tn_id t"
    "jb_status j = JobStatusQueued \<or> jb_status j = JobStatusRunning"
  using min_row_mem [OF assms [unfolded select_claim_job_def]] by (auto simp: job_claimable_def)

lemma claim_selectedE:
  assumes "claim_selected env w l t policy j d = Inr (c, d')" "jb_status j = JobStatusQueued \<or> jb_status j = JobStatusRunning"
  obtains m b where "0 < m" "m \<le> max_int64"
    "(if jb_status j = JobStatusRunning then claim_recover env t policy j m d = Inr b
      else claim_queued env t policy j m d = Inr b)"
    "(\<exists>d1. b = CommitRetry d1 \<and> c = None \<and> d' = d1)
     \<or> (\<exists>d1 claim. b = Proceed d1 \<and> c = Some claim \<and> claim_commit env w l t j m d1 = Inr (claim, d'))"
proof -
  obtain mf where mf: "bundle_manifest d j = Some mf"
    using assms(1) by (auto simp: claim_selected_def split: option.splits)
  obtain m where m: "maximumManifestExecutionMillis mf = Some m"
    using assms(1) mf by (auto simp: claim_selected_def split: option.splits if_splits)
  have "\<exists>b. (if jb_status j = JobStatusRunning then claim_recover env t policy j m d = Inr b
      else claim_queued env t policy j m d = Inr b) \<and>
    ((\<exists>d1. b = CommitRetry d1 \<and> c = None \<and> d' = d1)
     \<or> (\<exists>d1 claim. b = Proceed d1 \<and> c = Some claim \<and> claim_commit env w l t j m d1 = Inr (claim, d')))"
    using assms mf m
    by (auto simp: claim_selected_def split: if_splits sum.splits claim_branch.splits prod.splits)
  with that [OF reservation_bounds [OF m]] show ?thesis by blast
qed

lemma claimOneWithClock_inv:
  assumes inv: "store_inv d" and cl: "claimOneWithClock env w l d = Inr (c, d')"
  shows "store_inv d'"
proof -
  obtain t policy j where sj: "select_claim_job env t d = Some j"
    and cs: "claim_selected env w l t policy j d = Inr (c, d')"
    using cl by (auto simp: claimOneWithClock_def split: option.splits)
  note J = select_job_facts [OF sj]
  obtain m b where m: "0 < m" "m \<le> max_int64"
    and br: "if jb_status j = JobStatusRunning then claim_recover env t policy j m d = Inr b
      else claim_queued env t policy j m d = Inr b"
    and out: "(\<exists>d1. b = CommitRetry d1 \<and> c = None \<and> d' = d1)
     \<or> (\<exists>d1 claim. b = Proceed d1 \<and> c = Some claim \<and> claim_commit env w l t j m d1 = Inr (claim, d'))"
    using cs J(3) by (rule claim_selectedE)
  have ok: "branch_ok j t env m d b"
    using br J claim_recover_inv [OF inv J(1) _ J(2)] claim_queued_inv [OF inv J(1) _ J(2)]
    by (auto split: if_splits)
  have nt: "\<not> row_terminal j" using J(3) by (auto simp: row_terminal_def)
  note I = store_midD [OF inv [unfolded store_inv_def]]
  from out show ?thesis
  proof (elim disjE exE conjE)
    fix d1 assume "b = CommitRetry d1" "d' = d1"
    then show ?thesis using ok by (auto simp: branch_ok_def)
  next
    fix d1 claim assume b: "b = Proceed d1" and cc: "claim_commit env w l t j m d1 = Inr (claim, d')"
    then obtain d0 where d0: "d1 = reserved_db (tn_id t) (ce_day env) m d0" "store_mid {jb_id j} {} d0"
      "map job_core (jobs d0) = map job_core (jobs d)"
      using ok by (auto simp: branch_ok_def)
    show ?thesis
      by (rule claim_commit_inv [OF d0(2,3) I(6) J(1) nt J(2) m cc [unfolded d0(1)]])
  qed
qed

section \<open>The end of an attempt\<close>

lemma finish_mid:
  assumes inv: "store_inv d" and hit: "sql_affected (claim_row claim) f (jobs d) = 1"
    and f: "\<And>k. jb_id (f k) = jb_id k" "\<And>k. jb_tenant_id (f k) = jb_tenant_id k"
      "\<And>k. jb_attempt_no (f k) = jb_attempt_no k" "\<And>k. jb_status (f k) \<noteq> JobStatusRunning"
    and ok: "\<And>k. k \<in> set (jobs d) \<Longrightarrow> claim_row claim k \<Longrightarrow> row_ok (f k)"
    and cs: "\<And>x. x \<in> set cs \<Longrightarrow> 0 \<le> dc_TimeMillis x" and st: "st \<noteq> AttemptRunning"
    and settle: "settleAttemptReservation claim now cs full (update_jobs (claim_row claim) f d) = Inr (c, d1)"
    and fin: "finishAttempt claim st code c now d1 = Inr d2"
    and Y: "\<And>k. row_terminal (f k) \<Longrightarrow> ej_InternalID (wc_Job claim) \<in> Y"
  shows "store_mid {} Y d2 \<and> map job_core (jobs d2) = map job_core (sql_update (claim_row claim) f (jobs d))
    \<and> outbox d2 = outbox d \<and> tenants d2 = tenants d"
proof -
  let ?i = "ej_InternalID (wc_Job claim)" and ?n = "wc_AttemptNo claim"
    and ?q = "attempt_claim_row claim" and ?g = "finished_attempt st code c now"
    and ?d' = "update_jobs (claim_row claim) f d"
  note I = store_midD [OF inv [unfolded store_inv_def]]
  from hit obtain j where j: "j \<in> set (jobs d)" "claim_row claim j" by (rule affected_one_obtain)
  then have ji: "jb_id j = ?i" "jb_attempt_no j = ?n" "jb_status j = JobStatusRunning"
    "jb_worker_id j = Some (wc_WorkerID claim)" "jb_lease_token j = Some (wc_LeaseToken claim)"
    by (auto simp: claim_row_def)
  note rel = settle [unfolded settleAttemptReservation_def]
  obtain day where d1: "d1 = wake_deferred (ej_TenantInternalID (wc_Job claim)) day now (?d'\<lparr>daily := daily d1\<rparr>)"
    using rel by (rule releaseE) auto
  have att: "attempts d1 = attempts d" and oth: "outbox d1 = outbox d" "tenants d1 = tenants d"
    by (subst d1, simp)+
  have core: "map job_core (jobs d1) = map job_core (sql_update (claim_row claim) f (jobs d))"
    by (subst d1) (simp add: wake_core)
  have hit2: "sql_affected ?q ?g (attempts d) = 1" and d2: "d2 = d1\<lparr>attempts := sql_update ?q ?g (attempts d)\<rparr>"
    using fin att by (auto simp: finishAttempt_def Let_def split: if_splits)
  have settled: "lease_inv {?i} (jobs d) (sql_update ?q ?g (attempts ?d'))
      \<and> ledger_inv (sql_update ?q ?g (attempts ?d')) (daily d1) \<and> 0 \<le> c"
  proof (rule settle_attempt [OF _ _ I(6) j(1) ji(1-3) rel cs])
    show "?q b" if "held_by j b" "at_job_id b = ?i" "at_status b = AttemptRunning" for b
      using that ji by (auto simp: held_by_def attempt_claim_row_def)
  qed (use I(2,3) hit2 st in \<open>simp_all add: attempt_claim_row_def finished_attempt_def\<close>)
  let ?e = "d\<lparr>attempts := sql_update ?q ?g (attempts d), daily := daily d1\<rparr>"
  have mid: "store_mid {?i} {} ?e"
    using settled I(1,4,5) by (simp add: store_mid_def)
  have "store_mid {} Y (update_jobs (claim_row claim) f ?e)"
  proof (rule mid_leave [where p = "claim_row claim" and f = f, OF mid])
    show "j \<in> set (jobs ?e)" "row_ok (f j)" using j ok by simp_all
    show "\<not> row_terminal j" using ji(3) by (simp add: row_terminal_def)
  qed (use j ji f Y in \<open>simp_all add: claim_row_def\<close>)
  then have "store_mid {} Y d2"
    by (rule store_mid_core) (simp_all add: d2 core oth)
  then show ?thesis by (simp add: d2 core oth)
qed

lemma finish_emit:
  assumes mid: "store_mid {} {i} d2" and core: "map job_core (jobs d2) = map job_core (sql_update p f js)"
    and j: "j \<in> set js" "p j" "jb_id j = i" "jb_id (f j) = jb_id j" "row_terminal (f j)"
    and em: "emit_terminal what ids w now i d2 = Inr (job, d3)"
  shows "store_inv d3"
proof -
  have "f j \<in> set (sql_update p f js)" using mem_sql_updateI [OF j(1), of p f] j(2) by simp
  with core obtain k where k: "k \<in> set (jobs d2)" "job_core k = job_core (f j)" by (rule core_exists)
  then show ?thesis
    using emit_mid [OF mid k(1) _ _ em] core_fields [OF k(2)] j by (simp add: store_inv_def)
qed

lemma succeeded_row_facts [simp]:
  "jb_id (succeeded_row r now k) = jb_id k" "jb_tenant_id (succeeded_row r now k) = jb_tenant_id k"
  "jb_attempt_no (succeeded_row r now k) = jb_attempt_no k" "jb_status (succeeded_row r now k) = JobStatusSucceeded"
  "row_terminal (succeeded_row r now k)"
  by (simp_all add: succeeded_row_def clear_row_lease_def row_terminal_def)

lemma lock_facts:
  assumes "lockActiveClaimAndPolicy claim lockNow d = Inr (cancelled, pol)" "distinct (map jb_id (jobs d))"
    "k \<in> set (jobs d)" "claim_row claim k"
  shows "cancelled = (jb_cancel_requested_at k \<noteq> None)" "lease_after k lockNow"
proof -
  obtain j where j: "j \<in> set (jobs d)" "claim_row claim j" "lease_after j lockNow"
    "cancelled = (jb_cancel_requested_at j \<noteq> None)"
    using assms(1) by (auto simp: lockActiveClaimAndPolicy_def split: option.splits dest!: find_Some_mem)
  then have "j = k" using job_by_id [OF assms(2) j(1) assms(3)] assms(4) by (simp add: claim_row_def)
  with j show "cancelled = (jb_cancel_requested_at k \<noteq> None)" "lease_after k lockNow" by simp_all
qed

lemma durable_cases_nonneg:
  assumes "validateDurableJobResult r" "x \<in> set (dr_Cases r)"
  shows "0 \<le> dc_TimeMillis x"
  using assms by (auto simp: validate_result_iff durable_ok_def cases_ok_def invalid_case_fields_def)

lemma job_CompleteE:
  assumes "job_Complete env claim result d = Inr d3"
  obtains cancelled pol c d1 d2 job where "validateDurableJobResult result" "validWorkerClaim claim"
    "lockActiveClaimAndPolicy claim (fe_lock_now env) d = Inr (cancelled, pol)"
    "sql_affected (claim_row claim)
      (if cancelled then cancelled_row (fe_now env) else succeeded_row result (fe_now env)) (jobs d) = 1"
    "settleAttemptReservation claim (fe_now env) (dr_Cases result)
      (length (dr_Cases result) = 0 \<and> (cancelled \<or> dr_CompileStatus result = ''FAILED''))
      (update_jobs (claim_row claim)
        (if cancelled then cancelled_row (fe_now env) else succeeded_row result (fe_now env)) d) = Inr (c, d1)"
    "finishAttempt claim (if cancelled then AttemptCancelled else AttemptSucceeded) [] c (fe_now env) d1 = Inr d2"
    "emit_terminal ''read completed job'' (fe_event_ids env) (fe_window env) (fe_now env)
      (ej_InternalID (wc_Job claim)) d2 = Inr (job, d3)"
  using assms by (auto simp: job_Complete_def Let_def result_simps split: if_splits)

lemma job_Complete_inv:
  assumes inv: "store_inv d" and cp: "job_Complete env claim result d = Inr d3"
  shows "store_inv d3"
proof -
  note I = store_midD [OF inv [unfolded store_inv_def]]
  obtain cancelled pol c d1 d2 job where v: "validateDurableJobResult result"
    and lk: "lockActiveClaimAndPolicy claim (fe_lock_now env) d = Inr (cancelled, pol)"
    and hit: "sql_affected (claim_row claim)
      (if cancelled then cancelled_row (fe_now env) else succeeded_row result (fe_now env)) (jobs d) = 1"
    and settle: "settleAttemptReservation claim (fe_now env) (dr_Cases result)
      (length (dr_Cases result) = 0 \<and> (cancelled \<or> dr_CompileStatus result = ''FAILED''))
      (update_jobs (claim_row claim)
        (if cancelled then cancelled_row (fe_now env) else succeeded_row result (fe_now env)) d) = Inr (c, d1)"
    and fin: "finishAttempt claim (if cancelled then AttemptCancelled else AttemptSucceeded) [] c (fe_now env) d1 = Inr d2"
    and em: "emit_terminal ''read completed job'' (fe_event_ids env) (fe_window env) (fe_now env)
      (ej_InternalID (wc_Job claim)) d2 = Inr (job, d3)"
    using cp by (rule job_CompleteE)
  let ?f = "if cancelled then cancelled_row (fe_now env) else succeeded_row result (fe_now env)"
  from hit obtain j where j: "j \<in> set (jobs d)" "claim_row claim j" by (rule affected_one_obtain)
  have ok: "row_ok (?f k)" if k: "k \<in> set (jobs d)" "claim_row claim k" for k
  proof (cases cancelled)
    case True
    then show ?thesis using lock_facts(1) [OF lk I(6) k] cancelled_row_ok by simp
  next
    case False
    then have "jb_cancel_requested_at k = None" using lock_facts(1) [OF lk I(6) k] by simp
    then show ?thesis
      using False v by (simp add: row_ok_def succeeded_row_def clear_row_lease_def row_terminal_def)
  qed
  have m: "store_mid {} {ej_InternalID (wc_Job claim)} d2 \<and>
      map job_core (jobs d2) = map job_core (sql_update (claim_row claim) ?f (jobs d))
      \<and> outbox d2 = outbox d \<and> tenants d2 = tenants d"
    by (rule finish_mid [OF inv hit _ _ _ _ ok _ _ settle fin]) (use durable_cases_nonneg [OF v] in auto)
  show ?thesis
    by (rule finish_emit [where p = "claim_row claim" and f = ?f, OF _ _ j _ _ _ em]) (use m j in \<open>auto simp: claim_row_def\<close>)
qed

lemma failure_row_facts [simp]:
  "jb_id (failure_row x fl now k) = jb_id k" "jb_tenant_id (failure_row x fl now k) = jb_tenant_id k"
  "jb_attempt_no (failure_row x fl now k) = jb_attempt_no k"
  "jb_status (failure_row x fl now k) \<noteq> JobStatusRunning"
  "row_terminal (failure_row x fl now k) \<longleftrightarrow> x \<noteq> FailureRequeued"
  by (cases x; simp add: failure_row_def clear_row_lease_def row_terminal_def)+

lemma failure_row_ok:
  assumes "row_ok k" "jb_status k = JobStatusRunning" "infrastructureCodePattern (if_Code fl)"
    "x = FailureCancelled \<longleftrightarrow> jb_cancel_requested_at k \<noteq> None"
  shows "row_ok (failure_row x fl now k)"
  using assms by (cases x) (simp_all add: failure_row_def clear_row_lease_def row_terminal_def row_ok_def)

lemma job_FailInfrastructureE:
  assumes "job_FailInfrastructure env claim failure d = Inr (disp, d3)"
  obtains cancelled pol policy c d1 d2 where "validWorkerClaim claim" "infrastructureCodePattern (if_Code failure)"
    "0 \<le> if_RetryDelay failure"
    "lockActiveClaimAndPolicy claim (fe_lock_now env) d = Inr (cancelled, pol)"
    "decodeTenantPolicy pol = Some policy"
    "disp = failure_disposition cancelled failure (wc_AttemptNo claim) policy"
    "sql_affected (claim_row claim) (failure_row disp failure (fe_now env)) (jobs d) = 1"
    "settleAttemptReservation claim (fe_now env) [] (if_ChargeFullReservation failure)
      (update_jobs (claim_row claim) (failure_row disp failure (fe_now env)) d) = Inr (c, d1)"
    "finishAttempt claim (if cancelled then AttemptCancelled else AttemptFailed)
      (if cancelled then [] else if_Code failure) c (fe_now env) d1 = Inr d2"
    "if disp \<noteq> FailureRequeued then
        \<exists>job. emit_terminal ''read terminal failed job'' (fe_event_ids env) (fe_window env) (fe_now env)
          (ej_InternalID (wc_Job claim)) d2 = Inr (job, d3)
      else d3 = d2"
proof -
  obtain cancelled pol policy where lk: "lockActiveClaimAndPolicy claim (fe_lock_now env) d = Inr (cancelled, pol)"
    and pol: "decodeTenantPolicy pol = Some policy"
    using assms by (auto simp: job_FailInfrastructure_def result_simps split: if_splits option.splits)
  let ?x = "failure_disposition cancelled failure (wc_AttemptNo claim) policy"
  let ?f = "failure_row ?x failure (fe_now env)"
  have pre: "validWorkerClaim claim" "infrastructureCodePattern (if_Code failure)" "0 \<le> if_RetryDelay failure"
    "disp = ?x"
    using assms lk pol by (auto simp: job_FailInfrastructure_def Let_def result_simps split: if_splits)
  obtain c d1 d2 where "sql_affected (claim_row claim) ?f (jobs d) = 1"
    "settleAttemptReservation claim (fe_now env) [] (if_ChargeFullReservation failure)
      (update_jobs (claim_row claim) ?f d) = Inr (c, d1)"
    "finishAttempt claim (if cancelled then AttemptCancelled else AttemptFailed)
      (if cancelled then [] else if_Code failure) c (fe_now env) d1 = Inr d2"
    "if ?x \<noteq> FailureRequeued then
        \<exists>job. emit_terminal ''read terminal failed job'' (fe_event_ids env) (fe_window env) (fe_now env)
          (ej_InternalID (wc_Job claim)) d2 = Inr (job, d3)
      else d3 = d2"
    using assms lk pol by (auto simp: job_FailInfrastructure_def Let_def result_simps split: if_splits)
  then show ?thesis using that [OF pre(1-3) lk pol pre(4)] pre(4) by simp
qed

lemma job_FailInfrastructure_inv:
  assumes inv: "store_inv d" and fl: "job_FailInfrastructure env claim failure d = Inr (disp, d3)"
  shows "store_inv d3"
proof -
  note I = store_midD [OF inv [unfolded store_inv_def]]
  let ?f = "failure_row disp failure (fe_now env)"
  obtain cancelled pol policy c d1 d2 where code: "infrastructureCodePattern (if_Code failure)"
    and lk: "lockActiveClaimAndPolicy claim (fe_lock_now env) d = Inr (cancelled, pol)"
    and disp: "disp = failure_disposition cancelled failure (wc_AttemptNo claim) policy"
    and hit: "sql_affected (claim_row claim) ?f (jobs d) = 1"
    and settle: "settleAttemptReservation claim (fe_now env) [] (if_ChargeFullReservation failure)
      (update_jobs (claim_row claim) ?f d) = Inr (c, d1)"
    and fin: "finishAttempt claim (if cancelled then AttemptCancelled else AttemptFailed)
      (if cancelled then [] else if_Code failure) c (fe_now env) d1 = Inr d2"
    and out: "if disp \<noteq> FailureRequeued then
        \<exists>job. emit_terminal ''read terminal failed job'' (fe_event_ids env) (fe_window env) (fe_now env)
          (ej_InternalID (wc_Job claim)) d2 = Inr (job, d3)
      else d3 = d2"
    using fl by (rule job_FailInfrastructureE)
  from hit obtain j where j: "j \<in> set (jobs d)" "claim_row claim j" by (rule affected_one_obtain)
  have ok: "row_ok (?f k)" if k: "k \<in> set (jobs d)" "claim_row claim k" for k
    by (rule failure_row_ok [OF I(7) [OF k(1)] _ code])
      (use k(2) lock_facts(1) [OF lk I(6) k] in \<open>auto simp: claim_row_def failure_disposition_def disp\<close>)
  have m: "store_mid {} (if disp \<noteq> FailureRequeued then {ej_InternalID (wc_Job claim)} else {}) d2 \<and>
      map job_core (jobs d2) = map job_core (sql_update (claim_row claim) ?f (jobs d))
      \<and> outbox d2 = outbox d \<and> tenants d2 = tenants d"
    by (rule finish_mid [OF inv hit _ _ _ _ ok _ _ settle fin]) auto
  show ?thesis
  proof (cases "disp = FailureRequeued")
    case True
    then show ?thesis using m out by (simp add: store_inv_def)
  next
    case False
    then obtain job where em: "emit_terminal ''read terminal failed job'' (fe_event_ids env) (fe_window env)
        (fe_now env) (ej_InternalID (wc_Job claim)) d2 = Inr (job, d3)"
      using out by auto
    show ?thesis
      by (rule finish_emit [where p = "claim_row claim" and f = ?f, OF _ _ j _ _ _ em])
        (use m j False in \<open>auto simp: claim_row_def\<close>)
  qed
qed

section \<open>Heartbeat and cancellation\<close>

lemma running_row_ok:
  assumes "row_ok k" "jb_status k = JobStatusRunning"
  shows "row_ok (k\<lparr>jb_lease_until := Some l\<rparr>)" "row_ok (k\<lparr>jb_cancel_requested_at := Some now\<rparr>)"
  using assms by (simp_all add: row_ok_def row_terminal_def)

lemma job_Heartbeat_inv:
  assumes inv: "store_inv d" and hb: "job_Heartbeat claim l now d = Inr d'"
  shows "store_inv d'"
proof -
  let ?p = "\<lambda>j. claim_row claim j \<and> lease_after j now" and ?q = "attempt_claim_row claim"
    and ?f = "\<lambda>j. j\<lparr>jb_lease_until := Some (now + l)\<rparr>" and ?g = "\<lambda>a. a\<lparr>at_lease_until := now + l\<rparr>"
  note I = store_midD [OF inv [unfolded store_inv_def]]
  have hit: "sql_affected ?p ?f (jobs d) = 1"
    and d': "jobs d' = sql_update ?p ?f (jobs d)" "attempts d' = sql_update ?q ?g (attempts d)"
      "daily d' = daily d" "outbox d' = outbox d" "tenants d' = tenants d"
    using hb by (auto simp: job_Heartbeat_def Let_def split: if_splits)
  from hit obtain j where j: "j \<in> set (jobs d)" "?p j" by (rule affected_one_obtain)
  then have ji: "jb_id j = ej_InternalID (wc_Job claim)" "jb_attempt_no j = wc_AttemptNo claim"
    "jb_worker_id j = Some (wc_WorkerID claim)" "jb_lease_token j = Some (wc_LeaseToken claim)"
    "jb_status j = JobStatusRunning"
    by (auto simp: claim_row_def)
  have "lease_inv {} (jobs d') (attempts d')"
    unfolding d'
  proof (rule lease_renew [where p = ?p, OF I(2,6) j])
    show "jb_id k = jb_id j" if "?p k" for k using that ji by (simp add: claim_row_def)
    show "?q b \<longleftrightarrow> at_status b = AttemptRunning \<and> at_job_id b = jb_id j" if b: "b \<in> set (attempts d)" for b
      using running_attempt_held [OF I(2,6) b _ j(1)] ji
      by (auto simp: attempt_claim_row_def held_by_def)
  qed
  moreover have "rows_ok (jobs d')"
    unfolding d' by (rule rows_ok_update [OF I(1)])
      (auto simp: claim_row_def intro: running_row_ok I(7))
  moreover have "ledger_inv (attempts d') (daily d')"
    unfolding d' by (rule ledger_renew [OF I(3)]) (simp_all add: att_key_def)
  moreover have "outbox_inv {} (jobs d') (outbox d')"
    unfolding d' by (rule outbox_update [OF I(4)]) (auto simp: claim_row_def row_terminal_def)
  ultimately show ?thesis using I(5) d'(5) by (simp add: store_inv_def store_mid_def)
qed

lemma getExternalJob_facts:
  assumes "getExternalJob d te je = Some (j, job)"
  shows "j \<in> set (jobs d)" "job = read_job d j" "jb_external_id j = je"
  using assms by (auto simp: getExternalJob_def job_named_def split: option.splits dest!: find_Some_mem)

lemma cancel_running_mid:
  assumes inv: "store_inv d" and j: "j \<in> set (jobs d)" "jb_id j = i" "jb_status j = JobStatusRunning"
  shows "store_inv (update_jobs (\<lambda>k. jb_id k = i \<and> jb_status k = JobStatusRunning)
    (\<lambda>k. k\<lparr>jb_cancel_requested_at := Some now\<rparr>) d)" (is "store_inv (update_jobs ?p ?f d)")
proof -
  note I = store_midD [OF inv [unfolded store_inv_def]]
  have "rows_ok (sql_update ?p ?f (jobs d))"
    by (rule rows_ok_update [OF I(1)]) (auto intro: running_row_ok I(7))
  moreover have "outbox_inv {} (sql_update ?p ?f (jobs d)) (outbox d)"
    by (rule outbox_update [OF I(4)]) (auto simp: row_terminal_def)
  moreover have "lease_inv {} (sql_update ?p ?f (jobs d)) (attempts d)"
  proof -
    have "attempt_ok {} (sql_update ?p ?f (jobs d)) a" if a: "a \<in> set (attempts d)" for a
    proof -
      obtain k where k: "k \<in> set (jobs d)" "jb_id k = at_job_id a" "jb_tenant_id k = at_tenant_id a"
        "unat (at_attempt_no a) \<le> unat (jb_attempt_no k)" "at_status a = AttemptRunning \<longrightarrow> held_by k a"
        using lease_invD(1) [OF I(2) a] by (auto simp: attempt_ok_def)
      with mem_sql_updateI [OF k(1), of ?p ?f] show ?thesis
        unfolding attempt_ok_def by (intro bexI [of _ "if ?p k then ?f k else k"]) (auto simp: held_by_def)
    qed
    moreover have "\<exists>a \<in> set (attempts d). at_status a = AttemptRunning \<and> at_job_id a = jb_id k"
      if k: "k \<in> set (sql_update ?p ?f (jobs d))" "jb_status k = JobStatusRunning" for k
    proof -
      from k(1) obtain s where s: "s \<in> set (jobs d)" "k = (if ?p s then ?f s else s)" by (rule mem_sql_updateE)
      then show ?thesis using lease_invD(2) [OF I(2) s(1)] k(2) by (auto split: if_splits)
    qed
    ultimately show ?thesis by (simp add: lease_inv_def)
  qed
  ultimately show ?thesis using I(3,5) by (simp add: store_inv_def store_mid_def)
qed

lemma getExternalJob_update:
  assumes "\<And>k. jb_external_id (f k) = jb_external_id k" "\<And>k. jb_tenant_id (f k) = jb_tenant_id k"
    "\<And>k. jb_bundle_id (f k) = jb_bundle_id k" "\<And>k. jb_source_object_id (f k) = jb_source_object_id k"
    "getExternalJob d te je = Some (j, r)" "p j"
  shows "getExternalJob (update_jobs p f d) te je = Some (f j, read_job (update_jobs p f d) (f j))"
proof -
  have same: "job_named (update_jobs p f d) te je = job_named d te je"
    by (rule ext) (simp add: job_named_def update_jobs_def tenant_of_def bundle_of_def source_of_def)
  have keep: "job_named d te je (f k) = job_named d te je k" for k
    by (simp add: job_named_def tenant_of_def bundle_of_def source_of_def assms(1-4))
  have "List.find (job_named d te je) (jobs d) = Some j"
    using assms(5) by (auto simp: getExternalJob_def split: option.splits)
  then show ?thesis
    using assms(6) by (simp add: getExternalJob_def same find_sql_update [where P = "job_named d te je" and f = f, OF keep])
qed

lemma job_Cancel_inv:
  assumes inv: "store_inv d" and ca: "job_Cancel env te je d = Inr (job', d')"
  shows "store_inv d'"
proof -
  let ?now = "fe_now env"
  note I = store_midD [OF inv [unfolded store_inv_def]]
  obtain j job where g: "getExternalJob d te je = Some (j, Some job)"
    using ca by (auto simp: job_Cancel_def split: if_splits option.splits)
  have j: "j \<in> set (jobs d)" "read_job d j = Some job" using getExternalJob_facts [OF g] by simp_all
  note rj = read_job_facts [OF j(2)]
  show ?thesis
  proof (cases "jb_status j")
    case JobStatusQueued
    let ?p = "\<lambda>k. jb_id k = jb_id j \<and> jb_status k = JobStatusQueued"
      and ?f = "\<lambda>k. clear_row_lease (k\<lparr>jb_status := JobStatusCancelled,
          jb_cancel_requested_at := Some ?now, jb_completed_at := Some ?now\<rparr>)"
    have g1: "getExternalJob (update_jobs ?p ?f d) te je = Some (?f j, read_job (update_jobs ?p ?f d) (?f j))"
      by (rule getExternalJob_update [OF _ _ _ _ g]) (simp_all add: clear_row_lease_def JobStatusQueued)
    obtain eid where ins: "insertTerminalWebhookEvent (fe_event_ids env) (fe_window env) ?now job'
        (update_jobs ?p ?f d) = Inr (eid, d')" and r': "read_job (update_jobs ?p ?f d) (?f j) = Some job'"
      using ca g g1 rj JobStatusQueued
      by (auto simp: job_Cancel_def Let_def result_simps split: if_splits option.splits)
    have mid: "store_mid {} {jb_id j} (update_jobs ?p ?f d)"
    proof (rule mid_leave [where p = ?p and f = ?f and j = j])
      show "store_mid {jb_id j} {} d"
        by (rule mid_unheld) (use inv j(1) JobStatusQueued in \<open>simp_all add: store_inv_def\<close>)
      show "row_ok (?f j)"
        using I(7) [OF j(1)] JobStatusQueued by (simp add: row_ok_def clear_row_lease_def row_terminal_def)
    qed (use j(1) JobStatusQueued in \<open>simp_all add: clear_row_lease_def row_terminal_def\<close>)
    have fj: "?f j \<in> set (jobs (update_jobs ?p ?f d))"
      using mem_sql_updateI [OF j(1), of ?p ?f] JobStatusQueued by simp
    have "store_mid {} {} d' \<and> (\<exists>es. d' = (update_jobs ?p ?f d)\<lparr>outbox := es\<rparr>)"
      by (rule insert_terminal_mid [OF mid fj _ _ _ _ _ ins])
        (use read_job_facts [OF r'] in \<open>simp_all add: clear_row_lease_def row_terminal_def\<close>)
    then show ?thesis by (simp add: store_inv_def)
  next
    case JobStatusRunning
    then have "d' = d \<or> d' = update_jobs (\<lambda>k. jb_id k = jb_id j \<and> jb_status k = JobStatusRunning)
        (\<lambda>k. k\<lparr>jb_cancel_requested_at := Some ?now\<rparr>) d"
      using ca g rj by (auto simp: job_Cancel_def Let_def result_simps split: if_splits)
    then show ?thesis
      using inv cancel_running_mid [OF inv j(1) refl JobStatusRunning] by auto
  qed (use ca g rj inv in \<open>auto simp: job_Cancel_def Let_def result_simps split: if_splits\<close>)
qed

end
