(* ===== verification/Job_Store.thy ===== *)
theory Job_Store
  imports Job_Transactions
begin

text \<open>
  The job store as a transition system: the steps are the committed transactions, in any order and
  by any worker. Its properties: the invariant, fencing and absorption of terminal rows (an
  interpretation of the lease contract), one event per terminal job, the daily budget, and the
  refinement of the durable job state machine by the SQL transactions.
\<close>

section \<open>Steps\<close>

inductive store_step :: "db \<Rightarrow> db \<Rightarrow> bool" where
  store_claim: "claimOneWithClock env w l d = Inr (c, d') \<Longrightarrow> store_step d d'"
| store_heartbeat: "job_Heartbeat claim l now d = Inr d' \<Longrightarrow> store_step d d'"
| store_complete: "job_Complete env claim r d = Inr d' \<Longrightarrow> store_step d d'"
| store_fail: "job_FailInfrastructure env claim fl d = Inr (x, d') \<Longrightarrow> store_step d d'"
| store_cancel: "job_Cancel env te je d = Inr (job, d') \<Longrightarrow> store_step d d'"

lemma store_step_inv: "store_step d d' \<Longrightarrow> store_inv d \<Longrightarrow> store_inv d'"
  by (induction rule: store_step.induct)
    (auto intro: claimOneWithClock_inv job_Heartbeat_inv job_Complete_inv job_FailInfrastructure_inv job_Cancel_inv)

lemma store_steps_inv: "store_step\<^sup>*\<^sup>* d d' \<Longrightarrow> store_inv d \<Longrightarrow> store_inv d'"
  by (induction rule: rtranclp_induct) (auto intro: store_step_inv)

lemma claim_rounds_steps:
  "claim_rounds n k env ctxDone w l d = (r, d') \<Longrightarrow> store_step\<^sup>*\<^sup>* d d'"
proof (induction n arbitrary: k d)
  case (Suc n)
  show ?case
  proof (cases "claimOneWithClock (env k) w l d")
    case (Inl e)
    then show ?thesis using Suc by (cases e) (auto split: if_splits)
  next
    case (Inr x)
    obtain c d1 where x: "x = (c, d1)" by (cases x)
    have step: "store_step d d1" using Inr x by (auto intro: store_claim)
    show ?thesis
      using Suc Inr x step
      by (cases c) (auto split: if_splits intro: converse_rtranclp_into_rtranclp)
  qed
qed simp

section \<open>Rows only advance\<close>

text \<open>What a row keeps for its whole life: its ids, its references and what the client asked for.\<close>

definition job_name :: "job_row \<Rightarrow> nat \<times> string \<times> nat \<times> nat \<times> nat \<times> nat option \<times> string \<times> bool \<times> string option \<times> int" where
  "job_name j = (jb_id j, jb_external_id j, jb_tenant_id j, jb_bundle_id j, jb_source_object_id j, jb_callback_id j,
     jb_language_id j, jb_stop_on_failure j, jb_client_reference j, jb_created_at j)"

lemma job_name_rows [simp]:
  "job_name (clear_row_lease j) = job_name j" "job_name (failed_row code now j) = job_name j"
  "job_name (cancelled_row now j) = job_name j" "job_name (succeeded_row r now j) = job_name j"
  "job_name (failure_row x fl now j) = job_name j" "job_name (claimed_row w token until now n j) = job_name j"
  "job_name (j\<lparr>jb_status := s\<rparr>) = job_name j" "job_name (j\<lparr>jb_next_attempt_at := t\<rparr>) = job_name j"
  "job_name (j\<lparr>jb_lease_until := l\<rparr>) = job_name j" "job_name (j\<lparr>jb_cancel_requested_at := c\<rparr>) = job_name j"
  "job_name (j\<lparr>jb_completed_at := c\<rparr>) = job_name j" "job_name (j\<lparr>jb_worker_id := x1\<rparr>) = job_name j"
  "job_name (j\<lparr>jb_lease_token := x2\<rparr>) = job_name j"
  by (simp_all add: job_name_def clear_row_lease_def failed_row_def cancelled_row_def succeeded_row_def failure_row_def
      claimed_row_def split: FailureDisposition.split)

definition result_ok :: "job_row \<Rightarrow> bool" where
  "result_ok j \<longleftrightarrow> (\<forall>r. jb_result j = Some r \<longrightarrow> validateDurableJobResult r)"

lemma result_ok_rows [simp]:
  "result_ok j \<Longrightarrow> result_ok (clear_row_lease j)" "result_ok j \<Longrightarrow> result_ok (failed_row code now j)"
  "result_ok j \<Longrightarrow> result_ok (cancelled_row now j)" "validateDurableJobResult r \<Longrightarrow> result_ok (succeeded_row r now j)"
  "result_ok j \<Longrightarrow> result_ok (failure_row x fl now j)" "result_ok j \<Longrightarrow> result_ok (claimed_row w token until now n j)"
  "result_ok (j\<lparr>jb_status := s\<rparr>) = result_ok j" "result_ok (j\<lparr>jb_next_attempt_at := t\<rparr>) = result_ok j"
  "result_ok (j\<lparr>jb_lease_until := l\<rparr>) = result_ok j" "result_ok (j\<lparr>jb_cancel_requested_at := c\<rparr>) = result_ok j"
  "result_ok (j\<lparr>jb_completed_at := c\<rparr>) = result_ok j" "result_ok (j\<lparr>jb_worker_id := x1\<rparr>) = result_ok j"
  "result_ok (j\<lparr>jb_lease_token := x2\<rparr>) = result_ok j"
  by (simp_all add: result_ok_def clear_row_lease_def failed_row_def cancelled_row_def succeeded_row_def failure_row_def
      claimed_row_def split: FailureDisposition.split)

definition row_advances :: "job_row \<Rightarrow> job_row \<Rightarrow> bool" where
  "row_advances j j' \<longleftrightarrow> job_name j' = job_name j \<and> unat (jb_attempt_no j) \<le> unat (jb_attempt_no j')
     \<and> (row_terminal j \<longrightarrow> j' = j) \<and> (result_ok j \<longrightarrow> result_ok j')"

abbreviation rows_advance :: "job_row list \<Rightarrow> job_row list \<Rightarrow> bool" where
  "rows_advance \<equiv> list_all2 row_advances"

lemma list_all2_mem: "list_all2 R xs ys \<Longrightarrow> x \<in> set xs \<Longrightarrow> \<exists>y \<in> set ys. R x y"
  by (induction rule: list_all2_induct) auto

lemma row_advances_refl: "row_advances j j"
  by (simp add: row_advances_def)

lemma rows_advance_refl [simp]: "rows_advance js js"
  by (rule list_all2_refl) (rule row_advances_refl)

lemma rows_advance_trans: "rows_advance js ks \<Longrightarrow> rows_advance ks ls \<Longrightarrow> rows_advance js ls"
  by (rule list_all2_trans [where ?P1.0 = row_advances and ?P2.0 = row_advances])
    (auto simp: row_advances_def)

lemma rows_advance_update:
  assumes "\<And>k. k \<in> set js \<Longrightarrow> p k \<Longrightarrow> \<not> row_terminal k \<and> job_name (f k) = job_name k
    \<and> unat (jb_attempt_no k) \<le> unat (jb_attempt_no (f k)) \<and> (result_ok k \<longrightarrow> result_ok (f k))"
  shows "rows_advance js (sql_update p f js)"
  using assms by (induction js) (auto simp: row_advances_def)

lemma wake_advance: "rows_advance (jobs d) (jobs (wake_deferred t day now d))"
  unfolding wake_deferred_def by (simp, rule rows_advance_update) (auto simp: row_terminal_def)

lemma release_advance:
  "releaseAttemptReservation t i n now cs full d = Inr (c, d1) \<Longrightarrow> rows_advance (jobs d) (jobs d1)"
  using wake_advance [of "d\<lparr>daily := _\<rparr>"] by (elim releaseE) auto

lemma expire_advance: "expireAttempt t i n now d = Inr d1 \<Longrightarrow> rows_advance (jobs d) (jobs d1)"
  by (auto simp: expireAttempt_def result_simps split: if_splits dest: release_advance)

lemma insert_jobs: "insertTerminalWebhookEvent ids w now job d = Inr (e, d') \<Longrightarrow> jobs d' = jobs d"
  by (auto simp: insertTerminalWebhookEvent_def split: option.splits dest!: insert_event_effect)

lemma emit_jobs: "emit_terminal what ids w now i d = Inr (job, d') \<Longrightarrow> jobs d' = jobs d"
  by (auto simp: emit_terminal_def result_simps split: option.splits dest: insert_jobs)

lemma reserve_jobs: "reserveDailyExecution t day L m d = Inr (dec, d1) \<Longrightarrow> jobs d1 = jobs d"
  by (erule reserve_cases) simp_all

definition branch_db :: "'d claim_branch \<Rightarrow> 'd" where
  "branch_db b = (case b of CommitRetry d \<Rightarrow> d | Proceed d \<Rightarrow> d)"

lemma settle_expired_advance:
  assumes "settle_expired env what f j d = Inr b" "\<And>k. job_name (f k) = job_name k" "\<And>k. jb_attempt_no (f k) = jb_attempt_no k"
    "\<And>k. result_ok k \<Longrightarrow> result_ok (f k)"
  shows "rows_advance (jobs d) (jobs (branch_db b))"
proof -
  let ?p = "job_at (jb_id j) JobStatusRunning (jb_attempt_no j)"
  have "rows_advance (jobs d) (sql_update ?p f (jobs d))"
    by (rule rows_advance_update) (auto simp: job_at_def row_terminal_def assms(2-4))
  with assms(1) show ?thesis
    by (auto simp: settle_expired_def branch_db_def result_simps dest!: emit_jobs)
qed

lemma reserve_or_settle_advance:
  assumes "reserve_or_settle env t j L m p f d = Inr b" "jb_status j \<in> {JobStatusQueued, JobStatusRunning}"
    "\<And>k. p k \<Longrightarrow> \<not> row_terminal k" "\<And>k. job_name (f k) = job_name k" "\<And>k. jb_attempt_no (f k) = jb_attempt_no k"
    "\<And>k. result_ok k \<Longrightarrow> result_ok (f k)"
  shows "rows_advance (jobs d) (jobs (branch_db b))"
proof -
  obtain dec d1 where res: "reserveDailyExecution (tn_id t) (ce_day env) L m d = Inr (dec, d1)"
    using assms(1) by (auto simp: reserve_or_settle_def result_simps)
  note same = reserve_jobs [OF res]
  show ?thesis
  proof (cases dec)
    case dailyReservationAllowed
    then have "b = Proceed d1" using assms(1) res by (simp add: reserve_or_settle_def)
    then show ?thesis using same by (simp add: branch_db_def)
  next
    case dailyReservationDeferred
    have "rows_advance (jobs d) (sql_update p f (jobs d))"
      by (rule rows_advance_update) (simp add: assms(3-6))
    then show ?thesis
      using dailyReservationDeferred assms(1) res same by (auto simp: reserve_or_settle_def branch_db_def)
  next
    case dailyReservationImpossible
    let ?p = "\<lambda>k. jb_tenant_id k = tn_id t \<and> job_at (jb_id j) (jb_status j) (jb_attempt_no j) k"
      and ?f = "failed_row ''DAILY_EXECUTION_LIMIT_TOO_LOW'' (ce_now env)"
    have "rows_advance (jobs d) (sql_update ?p ?f (jobs d))"
      by (rule rows_advance_update) (use assms(2) in \<open>auto simp: job_at_def row_terminal_def\<close>)
    then show ?thesis
      using dailyReservationImpossible assms(1) res same
      by (auto simp: reserve_or_settle_def branch_db_def failImpossibleDailyExecution_def Let_def result_simps
          split: if_splits dest!: emit_jobs)
  qed
qed

lemma claim_recover_advance:
  assumes "claim_recover env t policy j m d = Inr b" "jb_status j = JobStatusRunning"
  shows "rows_advance (jobs d) (jobs (branch_db b))"
proof -
  obtain d1 where ex: "expireAttempt (tn_id t) (jb_id j) (jb_attempt_no j) (ce_now env) d = Inr d1"
    using assms(1) by (auto simp: claim_recover_def result_simps)
  consider what f where "settle_expired env what f j d1 = Inr b"
      "\<And>k. job_name (f k) = job_name k" "\<And>k. jb_attempt_no (f k) = jb_attempt_no k"
    "\<And>k. result_ok k \<Longrightarrow> result_ok (f k)"
    | "reserve_or_settle env t j (DailyExecutionMillis policy) m (job_at (jb_id j) JobStatusRunning (jb_attempt_no j))
        (\<lambda>r. clear_row_lease (r\<lparr>jb_status := JobStatusQueued, jb_next_attempt_at := deferred_until env\<rparr>)) d1 = Inr b"
    using assms(1) ex by (fastforce simp: claim_recover_def split: if_splits)
  then have "rows_advance (jobs d1) (jobs (branch_db b))"
  proof cases
    case 1
    then show ?thesis by (rule settle_expired_advance)
  next
    case 2
    then show ?thesis
      by (rule reserve_or_settle_advance)
        (use assms(2) in \<open>auto simp: job_at_def row_terminal_def clear_row_lease_def\<close>)
  qed
  with expire_advance [OF ex] show ?thesis by (rule rows_advance_trans)
qed

lemma claim_advance:
  assumes "claimOneWithClock env w l d = Inr (c, d')"
  shows "rows_advance (jobs d) (jobs d')"
proof -
  obtain t policy j where sj: "select_claim_job env t d = Some j"
    and cs: "claim_selected env w l t policy j d = Inr (c, d')"
    using assms by (auto simp: claimOneWithClock_def split: option.splits)
  note J = select_job_facts [OF sj]
  obtain m b where br: "if jb_status j = JobStatusRunning then claim_recover env t policy j m d = Inr b
      else claim_queued env t policy j m d = Inr b"
    and out: "(\<exists>d1. b = CommitRetry d1 \<and> c = None \<and> d' = d1)
     \<or> (\<exists>d1 claim. b = Proceed d1 \<and> c = Some claim \<and> claim_commit env w l t j m d1 = Inr (claim, d'))"
    using cs J(3) by (rule claim_selectedE)
  have adv: "rows_advance (jobs d) (jobs (branch_db b))"
  proof (cases "jb_status j = JobStatusRunning")
    case True
    then show ?thesis using br claim_recover_advance by simp
  next
    case False
    then have "claim_queued env t policy j m d = Inr b" using br by simp
    then show ?thesis
      using J(3) by (auto simp: claim_queued_def row_terminal_def split: if_splits sum.splits
          intro!: reserve_or_settle_advance)
  qed
  from out show ?thesis
  proof (elim disjE exE conjE)
    fix d1 assume "b = CommitRetry d1" "d' = d1"
    then show ?thesis using adv by (simp add: branch_db_def)
  next
    fix d1 claim assume b: "b = Proceed d1" and cc: "claim_commit env w l t j m d1 = Inr (claim, d')"
    let ?p = "job_at (jb_id j) (jb_status j) (jb_attempt_no j)"
      and ?f = "claimed_row w (ce_token env) (ce_now env + l) (ce_now env) (jb_attempt_no j + 1)"
    have ne: "jb_attempt_no j \<noteq> 0xFFFFFFFF" and js: "jobs d' = sql_update ?p ?f (jobs d1)"
      using cc by (auto elim: claim_commitE)
    have "rows_advance (jobs d1) (jobs d')"
      unfolding js using uint32_inc [OF ne] J(3)
      by (intro rows_advance_update) (auto simp: job_at_def row_terminal_def)
    with adv b show ?thesis by (auto simp: branch_db_def intro: rows_advance_trans)
  qed
qed

lemma finish_advance:
  assumes "settleAttemptReservation claim now cs full (update_jobs (claim_row claim) f d) = Inr (c, d1)"
    "finishAttempt claim st code c now d1 = Inr d2" "\<And>k. job_name (f k) = job_name k" "\<And>k. jb_attempt_no (f k) = jb_attempt_no k"
    "\<And>k. result_ok k \<Longrightarrow> result_ok (f k)"
  shows "rows_advance (jobs d) (jobs d2)"
proof -
  have "rows_advance (jobs d) (sql_update (claim_row claim) f (jobs d))"
    by (rule rows_advance_update) (auto simp: claim_row_def row_terminal_def assms(3-5))
  moreover have "rows_advance (sql_update (claim_row claim) f (jobs d)) (jobs d1)"
    using release_advance assms(1) unfolding settleAttemptReservation_def by fastforce
  moreover have "jobs d2 = jobs d1" using assms(2) by (auto simp: finishAttempt_def Let_def split: if_splits)
  ultimately show ?thesis using rows_advance_trans by metis
qed

lemma cancel_advance:
  assumes "job_Cancel env te je d = Inr (job', d')"
  shows "rows_advance (jobs d) (jobs d')"
proof -
  let ?cancel = "\<lambda>k. clear_row_lease (k\<lparr>jb_status := JobStatusCancelled,
    jb_cancel_requested_at := Some (fe_now env), jb_completed_at := Some (fe_now env)\<rparr>)"
  obtain j job where g: "getExternalJob d te je = Some (j, Some job)"
    using assms by (auto simp: job_Cancel_def split: if_splits option.splits)
  have "jobs d' = jobs d
    \<or> jobs d' = sql_update (\<lambda>k. jb_id k = ej_InternalID job \<and> jb_status k = JobStatusQueued) ?cancel (jobs d)
    \<or> jobs d' = sql_update (\<lambda>k. jb_id k = ej_InternalID job \<and> jb_status k = JobStatusRunning)
        (\<lambda>k. k\<lparr>jb_cancel_requested_at := Some (fe_now env)\<rparr>) (jobs d)"
    using assms g
    by (auto simp: job_Cancel_def Let_def result_simps split: if_splits JobStatus.splits dest!: insert_jobs)
  then show ?thesis
    by (elim disjE) (auto intro!: rows_advance_update simp: row_terminal_def clear_row_lease_def)
qed

lemma store_step_advance: "store_step d d' \<Longrightarrow> rows_advance (jobs d) (jobs d')"
proof (induction rule: store_step.induct)
  case (store_claim env w l d c d')
  then show ?case by (rule claim_advance)
next
  case (store_heartbeat claim l now d d')
  let ?p = "\<lambda>j. claim_row claim j \<and> lease_after j now"
  have "jobs d' = sql_update ?p (\<lambda>j. j\<lparr>jb_lease_until := Some (now + l)\<rparr>) (jobs d)"
    using store_heartbeat by (auto simp: job_Heartbeat_def Let_def split: if_splits)
  then show ?case by simp (rule rows_advance_update, auto simp: claim_row_def row_terminal_def)
next
  case (store_complete env claim r d d')
  from store_complete show ?case
  proof (rule job_CompleteE)
    fix cancelled c d1 d2 job
    let ?f = "if cancelled then cancelled_row (fe_now env) else succeeded_row r (fe_now env)"
    assume v: "validateDurableJobResult r" and settle: "settleAttemptReservation claim (fe_now env) (dr_Cases r)
        (length (dr_Cases r) = 0 \<and> (cancelled \<or> dr_CompileStatus r = ''FAILED''))
        (update_jobs (claim_row claim) ?f d) = Inr (c, d1)"
      and fin: "finishAttempt claim (if cancelled then AttemptCancelled else AttemptSucceeded) [] c (fe_now env) d1 = Inr d2"
      and em: "emit_terminal ''read completed job'' (fe_event_ids env) (fe_window env) (fe_now env)
        (ej_InternalID (wc_Job claim)) d2 = Inr (job, d')"
    have "rows_advance (jobs d) (jobs d2)"
      by (rule finish_advance [OF settle fin]) (simp_all add: v)
    with emit_jobs [OF em] show ?case by simp
  qed
next
  case (store_fail env claim fl d x d')
  from store_fail show ?case
  proof (rule job_FailInfrastructureE)
    fix cancelled c d1 d2
    assume settle: "settleAttemptReservation claim (fe_now env) [] (if_ChargeFullReservation fl)
        (update_jobs (claim_row claim) (failure_row x fl (fe_now env)) d) = Inr (c, d1)"
      and fin: "finishAttempt claim (if cancelled then AttemptCancelled else AttemptFailed)
        (if cancelled then [] else if_Code fl) c (fe_now env) d1 = Inr d2"
      and out: "if x \<noteq> FailureRequeued then
          \<exists>job. emit_terminal ''read terminal failed job'' (fe_event_ids env) (fe_window env) (fe_now env)
            (ej_InternalID (wc_Job claim)) d2 = Inr (job, d')
        else d' = d2"
    have "rows_advance (jobs d) (jobs d2)"
      by (rule finish_advance [OF settle fin]) simp_all
    with out show ?case by (auto split: if_splits dest: emit_jobs)
  qed
next
  case (store_cancel env te je d job d')
  then show ?case by (rule cancel_advance)
qed

section \<open>The daily budget\<close>

text \<open>
  \<open>L\<close> bounds the daily allowance of each tenant; the policies in force may be lower. No transaction
  here changes a policy.
\<close>

definition tenant_terms :: "db \<Rightarrow> (nat \<times> policy_json) list" where
  "tenant_terms d = map (\<lambda>t. (tn_id t, tn_policy t)) (tenants d)"

definition allowance_below :: "(nat \<Rightarrow> int) \<Rightarrow> db \<Rightarrow> bool" where
  "allowance_below L d \<longleftrightarrow>
     (\<forall>(i, encoded) \<in> set (tenant_terms d).
        case decodeTenantPolicy encoded of None \<Rightarrow> True | Some p \<Rightarrow> DailyExecutionMillis p \<le> L i)"

definition within_budget :: "(nat \<Rightarrow> int) \<Rightarrow> daily_row list \<Rightarrow> bool" where
  "within_budget L ds \<longleftrightarrow> (\<forall>r \<in> set ds. dy_reserved r + dy_consumed r \<le> L (dy_tenant_id r))"

lemma within_update:
  assumes "within_budget L ds" "\<And>r. r \<in> set ds \<Longrightarrow> p r \<Longrightarrow> dy_reserved (f r) + dy_consumed (f r) \<le> L (dy_tenant_id (f r))"
  shows "within_budget L (sql_update p f ds)"
  using assms by (auto simp: within_budget_def elim!: mem_sql_updateE)

lemma release_within:
  assumes led: "ledger_inv (attempts d) (daily d)" and cs: "\<And>x. x \<in> set cs \<Longrightarrow> 0 \<le> dc_TimeMillis x"
    and w: "within_budget L (daily d)" and rel: "releaseAttemptReservation t i n now cs full d = Inr (c, d1)"
  shows "within_budget L (daily d1)" "tenants d1 = tenants d" "attempts d1 = attempts d"
proof -
  obtain a day where a: "a \<in> set (attempts d)" "running_attempt t i n a" "0 < at_reserved a"
    and c: "c = (if full then at_reserved a else cappedCaseExecutionMillis cs (at_reserved a))"
    and d1: "d1 = wake_deferred t day now (d\<lparr>daily :=
       sql_update (\<lambda>r. daily_row_of t day r \<and> dy_reserved r \<ge> at_reserved a)
         (\<lambda>r. r\<lparr>dy_reserved := dy_reserved r - at_reserved a, dy_consumed := dy_consumed r + c\<rparr>) (daily d)\<rparr>)"
    using rel by (rule releaseE)
  have "at_reserved a \<le> max_int64"
    using ledger_invD(3) [OF led a(1)] a(2) by (simp add: attempt_funded_def running_attempt_def)
  then have "c \<le> at_reserved a"
    using c cappedCaseExecutionMillis_bounds(2) [OF a(3) _ cs] by simp
  then show "within_budget L (daily d1)"
    unfolding d1 by simp (rule within_update [OF w], use w in \<open>fastforce simp: within_budget_def\<close>)
  show "tenants d1 = tenants d" "attempts d1 = attempts d" by (simp_all add: d1)
qed

lemma ensure_within:
  assumes "within_budget L (daily d)" "0 \<le> L t"
  shows "within_budget L (daily (ensure_daily t day d))"
  using assms by (auto simp: ensure_daily_def within_budget_def)

lemma reserve_within:
  assumes led: "ledger_inv as (daily d)" and w: "within_budget L (daily d)"
    and res: "reserveDailyExecution t day A m d = Inr (dec, d1)" and A: "A \<le> L t"
  shows "within_budget L (daily d1)" "tenants d1 = tenants d"
proof -
  show "tenants d1 = tenants d" using res by (rule reserve_cases) simp_all
  show "within_budget L (daily d1)"
    using res
  proof (rule reserve_cases)
    assume "d1 = d"
    then show ?thesis using w by simp
  next
    assume "d1 = ensure_daily t day d" "0 < m" "m \<le> A"
    then show ?thesis using ensure_within [OF w] A by simp
  next
    fix r assume d1: "d1 = reserved_db t day m d" "0 < m" "m \<le> A"
      and r: "r \<in> set (daily (ensure_daily t day d))" "daily_row_of t day r" "dy_reserved r + dy_consumed r + m \<le> A"
    have we: "within_budget L (daily (ensure_daily t day d))" by (rule ensure_within [OF w]) (use A d1 in simp)
    have only: "s = r" if "s \<in> set (daily (ensure_daily t day d))" "daily_row_of t day s" for s
      using distinct_key_unique [OF ledger_invD(2) [OF ledger_ensure [OF led]] that(1) r(1)] that(2) r(2)
      by (simp add: daily_row_of_key)
    show ?thesis
      unfolding d1 reserved_db_def
      by simp (rule within_update [OF we], use only r A in \<open>auto simp: daily_row_of_def\<close>)
  qed
qed

lemma insert_frame:
  "insertTerminalWebhookEvent ids w now job d = Inr (e, d') \<Longrightarrow> \<exists>es. d' = d\<lparr>outbox := es\<rparr>"
  by (force simp: insertTerminalWebhookEvent_def split: option.splits dest!: insert_event_effect
      intro: exI [of _ "outbox d"])

lemma emit_frame:
  assumes "emit_terminal what ids w now i d = Inr (job, d')"
  shows "daily d' = daily d \<and> tenants d' = tenants d \<and> attempts d' = attempts d"
  using assms by (auto simp: emit_terminal_def result_simps split: option.splits dest!: insert_frame)

lemma terms_frame [simp]:
  "tenant_terms (advanceTenantFairness t now d) = tenant_terms d" "tenant_terms (update_jobs p f d) = tenant_terms d"
  by (simp_all add: tenant_terms_def advanceTenantFairness_def map_sql_update)

definition budget_kept :: "(nat \<Rightarrow> int) \<Rightarrow> db \<Rightarrow> db \<Rightarrow> bool" where
  "budget_kept L d d' \<longleftrightarrow> within_budget L (daily d') \<and> tenant_terms d' = tenant_terms d"

lemma same_tenants: "tenants d' = tenants d \<Longrightarrow> tenant_terms d' = tenant_terms d"
  by (simp add: tenant_terms_def)

lemma reserve_or_settle_budget:
  assumes led: "ledger_inv as (daily d)" and w: "within_budget L (daily d)"
    and rs: "reserve_or_settle env t j A m p f d = Inr b" and A: "A \<le> L (tn_id t)"
  shows "budget_kept L d (branch_db b)"
proof -
  obtain dec d1 where res: "reserveDailyExecution (tn_id t) (ce_day env) A m d = Inr (dec, d1)"
    using rs by (auto simp: reserve_or_settle_def result_simps)
  note R = reserve_within [OF led w res A]
  have k1: "budget_kept L d d1" using R(1) same_tenants [OF R(2)] by (simp add: budget_kept_def)
  show ?thesis
  proof (cases dec)
    case dailyReservationAllowed
    then have "b = Proceed d1" using rs res by (simp add: reserve_or_settle_def)
    then show ?thesis using k1 by (simp add: branch_db_def)
  next
    case dailyReservationDeferred
    then have "b = CommitRetry (advanceTenantFairness (tn_id t) (ce_now env) (update_jobs p f d1))"
      using rs res by (simp add: reserve_or_settle_def)
    then show ?thesis using k1 by (simp add: branch_db_def budget_kept_def)
  next
    case dailyReservationImpossible
    then obtain d2 where b: "b = CommitRetry d2"
      and fi: "failImpossibleDailyExecution env (tn_id t) (jb_id j) (jb_status j) (jb_attempt_no j) d1 = Inr d2"
      using rs res by (auto simp: reserve_or_settle_def result_simps)
    then obtain q g where "daily d2 = daily d1"
      "tenants d2 = tenants (advanceTenantFairness (tn_id t) (ce_now env) (update_jobs q g d1))"
      by (auto simp: failImpossibleDailyExecution_def Let_def result_simps split: if_splits dest!: emit_frame)
    then have "budget_kept L d1 d2"
      using k1 same_tenants [of d2 "advanceTenantFairness (tn_id t) (ce_now env) (update_jobs q g d1)"]
      by (simp add: budget_kept_def)
    then show ?thesis using k1 b by (simp add: branch_db_def budget_kept_def)
  qed
qed

lemma settle_expired_budget:
  assumes "settle_expired env what f j d = Inr b" "within_budget L (daily d)"
  shows "budget_kept L d (branch_db b)"
  using assms
  by (auto simp: settle_expired_def branch_db_def budget_kept_def tenant_terms_def result_simps dest!: emit_frame)

lemma expire_within:
  assumes "ledger_inv (attempts d) (daily d)" "within_budget L (daily d)" "expireAttempt t i n now d = Inr d1"
  shows "budget_kept L d d1"
proof -
  obtain c d0 q g where rel: "releaseAttemptReservation t i n now [] False d = Inr (c, d0)"
    and "d1 = d0\<lparr>attempts := sql_update q g (attempts d0)\<rparr>"
    using assms(3) by (auto simp: expireAttempt_def result_simps split: if_splits)
  then show ?thesis
    using release_within [OF assms(1) _ assms(2) rel] by (simp add: budget_kept_def tenant_terms_def)
qed

lemma claim_recover_budget:
  assumes inv: "store_inv d" and j: "j \<in> set (jobs d)" "jb_status j = JobStatusRunning"
    and w: "within_budget L (daily d)" and A: "tn_status t = ''ACTIVE'' \<Longrightarrow> DailyExecutionMillis policy \<le> L (tn_id t)"
    and cr: "claim_recover env t policy j m d = Inr b"
  shows "budget_kept L d (branch_db b)"
proof -
  note I = store_midD [OF inv [unfolded store_inv_def]]
  obtain d1 where ex: "expireAttempt (tn_id t) (jb_id j) (jb_attempt_no j) (ce_now env) d = Inr d1"
    using cr by (auto simp: claim_recover_def result_simps)
  have k: "budget_kept L d d1" by (rule expire_within [OF I(3) w ex])
  have led: "ledger_inv (attempts d1) (daily d1)"
    using expireAttempt_mid [OF inv j ex] store_midD(3) by blast
  consider what f where "settle_expired env what f j d1 = Inr b"
    | p f where "reserve_or_settle env t j (DailyExecutionMillis policy) m p f d1 = Inr b" "tn_status t = ''ACTIVE''"
    using cr ex by (fastforce simp: claim_recover_def split: if_splits)
  then have "budget_kept L d1 (branch_db b)"
  proof cases
    case 1
    then show ?thesis by (rule settle_expired_budget) (use k in \<open>simp add: budget_kept_def\<close>)
  next
    case 2
    show ?thesis
      by (rule reserve_or_settle_budget [OF led _ 2(1)]) (use k A 2(2) in \<open>simp_all add: budget_kept_def\<close>)
  qed
  then show ?thesis using k by (simp add: budget_kept_def)
qed

lemma claim_budget:
  assumes inv: "store_inv d" and al: "allowance_below L d" and w: "within_budget L (daily d)"
    and cl: "claimOneWithClock env wid l d = Inr (c, d')"
  shows "budget_kept L d d'"
proof -
  note I = store_midD [OF inv [unfolded store_inv_def]]
  obtain t policy j where st: "select_claim_tenant env d = Some t"
    and pol: "tn_status t = ''ACTIVE'' \<Longrightarrow> decodeTenantPolicy (tn_policy t) = Some policy"
    and sj: "select_claim_job env t d = Some j"
    and cs: "claim_selected env wid l t policy j d = Inr (c, d')"
    using cl by (auto simp: claimOneWithClock_def split: option.splits if_splits)
  note J = select_job_facts [OF sj]
  have t: "t \<in> set (tenants d)"
    using min_row_mem [OF st [unfolded select_claim_tenant_def]] by simp
  have A: "DailyExecutionMillis policy \<le> L (tn_id t)" if "tn_status t = ''ACTIVE''"
    using al pol [OF that] t by (force simp: allowance_below_def tenant_terms_def)
  obtain m b where br: "if jb_status j = JobStatusRunning then claim_recover env t policy j m d = Inr b
      else claim_queued env t policy j m d = Inr b"
    and out: "(\<exists>d1. b = CommitRetry d1 \<and> c = None \<and> d' = d1)
     \<or> (\<exists>d1 claim. b = Proceed d1 \<and> c = Some claim \<and> claim_commit env wid l t j m d1 = Inr (claim, d'))"
    using cs J(3) by (rule claim_selectedE)
  have kept: "budget_kept L d (branch_db b)"
  proof (cases "jb_status j = JobStatusRunning")
    case True
    then show ?thesis using br claim_recover_budget [OF inv J(1) True w A] by simp
  next
    case False
    have act: "tn_status t = ''ACTIVE''"
      using min_row_mem [OF sj [unfolded select_claim_job_def]] False by (auto simp: job_claimable_def)
    from False br obtain p f where "reserve_or_settle env t j (DailyExecutionMillis policy) m p f d = Inr b"
      by (auto simp: claim_queued_def split: if_splits sum.splits)
    then show ?thesis by (rule reserve_or_settle_budget [OF I(3) w]) (rule A [OF act])
  qed
  from out show ?thesis
  proof (elim disjE exE conjE)
    fix d1 claim assume b: "b = Proceed d1" and cc: "claim_commit env wid l t j m d1 = Inr (claim, d')"
    have "daily d' = daily d1" using cc by (rule claim_commitE)
    moreover have "tenant_terms d' = tenant_terms d1"
      using cc by (auto simp: claim_commit_def Let_def tenant_terms_def advanceTenantFairness_def map_sql_update
          split: if_splits option.splits)
    ultimately show ?thesis using kept b by (simp add: branch_db_def budget_kept_def)
  qed (use kept in \<open>auto simp: branch_db_def\<close>)
qed

lemma finish_budget:
  assumes led: "ledger_inv (attempts d) (daily d)" and w: "within_budget L (daily d)"
    and settle: "settleAttemptReservation claim now cs full (update_jobs (claim_row claim) f d) = Inr (c, d1)"
    and fin: "finishAttempt claim st code c now d1 = Inr d2" and cs: "\<And>x. x \<in> set cs \<Longrightarrow> 0 \<le> dc_TimeMillis x"
  shows "budget_kept L d d2"
proof -
  have "daily d2 = daily d1" "tenants d2 = tenants d1"
    using fin by (auto simp: finishAttempt_def Let_def split: if_splits)
  moreover have "within_budget L (daily d1) \<and> tenants d1 = tenants d"
    using release_within(1,2) [OF _ cs _ settle [unfolded settleAttemptReservation_def]] led w by simp
  ultimately show ?thesis by (simp add: budget_kept_def tenant_terms_def)
qed

lemma store_step_budget:
  "store_step d d' \<Longrightarrow> store_inv d \<Longrightarrow> allowance_below L d \<Longrightarrow> within_budget L (daily d) \<Longrightarrow> budget_kept L d d'"
proof (induction rule: store_step.induct)
  case (store_claim env w l d c d')
  then show ?case by (intro claim_budget)
next
  case (store_heartbeat claim l now d d')
  then show ?case
    by (auto simp: job_Heartbeat_def Let_def budget_kept_def tenant_terms_def split: if_splits)
next
  case (store_complete env claim r d d')
  note I = store_midD [OF store_complete(2) [unfolded store_inv_def]]
  from store_complete(1) show ?case
    by (rule job_CompleteE)
      (drule (1) finish_budget [OF I(3) store_complete(4)], erule (1) durable_cases_nonneg,
        drule emit_frame, simp add: budget_kept_def tenant_terms_def)
next
  case (store_fail env claim fl d x d')
  note I = store_midD [OF store_fail(2) [unfolded store_inv_def]]
  from store_fail(1) show ?case
    by (rule job_FailInfrastructureE)
      (drule (1) finish_budget [OF I(3) store_fail(4)], simp,
        auto simp: budget_kept_def tenant_terms_def split: if_splits dest: emit_frame)
next
  case (store_cancel env te je d job d')
  from store_cancel(1) have "daily d' = daily d \<and> tenants d' = tenants d"
    by (auto simp: job_Cancel_def Let_def result_simps split: if_splits option.splits JobStatus.splits
        dest!: insert_frame)
  then show ?case using store_cancel by (simp add: budget_kept_def tenant_terms_def)
qed

lemma store_steps_budget:
  assumes "store_step\<^sup>*\<^sup>* d d'" "store_inv d" "allowance_below L d" "within_budget L (daily d)"
  shows "within_budget L (daily d') \<and> allowance_below L d'"
  using assms
proof (induction rule: rtranclp_induct)
  case (step d1 d2)
  then show ?case
    using store_step_budget [OF step.hyps(2) store_steps_inv [OF step.hyps(1)]]
    by (auto simp: budget_kept_def allowance_below_def)
qed simp

section \<open>The lease contract\<close>

definition row_view :: "nat \<Rightarrow> db \<Rightarrow> job_row option" where
  "row_view i d = List.find (\<lambda>j. jb_id j = i) (jobs d)"

definition view_terminal :: "job_row option \<Rightarrow> bool" where
  "view_terminal v = (case v of None \<Rightarrow> False | Some j \<Rightarrow> row_terminal j)"

definition view_epoch :: "job_row option \<Rightarrow> nat" where
  "view_epoch v = (case v of None \<Rightarrow> 0 | Some j \<Rightarrow> unat (jb_attempt_no j))"

text \<open>The test every fenced statement of a claim makes on the row of its job.\<close>

definition view_holds :: "WorkerJobClaim \<Rightarrow> int \<Rightarrow> job_row option \<Rightarrow> bool" where
  "view_holds c now v = (case v of None \<Rightarrow> False | Some j \<Rightarrow> claim_row c j \<and> lease_after j now)"

lemma rows_advance_find:
  assumes "rows_advance js js'"
  shows "case List.find (\<lambda>j. jb_id j = i) js of
      None \<Rightarrow> List.find (\<lambda>j. jb_id j = i) js' = None
    | Some j \<Rightarrow> \<exists>j'. List.find (\<lambda>j. jb_id j = i) js' = Some j' \<and> row_advances j j'"
  using assms by (induction rule: list_all2_induct) (auto simp: row_advances_def job_name_def split: option.splits)

lemma store_step_view:
  assumes "store_step d d'"
  shows "case row_view i d of None \<Rightarrow> row_view i d' = None
    | Some j \<Rightarrow> \<exists>j'. row_view i d' = Some j' \<and> row_advances j j'"
  unfolding row_view_def by (rule rows_advance_find [OF store_step_advance [OF assms]])

interpretation sql_job: leased_machine store_step store_inv "row_view i" view_terminal view_epoch
  view_holds "\<lambda>c. unat (wc_AttemptNo c)" for i
proof unfold_locales
  fix d d' assume step: "store_step d d'" and inv: "store_inv d"
  show "store_inv d'" using step inv by (rule store_step_inv)
  show "row_view i d' = row_view i d" if "view_terminal (row_view i d)"
    using store_step_view [OF step, of i] that
    by (auto simp: view_terminal_def row_advances_def split: option.splits)
  show "view_epoch (row_view i d) \<le> view_epoch (row_view i d')"
    using store_step_view [OF step, of i]
    by (auto simp: view_epoch_def row_advances_def split: option.splits)
next
  fix d c now assume "view_holds c now (row_view i d)"
  then show "unat (wc_AttemptNo c) = view_epoch (row_view i d)" "\<not> view_terminal (row_view i d)"
    by (auto simp: view_holds_def view_epoch_def view_terminal_def claim_row_def row_terminal_def
        split: option.splits)
qed

end
