(* ===== verification/Job_Properties.thy ===== *)
theory Job_Properties
  imports Job_Store
begin

text \<open>
  The properties of the job store, with a concrete database on which each of them applies: one
  tenant, one bundle, one source, one callback and one job, running its second attempt after the lease of the first ran out.
\<close>

section \<open>What a committed operation of a claim shows\<close>

lemma held_find:
  assumes "j \<in> set (jobs d)" "claim_row c j" "lease_after j now" "distinct (map jb_id (jobs d))"
  shows "view_holds c now (row_view (ej_InternalID (wc_Job c)) d)"
proof -
  have "List.find (\<lambda>k. jb_id k = ej_InternalID (wc_Job c)) (jobs d) \<noteq> None"
    using assms(1,2) by (auto simp: find_None_iff claim_row_def)
  then obtain k where k: "List.find (\<lambda>k. jb_id k = ej_InternalID (wc_Job c)) (jobs d) = Some k" by blast
  then have "k = j"
    using find_Some_mem [OF k] job_by_id [OF assms(4) _ assms(1)] assms(2) by (simp add: claim_row_def)
  then show ?thesis using k assms(2,3) by (simp add: view_holds_def row_view_def)
qed

lemma heartbeat_held:
  assumes "store_inv d" "job_Heartbeat c l now d = Inr d'"
  shows "view_holds c now (row_view (ej_InternalID (wc_Job c)) d)"
proof -
  obtain f where "sql_affected (\<lambda>j. claim_row c j \<and> lease_after j now) f (jobs d) = 1"
    using assms(2) by (auto simp: job_Heartbeat_def Let_def split: if_splits)
  then obtain j where "j \<in> set (jobs d)" "claim_row c j \<and> lease_after j now" by (rule affected_one_obtain)
  then show ?thesis using held_find store_midD(6) assms(1) by (auto simp: store_inv_def)
qed

lemma lock_held:
  assumes "store_inv d" "lockActiveClaimAndPolicy c now d = Inr x"
  shows "view_holds c now (row_view (ej_InternalID (wc_Job c)) d)"
proof -
  obtain j where "j \<in> set (jobs d)" "claim_row c j" "lease_after j now"
    using assms(2) by (auto simp: lockActiveClaimAndPolicy_def split: option.splits dest!: find_Some_mem)
  then show ?thesis using held_find store_midD(6) assms(1) by (auto simp: store_inv_def)
qed

lemma find_held:
  assumes "store_inv d" "List.find (\<lambda>j. claim_row c j \<and> lease_after j now) (jobs d) = Some j"
  shows "view_holds c now (row_view (ej_InternalID (wc_Job c)) d)"
  using find_Some_mem [OF assms(2)] held_find store_midD(6) assms(1) by (auto simp: store_inv_def)

lemma not_held_refused:
  assumes inv: "store_inv d" and no: "\<And>now. \<not> view_holds c now (row_view (ej_InternalID (wc_Job c)) d)"
  shows "isl (job_Heartbeat c l now d)" "isl (job_Complete env c r d)" "isl (job_FailInfrastructure env c fl d)"
    "isl (ClaimCancelled c now d)" "isl (LoadClaimInput fetch decrypt c now d)"
proof -
  show "isl (job_Heartbeat c l now d)"
    using heartbeat_held [OF inv, of c l now] no by (cases "job_Heartbeat c l now d") auto
  have locked: "lockActiveClaimAndPolicy c now d \<noteq> Inr x" for now x
    using lock_held [OF inv, of c] no by blast
  then have "job_Complete env c r d \<noteq> Inr d'" for d' by (metis job_CompleteE)
  then show "isl (job_Complete env c r d)" by (cases "job_Complete env c r d") auto
  have "job_FailInfrastructure env c fl d \<noteq> Inr (x, d')" for x d' using locked by (metis job_FailInfrastructureE)
  then show "isl (job_FailInfrastructure env c fl d)" by (cases "job_FailInfrastructure env c fl d") auto
  have none: "List.find (\<lambda>j. claim_row c j \<and> lease_after j now) (jobs d) = None" for now
    using find_held [OF inv, of c] no by (cases "List.find (\<lambda>j. claim_row c j \<and> lease_after j now) (jobs d)") auto
  show "isl (ClaimCancelled c now d)" by (simp add: ClaimCancelled_def none)
  show "isl (LoadClaimInput fetch decrypt c now d)" by (simp add: LoadClaimInput_def none)
qed

section \<open>What a claim grants\<close>

lemma claim_rounds_last:
  assumes "claim_rounds n k env ctxDone w l d = (Inr c, d')"
  obtains k' d1 where "store_step\<^sup>*\<^sup>* d d1" "claimOneWithClock (env k') w l d1 = Inr (Some c, d')"
proof -
  have "\<exists>k' d1. store_step\<^sup>*\<^sup>* d d1 \<and> claimOneWithClock (env k') w l d1 = Inr (Some c, d')"
    using assms
  proof (induction n arbitrary: k d)
    case (Suc n)
    show ?case
    proof (cases "claimOneWithClock (env k) w l d")
      case (Inl e)
      then show ?thesis using Suc by (cases e) (auto split: if_splits)
    next
      case (Inr x)
      obtain o1 d2 where x: "x = (o1, d2)" by (cases x)
      show ?thesis
      proof (cases o1)
        case None
        then have "claim_rounds n (Suc k) env ctxDone w l d2 = (Inr c, d')"
          using Suc.prems Inr x by (auto split: if_splits)
        then obtain k' d1 where "store_step\<^sup>*\<^sup>* d2 d1" "claimOneWithClock (env k') w l d1 = Inr (Some c, d')"
          using Suc.IH by blast
        moreover have "store_step d d2" using Inr x by (auto intro: store_claim)
        ultimately show ?thesis by (blast intro: converse_rtranclp_into_rtranclp)
      next
        case (Some c0)
        then have "claimOneWithClock (env k) w l d = Inr (Some c, d')" using Suc.prems Inr x by simp
        then show ?thesis by blast
      qed
    qed
  qed simp
  with that show ?thesis by blast
qed

lemma claim_commit_holds:
  assumes cc: "claim_commit env w l t j m d = Inr (c, d2)" and dist: "distinct (map jb_id (jobs d2))"
  shows "view_holds c now (row_view (jb_id j) d2) = (now < wc_LeaseUntil c)" "wc_LeaseUntil c = ce_now env + l"
proof -
  let ?f = "claimed_row w (ce_token env) (ce_now env + l) (ce_now env) (jb_attempt_no j + 1)"
    and ?p = "job_at (jb_id j) (jb_status j) (jb_attempt_no j)"
  show l: "wc_LeaseUntil c = ce_now env + l"
    using cc by (auto simp: claim_commit_def Let_def split: if_splits option.splits)
  obtain k where k: "k \<in> set (jobs d)" "?p k" and c: "wc_WorkerID c = w"
    "wc_AttemptNo c = jb_attempt_no j + 1" "wc_LeaseToken c = ce_token env" "ej_InternalID (wc_Job c) = jb_id j"
    and js: "jobs d2 = sql_update ?p ?f (jobs d)"
    using cc by (rule claim_commitE)
  have mem: "?f k \<in> set (jobs d2)" using mem_sql_updateI [OF k(1), of ?p ?f] k(2) js by simp
  have id: "jb_id (?f k) = jb_id j" using k(2) by (simp add: job_at_def claimed_row_def)
  have "List.find (\<lambda>x. jb_id x = jb_id j) (jobs d2) \<noteq> None"
    using mem id by (auto simp: find_None_iff)
  then obtain x where x: "List.find (\<lambda>x. jb_id x = jb_id j) (jobs d2) = Some x" by blast
  then have "x = ?f k" using find_Some_mem [OF x] job_by_id [OF dist _ mem] id by simp
  then show "view_holds c now (row_view (jb_id j) d2) = (now < wc_LeaseUntil c)"
    using x c id l by (auto simp: view_holds_def row_view_def claim_row_def claimed_row_def lease_after_def)
qed

lemma claim_one_grants:
  assumes inv: "store_inv d" and cl: "claimOneWithClock env w l d = Inr (Some c, d')"
  shows "\<exists>j. row_view (ej_InternalID (wc_Job c)) d = Some j
    \<and> unat (wc_AttemptNo c) = Suc (unat (jb_attempt_no j)) \<and> wc_WorkerID c = w
    \<and> wc_LeaseUntil c = ce_now env + l
    \<and> (\<forall>now. view_holds c now (row_view (ej_InternalID (wc_Job c)) d') = (now < wc_LeaseUntil c))"
proof -
  obtain t policy j where sj: "select_claim_job env t d = Some j"
    and cs: "claim_selected env w l t policy j d = Inr (Some c, d')"
    using cl by (auto simp: claimOneWithClock_def split: option.splits)
  note J = select_job_facts [OF sj]
  obtain m d1 where cc: "claim_commit env w l t j m d1 = Inr (c, d')"
    using cs J(3) by (rule claim_selectedE) auto
  note I = store_midD [OF inv [unfolded store_inv_def]]
  have dist: "distinct (map jb_id (jobs d'))"
    using claimOneWithClock_inv [OF inv cl] store_midD(6) by (simp add: store_inv_def)
  have c: "wc_WorkerID c = w" "wc_AttemptNo c = jb_attempt_no j + 1" "ej_InternalID (wc_Job c) = jb_id j"
    and ne: "jb_attempt_no j \<noteq> 0xFFFFFFFF"
    using cc by (rule claim_commitE, simp)+
  have "List.find (\<lambda>x. jb_id x = jb_id j) (jobs d) \<noteq> None" using J(1) by (auto simp: find_None_iff)
  then obtain x where x: "List.find (\<lambda>x. jb_id x = jb_id j) (jobs d) = Some x" by blast
  then have "x = j" using find_Some_mem [OF x] job_by_id [OF I(6) _ J(1)] by simp
  with x have "row_view (jb_id j) d = Some j" by (simp add: row_view_def)
  then show ?thesis using claim_commit_holds [OF cc dist] c uint32_inc [OF ne] by simp
qed

section \<open>A database\<close>

definition ex_policy :: TenantPolicy where
  "ex_policy = \<lparr>MaxQueuedJobs = 10, MaxRunningJobs = 2, MaxSourceBytes = 1000, MaxRetainedBundles = 5,
     DailyExecutionMillis = 50000, MaxInfrastructureTries = 3, MaxTimeLimitMillis = 5000, MaxMemoryLimitMiB = 512\<rparr>"

definition ex_tenant :: tenant_row where
  "ex_tenant = \<lparr>tn_id = 1, tn_external_id = ''tenantaaaaaaaaaaaaaaaaaaaa'', tn_status = ''ACTIVE'',
     tn_policy = \<lparr>pj_decoded = Some ex_policy, pj_tries = Some 3, pj_running = Some 2\<rparr>,
     tn_last_claimed_at = None\<rparr>"

definition ex_job :: job_row where
  "ex_job = \<lparr>jb_id = 7, jb_external_id = ''jobaaaaaaaaaaaaaaaaaaaaaaa'', jb_tenant_id = 1, jb_bundle_id = 3,
     jb_source_object_id = 4, jb_callback_id = Some 5, jb_status = JobStatusRunning, jb_language_id = ''cpp'',
     jb_stop_on_failure = False, jb_client_reference = None, jb_attempt_no = 2, jb_worker_id = Some ''w1'',
     jb_lease_token = Some ''0123456789abcdef0123456789abcdef'', jb_lease_until = Some 61000,
     jb_next_attempt_at = 500, jb_cancel_requested_at = None, jb_result = None, jb_failure_code = None,
     jb_created_at = 500, jb_started_at = Some 1000, jb_completed_at = None\<rparr>"

definition ex_attempt :: attempt_row where
  "ex_attempt = \<lparr>at_tenant_id = 1, at_job_id = 7, at_attempt_no = 2, at_worker_id = ''w1'',
     at_lease_token = Some ''0123456789abcdef0123456789abcdef'', at_status = AttemptRunning,
     at_lease_until = 61000, at_accounting_day = Some 0, at_reserved = 2000, at_consumed = 0,
     at_started_at = 1000, at_finished_at = None, at_failure_code = None\<rparr>"

definition ex_first :: attempt_row where
  "ex_first = \<lparr>at_tenant_id = 1, at_job_id = 7, at_attempt_no = 1, at_worker_id = ''w0'',
     at_lease_token = None, at_status = AttemptExpired, at_lease_until = 900, at_accounting_day = Some 0,
     at_reserved = 0, at_consumed = 0, at_started_at = 600, at_finished_at = Some 1000,
     at_failure_code = Some ''LEASE_EXPIRED''\<rparr>"

definition ex_manifest :: Manifest where
  "ex_manifest = \<lparr>SchemaVersion = 1, m_JudgeMode = ''ACM'', m_Checker = ''exact'',
     m_Limits = \<lparr>TimeLimitMillis = 2000, MemoryLimitMiB = 256\<rparr>, TotalScore = None, m_SpecialJudge = None,
     Cases = [\<lparr>case_ID = ''1'', case_Input = ''1.in'', case_Output = ''1.out'', case_Weight = 1\<rparr>]\<rparr>"

definition ex_db :: db where
  "ex_db = \<lparr>tenants = [ex_tenant],
     callbacks = [\<lparr>cb_id = 5, cb_external_id = ''callbackaaaaaaaaaaaaaaaaaa'', cb_tenant_id = 1,
       cb_destination_url = ''https://example.org/hook'', cb_allowed_host = ''example.org'', cb_allowed_port = 443,
       cb_secret_ciphertext = [], cb_secret_nonce = [], cb_secret_key_version = 1, cb_disabled_at = None\<rparr>],
     bundles = [\<lparr>bd_id = 3, bd_external_id = ''bundleaaaaaaaaaaaaaaaaaaaa'', bd_tenant_id = 1, bd_sha256 = [],
       bd_object_key = ''b'', bd_size_bytes = 10, bd_manifest = Some ex_manifest, bd_publication_status = ''READY'',
       bd_ready_at = Some 0, bd_delete_marked_at = None, bd_deleted_at = None\<rparr>],
     sources = [\<lparr>so_id = 4, so_external_id = ''sourceaaaaaaaaaaaaaaaaaaaa'', so_tenant_id = 1,
       so_object_key = ''s'', so_sha256 = [], so_size_bytes = 20, so_key_version = 1, so_nonce = [],
       so_delete_marked_at = None, so_delete_token = None, so_delete_lease_until = None, so_delete_next_attempt_at = None,
       so_delete_attempt_count = 0, so_delete_last_error_code = None, so_deleted_at = None\<rparr>],
     jobs = [ex_job], attempts = [ex_first, ex_attempt],
     daily = [\<lparr>dy_tenant_id = 1, dy_day = 0, dy_reserved = 2000, dy_consumed = 100\<rparr>], outbox = []\<rparr>"

definition ex_claim :: WorkerJobClaim where
  "ex_claim = \<lparr>wc_Job = the (getExternalJobByInternalID ex_db 7), wc_WorkerID = ''w1'', wc_AttemptNo = 2,
     wc_LeaseToken = ''0123456789abcdef0123456789abcdef'', wc_LeaseUntil = 61000\<rparr>"

definition ex_finish :: finish_env where
  "ex_finish = \<lparr>fe_now = 2000, fe_lock_now = 2000, fe_event_ids = [''eventaaaaaaaaaaaaaaaaaaaaa''],
     fe_window = 86400000\<rparr>"

definition ex_result :: DurableJobResult where
  "ex_result = \<lparr>dr_Verdict = ''ACCEPTED'', dr_CompileStatus = ''SUCCEEDED'', dr_TimeMillis = 12,
     dr_MemoryBytes = 4096, dr_Score = None, dr_TotalScore = None,
     dr_Cases = [\<lparr>dc_CaseID = ''1'', dc_Verdict = ''ACCEPTED'', dc_TimeMillis = 12, dc_MemoryBytes = 4096,
       dc_Score = None, dc_MaxScore = None\<rparr>]\<rparr>"

definition ex_retry :: InfrastructureFailure where
  "ex_retry = \<lparr>if_Code = ''SANDBOX'', if_RetryDelay = 1000, if_ChargeFullReservation = False, if_Permanent = False\<rparr>"

lemma ex_inv: "store_inv ex_db"
  by (simp add: store_inv_def store_mid_def rows_ok_def row_ok_def lease_inv_def attempt_ok_def held_by_def
      ledger_inv_def attempt_funded_def reserved_for_def share_def att_key_def day_key_def outbox_inv_def
      row_terminal_def max_int64_def ex_db_def ex_tenant_def ex_job_def ex_attempt_def ex_first_def)

lemmas ex_defs = ex_db_def ex_tenant_def ex_job_def ex_attempt_def ex_first_def ex_finish_def ex_result_def ex_retry_def ex_policy_def

lemma ex_patterns:
  "externalIDPattern ''tenantaaaaaaaaaaaaaaaaaaaa''" "externalIDPattern ''jobaaaaaaaaaaaaaaaaaaaaaaa''"
  "externalIDPattern ''eventaaaaaaaaaaaaaaaaaaaaa''" "infrastructureCodePattern ''SANDBOX''"
  "validWorkerID ''w1''" "validWorkerID ''w2''" "validateDurableJobResult ex_result" "utf8_valid []"
  by code_simp+

lemma ex_claim_simps:
  "ej_InternalID (wc_Job ex_claim) = 7" "ej_TenantInternalID (wc_Job ex_claim) = 1" "wc_WorkerID ex_claim = ''w1''"
  "wc_AttemptNo ex_claim = 2" "wc_LeaseToken ex_claim = ''0123456789abcdef0123456789abcdef''"
  by (simp_all add: ex_claim_def getExternalJobByInternalID_def read_job_def tenant_of_def bundle_of_def
      source_of_def scanExternalJob_def ex_db_def ex_job_def ex_tenant_def)

lemma ex_claim_valid: "validWorkerClaim ex_claim" "claim_row ex_claim ex_job" "attempt_claim_row ex_claim ex_attempt"
  by (simp_all add: validWorkerClaim_def claim_row_def attempt_claim_row_def ex_claim_simps ex_patterns
     ex_job_def ex_attempt_def)

definition ex_done :: db where
  "ex_done = ex_db\<lparr>
     jobs := [ex_job\<lparr>jb_status := JobStatusSucceeded, jb_result := Some ex_result, jb_completed_at := Some 2000,
       jb_worker_id := None, jb_lease_token := None, jb_lease_until := None\<rparr>],
     attempts := [ex_first, ex_attempt\<lparr>at_status := AttemptSucceeded, at_lease_token := None, at_finished_at := Some 2000,
       at_reserved := 0, at_consumed := 12\<rparr>],
     daily := [\<lparr>dy_tenant_id = 1, dy_day = 0, dy_reserved = 0, dy_consumed = 112\<rparr>],
     outbox := [pending_event 1 ''eventaaaaaaaaaaaaaaaaaaaaa'' 1 7 5 ''judge.job.completed''
       \<lparr>pl_SchemaVersion = 1, pl_EventID = ''eventaaaaaaaaaaaaaaaaaaaaa'', pl_EventType = ''judge.job.completed'',
        pl_OccurredAt = 2000, pl_TenantID = ''tenantaaaaaaaaaaaaaaaaaaaa'', pl_JobID = ''jobaaaaaaaaaaaaaaaaaaaaaaa'',
        pl_ClientReference = [], pl_Status = JobStatusSucceeded, pl_Result = Some ex_result, pl_FailureCode = []\<rparr>
       2000 86400000]\<rparr>"

lemmas ex_rows = claim_row_def attempt_claim_row_def lease_after_def running_attempt_def daily_row_of_def ex_claim_simps
lemmas ex_reads = getExternalJobByInternalID_def read_job_def tenant_of_def bundle_of_def source_of_def
  scanExternalJob_def callback_external_id_def null_string_def

lemma ex_lock: "lockActiveClaimAndPolicy ex_claim 2000 ex_db = Inr (False, tn_policy ex_tenant)"
  by (simp add: lockActiveClaimAndPolicy_def ex_rows ex_db_def ex_job_def ex_tenant_def)

lemma ex_settle:
  assumes "attempts d = [ex_first, ex_attempt]" "daily d = daily ex_db" "jobs d = [j]" "jb_status j \<noteq> JobStatusQueued"
  shows "settleAttemptReservation ex_claim 2000 (dr_Cases ex_result) False d =
    Inr (12, d\<lparr>daily := [\<lparr>dy_tenant_id = 1, dy_day = 0, dy_reserved = 0, dy_consumed = 112\<rparr>]\<rparr>)"
  using assms
  by (simp add: settleAttemptReservation_def releaseAttemptReservation_def wake_deferred_def ex_rows ex_db_def
      ex_attempt_def ex_first_def ex_result_def cappedCaseExecutionMillis_def wrap64_def Let_def sql_affected_def sql_update_def)

definition ex_record :: ExternalJobRecord where
  "ex_record = the (getExternalJobByInternalID ex_done 7)"

lemma ex_record_read: "getExternalJobByInternalID (ex_done\<lparr>outbox := []\<rparr>) 7 = Some ex_record"
  by (simp add: ex_record_def ex_reads ex_done_def ex_db_def ex_job_def ex_tenant_def ex_patterns)

lemma ex_record_simps:
  "ej_InternalID ex_record = 7" "ej_TenantExternalID ex_record = ''tenantaaaaaaaaaaaaaaaaaaaa''"
  "ej_ExternalID ex_record = ''jobaaaaaaaaaaaaaaaaaaaaaaa''" "ej_ClientReference ex_record = []"
  "ej_Status ex_record = JobStatusSucceeded" "ej_Result ex_record = Some ex_result" "ej_FailureCode ex_record = []"
  by (simp_all add: ex_record_def ex_reads ex_done_def ex_db_def ex_job_def ex_tenant_def ex_patterns)

lemma ex_encode: "EncodeTerminalWebhookEvent ''eventaaaaaaaaaaaaaaaaaaaaa'' 2000 ex_record
   = Some (''judge.job.completed'', ob_payload (hd (outbox ex_done)))"
  by (simp add: EncodeTerminalWebhookEvent_def ex_record_simps ex_patterns time_zero_def terminal_payload_def
      terminalWebhookSchemaVersion_def ex_done_def pending_event_def)

lemma ex_emit: "emit_terminal ''read completed job'' [''eventaaaaaaaaaaaaaaaaaaaaa''] 86400000 2000 7
   (ex_done\<lparr>outbox := []\<rparr>) = Inr (ex_record, ex_done)"
proof -
  have "insert_event 8 [''eventaaaaaaaaaaaaaaaaaaaaa''] 86400000 2000 (hd (jobs ex_done)) 5 ex_record (ex_done\<lparr>outbox := []\<rparr>)
      = Inr (''eventaaaaaaaaaaaaaaaaaaaaa'', ex_done)"
    by (simp add: numeral_eq_Suc ex_encode sql_exists_def next_outbox_id_def ex_record_simps)
       (simp add: ex_done_def pending_event_def ex_job_def)
  then show ?thesis
    by (simp add: emit_terminal_def ex_record_read insertTerminalWebhookEvent_def ex_record_simps)
      (simp add: ex_done_def ex_job_def)
qed

lemma ex_complete: "job_Complete ex_finish ex_claim ex_result ex_db = Inr ex_done"
proof -
  let ?d1 = "update_jobs (claim_row ex_claim) (succeeded_row ex_result 2000) ex_db"
  let ?d2 = "?d1\<lparr>daily := [\<lparr>dy_tenant_id = 1, dy_day = 0, dy_reserved = 0, dy_consumed = 112\<rparr>]\<rparr>"
  let ?d3 = "?d2\<lparr>attempts := attempts ex_done\<rparr>"
  have hit: "sql_affected (claim_row ex_claim) (succeeded_row ex_result 2000) (jobs ex_db) = 1"
    by (simp add: sql_affected_def ex_rows ex_db_def ex_job_def succeeded_row_def clear_row_lease_def)
  have js: "jobs ?d1 = jobs ex_done"
    by (simp add: sql_update_def ex_rows ex_db_def ex_job_def ex_done_def succeeded_row_def clear_row_lease_def)
  have settle: "settleAttemptReservation ex_claim 2000 (dr_Cases ex_result) False ?d1 = Inr (12, ?d2)"
    by (rule ex_settle [where j = "hd (jobs ex_done)"])
      (use js in \<open>simp_all add: ex_db_def ex_done_def ex_job_def ex_rows sql_update_def succeeded_row_def clear_row_lease_def\<close>)
  have fin: "finishAttempt ex_claim AttemptSucceeded [] 12 2000 ?d2 = Inr ?d3"
    by (simp add: finishAttempt_def sql_affected_def sql_update_def ex_rows ex_db_def ex_attempt_def ex_first_def
        finished_attempt_def ex_done_def)
  have em: "\<exists>job. emit_terminal ''read completed job'' [''eventaaaaaaaaaaaaaaaaaaaaa''] 86400000 2000 7 ?d3 = Inr (job, ex_done)"
    using ex_emit js by (simp add: update_jobs_def ex_db_def ex_done_def)
  have "\<not> length (dr_Cases ex_result) = 0" by (simp add: ex_result_def)
  then show ?thesis
    using em by (auto simp: job_Complete_def ex_claim_valid ex_patterns ex_lock ex_finish_def hit settle fin ex_claim_simps
        simp del: One_nat_def)
qed

lemma ex_step: "store_step ex_db ex_done"
  by (rule store_complete [OF ex_complete])

lemma ex_done_inv: "store_inv ex_done"
  by (rule store_step_inv [OF ex_step ex_inv])

definition ex_env :: claim_env where
  "ex_env = \<lparr>ce_now = 70000, ce_day = 0, ce_tenant_locked = (\<lambda>_. False), ce_job_locked = (\<lambda>_. False),
     ce_token = ''fedcba9876543210fedcba9876543210'', ce_event_ids = [], ce_window = 86400000\<rparr>"

lemma ex_paths: "validateArtifactPath ''1.in'' = Inr ()" "validateArtifactPath ''1.out'' = Inr ()"
  by (simp_all add: validateArtifactPath_def has_prefix_def path_Clean_def utf8_valid_ascii)

lemma ex_contract: "IsCanonicalChecker ''exact''" "''exact'' \<noteq> CheckerSpecial" "caseIDPattern ''1''"
  by code_simp+

lemma ex_manifest_valid: "Validate ex_manifest = Inr ()"
  by (simp add: Validate_def ex_manifest_def within_limits_def validate_schema_def validate_special_def maxExecutionMillis_def
      maxMemoryMiB_def JudgeModeACM_def JudgeModeOI_def maxCases_def maxTotalScore_def wrap64_def ex_paths ex_contract
      validate_total_def)

lemma ex_select: "select_claim_tenant ex_env ex_db = Some ex_tenant" "select_claim_job ex_env ex_tenant ex_db = Some ex_job"
  by (simp_all add: select_claim_tenant_def select_claim_job_def tenant_claimable_def has_expired_def sql_exists_def
      lease_over_def job_claimable_def bundle_of_def ex_env_def ex_db_def ex_job_def ex_tenant_def)

lemma ex_reservation: "bundle_manifest ex_db ex_job = Some ex_manifest"
  "manifestWithinExecutionCeilings ex_manifest 5000 512" "maximumManifestExecutionMillis ex_manifest = Some 2000"
  by (simp add: bundle_manifest_def bundle_of_def ex_db_def ex_job_def ex_manifest_valid)
    (simp_all add: manifestWithinExecutionCeilings_def maximumManifestExecutionMillis_def ex_manifest_def max_int64_def
      wrap64_def)

definition ex_recovered :: db where
  "ex_recovered = ex_db\<lparr>attempts := [ex_first, expired_attempt 70000 ex_attempt]\<rparr>"

lemma ex_recover: "claim_recover ex_env ex_tenant ex_policy ex_job 2000 ex_db = Inr (Proceed ex_recovered)"
proof -
  have rel: "releaseAttemptReservation 1 7 2 70000 [] False ex_db
      = Inr (0, ex_db\<lparr>daily := [\<lparr>dy_tenant_id = 1, dy_day = 0, dy_reserved = 0, dy_consumed = 100\<rparr>]\<rparr>)"
    by (simp add: releaseAttemptReservation_def wake_deferred_def ex_rows ex_db_def ex_job_def ex_attempt_def ex_first_def
        cappedCaseExecutionMillis_def Let_def sql_affected_def sql_update_def)
  have ex: "expireAttempt 1 7 2 70000 ex_db = Inr (ex_recovered\<lparr>daily := [\<lparr>dy_tenant_id = 1, dy_day = 0, dy_reserved = 0, dy_consumed = 100\<rparr>]\<rparr>)"
    by (simp add: expireAttempt_def rel del: One_nat_def)
      (simp add: sql_affected_def sql_update_def ex_rows ex_db_def ex_attempt_def ex_first_def ex_recovered_def expired_attempt_def)
  have res: "reserveDailyExecution 1 0 50000 2000 (ex_recovered\<lparr>daily := [\<lparr>dy_tenant_id = 1, dy_day = 0, dy_reserved = 0, dy_consumed = 100\<rparr>]\<rparr>)
     = Inr (dailyReservationAllowed, ex_recovered)"
    by (simp add: reserveDailyExecution_def ensure_daily_def sql_exists_def daily_row_of_def Let_def sql_affected_def sql_update_def
        ex_recovered_def ex_db_def)
  show ?thesis
    by (simp add: claim_recover_def reserve_or_settle_def ex_env_def ex_tenant_def ex_job_def ex_policy_def ex res del: One_nat_def)
qed

lemma ex_commit: "\<exists>c d'. claim_commit ex_env ''w2'' 60000 ex_tenant ex_job 2000 ex_recovered = Inr (c, d')"
  by (simp add: claim_commit_def Let_def sql_affected_def sql_update_def job_at_def claimed_row_def sql_exists_def
      ex_reads advanceTenantFairness_def update_jobs_def expired_attempt_def ex_recovered_def ex_env_def ex_db_def ex_job_def ex_tenant_def ex_attempt_def ex_first_def)

lemma ex_claim_next: "\<exists>c d'. ClaimNext (\<lambda>_. ex_env) (\<lambda>_. False) ''w2'' 60000 ex_db = (Inr c, d')"
proof -
  obtain c d' where cc: "claim_commit ex_env ''w2'' 60000 ex_tenant ex_job 2000 ex_recovered = Inr (c, d')"
    using ex_commit by blast
  have pol: "tn_status ex_tenant = ''ACTIVE''" "decodeTenantPolicy (tn_policy ex_tenant) = Some ex_policy"
    by (simp_all add: ex_tenant_def decodeTenantPolicy_def ex_policy_def policy_validate_def MaximumSourceBytes_def)
  have lim: "MaxTimeLimitMillis ex_policy = 5000" "MaxMemoryLimitMiB ex_policy = 512" "jb_status ex_job = JobStatusRunning"
    by (simp_all add: ex_policy_def ex_job_def)
  have "claimOneWithClock ex_env ''w2'' 60000 ex_db = Inr (Some c, d')"
    by (simp add: claimOneWithClock_def ex_select pol claim_selected_def ex_reservation lim ex_recover cc)
  then show ?thesis
    by (simp add: ClaimNext_def maximumClaimRetries_def numeral_eq_Suc ex_patterns maximumLease_def)
qed

section \<open>Properties\<close>

text \<open>C1: whatever transactions commit, in whatever order and by whatever workers, the store stays
  consistent: job rows are well-formed, a running job is held by exactly one running attempt with the
  same worker, token and lease, the reserved milliseconds of a day are exactly the reservations of its
  running attempts, and every event of the outbox belongs to a terminal job with a callback and carries
  that job's outcome.\<close>

theorem store_invariant:
  assumes "store_inv d" and "store_step\<^sup>*\<^sup>* d d'"
  shows "store_inv d'"
  using store_steps_inv [OF assms(2,1)] .

theorem store_invariant_witness: "store_inv ex_done \<and> jobs ex_done \<noteq> jobs ex_db"
proof -
  have "jobs ex_done \<noteq> jobs ex_db" by (simp add: ex_done_def ex_db_def ex_job_def)
  with store_invariant [OF ex_inv r_into_rtranclp [of store_step, OF ex_step]] show ?thesis by simp
qed

text \<open>C2: fencing in the database. When a job row has moved past the attempt of a claim, that claim is
  refused for ever after, whatever transactions commit in between: its heartbeat, its result, its failure
  report, its cancellation poll and its request for the source code.\<close>

theorem stale_claim_refused:
  assumes "store_inv d" and "row_view (ej_InternalID (wc_Job c)) d = Some j"
    and "unat (wc_AttemptNo c) < unat (jb_attempt_no j)" and "store_step\<^sup>*\<^sup>* d d'"
  shows "isl (job_Heartbeat c l now d') \<and> isl (job_Complete env c r d') \<and> isl (job_FailInfrastructure env c fl d')
    \<and> isl (ClaimCancelled c now d') \<and> isl (LoadClaimInput fetch decrypt c now d')"
proof -
  have "\<not> view_holds c t (row_view (ej_InternalID (wc_Job c)) d')" for t
    by (rule sql_job.fenced_forever [OF assms(4,1)]) (use assms(2,3) in \<open>simp add: view_epoch_def\<close>)
  then show ?thesis using not_held_refused [OF store_steps_inv [OF assms(4,1)]] by blast
qed

theorem stale_claim_refused_witness:
  "\<forall>r. isl (job_Complete ex_finish (ex_claim\<lparr>wc_AttemptNo := 1\<rparr>) r ex_done)
     \<and> isl (job_Heartbeat (ex_claim\<lparr>wc_AttemptNo := 1\<rparr>) 60000 2000 ex_done)"
proof -
  have "row_view (ej_InternalID (wc_Job (ex_claim\<lparr>wc_AttemptNo := 1\<rparr>))) ex_db = Some ex_job"
    by (simp add: row_view_def ex_claim_simps) (simp add: ex_db_def ex_job_def)
  moreover have "unat (wc_AttemptNo (ex_claim\<lparr>wc_AttemptNo := 1\<rparr>)) < unat (jb_attempt_no ex_job)"
    by (simp add: ex_job_def)
  ultimately show ?thesis
    using stale_claim_refused [OF ex_inv _ _ r_into_rtranclp [of store_step, OF ex_step]] by blast
qed

text \<open>C3: a terminal job row never changes again, and no claim on it is accepted: a result is reported
  at most once.\<close>

theorem terminal_row_absorbing:
  assumes "store_inv d" and "row_view i d = Some j" and "row_terminal j" and "store_step\<^sup>*\<^sup>* d d'"
  shows "row_view i d' = Some j
    \<and> (ej_InternalID (wc_Job c) = i \<longrightarrow> isl (job_Complete env c r d') \<and> isl (job_FailInfrastructure env c fl d'))"
proof -
  have t: "view_terminal (row_view i d)" using assms(2,3) by (simp add: view_terminal_def)
  have "\<not> view_holds c now (row_view i d')" for now
    by (rule sql_job.no_claim_after_terminal [OF assms(4,1) t])
  then show ?thesis
    using sql_job.terminal_steps [OF assms(4,1) t] not_held_refused [OF store_steps_inv [OF assms(4,1)]] assms(2)
    by auto
qed

theorem terminal_row_absorbing_witness:
  "job_Complete ex_finish ex_claim ex_result ex_db = Inr ex_done
   \<and> (\<forall>r. isl (job_Complete ex_finish ex_claim r ex_done))"
proof -
  let ?j = "hd (jobs ex_done)"
  have "row_view 7 ex_done = Some ?j" "row_terminal ?j"
    by (simp_all add: row_view_def row_terminal_def ex_done_def ex_job_def)
  from terminal_row_absorbing [OF ex_done_inv this rtranclp.rtrancl_refl, of ex_claim ex_finish]
  show ?thesis using ex_complete by (simp add: ex_claim_simps)
qed

text \<open>C4: a claim that \<open>ClaimNext\<close> returns is the next attempt of its job and holds it until its lease
  ends: some committed transactions led to a state in which the job was one attempt behind, the claim was
  committed there, and until \<open>leaseDuration\<close> after the clock of that round the worker's fenced statements
  find their row.\<close>

theorem ClaimNext_grants_lease:
  assumes "store_inv d" and "ClaimNext env ctxDone w l d = (Inr c, d')"
  shows "\<exists>d1 j k. store_step\<^sup>*\<^sup>* d d1 \<and> store_step d1 d' \<and> row_view (ej_InternalID (wc_Job c)) d1 = Some j
    \<and> unat (wc_AttemptNo c) = Suc (unat (jb_attempt_no j)) \<and> wc_WorkerID c = w
    \<and> wc_LeaseUntil c = ce_now (env k) + l
    \<and> (\<forall>now. view_holds c now (row_view (ej_InternalID (wc_Job c)) d') = (now < wc_LeaseUntil c))"
proof -
  have "claim_rounds maximumClaimRetries 0 env ctxDone w l d = (Inr c, d')"
    using assms(2) by (auto simp: ClaimNext_def split: if_splits)
  then obtain k d1 where "store_step\<^sup>*\<^sup>* d d1" "claimOneWithClock (env k) w l d1 = Inr (Some c, d')"
    by (rule claim_rounds_last)
  with claim_one_grants [OF store_steps_inv [OF _ assms(1)]] store_claim show ?thesis by metis
qed

theorem ClaimNext_grants_lease_witness:
  "\<exists>c d'. ClaimNext (\<lambda>_. ex_env) (\<lambda>_. False) ''w2'' 60000 ex_db = (Inr c, d') \<and> wc_LeaseUntil c = 130000
     \<and> view_holds c 129999 (row_view (ej_InternalID (wc_Job c)) d')"
proof -
  obtain c d' where cl: "ClaimNext (\<lambda>_. ex_env) (\<lambda>_. False) ''w2'' 60000 ex_db = (Inr c, d')"
    using ex_claim_next by blast
  have "wc_LeaseUntil c = ce_now ex_env + 60000"
    "view_holds c 129999 (row_view (ej_InternalID (wc_Job c)) d') = (129999 < wc_LeaseUntil c)"
    using ClaimNext_grants_lease [OF ex_inv cl] by blast+
  moreover have "ce_now ex_env = 70000" by (simp add: ex_env_def)
  ultimately show ?thesis using cl by (intro exI [of _ c] exI [of _ d']) simp
qed



text \<open>C31: the daily budget. If no tenant's policy grants more than \<open>L\<close> milliseconds a day, then in every
  reachable state what a tenant has reserved and consumed on a day is at most \<open>L\<close>, and the reserved part
  is exactly the sum over its running attempts of that day.\<close>

theorem daily_budget_kept:
  assumes "store_inv d" and "allowance_below L d" and "within_budget L (daily d)" and "store_step\<^sup>*\<^sup>* d d'"
    and "r \<in> set (daily d')"
  shows "dy_reserved r + dy_consumed r \<le> L (dy_tenant_id r)
    \<and> dy_reserved r = reserved_for (dy_tenant_id r) (dy_day r) (filter (\<lambda>a. at_status a = AttemptRunning) (attempts d'))"
proof -
  note I = store_midD [OF store_steps_inv [OF assms(4,1), unfolded store_inv_def]]
  have "share t day a = 0" if "a \<in> set (attempts d')" "at_status a \<noteq> AttemptRunning" for t day a
    using ledger_invD(3) [OF I(3) that(1)] that(2) by (simp add: attempt_funded_def share_def)
  then have "reserved_for t day (filter (\<lambda>a. at_status a = AttemptRunning) (attempts d')) = reserved_for t day (attempts d')"
    for t day
    unfolding reserved_for_def by (rule sum_list_map_filter)
  then have "dy_reserved r = reserved_for (dy_tenant_id r) (dy_day r)
      (filter (\<lambda>a. at_status a = AttemptRunning) (attempts d'))"
    using ledger_invD(4) [OF I(3) assms(5)] by simp
  moreover have "dy_reserved r + dy_consumed r \<le> L (dy_tenant_id r)"
    using store_steps_budget [OF assms(4,1-3)] assms(5) by (simp add: within_budget_def)
  ultimately show ?thesis by blast
qed

theorem daily_budget_kept_witness:
  "\<exists>r \<in> set (daily ex_done). dy_reserved r = 0 \<and> dy_reserved r + dy_consumed r \<le> 50000"
proof -
  let ?r = "hd (daily ex_done)"
  have al: "allowance_below (\<lambda>_. 50000) ex_db"
    by (simp add: allowance_below_def tenant_terms_def ex_db_def ex_tenant_def ex_policy_def decodeTenantPolicy_def)
  have wb: "within_budget (\<lambda>_. 50000) (daily ex_db)" by (simp add: within_budget_def ex_db_def)
  have r: "?r \<in> set (daily ex_done)" by (simp add: ex_done_def)
  from daily_budget_kept [OF ex_inv al wb r_into_rtranclp [of store_step, OF ex_step] r]
  show ?thesis by (simp add: ex_done_def)
qed



end
