(* ===== verification/Judge_Outcome.thy ===== *)
theory Judge_Outcome
  imports Go_Crypto Bundle_Manifest
begin

text \<open>
  Verdicts and results: the callback contract (internal/callback/client.go), the conversions between
  the sandbox's answer and a result (internal/service/execution_pipeline.go), the output checkers
  (internal/service/bundle_pipeline.go), and the single-case pipeline with its retries. What the
  network answers is an argument: a selector with its own state and, per attempt, the answer of the
  sandbox at an address.
\<close>

section \<open>The callback contract\<close>

datatype Status =
    StatusAccepted | StatusCompileError | StatusWrongAnswer | StatusTimeLimitExceeded
  | StatusMemoryLimitExceeded | StatusRuntimeError | StatusOutputLimitExceeded | StatusSystemError
  | UnsupportedStatus string

definition status_text :: "Status \<Rightarrow> string" where
  "status_text s =
     (case s of
        StatusAccepted \<Rightarrow> ''ACCEPTED'' | StatusCompileError \<Rightarrow> ''COMPILE_ERROR''
      | StatusWrongAnswer \<Rightarrow> ''WRONG_ANSWER'' | StatusTimeLimitExceeded \<Rightarrow> ''TIME_LIMIT_EXCEEDED''
      | StatusMemoryLimitExceeded \<Rightarrow> ''MEMORY_LIMIT_EXCEEDED'' | StatusRuntimeError \<Rightarrow> ''RUNTIME_ERROR''
      | StatusOutputLimitExceeded \<Rightarrow> ''OUTPUT_LIMIT_EXCEEDED'' | StatusSystemError \<Rightarrow> ''SYSTEM_ERROR''
      | UnsupportedStatus t \<Rightarrow> t)"

record Result =
  cr_ResultID :: string
  cr_SubmissionID :: int
  cr_AttemptNo :: int
  cr_Status :: Status
  cr_ExitCode :: int
  cr_TimeUsedMillis :: int
  cr_MemoryUsedKB :: int
  cr_Score :: "int option"
  cr_TotalScore :: "int option"
  cr_Stdout :: string
  cr_Stderr :: string
  cr_CompileError :: string

definition blank_result :: Result where
  "blank_result = \<lparr>cr_ResultID = [], cr_SubmissionID = 0, cr_AttemptNo = 0, cr_Status = UnsupportedStatus [],
     cr_ExitCode = 0, cr_TimeUsedMillis = 0, cr_MemoryUsedKB = 0, cr_Score = None, cr_TotalScore = None,
     cr_Stdout = [], cr_Stderr = [], cr_CompileError = []\<rparr>"

text \<open>\<open>validateResult\<close> returns no error.\<close>

definition score_contract :: "Result \<Rightarrow> bool" where
  "score_contract r =
     (case (cr_Score r, cr_TotalScore r) of
        (None, None) \<Rightarrow> True
      | (Some s, Some t) \<Rightarrow>
          if t \<le> 0 \<or> t > 1000000000 \<or> s < 0 \<or> s > t then False
          else if cr_Status r = StatusCompileError then s = 0
          else if s = t then cr_Status r = StatusAccepted
          else cr_Status r = StatusWrongAnswer
      | _ \<Rightarrow> False)"

definition supported_status :: "Status \<Rightarrow> bool" where
  "supported_status s = (case s of UnsupportedStatus _ \<Rightarrow> False | _ \<Rightarrow> True)"

definition validateResult :: "Result \<Rightarrow> bool" where
  "validateResult r =
     (if TrimSpace (cr_ResultID r) = [] \<or> length (cr_ResultID r) > 128 then False
      else if cr_SubmissionID r \<le> 0 \<or> cr_AttemptNo r \<le> 0 then False
      else if cr_TimeUsedMillis r < 0 \<or> cr_TimeUsedMillis r > 172800000
        \<or> cr_MemoryUsedKB r < 0 \<or> cr_MemoryUsedKB r > 2147483647 then False
      else if \<not> score_contract r then False
      else if UTF16Len (cr_Stdout r) > 65536 \<or> UTF16Len (cr_Stderr r) > 65536
        \<or> UTF16Len (cr_CompileError r) > 32768 then False
      else if \<not> supported_status (cr_Status r) then False
      else if cr_Status r = StatusAccepted \<and> cr_ExitCode r \<noteq> 0 then False
      else if cr_Status r = StatusCompileError \<and> TrimSpace (cr_CompileError r) = [] then False
      else True)"

section \<open>Conversions (execution_pipeline.go)\<close>

record ExecuteResponse =
  er_Status :: string
  er_ExitCode :: int
  er_Stdout :: string
  er_Stderr :: string
  er_Error :: string
  er_CompileError :: string
  er_TimeUsed :: int
  er_MemoryUsed :: int

record ExecuteRequest =
  eq_Language :: string
  eq_SourceCode :: string
  eq_Stdin :: string
  eq_Timeout :: int
  eq_MemoryLimit :: int
  eq_ExpectedOutput :: string

definition mapCallbackStatus :: "string \<Rightarrow> Status" where
  "mapCallbackStatus s =
     (if s = ''Accepted'' then StatusAccepted else if s = ''Compile Error'' then StatusCompileError
      else if s = ''Wrong Answer'' then StatusWrongAnswer
      else if s = ''Time Limit Exceeded'' then StatusTimeLimitExceeded
      else if s = ''Memory Limit Exceeded'' then StatusMemoryLimitExceeded
      else if s = ''Runtime Error'' then StatusRuntimeError
      else if s = ''Output Limit Exceeded'' then StatusOutputLimitExceeded
      else StatusSystemError)"

datatype SubmissionStatus =
    SubPending | SubAccepted | SubCompileError | SubWrongAnswer | SubTimeLimitExceeded
  | SubMemoryLimitExceeded | SubRuntimeError | SubSystemError | SubOutputLimitExceeded

definition MapSandboxStatus :: "string \<Rightarrow> SubmissionStatus" where
  "MapSandboxStatus s =
     (if s = ''Accepted'' then SubAccepted else if s = ''Compile Error'' then SubCompileError
      else if s = ''Wrong Answer'' then SubWrongAnswer
      else if s = ''Time Limit Exceeded'' then SubTimeLimitExceeded
      else if s = ''Memory Limit Exceeded'' then SubMemoryLimitExceeded
      else if s = ''Runtime Error'' then SubRuntimeError
      else if s = ''Output Limit Exceeded'' then SubOutputLimitExceeded
      else SubSystemError)"

definition max_int32 :: int where "max_int32 = 2147483647"

definition wrap32 :: "int \<Rightarrow> int" where
  "wrap32 x = (x + 2147483648) mod 4294967296 - 2147483648"

text \<open>Go's integer division truncates towards zero.\<close>

definition go_div :: "int \<Rightarrow> int \<Rightarrow> int" where
  "go_div a b = sgn a * sgn b * (\<bar>a\<bar> div \<bar>b\<bar>)"

definition timeoutSeconds :: "int \<Rightarrow> int" where
  "timeoutSeconds milliseconds =
     (if milliseconds \<le> 0 then 1
      else let seconds = go_div (wrap64 (milliseconds + 999)) 1000 in
        if seconds > max_int32 then max_int32 else wrap32 seconds)"

definition boundedInt32 :: "int \<Rightarrow> int" where
  "boundedInt32 v = (if v \<le> 0 then 1 else if v > max_int32 then max_int32 else v)"

definition boundedInt :: "int \<Rightarrow> int" where
  "boundedInt v = (if v < 0 then 0 else if v > max_int64 then max_int64 else v)"

definition boundedMetric :: "int \<Rightarrow> int \<Rightarrow> int" where
  "boundedMetric v maximum = (if v \<le> 0 then 0 else if v > maximum then maximum else v)"

definition truncate_bytes :: "string \<Rightarrow> nat \<Rightarrow> string" where
  "truncate_bytes v limit = (if length v \<le> limit then v else take limit v)"

fun firstDiagnostic :: "string list \<Rightarrow> string" where
  "firstDiagnostic [] = []"
| "firstDiagnostic (v # vs) =
     (if TrimSpace v \<noteq> [] then truncate_bytes (TrimSpace v) 4096 else firstDiagnostic vs)"

section \<open>The legacy pipeline (execution_pipeline.go)\<close>

record Task =
  tk_ID :: int
  tk_ProblemID :: int
  tk_ProblemVersionID :: "int option"
  tk_UserID :: int
  tk_Language :: string
  tk_Code :: string
  tk_Status :: SubmissionStatus

record judge_info =
  ji_Status :: string
  ji_ExitCode :: int
  ji_Diagnostic :: string
  ji_CompileError :: string

record task_update =
  tu_Status :: SubmissionStatus
  tu_RunTime :: int
  tu_Memory :: int
  tu_JudgeInfo :: judge_info
  tu_ErrorMessage :: "string option"

datatype grpc_code = Unavailable | ResourceExhausted | OtherCode nat

datatype rpc_error = RpcStatus grpc_code | ErrInvalidBatchStream

datatype pipeline_error =
    PipelineRequired string
  | SelectSandboxFailed
  | SandboxCallFailed rpc_error
  | SandboxRetriesExhausted nat rpc_error
  | SandboxNoResponse

definition single_request :: "Task \<Rightarrow> int \<Rightarrow> int \<Rightarrow> string \<Rightarrow> string \<Rightarrow> ExecuteRequest" where
  "single_request submission timeLimit memoryLimit stdin expected =
     \<lparr>eq_Language = tk_Language submission, eq_SourceCode = tk_Code submission, eq_Stdin = stdin,
      eq_Timeout = timeoutSeconds timeLimit, eq_MemoryLimit = boundedInt32 memoryLimit,
      eq_ExpectedOutput = expected\<rparr>"

definition executeResponse ::
  "('s \<Rightarrow> string option \<times> 's) \<Rightarrow> (string \<Rightarrow> ExecuteRequest \<Rightarrow> rpc_error + ExecuteResponse option)
     \<Rightarrow> Task \<Rightarrow> int \<Rightarrow> int \<Rightarrow> 's \<Rightarrow> (pipeline_error + ExecuteResponse) \<times> 's" where
  "executeResponse select exec submission timeLimit memoryLimit s =
     (case select s of
        (None, s') \<Rightarrow> (Inl SelectSandboxFailed, s')
      | (Some address, s') \<Rightarrow>
          (case exec address (single_request submission timeLimit memoryLimit [] []) of
             Inl e \<Rightarrow> (Inl (SandboxCallFailed e), s')
           | Inr None \<Rightarrow> (Inl SandboxNoResponse, s')
           | Inr (Some response) \<Rightarrow> (Inr response, s')))"

definition applySandboxResult :: "ExecuteResponse \<Rightarrow> task_update" where
  "applySandboxResult response =
     \<lparr>tu_Status = MapSandboxStatus (er_Status response),
      tu_RunTime = boundedInt (er_TimeUsed response), tu_Memory = boundedInt (er_MemoryUsed response),
      tu_JudgeInfo = \<lparr>ji_Status = er_Status response, ji_ExitCode = er_ExitCode response,
        ji_Diagnostic = firstDiagnostic [er_Error response, er_Stderr response],
        ji_CompileError = truncate_bytes (TrimSpace (er_CompileError response)) 4096\<rparr>,
      tu_ErrorMessage =
        (if MapSandboxStatus (er_Status response) = SubSystemError \<and> er_Error response \<noteq> []
         then Some (truncate_bytes (er_Error response) 4096) else None)\<rparr>"

definition response_result :: "ExecuteResponse \<Rightarrow> Result" where
  "response_result response =
     (let status = mapCallbackStatus (er_Status response);
          compileError = TruncateUTF16 (TrimSpace (er_CompileError response)) 32768;
          compileError' =
            (if status = StatusCompileError \<and> compileError = [] then
               (let d = TruncateUTF16 (firstDiagnostic [er_Error response, er_Stderr response]) 32768 in
                if d = [] then ''compiler failed without diagnostics'' else d)
             else compileError);
          exitCode = er_ExitCode response;
          status' = (if status = StatusAccepted \<and> exitCode \<noteq> 0 then StatusSystemError else status) in
      blank_result\<lparr>cr_Status := status', cr_ExitCode := exitCode,
        cr_TimeUsedMillis := boundedMetric (er_TimeUsed response) 86400000,
        cr_MemoryUsedKB := boundedMetric (er_MemoryUsed response) max_int32,
        cr_Stdout := TruncateUTF16 (er_Stdout response) 65536,
        cr_Stderr := TruncateUTF16 (er_Stderr response) 65536, cr_CompileError := compileError'\<rparr>)"

definition pipeline_Execute ::
  "('s \<Rightarrow> string option \<times> 's) \<Rightarrow> (string \<Rightarrow> ExecuteRequest \<Rightarrow> rpc_error + ExecuteResponse option)
     \<Rightarrow> Task \<Rightarrow> int \<Rightarrow> int \<Rightarrow> 's \<Rightarrow> (pipeline_error + Result) \<times> 's" where
  "pipeline_Execute select exec submission timeLimit memoryLimit s =
     (case executeResponse select exec submission timeLimit memoryLimit s of
        (Inl e, s') \<Rightarrow> (Inl e, s')
      | (Inr response, s') \<Rightarrow> (Inr (response_result response), s'))"

definition pipeline_Run ::
  "('s \<Rightarrow> string option \<times> 's) \<Rightarrow> (string \<Rightarrow> ExecuteRequest \<Rightarrow> rpc_error + ExecuteResponse option)
     \<Rightarrow> Task \<Rightarrow> int \<Rightarrow> int \<Rightarrow> 's \<Rightarrow> (pipeline_error + task_update) \<times> 's" where
  "pipeline_Run select exec submission timeLimit memoryLimit s =
     (case executeResponse select exec submission timeLimit memoryLimit s of
        (Inl e, s') \<Rightarrow> (Inl e, s')
      | (Inr response, s') \<Rightarrow> (Inr (applySandboxResult response), s'))"

section \<open>Checkers (bundle_pipeline.go)\<close>

definition isKnownContestantStatus :: "string \<Rightarrow> bool" where
  "isKnownContestantStatus v \<longleftrightarrow>
     v \<in> {''Accepted'', ''Compile Error'', ''Wrong Answer'', ''Time Limit Exceeded'', ''Memory Limit Exceeded'',
       ''Runtime Error'', ''Output Limit Exceeded''}"

definition mapBundleStatus :: "string \<Rightarrow> Status" where
  "mapBundleStatus v = mapCallbackStatus v"

text \<open>\<^verbatim>\<open>strings.ReplaceAll\<close> of CRLF by LF, then of CR by LF.\<close>

fun crlf_to_lf :: "string \<Rightarrow> string" where
  "crlf_to_lf [] = []"
| "crlf_to_lf [c] = [c]"
| "crlf_to_lf (c # d # s) =
     (if byte c = 13 \<and> byte d = 10 then d # crlf_to_lf s else c # crlf_to_lf (d # s))"

definition cr_to_lf :: "string \<Rightarrow> string" where
  "cr_to_lf s = map (\<lambda>c. if byte c = 13 then char_of (10 :: nat) else c) s"

fun split_lf :: "string \<Rightarrow> string list" where
  "split_lf [] = [[]]"
| "split_lf (c # s) =
     (if byte c = 10 then [] # split_lf s
      else case split_lf s of [] \<Rightarrow> [[c]] | l # ls \<Rightarrow> (c # l) # ls)"

fun join_lf :: "string list \<Rightarrow> string" where
  "join_lf [] = []"
| "join_lf [l] = l"
| "join_lf (l # ls) = l @ char_of (10 :: nat) # join_lf ls"

definition normalizeExactOutput :: "string \<Rightarrow> string" where
  "normalizeExactOutput v = TrimSpace (join_lf (map TrimSpace (split_lf (cr_to_lf (crlf_to_lf v)))))"

text \<open>The token loop: same length, then element by element.\<close>

fun tokens_equal :: "string list \<Rightarrow> string list \<Rightarrow> bool" where
  "tokens_equal (a # as) (b # bs) = (if a \<noteq> b then False else tokens_equal as bs)"
| "tokens_equal as bs = True"

definition outputsMatch :: "string \<Rightarrow> string \<Rightarrow> string \<Rightarrow> bool" where
  "outputsMatch checker actual expected =
     (if checker = CheckerToken then
        (if length (Fields actual) \<noteq> length (Fields expected) then False
         else tokens_equal (Fields actual) (Fields expected))
      else normalizeExactOutput actual = normalizeExactOutput expected)"

definition systemErrorResult :: "string \<Rightarrow> Result" where
  "systemErrorResult summary =
     blank_result\<lparr>cr_Status := StatusSystemError, cr_Stderr := TruncateUTF16 summary 65536\<rparr>"

section \<open>The single-case pipeline (bundle_pipeline.go)\<close>

text \<open>
  \<open>exec k address request\<close> is what the sandbox answers at the \<open>k\<close>-th call of the pipeline. The loop
  returns the response, or whether the infrastructure is exhausted, or an error; with it the state of
  the selector and the number of calls made.
\<close>

datatype case_outcome = CaseResponse ExecuteResponse | InfrastructureExhausted | CaseError pipeline_error

fun execute_case_attempts ::
  "nat \<Rightarrow> nat \<Rightarrow> ('s \<Rightarrow> string option \<times> 's) \<Rightarrow> (nat \<Rightarrow> string \<Rightarrow> ExecuteRequest \<Rightarrow> rpc_error + ExecuteResponse option)
     \<Rightarrow> ExecuteRequest \<Rightarrow> rpc_error option \<Rightarrow> bool \<Rightarrow> nat \<Rightarrow> 's \<Rightarrow> case_outcome \<times> nat \<times> 's" where
  "execute_case_attempts maxAttempts 0 select exec request lastRetryable invalid k s =
     (case lastRetryable of
        Some e \<Rightarrow> if \<not> invalid then (CaseError (SandboxRetriesExhausted maxAttempts e), k, s)
                   else (InfrastructureExhausted, k, s)
      | None \<Rightarrow> (InfrastructureExhausted, k, s))"
| "execute_case_attempts maxAttempts (Suc n) select exec request lastRetryable invalid k s =
     (case select s of
        (None, s') \<Rightarrow> (CaseError SelectSandboxFailed, k, s')
      | (Some address, s') \<Rightarrow>
          (case exec k address request of
             Inl (RpcStatus Unavailable) \<Rightarrow>
               execute_case_attempts maxAttempts n select exec request (Some (RpcStatus Unavailable)) invalid (Suc k) s'
           | Inl (RpcStatus ResourceExhausted) \<Rightarrow>
               execute_case_attempts maxAttempts n select exec request (Some (RpcStatus ResourceExhausted)) invalid (Suc k) s'
           | Inl e \<Rightarrow> (CaseError (SandboxCallFailed e), Suc k, s')
           | Inr None \<Rightarrow> execute_case_attempts maxAttempts n select exec request lastRetryable True (Suc k) s'
           | Inr (Some response) \<Rightarrow>
               if isKnownContestantStatus (er_Status response) then (CaseResponse response, Suc k, s')
               else execute_case_attempts maxAttempts n select exec request lastRetryable True (Suc k) s'))"

definition executeCase ::
  "nat \<Rightarrow> ('s \<Rightarrow> string option \<times> 's) \<Rightarrow> (nat \<Rightarrow> string \<Rightarrow> ExecuteRequest \<Rightarrow> rpc_error + ExecuteResponse option)
     \<Rightarrow> Task \<Rightarrow> int \<Rightarrow> int \<Rightarrow> string \<Rightarrow> string \<Rightarrow> string \<Rightarrow> nat \<Rightarrow> 's \<Rightarrow> case_outcome \<times> nat \<times> 's" where
  "executeCase maxAttempts select exec submission timeLimit memoryLimit checker input expected k s =
     execute_case_attempts maxAttempts maxAttempts select exec
       (single_request submission timeLimit memoryLimit input (if checker = CheckerExact then expected else []))
       None False k s"

definition NewBundlePipeline :: "int \<Rightarrow> nat" where
  "NewBundlePipeline maxInfraAttempts = (if maxInfraAttempts \<le> 0 then 3 else nat maxInfraAttempts)"

fun join_semicolon :: "string list \<Rightarrow> string" where
  "join_semicolon [] = []"
| "join_semicolon [l] = l"
| "join_semicolon (l # ls) = l @ CHR '';'' # join_semicolon ls"

definition case_summary :: "string \<Rightarrow> string \<Rightarrow> Status \<Rightarrow> string" where
  "case_summary caseID sandboxStatus status =
     ''case='' @ caseID @ '' sandboxStatus='' @ sandboxStatus @ '' status='' @ status_text status"

definition redacted :: string where "redacted = ''compilation failed; diagnostics redacted''"

fun run_cases ::
  "nat \<Rightarrow> ('s \<Rightarrow> string option \<times> 's) \<Rightarrow> (nat \<Rightarrow> string \<Rightarrow> ExecuteRequest \<Rightarrow> rpc_error + ExecuteResponse option)
     \<Rightarrow> (Case \<Rightarrow> (string \<times> string) option) \<Rightarrow> Task \<Rightarrow> int \<Rightarrow> int \<Rightarrow> string \<Rightarrow> Case list
     \<Rightarrow> Result \<Rightarrow> string list \<Rightarrow> nat \<Rightarrow> 's \<Rightarrow> (pipeline_error + Result) \<times> nat \<times> 's" where
  "run_cases maxAttempts select exec read submission timeLimit memoryLimit checker [] result summaries k s =
     (Inr (result\<lparr>cr_ExitCode := 0\<rparr>), k, s)"
| "run_cases maxAttempts select exec read submission timeLimit memoryLimit checker (c # cs) result summaries k s =
     (case read c of
        None \<Rightarrow> (Inr (systemErrorResult ''bundle case could not be read''), k, s)
      | Some (input, expected) \<Rightarrow>
          (case executeCase maxAttempts select exec submission timeLimit memoryLimit checker input expected k s of
             (CaseError e, k', s') \<Rightarrow> (Inl e, k', s')
           | (InfrastructureExhausted, k', s') \<Rightarrow>
               (Inr (result\<lparr>cr_Status := StatusSystemError,
                  cr_Stderr := TruncateUTF16
                    (join_semicolon (summaries @ [''case='' @ case_ID c @ '' status=SYSTEM_ERROR''])) 65536\<rparr>), k', s')
           | (CaseResponse response, k', s') \<Rightarrow>
               let caseStatus =
                     (if er_Status response = ''Accepted'' \<and> \<not> outputsMatch checker (er_Stdout response) expected
                      then StatusWrongAnswer else mapBundleStatus (er_Status response));
                   summaries' = summaries @ [case_summary (case_ID c) (er_Status response) caseStatus];
                   result' = result\<lparr>
                     cr_TimeUsedMillis := max (cr_TimeUsedMillis result) (boundedMetric (er_TimeUsed response) 86400000),
                     cr_MemoryUsedKB := max (cr_MemoryUsedKB result) (boundedMetric (er_MemoryUsed response) 2147483647),
                     cr_ExitCode := er_ExitCode response, cr_Status := caseStatus,
                     cr_Stderr := TruncateUTF16 (join_semicolon summaries') 65536\<rparr>;
                   result'' = (if caseStatus = StatusCompileError then result'\<lparr>cr_CompileError := redacted\<rparr> else result') in
               if caseStatus \<noteq> StatusAccepted then (Inr result'', k', s')
               else run_cases maxAttempts select exec read submission timeLimit memoryLimit checker cs result'' summaries' k' s'))"

definition BundlePipeline_ExecuteArtifact ::
  "nat \<Rightarrow> ('s \<Rightarrow> string option \<times> 's) \<Rightarrow> (nat \<Rightarrow> string \<Rightarrow> ExecuteRequest \<Rightarrow> rpc_error + ExecuteResponse option)
     \<Rightarrow> (Case \<Rightarrow> (string \<times> string) option) \<Rightarrow> Manifest \<Rightarrow> Task \<Rightarrow> int \<Rightarrow> int \<Rightarrow> 's
     \<Rightarrow> (pipeline_error + Result) \<times> nat \<times> 's" where
  "BundlePipeline_ExecuteArtifact maxAttempts select exec read manifest submission timeLimit memoryLimit s =
     (if timeLimit \<le> 0 \<or> memoryLimit \<le> 0
      then (Inl (PipelineRequired ''submission, immutable execution config, and test artifact are required''), 0, s)
      else if Validate manifest \<noteq> Inr () then (Inr (systemErrorResult ''bundle manifest became invalid''), 0, s)
      else run_cases maxAttempts select exec read submission timeLimit memoryLimit (m_Checker manifest) (Cases manifest)
        (blank_result\<lparr>cr_Status := StatusAccepted\<rparr>) [] 0 s)"

end
