(* ===== verification/Sandbox_Select.thy ===== *)
theory Sandbox_Select
  imports Judge_Outcome
begin

text \<open>
  Choosing sandboxes and retrying batches: the round-robin scheduler (internal/scheduler), the guard on
  the event stream of one batch (internal/sandbox/client.go), the validation of the events and the
  retry loop over distinct endpoints (internal/service/bundle_batch_pipeline.go). The contract of a
  selector that skips endpoints already tried is a locale; the retry loop is verified against it once
  and the scheduler is shown to satisfy it.
\<close>

section \<open>Protocol\<close>

datatype event_kind = KIND_UNSPECIFIED | CASE_RESULT | COMPILE_ERROR | COMPLETED | KIND_OTHER int

record ExecuteBatchV1Case =
  bc_CaseId :: string
  bc_Stdin :: string
  bc_ExpectedOutput :: string
  bc_CompareOutput :: bool
  bc_TokenExpectedSha256 :: string

record ExecuteBatchV1Request =
  br_Language :: string
  br_SourceCode :: string
  br_Timeout :: int
  br_MemoryLimit :: int
  br_StopOnFailure :: bool
  br_Cases :: "ExecuteBatchV1Case list"

record ExecuteBatchV1Event =
  ev_Kind :: event_kind
  ev_CaseId :: string
  ev_Result :: "ExecuteResponse option"

section \<open>The scheduler\<close>

record Scheduler =
  endpoints :: "string list"
  next_index :: nat

definition uint64 :: "nat \<Rightarrow> nat" where "uint64 n = n mod 18446744073709551616"

definition scheduler_New :: Scheduler where
  "scheduler_New = \<lparr>endpoints = [], next_index = 0\<rparr>"

text \<open>\<open>found\<close> is what the discovery returned, \<open>None\<close> for an error.\<close>

definition Refresh :: "string list option \<Rightarrow> Scheduler \<Rightarrow> bool \<times> Scheduler" where
  "Refresh found s =
     (case found of
        None \<Rightarrow> (False, s)
      | Some es \<Rightarrow>
          (True, \<lparr>endpoints = es, next_index = (if es = [] then 0 else next_index s mod length es)\<rparr>))"

fun select_offset :: "string list \<Rightarrow> nat \<Rightarrow> string list \<Rightarrow> nat list \<Rightarrow> (string \<times> nat) option" where
  "select_offset es next excluded [] = None"
| "select_offset es next excluded (offset # rest) =
     (let index = uint64 (next + offset) mod length es; selected = es ! index in
      if selected \<in> set excluded then select_offset es next excluded rest else Some (selected, uint64 (index + 1)))"

definition SelectSandboxExcluding :: "Scheduler \<Rightarrow> string list \<Rightarrow> string option \<times> Scheduler" where
  "SelectSandboxExcluding s excluded =
     (if endpoints s = [] then (None, s)
      else case select_offset (endpoints s) (next_index s) excluded [0..<length (endpoints s)] of
        None \<Rightarrow> (None, s)
      | Some (selected, next') \<Rightarrow> (Some selected, s\<lparr>next_index := next'\<rparr>))"

definition SelectSandbox :: "Scheduler \<Rightarrow> string option \<times> Scheduler" where
  "SelectSandbox s = SelectSandboxExcluding s []"

text \<open>A scheduler in use: the index is at most the number of endpoints, which fits in 64 bits.\<close>

definition scheduler_inv :: "Scheduler \<Rightarrow> bool" where
  "scheduler_inv s \<longleftrightarrow> next_index s \<le> length (endpoints s) \<and> 2 * length (endpoints s) < 18446744073709551616"

section \<open>The guard on one event stream (sandbox/client.go)\<close>

record batchStreamGuard =
  g_maxEvents :: nat
  g_maxBytes :: nat
  g_events :: nat
  g_bytes :: nat
  g_terminal :: bool

definition terminal_event :: "ExecuteBatchV1Event \<Rightarrow> bool" where
  "terminal_event e \<longleftrightarrow> ev_Kind e = COMPLETED \<or> ev_Kind e = COMPILE_ERROR"

definition guard_observe ::
  "(ExecuteBatchV1Event \<Rightarrow> nat) \<Rightarrow> ExecuteBatchV1Event option \<Rightarrow> batchStreamGuard \<Rightarrow> batchStreamGuard option" where
  "guard_observe proto_size event g =
     (case event of
        None \<Rightarrow> None
      | Some e \<Rightarrow>
          if g_terminal g then None
          else
            let g' = g\<lparr>g_events := g_events g + 1, g_bytes := g_bytes g + proto_size e\<rparr> in
            if g_events g' > g_maxEvents g' then None
            else if g_bytes g' > g_maxBytes g' then None
            else if terminal_event e then Some (g'\<lparr>g_terminal := True\<rparr>) else Some g')"

definition guard_finish :: "batchStreamGuard \<Rightarrow> bool" where
  "guard_finish g = g_terminal g"

definition maxBatchResponseBytesV1 :: nat where "maxBatchResponseBytesV1 = 67108864"

text \<open>What \<^verbatim>\<open>stream.Recv\<close> yields, in order: events, then the end of the stream or an error.\<close>

datatype stream_end = StreamEOF | StreamError rpc_error

fun receive_batch ::
  "(ExecuteBatchV1Event \<Rightarrow> nat) \<Rightarrow> batchStreamGuard \<Rightarrow> ExecuteBatchV1Event list \<Rightarrow> ExecuteBatchV1Event option list
     \<Rightarrow> stream_end \<Rightarrow> rpc_error + ExecuteBatchV1Event list" where
  "receive_batch proto_size g acc [] fin =
     (case fin of
        StreamEOF \<Rightarrow> if guard_finish g then Inr acc else Inl ErrInvalidBatchStream
      | StreamError e \<Rightarrow> Inl e)"
| "receive_batch proto_size g acc (event # rest) fin =
     (case guard_observe proto_size event g of
        None \<Rightarrow> Inl ErrInvalidBatchStream
      | Some g' \<Rightarrow>
          (case event of
             None \<Rightarrow> Inl ErrInvalidBatchStream
           | Some e \<Rightarrow> receive_batch proto_size g' (acc @ [e]) rest fin))"

definition new_guard :: "ExecuteBatchV1Request \<Rightarrow> batchStreamGuard" where
  "new_guard request = \<lparr>g_maxEvents = length (br_Cases request) + 1, g_maxBytes = maxBatchResponseBytesV1,
     g_events = 0, g_bytes = 0, g_terminal = False\<rparr>"

definition client_ExecuteBatch ::
  "(ExecuteBatchV1Event \<Rightarrow> nat) \<Rightarrow> string \<Rightarrow> ExecuteBatchV1Request \<Rightarrow> ExecuteBatchV1Event option list \<Rightarrow> stream_end
     \<Rightarrow> rpc_error + ExecuteBatchV1Event list" where
  "client_ExecuteBatch proto_size address request stream fin =
     (if address = [] then Inl (RpcStatus (OtherCode 2))
      else receive_batch proto_size (new_guard request) [] stream fin)"

text \<open>The deadline of a batch call, in seconds: one more case timeout per extra case.\<close>

definition batchRPCTimeout :: "int \<Rightarrow> ExecuteBatchV1Request \<Rightarrow> int" where
  "batchRPCTimeout base request =
     (if length (br_Cases request) \<le> 1 then base
      else
        let seconds = (if br_Timeout request \<le> 0 then 1 else if br_Timeout request > 30 then 30 else br_Timeout request) in
        base + int (length (br_Cases request) - 1) * seconds)"

section \<open>Validating the events of a batch (bundle_batch_pipeline.go)\<close>

text \<open>
  The loop over the events. \<open>lastStatus\<close> is the status of the event before the current one; it is only
  looked at when that event was a case result, whose status the loop has already checked.
\<close>

fun validate_events ::
  "bool \<Rightarrow> nat \<Rightarrow> ExecuteBatchV1Case list \<Rightarrow> string \<Rightarrow> ExecuteBatchV1Event option list \<Rightarrow> bool" where
  "validate_events stop caseIndex cases lastStatus [] = False"
| "validate_events stop caseIndex cases lastStatus (None # rest) = False"
| "validate_events stop caseIndex cases lastStatus (Some event # rest) =
     (case ev_Kind event of
        CASE_RESULT \<Rightarrow>
          if stop \<and> caseIndex > 0 \<and> lastStatus \<noteq> ''Accepted'' then False
          else (case ev_Result event of
             None \<Rightarrow> False
           | Some r \<Rightarrow>
               if caseIndex \<ge> length cases \<or> ev_CaseId event \<noteq> bc_CaseId (cases ! caseIndex)
                  \<or> \<not> isKnownContestantStatus (er_Status r) then False
               else validate_events stop (Suc caseIndex) cases (er_Status r) rest)
      | COMPLETED \<Rightarrow>
          if rest \<noteq> [] \<or> ev_CaseId event \<noteq> [] \<or> ev_Result event \<noteq> None \<or> caseIndex = 0 then False
          else \<not> (caseIndex \<noteq> length cases \<and> (\<not> stop \<or> lastStatus = ''Accepted''))
      | _ \<Rightarrow> False)"

definition is_compile_event :: "ExecuteBatchV1Event option list \<Rightarrow> bool" where
  "is_compile_event events =
     (case events of [Some e] \<Rightarrow> ev_Kind e = COMPILE_ERROR | _ \<Rightarrow> False)"

definition validateBatchEvents :: "ExecuteBatchV1Request \<Rightarrow> ExecuteBatchV1Event option list \<Rightarrow> bool" where
  "validateBatchEvents request events =
     (if events = [] then False
      else if is_compile_event events then
        (case hd events of
           None \<Rightarrow> False
         | Some e \<Rightarrow> ev_CaseId e = [] \<and> (case ev_Result e of None \<Rightarrow> False | Some r \<Rightarrow> er_Status r = ''Compile Error''))
      else validate_events (br_StopOnFailure request) 0 (br_Cases request) [] events)"

section \<open>Retrying a batch\<close>

datatype 's sandbox_selector =
    ExcludingSelector "'s \<Rightarrow> string list \<Rightarrow> string option \<times> 's"
  | PlainSelector "'s \<Rightarrow> string option \<times> 's"

fun selectUntriedSandbox :: "'s sandbox_selector \<Rightarrow> string list \<Rightarrow> 's \<Rightarrow> string option \<times> 's" where
  "selectUntriedSandbox (ExcludingSelector select) attempted s = select s attempted"
| "selectUntriedSandbox (PlainSelector select) attempted s =
     (case select s of
        (None, s') \<Rightarrow> (None, s')
      | (Some address, s') \<Rightarrow> if address \<in> set attempted then (None, s') else (Some address, s'))"

datatype batch_outcome =
    BatchEvents "ExecuteBatchV1Event option list"
  | BatchInvalid
  | BatchFailed pipeline_error

text \<open>
  One step per attempt. \<open>attempted\<close> are the addresses called so far, newest first (the keys of the map
  \<^verbatim>\<open>attempted\<close>); \<open>exec k address\<close> is what call \<open>k\<close> returns. The addresses called are returned too.
\<close>

fun batch_attempts ::
  "nat \<Rightarrow> nat \<Rightarrow> 's sandbox_selector \<Rightarrow> (nat \<Rightarrow> string \<Rightarrow> rpc_error + ExecuteBatchV1Event option list)
     \<Rightarrow> ExecuteBatchV1Request \<Rightarrow> rpc_error option \<Rightarrow> string list \<Rightarrow> 's \<Rightarrow> batch_outcome \<times> string list \<times> 's" where
  "batch_attempts maxAttempts 0 selector exec request lastRetryable attempted s =
     (case lastRetryable of
        Some e \<Rightarrow> (BatchFailed (SandboxRetriesExhausted maxAttempts e), attempted, s)
      | None \<Rightarrow> (BatchInvalid, attempted, s))"
| "batch_attempts maxAttempts (Suc n) selector exec request lastRetryable attempted s =
     (case selectUntriedSandbox selector attempted s of
        (None, s') \<Rightarrow>
          (case lastRetryable of
             Some e \<Rightarrow> (BatchFailed (SandboxRetriesExhausted (card (set attempted)) e), attempted, s')
           | None \<Rightarrow> (BatchFailed SelectSandboxFailed, attempted, s'))
      | (Some address, s') \<Rightarrow>
          (case exec (length attempted) address of
             Inl ErrInvalidBatchStream \<Rightarrow> (BatchInvalid, address # attempted, s')
           | Inl (RpcStatus Unavailable) \<Rightarrow>
               batch_attempts maxAttempts n selector exec request (Some (RpcStatus Unavailable)) (address # attempted) s'
           | Inl (RpcStatus ResourceExhausted) \<Rightarrow>
               batch_attempts maxAttempts n selector exec request (Some (RpcStatus ResourceExhausted)) (address # attempted) s'
           | Inl e \<Rightarrow> (BatchFailed (SandboxCallFailed e), address # attempted, s')
           | Inr events \<Rightarrow>
               if validateBatchEvents request events then (BatchEvents events, address # attempted, s')
               else (BatchInvalid, address # attempted, s')))"

definition executeBatch ::
  "nat \<Rightarrow> 's sandbox_selector \<Rightarrow> (nat \<Rightarrow> string \<Rightarrow> rpc_error + ExecuteBatchV1Event option list)
     \<Rightarrow> ExecuteBatchV1Request \<Rightarrow> 's \<Rightarrow> batch_outcome \<times> string list \<times> 's" where
  "executeBatch maxAttempts selector exec request s =
     batch_attempts maxAttempts maxAttempts selector exec request None [] s"

section \<open>The contract of an excluding selector\<close>

locale excluding_selector =
  fixes select :: "'s \<Rightarrow> string list \<Rightarrow> string option \<times> 's"
    and ready :: "'s \<Rightarrow> string set"
    and inv :: "'s \<Rightarrow> bool"
  assumes select_ready: "inv s \<Longrightarrow> select s excluded = (Some a, s') \<Longrightarrow> a \<in> ready s \<and> a \<notin> set excluded"
    and select_none: "inv s \<Longrightarrow> select s excluded = (None, s') \<Longrightarrow> ready s \<subseteq> set excluded"
    and select_keeps: "inv s \<Longrightarrow> select s excluded = (r, s') \<Longrightarrow> inv s' \<and> ready s' = ready s"
begin

lemma attempts_distinct:
  assumes "batch_attempts m n (ExcludingSelector select) exec request lastR attempted s = (r, called, s')"
    "inv s" "distinct attempted" "set attempted \<subseteq> ready s"
  shows "distinct called \<and> set called \<subseteq> ready s \<and> length called \<le> length attempted + n"
  using assms
proof (induction n arbitrary: lastR attempted s)
  case 0
  then show ?case by (auto split: option.splits)
next
  case (Suc n)
  obtain x s1 where sel: "select s attempted = (x, s1)" by (cases "select s attempted")
  note K = select_keeps [OF Suc.prems(2) sel]
  show ?case
  proof (cases x)
    case None
    then show ?thesis using Suc.prems sel by (auto split: option.splits)
  next
    case (Some a)
    note R = select_ready [OF Suc.prems(2) sel [unfolded Some]]
    have ext: "distinct (a # attempted)" "set (a # attempted) \<subseteq> ready s1" using R K Suc.prems(3,4) by auto
    note IH = Suc.IH [OF _ conjunct1 [OF K] ext]
    consider lr where "batch_attempts m n (ExcludingSelector select) exec request lr (a # attempted) s1 = (r, called, s')"
      | "called = a # attempted"
      using Suc.prems(1) sel Some
      by (auto split: sum.splits rpc_error.splits grpc_code.splits if_splits)
    then show ?thesis
    proof cases
      case 1
      from IH [OF 1] K show ?thesis by auto
    next
      case 2
      then show ?thesis using ext K by auto
    qed
  qed
qed

text \<open>
  If every endpoint either answers with valid events or is temporarily unavailable, some endpoint that
  answers is still untried, and there are attempts for all untried endpoints, the batch succeeds.
\<close>

lemma attempts_succeed:
  assumes "inv s" "finite (ready s)"
    and "\<And>k a. a \<in> ready s \<Longrightarrow> exec k a = Inl (RpcStatus Unavailable) \<or> exec k a = Inl (RpcStatus ResourceExhausted)
      \<or> (\<exists>events. exec k a = Inr events \<and> validateBatchEvents request events)"
    and "good \<in> ready s" "good \<notin> set attempted"
    and "\<And>k. \<exists>events. exec k good = Inr events \<and> validateBatchEvents request events"
    and "card (ready s - set attempted) \<le> n"
  shows "\<exists>events called s'. batch_attempts m n (ExcludingSelector select) exec request lastR attempted s
    = (BatchEvents events, called, s')"
  using assms
proof (induction n arbitrary: lastR attempted s)
  case 0
  then have "ready s - set attempted = {}" by simp
  then show ?case using 0(4,5) by blast
next
  case (Suc n)
  obtain x s1 where sel: "select s attempted = (x, s1)" by (cases "select s attempted")
  note K = select_keeps [OF Suc.prems(1) sel]
  obtain a where x: "x = Some a"
    using select_none [OF Suc.prems(1), of attempted s1] sel Suc.prems(4,5) by (cases x) auto
  note R = select_ready [OF Suc.prems(1) sel [unfolded x]]
  show ?case
  proof (cases "a = good")
    case True
    then show ?thesis using Suc.prems(6) [of "length attempted"] sel x by auto
  next
    case False
    have less: "card (ready s1 - set (a # attempted)) \<le> n"
    proof -
      have "ready s1 - set (a # attempted) = (ready s - set attempted) - {a}" using K by auto
      then show ?thesis
        using Suc.prems(2,7) R by (simp add: card_Diff_singleton_if)
    qed
    have IH: "\<exists>events called s'. batch_attempts m n (ExcludingSelector select) exec request lr (a # attempted) s1
        = (BatchEvents events, called, s')" for lr
      by (rule Suc.IH) (use K Suc.prems less False in auto)
    show ?thesis
      using Suc.prems(3) [OF conjunct1 [OF R], of "length attempted"] IH sel x by auto
  qed
qed

end

section \<open>The scheduler meets the contract\<close>

lemma select_offset_Some:
  assumes "select_offset es next excluded offsets = Some (a, n)" "es \<noteq> []" "length es < 18446744073709551615"
  shows "a \<in> set es \<and> a \<notin> set excluded \<and> n \<le> length es"
  using assms
proof (induction offsets)
  case (Cons k offsets)
  let ?i = "uint64 (next + k) mod length es"
  have i: "?i < length es" using Cons.prems(2) by simp
  then have "uint64 (Suc ?i) = Suc ?i" using Cons.prems(3) by (simp add: uint64_def)
  then show ?case using Cons i by (auto simp: Let_def Suc_le_eq split: if_splits)
qed simp

lemma select_offset_None:
  "select_offset es next excluded offsets = None \<Longrightarrow> k \<in> set offsets \<Longrightarrow> es ! (uint64 (next + k) mod length es) \<in> set excluded"
  by (induction offsets) (auto simp: Let_def split: if_splits)

lemma rotation_covers:
  assumes "i < length es" "n \<le> length es" "2 * length es < 18446744073709551616"
  obtains k where "k < length es" "uint64 (n + k) mod length es = i"
proof (cases "n \<le> i")
  case True
  then show ?thesis using that [of "i - n"] assms by (auto simp: uint64_def)
next
  case False
  then have "uint64 (n + (length es + i - n)) mod length es = i" using assms by (simp add: uint64_def)
  then show ?thesis using that [of "length es + i - n"] False assms by auto
qed

interpretation round_robin: excluding_selector SelectSandboxExcluding "\<lambda>s. set (endpoints s)" scheduler_inv
proof unfold_locales
  fix s excluded a s' assume inv: "scheduler_inv s" and sel: "SelectSandboxExcluding s excluded = (Some a, s')"
  then show "a \<in> set (endpoints s) \<and> a \<notin> set excluded"
    using select_offset_Some
    by (fastforce simp: SelectSandboxExcluding_def scheduler_inv_def split: if_splits option.splits)
next
  fix s excluded s' assume inv: "scheduler_inv s" and sel: "SelectSandboxExcluding s excluded = (None, s')"
  show "set (endpoints s) \<subseteq> set excluded"
  proof
    fix e assume "e \<in> set (endpoints s)"
    then obtain i where i: "i < length (endpoints s)" "endpoints s ! i = e" by (auto simp: in_set_conv_nth)
    then obtain k where k: "k < length (endpoints s)" "uint64 (next_index s + k) mod length (endpoints s) = i"
      using rotation_covers [OF i(1)] inv by (auto simp: scheduler_inv_def)
    have "select_offset (endpoints s) (next_index s) excluded [0..<length (endpoints s)] = None"
      using sel i(1) by (auto simp: SelectSandboxExcluding_def split: if_splits option.splits)
    from select_offset_None [OF this, of k] k i show "e \<in> set excluded" by simp
  qed
next
  fix s excluded r s' assume inv: "scheduler_inv s" and sel: "SelectSandboxExcluding s excluded = (r, s')"
  then show "scheduler_inv s' \<and> set (endpoints s') = set (endpoints s)"
    using select_offset_Some
    by (fastforce simp: SelectSandboxExcluding_def scheduler_inv_def split: if_splits option.splits)
qed

end
