(* ===== verification/Go_Numbers.thy ===== *)
theory Go_Numbers
  imports Go_Strings
begin

text \<open>
  Numbers as text: the decimal notation of \<^verbatim>\<open>fmt\<close> and \<^verbatim>\<open>strconv\<close>, its injectivity, and the reading of
  strings whose parts are separated by a character that numbers do not contain.
\<close>

text \<open>\<^verbatim>\<open>%d\<close>\<close>

fun nat_decimal :: "nat \<Rightarrow> string" where
  "nat_decimal n =
     (if n < 10 then [char_of (48 + n)] else nat_decimal (n div 10) @ [char_of (48 + n mod 10)])"

declare nat_decimal.simps [simp del]

definition int_decimal :: "int \<Rightarrow> string" where
  "int_decimal i = (if i < 0 then CHR ''-'' # nat_decimal (nat (- i)) else nat_decimal (nat i))"

text \<open>\<^verbatim>\<open>strconv.ParseUint(s, 10, bits)\<close>\<close>

definition digits_value :: "string \<Rightarrow> nat" where
  "digits_value s = foldl (\<lambda>n c. 10 * n + (byte c - 48)) 0 s"

definition ParseUint :: "string \<Rightarrow> nat \<Rightarrow> nat option" where
  "ParseUint s bits =
     (if s = [] \<or> \<not> list_all digit s then None
      else if digits_value s < 2 ^ bits then Some (digits_value s) else None)"

text \<open>\<^verbatim>\<open>strconv.ParseInt(s, 10, 64)\<close> without a leading plus sign\<close>

definition ParseInt64 :: "string \<Rightarrow> int option" where
  "ParseInt64 s =
     (case s of
        [] \<Rightarrow> None
      | c # t \<Rightarrow>
          if c = CHR ''-'' then
            (if t = [] \<or> \<not> list_all digit t \<or> digits_value t > 2 ^ 63 then None else Some (- int (digits_value t)))
          else if \<not> list_all digit s \<or> digits_value s \<ge> 2 ^ 63 then None else Some (int (digits_value s)))"

lemma digit_byte: "n < 10 \<Longrightarrow> byte (char_of (48 + n)) = 48 + n"
  by (rule byte_char_of) simp

lemma char_digit_inj:
  assumes "n < 10" "m < 10" "(char_of (48 + n :: nat) :: char) = char_of (48 + m)"
  shows "n = m"
  using digit_byte [OF assms(1)] digit_byte [OF assms(2)] assms(3) by simp

lemma nat_decimal_ne [simp]: "nat_decimal n \<noteq> []" "[] \<noteq> nat_decimal n"
  by (subst nat_decimal.simps, simp)+

lemma nat_decimal_inj: "nat_decimal n = nat_decimal m \<Longrightarrow> n = m"
proof (induction n arbitrary: m rule: nat_decimal.induct)
  case (1 n)
  note eq = 1(2) [unfolded nat_decimal.simps [of n] nat_decimal.simps [of m]]
  show ?case
  proof (cases "n < 10")
    case True
    then have "m < 10" using eq by (auto split: if_splits)
    with True eq char_digit_inj show ?thesis by simp
  next
    case False
    then have m: "\<not> m < 10" using eq by (auto split: if_splits)
    then have e: "nat_decimal (n div 10) = nat_decimal (m div 10)"
      and d: "(char_of (48 + n mod 10) :: char) = char_of (48 + m mod 10)" using eq False by simp_all
    have "n div 10 = m div 10" using 1(1) [OF False e] .
    moreover have "n mod 10 = m mod 10" by (rule char_digit_inj [OF _ _ d]) simp_all
    ultimately show ?thesis by (metis div_mult_mod_eq)
  qed
qed

lemma nat_decimal_digits: "c \<in> set (nat_decimal n) \<Longrightarrow> 48 \<le> byte c \<and> byte c \<le> 57"
proof (induction n rule: nat_decimal.induct)
  case (1 n)
  have "n < 10 \<Longrightarrow> 48 \<le> byte (char_of (48 + n)) \<and> byte (char_of (48 + n)) \<le> 57" using digit_byte [of n] by simp
  moreover have "48 \<le> byte (char_of (48 + n mod 10)) \<and> byte (char_of (48 + n mod 10)) \<le> 57"
    using digit_byte [of "n mod 10"] by simp
  ultimately show ?case
    using 1(1) 1(2) [unfolded nat_decimal.simps [of n]] by (auto split: if_splits)
qed

lemma int_decimal_chars: "c \<in> set (int_decimal i) \<Longrightarrow> c \<noteq> CHR ''/''"
  by (auto simp: int_decimal_def split: if_splits dest: nat_decimal_digits)

lemma int_decimal_inj: "int_decimal i = int_decimal j \<Longrightarrow> i = j"
proof -
  assume eq: "int_decimal i = int_decimal j"
  have minus: "hd (nat_decimal n) \<noteq> CHR ''-''" for n
    using nat_decimal_digits [of "hd (nat_decimal n)" n] by auto
  have nc: "nat_decimal n \<noteq> CHR ''-'' # t" for n t using minus [of n] by auto
  then show ?thesis
    using eq nat_decimal_inj [of "nat (- i)" "nat (- j)"] nat_decimal_inj [of "nat i" "nat j"]
    by (auto simp: int_decimal_def nc [symmetric] split: if_splits)
qed

lemma first_separator:
  "y @ c # x = y' @ c # x' \<Longrightarrow> c \<notin> set y \<Longrightarrow> c \<notin> set y' \<Longrightarrow> y = y' \<and> x = x'"
proof (induction y arbitrary: y')
  case Nil
  then show ?case by (cases y') auto
next
  case (Cons b y)
  then show ?case by (cases y') auto
qed

lemma last_separator:
  assumes "x @ c # y = x' @ c # y'" "c \<notin> set y" "c \<notin> set y'"
  shows "x = x' \<and> y = y'"
proof -
  have "rev y @ c # rev x = rev y' @ c # rev x'" using arg_cong [OF assms(1), of rev] by simp
  then show ?thesis using first_separator [of "rev y" c "rev x" "rev y'" "rev x'"] assms(2,3) by simp
qed

lemma digits_value_snoc [simp]: "digits_value [] = 0" "digits_value (s @ [c]) = 10 * digits_value s + (byte c - 48)"
  by (simp_all add: digits_value_def)

lemma digits_value_decimal [simp]: "digits_value (nat_decimal n) = n"
proof (induction n rule: nat_decimal.induct)
  case (1 n)
  show ?case
  proof (cases "n < 10")
    case True
    then show ?thesis using digit_byte [of n] by (simp add: nat_decimal.simps [of n] digits_value_def)
  next
    case False
    then show ?thesis
      using 1 digit_byte [of "n mod 10"] by (simp add: nat_decimal.simps [of n] del: of_char_of)
  qed
qed

lemma nat_decimal_all_digits [simp]: "list_all digit (nat_decimal n)"
  using nat_decimal_digits by (auto simp: list_all_iff digit_def)

lemma ParseUint_decimal [simp]: "n < 2 ^ bits \<Longrightarrow> ParseUint (nat_decimal n) bits = Some n"
  by (simp add: ParseUint_def)

lemma nat_decimal_no_minus: "nat_decimal n \<noteq> CHR ''-'' # t"
  using nat_decimal_digits [of "CHR ''-''" n] by auto

lemma ParseInt64_decimal [simp]:
  assumes "in_int64 i"
  shows "ParseInt64 (int_decimal i) = Some i"
proof (cases "i < 0")
  case True
  then show ?thesis using assms by (simp add: ParseInt64_def int_decimal_def in_int64_def max_int64_def)
next
  case False
  obtain c t where n: "nat_decimal (nat i) = c # t" by (cases "nat_decimal (nat i)") simp_all
  have v: "digits_value (c # t) = nat i" "list_all digit (c # t)"
    using digits_value_decimal [of "nat i"] nat_decimal_all_digits [of "nat i"] by (simp_all only: n)
  show ?thesis
    using False assms v nat_decimal_no_minus [of "nat i" t] n
    by (auto simp: ParseInt64_def int_decimal_def in_int64_def max_int64_def)
qed

end
