(* ===== verification/Go_Json.thy ===== *)
theory Go_Json
  imports Go_Crypto Go_Numbers
begin

text \<open>
  The JSON of \<^verbatim>\<open>encoding/json\<close>: how strings and values are written, the reader of one value from a stream of
  bytes (the decoder's scanner with its stack of open containers and its nesting limit), and that the
  reader inverts the writer. A string is read as valid UTF-8: an invalid byte and a lone surrogate become
  U+FFFD.
\<close>

section \<open>Writing\<close>

text \<open>\<^verbatim>\<open>encoding/json\<close> writes a string: the escapes of the language plus \<^verbatim>\<open><\<close>, \<^verbatim>\<open>>\<close>, \<^verbatim>\<open>&\<close>, U+2028 and U+2029.\<close>

definition json_two_byte :: "char \<Rightarrow> string option" where
  "json_two_byte c =
     (let n = byte c in
      if n = 34 \<or> n = 92 then Some [CHR 0x5C, c]
      else if n = 8 then Some [CHR 0x5C, CHR ''b''] else if n = 12 then Some [CHR 0x5C, CHR ''f'']
      else if n = 10 then Some [CHR 0x5C, CHR ''n''] else if n = 13 then Some [CHR 0x5C, CHR ''r'']
      else if n = 9 then Some [CHR 0x5C, CHR ''t''] else None)"

definition json_six_byte :: "char \<Rightarrow> bool" where
  "json_six_byte c \<longleftrightarrow> byte c < 32 \<or> c = CHR ''<'' \<or> c = CHR ''>'' \<or> c = CHR ''&''"

definition json_char :: "string \<Rightarrow> string \<times> nat" where
  "json_char s =
     (let c = hd s in
      case json_two_byte c of
        Some e \<Rightarrow> (e, 1)
      | None \<Rightarrow>
          if json_six_byte c then
            (CHR 0x5C # ''u00'' @ [hex_digit (byte c div 16), hex_digit (byte c mod 16)], 1)
          else if byte c < 128 then ([c], 1)
          else (case decode_rune s of (r, width) \<Rightarrow>
            if r = rune_error \<and> width = 1 then (CHR 0x5C # ''ufffd'', 1)
            else if r = 8232 \<or> r = 8233 then (CHR 0x5C # ''u202'' @ [hex_digit (r mod 16)], width)
            else (take width s, width)))"

lemma json_char_width: "s \<noteq> [] \<Longrightarrow> 1 \<le> snd (json_char s) \<and> snd (json_char s) \<le> length s"
  using decode_rune_width [of s] by (cases s) (auto simp: json_char_def Let_def split: option.splits prod.splits)

function json_escape :: "string \<Rightarrow> string" where
  "json_escape s = (if s = [] then [] else fst (json_char s) @ json_escape (drop (snd (json_char s)) s))"
  by pat_completeness auto
termination
proof (relation "measure length")
  fix s :: string assume "s \<noteq> []"
  then show "(drop (snd (json_char s)) s, s) \<in> measure length"
    using json_char_width [of s] by simp
qed simp

definition json_quote :: "string \<Rightarrow> string" where
  "json_quote s = CHR 0x22 # json_escape s @ [CHR 0x22]"

definition json_member :: "string \<Rightarrow> string \<Rightarrow> string" where
  "json_member key val = json_quote key @ '':'' @ val"

declare json_escape.simps [simp del]

datatype json =
    JNull
  | JBool bool
  | JNumber string
  | JString string
  | JArray "json list"
  | JObject "(string \<times> json) list"

definition json_int :: "int \<Rightarrow> json" where "json_int i = JNumber (int_decimal i)"

fun json_commas :: "string list \<Rightarrow> string" where
  "json_commas [] = []"
| "json_commas [x] = x"
| "json_commas (x # y # xs) = x @ CHR '','' # json_commas (y # xs)"

fun json_text :: "json \<Rightarrow> string" where
  "json_text JNull = ''null''"
| "json_text (JBool b) = (if b then ''true'' else ''false'')"
| "json_text (JNumber l) = l"
| "json_text (JString s) = json_quote s"
| "json_text (JArray vs) = CHR ''['' # json_commas (map json_text vs) @ '']''"
| "json_text (JObject ms) = CHR ''{'' # json_commas (map (\<lambda>(k, v). json_quote k @ CHR '':'' # json_text v) ms) @ ''}''"

section \<open>Reading tokens\<close>

definition json_space :: "char \<Rightarrow> bool" where
  "json_space c \<longleftrightarrow> byte c = 32 \<or> byte c = 9 \<or> byte c = 10 \<or> byte c = 13"

definition skip_space :: "string \<Rightarrow> string" where "skip_space s = dropWhile json_space s"

definition hex_value :: "char \<Rightarrow> nat option" where
  "hex_value c =
     (if digit c then Some (byte c - 48)
      else if 97 \<le> byte c \<and> byte c \<le> 102 then Some (byte c - 87)
      else if 65 \<le> byte c \<and> byte c \<le> 70 then Some (byte c - 55) else None)"

definition hex4 :: "string \<Rightarrow> nat option" where
  "hex4 s =
     (case s of
        a # b # c # d # _ \<Rightarrow>
          (case (hex_value a, hex_value b, hex_value c, hex_value d) of
             (Some w, Some x, Some y, Some z) \<Rightarrow> Some (w * 4096 + x * 256 + y * 16 + z)
           | _ \<Rightarrow> None)
      | _ \<Rightarrow> None)"

definition low_surrogate :: "string \<Rightarrow> nat option" where
  "low_surrogate s =
     (case s of
        b # u # t \<Rightarrow>
          if b = CHR 0x5C \<and> u = CHR ''u'' then
            (case hex4 t of Some r \<Rightarrow> if 56320 \<le> r \<and> r < 57344 then Some r else None | None \<Rightarrow> None)
          else None
      | _ \<Rightarrow> None)"

datatype string_step = StringEnd | StringBad | StringPart string nat

definition escape_step :: "string \<Rightarrow> string_step" where
  "escape_step t =
     (case t of
        [] \<Rightarrow> StringBad
      | e # u \<Rightarrow>
          if byte e = 34 \<or> byte e = 92 \<or> byte e = 47 then StringPart [e] 2
          else if e = CHR ''b'' then StringPart [CHR 0x08] 2 else if e = CHR ''f'' then StringPart [CHR 0x0C] 2
          else if e = CHR ''n'' then StringPart [CHR 0x0A] 2 else if e = CHR ''r'' then StringPart [CHR 0x0D] 2
          else if e = CHR ''t'' then StringPart [CHR 0x09] 2
          else if e = CHR ''u'' then
            (case hex4 u of
               None \<Rightarrow> StringBad
             | Some r \<Rightarrow>
                 if 55296 \<le> r \<and> r < 57344 then
                   (case low_surrogate (drop 4 u) of
                      Some r' \<Rightarrow>
                        if r < 56320 then StringPart (encode_rune ((r - 55296) * 1024 + (r' - 56320) + 65536)) 12
                        else StringPart (encode_rune rune_error) 6
                    | None \<Rightarrow> StringPart (encode_rune rune_error) 6)
                 else StringPart (encode_rune r) 6)
          else StringBad)"

definition string_step :: "string \<Rightarrow> string_step" where
  "string_step s =
     (case s of
        [] \<Rightarrow> StringBad
      | c # t \<Rightarrow>
          if byte c = 34 then StringEnd
          else if byte c < 32 then StringBad
          else if byte c = 92 then escape_step t
          else if byte c < 128 then StringPart [c] 1
          else StringPart (encode_rune (fst (decode_rune s))) (snd (decode_rune s)))"

lemma string_step_width: "string_step s = StringPart part n \<Longrightarrow> s \<noteq> [] \<and> n \<noteq> 0"
  using decode_rune_width [of s]
  by (auto simp: string_step_def escape_step_def split: list.splits if_splits option.splits)

text \<open>The characters of a string up to its closing quote, and what follows it.\<close>

function read_chars :: "string \<Rightarrow> (string \<times> string) option" where
  "read_chars s =
     (case string_step s of
        StringEnd \<Rightarrow> Some ([], tl s)
      | StringBad \<Rightarrow> None
      | StringPart part n \<Rightarrow> (case read_chars (drop n s) of None \<Rightarrow> None | Some (t, rest) \<Rightarrow> Some (part @ t, rest)))"
  by pat_completeness auto
termination
  by (relation "measure length") (auto dest: string_step_width)

declare read_chars.simps [simp del]

definition read_fraction :: "string \<Rightarrow> (string \<times> string) option" where
  "read_fraction s =
     (case s of
        [] \<Rightarrow> Some ([], [])
      | c # t \<Rightarrow>
          if c \<noteq> CHR ''.'' then Some ([], s)
          else if takeWhile digit t = [] then None else Some (c # takeWhile digit t, dropWhile digit t))"

definition read_exponent :: "string \<Rightarrow> (string \<times> string) option" where
  "read_exponent s =
     (case s of
        [] \<Rightarrow> Some ([], [])
      | c # t \<Rightarrow>
          if c \<noteq> CHR ''e'' \<and> c \<noteq> CHR ''E'' then Some ([], s)
          else
            let sign = (case t of d # _ \<Rightarrow> if d = CHR ''+'' \<or> d = CHR ''-'' then [d] else [] | [] \<Rightarrow> []);
                u = drop (length sign) t in
            if takeWhile digit u = [] then None else Some (c # sign @ takeWhile digit u, dropWhile digit u))"

definition read_magnitude :: "string \<Rightarrow> (string \<times> string) option" where
  "read_magnitude s =
     (case s of
        [] \<Rightarrow> None
      | c # t \<Rightarrow>
          if \<not> digit c then None
          else
            let (whole, s1) = (if c = CHR ''0'' then ([c], t) else (takeWhile digit s, dropWhile digit s)) in
            (case read_fraction s1 of
               None \<Rightarrow> None
             | Some (fraction, s2) \<Rightarrow>
                 (case read_exponent s2 of
                    None \<Rightarrow> None
                  | Some (exponent, s3) \<Rightarrow> Some (whole @ fraction @ exponent, s3))))"

definition read_number :: "string \<Rightarrow> (string \<times> string) option" where
  "read_number s =
     (case s of
        [] \<Rightarrow> None
      | c # t \<Rightarrow>
          if c = CHR ''-'' then (case read_magnitude t of None \<Rightarrow> None | Some (l, r) \<Rightarrow> Some (c # l, r))
          else read_magnitude s)"

datatype json_token =
    BraceOpen | BraceClose | BracketOpen | BracketClose | Colon | Comma
  | Scalar json

definition literal_token :: "string \<Rightarrow> (json_token \<times> string) option" where
  "literal_token s =
     (if take 4 s = ''null'' then Some (Scalar JNull, drop 4 s)
      else if take 4 s = ''true'' then Some (Scalar (JBool True), drop 4 s)
      else if take 5 s = ''false'' then Some (Scalar (JBool False), drop 5 s)
      else None)"

definition punctuation :: "char \<Rightarrow> json_token option" where
  "punctuation c =
     (if c = CHR ''{'' then Some BraceOpen else if c = CHR ''}'' then Some BraceClose
      else if c = CHR ''['' then Some BracketOpen else if c = CHR '']'' then Some BracketClose
      else if c = CHR '':'' then Some Colon else if c = CHR '','' then Some Comma else None)"

definition token_at :: "char \<Rightarrow> string \<Rightarrow> (json_token \<times> string) option" where
  "token_at c t =
     (case punctuation c of
        Some p \<Rightarrow> Some (p, t)
      | None \<Rightarrow>
          if byte c = 34 then (case read_chars t of None \<Rightarrow> None | Some (v, r) \<Rightarrow> Some (Scalar (JString v), r))
          else if c = CHR ''-'' \<or> digit c then
            (case read_number (c # t) of None \<Rightarrow> None | Some (l, r) \<Rightarrow> Some (Scalar (JNumber l), r))
          else literal_token (c # t))"

definition next_token :: "string \<Rightarrow> (json_token \<times> string) option" where
  "next_token s = (case skip_space s of [] \<Rightarrow> None | c # t \<Rightarrow> token_at c t)"

section \<open>Reading values\<close>

datatype json_frame = InArray "json list" | InObject "(string \<times> json) list" string

datatype json_state =
    WantValue
  | WantElement
  | AfterElement "json list"
  | WantKey bool "(string \<times> json) list"
  | WantColon "(string \<times> json) list" string
  | AfterMember "(string \<times> json) list"

datatype json_action = Done json | Go json_state "json_frame list" | Bad

definition maxNestingDepth :: nat where "maxNestingDepth = 10000"

fun json_emit :: "json \<Rightarrow> json_frame list \<Rightarrow> json_action" where
  "json_emit v [] = Done v"
| "json_emit v (InArray vs # fs) = Go (AfterElement (vs @ [v])) fs"
| "json_emit v (InObject ms k # fs) = Go (AfterMember (ms @ [(k, v)])) fs"

fun value_start :: "json_token \<Rightarrow> json_frame list \<Rightarrow> json_action" where
  "value_start (Scalar v) fs = json_emit v fs"
| "value_start BracketOpen fs = (if length fs < maxNestingDepth then Go WantElement (InArray [] # fs) else Bad)"
| "value_start BraceOpen fs = (if length fs < maxNestingDepth then Go (WantKey True []) fs else Bad)"
| "value_start _ fs = Bad"

definition scalar_key :: "json_token \<Rightarrow> string option" where
  "scalar_key t = (case t of Scalar (JString k) \<Rightarrow> Some k | _ \<Rightarrow> None)"

fun json_step :: "json_token \<Rightarrow> json_state \<Rightarrow> json_frame list \<Rightarrow> json_action" where
  "json_step t WantValue fs = value_start t fs"
| "json_step t WantElement fs = (if t = BracketClose then json_emit (JArray []) (tl fs) else value_start t fs)"
| "json_step t (AfterElement vs) fs =
     (if t = Comma then Go WantValue (InArray vs # fs)
      else if t = BracketClose then json_emit (JArray vs) fs else Bad)"
| "json_step t (WantKey start ms) fs =
     (case scalar_key t of
        Some k \<Rightarrow> Go (WantColon ms k) fs
      | None \<Rightarrow> if start \<and> t = BraceClose then json_emit (JObject ms) fs else Bad)"
| "json_step t (WantColon ms k) fs = (if t = Colon then Go WantValue (InObject ms k # fs) else Bad)"
| "json_step t (AfterMember ms) fs =
     (if t = Comma then Go (WantKey False ms) fs
      else if t = BraceClose then json_emit (JObject ms) fs else Bad)"

lemma read_chars_shorter: "read_chars s = Some (v, r) \<Longrightarrow> length r < length s"
proof (induction s arbitrary: v r rule: read_chars.induct)
  case (1 s)
  show ?case
  proof (cases "string_step s")
    case StringEnd
    then have "s \<noteq> []" by (auto simp: string_step_def)
    moreover have "r = tl s" using 1(2) StringEnd by (simp add: read_chars.simps [of s])
    ultimately show ?thesis by simp
  next
    case (StringPart part n)
    then obtain t where t: "read_chars (drop n s) = Some (t, r)"
      using 1(2) by (auto simp: read_chars.simps [of s] split: option.splits)
    show ?thesis using 1(1) [OF StringPart t] by simp
  qed (use 1(2) in \<open>simp add: read_chars.simps [of s]\<close>)
qed

lemma read_fraction_shorter: "read_fraction s = Some (v, r) \<Longrightarrow> length r \<le> length s"
  by (auto simp: read_fraction_def le_SucI length_dropWhile_le split: list.splits if_splits)

lemma read_exponent_shorter: "read_exponent s = Some (v, r) \<Longrightarrow> length r \<le> length s"
  using length_dropWhile_le [of digit]
  by (auto simp: read_exponent_def Let_def split: list.splits if_splits intro: le_SucI)

lemma read_magnitude_shorter: "read_magnitude s = Some (v, r) \<Longrightarrow> length r < length s"
  using length_dropWhile_le [of digit "tl s"]
  by (auto simp: read_magnitude_def split: list.splits if_splits option.splits dest!: read_fraction_shorter read_exponent_shorter)

lemma read_number_shorter: "read_number s = Some (v, r) \<Longrightarrow> length r < length s"
  by (auto simp: read_number_def split: list.splits if_splits option.splits dest!: read_magnitude_shorter)

lemma literal_token_shorter: "literal_token s = Some (t, r) \<Longrightarrow> length r < length s"
  by (cases s) (auto simp: literal_token_def split: if_splits)

lemma token_at_shorter:
  assumes "token_at c u = Some (t, r)"
  shows "length r < Suc (length u)"
proof (cases "punctuation c")
  case None
  consider "byte c = 34" | "byte c \<noteq> 34" "c = CHR ''-'' \<or> digit c" | "byte c \<noteq> 34" "\<not> (c = CHR ''-'' \<or> digit c)" by blast
  then show ?thesis
  proof cases
    case 1
    with None assms obtain v where "read_chars u = Some (v, r)" by (auto simp: token_at_def split: option.splits)
    then show ?thesis using read_chars_shorter by fastforce
  next
    case 2
    with None assms obtain l where "read_number (c # u) = Some (l, r)" by (auto simp: token_at_def split: option.splits)
    then show ?thesis using read_number_shorter by fastforce
  next
    case 3
    with None assms have "literal_token (c # u) = Some (t, r)" by (simp add: token_at_def)
    then show ?thesis using literal_token_shorter by fastforce
  qed
qed (use assms in \<open>simp add: token_at_def\<close>)

lemma next_token_shorter: "next_token s = Some (t, r) \<Longrightarrow> length r < length s"
proof -
  assume tok: "next_token s = Some (t, r)"
  have le: "length (skip_space s) \<le> length s" by (simp add: skip_space_def length_dropWhile_le)
  obtain c u where s: "skip_space s = c # u" using tok by (cases "skip_space s") (simp_all add: next_token_def)
  then have "length r < Suc (length u)" using tok by (simp add: next_token_def token_at_shorter)
  then show ?thesis using le s by simp
qed

text \<open>One value from the front of a stream: the value and what follows it.\<close>

function read_loop :: "json_state \<Rightarrow> json_frame list \<Rightarrow> string \<Rightarrow> (json \<times> string) option" where
  "read_loop st fs s =
     (case next_token s of
        None \<Rightarrow> None
      | Some (t, r) \<Rightarrow>
          (case json_step t st fs of
             Done v \<Rightarrow> Some (v, r)
           | Go st' fs' \<Rightarrow> read_loop st' fs' r
           | Bad \<Rightarrow> None))"
  by pat_completeness auto
termination
  by (relation "measure (\<lambda>(_, _, s). length s)") (auto dest: next_token_shorter)

declare read_loop.simps [simp del]

definition read_value :: "string \<Rightarrow> (json \<times> string) option" where
  "read_value s = read_loop WantValue [] s"

section \<open>The reader inverts the writer\<close>

text \<open>Every byte that is not part of a rune becomes U+FFFD.\<close>

definition to_valid :: "string \<Rightarrow> string" where "to_valid s = concat (map encode_rune (runes s))"

lemma to_valid_Nil [simp]: "to_valid [] = []"
  by (simp add: to_valid_def)

lemma to_valid_step: "s \<noteq> [] \<Longrightarrow> to_valid s = encode_rune (fst (decode_rune s)) @ to_valid (drop (snd (decode_rune s)) s)"
  by (simp add: to_valid_def runes.simps [of s])

lemma char_of_byte [simp]: "char_of (byte c) = c"
  by simp

lemma encode_two:
  assumes "194 \<le> byte a" "byte a \<le> 223" "cont_byte b"
  shows "encode_rune ((byte a - 192) * 64 + (byte b - 128)) = [a, b]"
proof -
  obtain x where x: "byte a = 192 + x" "2 \<le> x" "x \<le> 31" using assms(1,2) by (intro that [of "byte a - 192"]) auto
  obtain y where y: "byte b = 128 + y" "y < 64" using assms(3) by (intro that [of "byte b - 128"]) (auto simp: cont_byte_def)
  have "char_of (192 + x) = a" "char_of (128 + y) = b" using char_of_byte [of a] char_of_byte [of b] by (simp_all only: x y)
  then show ?thesis using x y by (simp add: encode_rune_def)
qed

lemma radix_divmod:
  fixes q d k :: nat
  assumes "d < k"
  shows "(q * k + d) div k = q" "(q * k + d) mod k = d"
  using assms by simp_all

lemma radix_three:
  fixes x y z :: nat
  assumes "y < 64" "z < 64" and r: "r = x * 4096 + y * 64 + z"
  shows "r div 4096 = x" "r div 64 mod 64 = y" "r mod 64 = z"
proof -
  have l: "r = (x * 64 + y) * 64 + z" using r by simp
  show "r mod 64 = z" unfolding l by (rule radix_divmod(2) [OF assms(2)])
  have d: "r div 64 = x * 64 + y" unfolding l by (rule radix_divmod(1) [OF assms(2)])
  show "r div 64 mod 64 = y" unfolding d by (rule radix_divmod(2) [OF assms(1)])
  have "r div 4096 = r div 64 div 64" by (simp add: div_mult2_eq [symmetric])
  then show "r div 4096 = x" unfolding d by (simp only: radix_divmod(1) [OF assms(1)])
qed

lemma radix_four:
  fixes x y z w :: nat
  assumes "y < 64" "z < 64" "w < 64" and r: "r = x * 262144 + y * 4096 + z * 64 + w"
  shows "r div 262144 = x" "r div 4096 mod 64 = y" "r div 64 mod 64 = z" "r mod 64 = w"
proof -
  have l: "r = (x * 4096 + y * 64 + z) * 64 + w" using r by simp
  show "r mod 64 = w" unfolding l by (rule radix_divmod(2) [OF assms(3)])
  have d: "r div 64 = x * 4096 + y * 64 + z" unfolding l by (rule radix_divmod(1) [OF assms(3)])
  note three = radix_three [OF assms(1,2) d]
  have "r div 262144 = r div 64 div 4096" "r div 4096 = r div 64 div 64" by (simp_all add: div_mult2_eq [symmetric])
  then show "r div 262144 = x" "r div 4096 mod 64 = y" "r div 64 mod 64 = z" using three by (simp_all only:)
qed

lemma encode_three:
  assumes "224 \<le> byte a" "byte a \<le> 239" "second_byte_ok a b" "cont_byte c"
  shows "encode_rune ((byte a - 224) * 4096 + (byte b - 128) * 64 + (byte c - 128)) = [a, b, c]"
proof -
  obtain x where x: "byte a = 224 + x" "x \<le> 15" using assms(1,2) by (intro that [of "byte a - 224"]) auto
  obtain y where y: "byte b = 128 + y" "y < 64" "x = 0 \<longrightarrow> 32 \<le> y"
    using assms(3) x by (intro that [of "byte b - 128"]) (auto simp: second_byte_ok_def cont_byte_def split: if_splits)
  obtain z where z: "byte c = 128 + z" "z < 64" using assms(4) by (intro that [of "byte c - 128"]) (auto simp: cont_byte_def)
  have ch: "char_of (224 + x) = a" "char_of (128 + y) = b" "char_of (128 + z) = c"
    using char_of_byte [of a] char_of_byte [of b] char_of_byte [of c] by (simp_all only: x y z)
  define r where "r = x * 4096 + y * 64 + z"
  have "2048 \<le> r" using y by (cases "x = 0") (auto simp: r_def)
  moreover have "r < 65536" using x(2) y(2) z(2) unfolding r_def by linarith
  ultimately have "encode_rune r = [a, b, c]"
    using radix_three [OF y(2) z(2) r_def] ch by (simp add: encode_rune_def)
  then show ?thesis by (simp add: x y z r_def)
qed

lemma encode_four:
  assumes "240 \<le> byte a" "byte a \<le> 244" "second_byte_ok a b" "cont_byte c" "cont_byte d"
  shows "encode_rune ((byte a - 240) * 262144 + (byte b - 128) * 4096 + (byte c - 128) * 64 + (byte d - 128)) = [a, b, c, d]"
proof -
  obtain x where x: "byte a = 240 + x" "x \<le> 4" using assms(1,2) by (intro that [of "byte a - 240"]) auto
  obtain y where y: "byte b = 128 + y" "y < 64" "x = 0 \<longrightarrow> 16 \<le> y"
    using assms(3) x by (intro that [of "byte b - 128"]) (auto simp: second_byte_ok_def cont_byte_def split: if_splits)
  obtain z where z: "byte c = 128 + z" "z < 64" using assms(4) by (intro that [of "byte c - 128"]) (auto simp: cont_byte_def)
  obtain w where w: "byte d = 128 + w" "w < 64" using assms(5) by (intro that [of "byte d - 128"]) (auto simp: cont_byte_def)
  have ch: "char_of (240 + x) = a" "char_of (128 + y) = b" "char_of (128 + z) = c" "char_of (128 + w) = d"
    using char_of_byte [of a] char_of_byte [of b] char_of_byte [of c] char_of_byte [of d] by (simp_all only: x y z w)
  define r where "r = x * 262144 + y * 4096 + z * 64 + w"
  have "65536 \<le> r" using y by (cases "x = 0") (auto simp: r_def)
  then have "encode_rune r = [a, b, c, d]"
    using radix_four [OF y(2) z(2) w(2) r_def] ch by (simp add: encode_rune_def)
  then show ?thesis by (simp add: x y z w r_def)
qed

lemma encode_decode_rune:
  assumes "s \<noteq> []" "\<not> (fst (decode_rune s) = rune_error \<and> snd (decode_rune s) = 1)"
  shows "encode_rune (fst (decode_rune s)) = take (snd (decode_rune s)) s"
proof -
  obtain a r where s: "s = a # r" using assms(1) by (cases s) auto
  have one: "encode_rune (byte a) = [a]" if "byte a < 128" using that by (simp add: encode_rune_def)
  consider "byte a < 128" | "194 \<le> byte a" "byte a \<le> 223" | "224 \<le> byte a" "byte a \<le> 239"
    | "240 \<le> byte a" "byte a \<le> 244" | "128 \<le> byte a" "byte a < 194" | "244 < byte a" by linarith
  then show ?thesis
    using assms(2) unfolding s decode_rune_def
    by cases (simp_all add: one encode_two encode_three encode_four split: list.splits if_splits)
qed

lemma to_valid_id: "utf8_valid s \<Longrightarrow> to_valid s = s"
proof (induction s rule: utf8_valid.induct)
  case (1 s)
  show ?case
  proof (cases "s = []")
    case False
    then have ok: "\<not> (fst (decode_rune s) = rune_error \<and> snd (decode_rune s) = 1)" "utf8_valid (drop (snd (decode_rune s)) s)"
      using 1(2) by (simp_all add: utf8_valid.simps [of s])
    then have "to_valid (drop (snd (decode_rune s)) s) = drop (snd (decode_rune s)) s" using 1(1) False by blast
    then show ?thesis using False ok encode_decode_rune [OF False ok(1)] by (simp add: to_valid_step)
  qed simp
qed

lemma hex_value_digit [simp]:
  assumes "n < 16"
  shows "hex_value (hex_digit n) = Some n"
proof (cases "n < 10")
  case True
  then show ?thesis by (simp add: hex_digit_def hex_value_def digit_def)
next
  case False
  then show ?thesis using assms by (simp add: hex_digit_def hex_value_def digit_def)
qed

lemma hex4_digits:
  "w < 16 \<Longrightarrow> x < 16 \<Longrightarrow> y < 16 \<Longrightarrow> z < 16 \<Longrightarrow>
     hex4 (hex_digit w # hex_digit x # hex_digit y # hex_digit z # t) = Some (w * 4096 + x * 256 + y * 16 + z)"
  by (simp add: hex4_def)

lemma byte_eq_iff: "byte c = byte d \<longleftrightarrow> c = d"
  by (rule of_char_eq_iff)

lemma byte_escapes:
  "byte c = 8 \<longleftrightarrow> c = CHR 0x08" "byte c = 9 \<longleftrightarrow> c = CHR 0x09" "byte c = 10 \<longleftrightarrow> c = CHR 0x0A"
  "byte c = 12 \<longleftrightarrow> c = CHR 0x0C" "byte c = 13 \<longleftrightarrow> c = CHR 0x0D"
  using byte_eq_iff [of c "CHR 0x08"] byte_eq_iff [of c "CHR 0x09"] byte_eq_iff [of c "CHR 0x0A"]
    byte_eq_iff [of c "CHR 0x0C"] byte_eq_iff [of c "CHR 0x0D"] by simp_all

lemma escape_two:
  assumes "json_two_byte c = Some e"
  shows "string_step (e @ t) = StringPart [c] 2" "length e = 2" "byte c < 128"
proof -
  have "e = [CHR 0x5C, c] \<and> (byte c = 34 \<or> byte c = 92) \<or> e = [CHR 0x5C, CHR ''b''] \<and> c = CHR 0x08
      \<or> e = [CHR 0x5C, CHR ''f''] \<and> c = CHR 0x0C \<or> e = [CHR 0x5C, CHR ''n''] \<and> c = CHR 0x0A
      \<or> e = [CHR 0x5C, CHR ''r''] \<and> c = CHR 0x0D \<or> e = [CHR 0x5C, CHR ''t''] \<and> c = CHR 0x09"
    using assms unfolding json_two_byte_def Let_def byte_escapes by (simp split: if_splits)
  then show "string_step (e @ t) = StringPart [c] 2" "length e = 2" "byte c < 128"
    by (auto simp: string_step_def escape_step_def)
qed

lemma escape_hex:
  assumes "hex4 u = Some r" "scalar r"
  shows "string_step (CHR 0x5C # CHR ''u'' # u) = StringPart (encode_rune r) 6"
  using assms by (auto simp: string_step_def escape_step_def scalar_def)

lemma hex4_byte:
  "hex4 (CHR ''0'' # CHR ''0'' # hex_digit (byte c div 16) # hex_digit (byte c mod 16) # t) = Some (byte c)"
proof -
  have z: "hex_value (CHR ''0'') = Some 0" by (simp add: hex_value_def digit_def)
  have hi: "byte c div 16 < 16" using byte_lt [of c] by (simp add: less_mult_imp_div_less)
  show ?thesis using hi by (simp add: hex4_def z div_mult_mod_eq)
qed

lemma hex4_separator: "r = 8232 \<or> r = 8233 \<Longrightarrow> hex4 (''202'' @ hex_digit (r mod 16) # t) = Some r"
  by (auto simp: hex4_def hex_value_def digit_def hex_digit_def)

lemma escape_rune:
  assumes "s \<noteq> []" "128 \<le> byte (hd s)" "\<not> (fst (decode_rune s) = rune_error \<and> snd (decode_rune s) = 1)"
  shows "string_step (take (snd (decode_rune s)) s @ t) = StringPart (encode_rune (fst (decode_rune s))) (snd (decode_rune s))"
proof -
  let ?r = "fst (decode_rune s)" and ?w = "snd (decode_rune s)"
  have e: "take ?w s = encode_rune ?r" using encode_decode_rune [OF assms(1,3)] by simp
  have w: "1 \<le> ?w" "?w \<le> length s" using decode_rune_width [OF assms(1)] by simp_all
  have d: "decode_rune (take ?w s @ t) = (?r, ?w)"
    using decode_encode_rune [OF decode_rune_scalar [of s], of t] w arg_cong [OF e, of length] by (simp add: e [symmetric])
  obtain c u where s: "take ?w s @ t = c # u" "c = hd s" using assms(1) w(1) by (cases s; cases ?w) auto
  show ?thesis using d assms(2) unfolding s(1) by (simp add: string_step_def s(2))
qed

lemma string_step_json_char:
  assumes "s \<noteq> []"
  shows "string_step (fst (json_char s) @ t) = StringPart (encode_rune (fst (decode_rune s))) (length (fst (json_char s)))
    \<and> snd (json_char s) = snd (decode_rune s)"
proof -
  obtain c u where s: "s = c # u" using assms by (cases s) auto
  have ascii: "decode_rune s = (byte c, 1)" "encode_rune (byte c) = [c]" "scalar (byte c)" if "byte c < 128"
    using that by (simp_all add: s decode_rune_def encode_rune_def scalar_def)
  show ?thesis
  proof (cases "json_two_byte c")
    case (Some e)
    then show ?thesis using escape_two(1) [OF Some, of t] escape_two(2,3) [OF Some] ascii by (simp add: json_char_def s)
  next
    case None
    then have two: "byte c \<noteq> 34" "byte c \<noteq> 92" by (auto simp: json_two_byte_def Let_def split: if_splits)
    consider "json_six_byte c" | "\<not> json_six_byte c" "byte c < 128" | "\<not> json_six_byte c" "128 \<le> byte c" by linarith
    then show ?thesis
    proof cases
      case 1
      then have "byte c < 128" by (auto simp: json_six_byte_def)
      then show ?thesis using None 1 escape_hex [OF hex4_byte] ascii by (simp add: json_char_def s)
    next
      case 2
      then have "32 \<le> byte c" by (simp add: json_six_byte_def)
      then show ?thesis using None 2 two ascii by (simp add: json_char_def s string_step_def)
    next
      case 3
      have err: "hex4 (''fffd'' @ t) = Some rune_error"
        by (simp add: hex4_def hex_value_def digit_def rune_error_def)
      have sep: "string_step ((CHR 0x5C # ''u202'' @ [hex_digit (r mod 16)]) @ t) = StringPart (encode_rune r) 6"
        if "r = 8232 \<or> r = 8233" for r
        using that escape_hex [OF hex4_separator [OF that, of t]] by (auto simp: scalar_def)
      have w: "snd (decode_rune s) \<le> length s" using decode_rune_width [OF assms] by simp
      obtain r width where rw: "decode_rune s = (r, width)" by (cases "decode_rune s")
      have json: "json_char s = (if r = rune_error \<and> width = 1 then (CHR 0x5C # ''ufffd'', 1)
            else if r = 8232 \<or> r = 8233 then (CHR 0x5C # ''u202'' @ [hex_digit (r mod 16)], width)
            else (take width s, width))"
        using None 3 rw by (simp add: json_char_def s)
      consider "r = rune_error \<and> width = 1" | "\<not> (r = rune_error \<and> width = 1)" "r = 8232 \<or> r = 8233"
        | "\<not> (r = rune_error \<and> width = 1)" "\<not> (r = 8232 \<or> r = 8233)" by blast
      then show ?thesis
      proof cases
        case 1
        then show ?thesis using escape_hex [OF err] rw json by (simp add: scalar_def rune_error_def)
      next
        case 2
        then show ?thesis using sep [OF 2(2)] rw json by auto
      next
        case 3
        then have j: "json_char s = (take width s, width)" using json by (simp only: if_False)
        have "128 \<le> byte (hd s)" using \<open>128 \<le> byte c\<close> by (simp add: s)
        then show ?thesis using escape_rune [OF assms, of t] 3(1) rw w j by simp
      qed
    qed
  qed
qed

lemma read_chars_escape: "read_chars (json_escape s @ CHR 0x22 # rest) = Some (to_valid s, rest)"
proof (induction s rule: json_escape.induct)
  case (1 s)
  show ?case
  proof (cases "s = []")
    case True
    then show ?thesis by (simp add: json_escape.simps read_chars.simps [of "_ # _"] string_step_def)
  next
    case False
    let ?e = "fst (json_char s)" and ?t = "drop (snd (json_char s)) s"
    note ih = 1 [OF False]
      and step = string_step_json_char [OF False, of "json_escape ?t @ CHR 0x22 # rest", THEN conjunct1]
      and width = string_step_json_char [OF False, THEN conjunct2]
    have "json_escape s = ?e @ json_escape ?t" using False by (simp add: json_escape.simps [of s])
    then have "read_chars (json_escape s @ CHR 0x22 # rest) = Some (encode_rune (fst (decode_rune s)) @ to_valid ?t, rest)"
      using ih step by (simp add: read_chars.simps [of "?e @ _"])
    then show ?thesis using width False by (simp add: to_valid_step)
  qed
qed

lemma next_token_char: "\<not> json_space c \<Longrightarrow> next_token (c # t) = token_at c t"
  by (simp add: next_token_def skip_space_def)

lemma next_token_punctuation [simp]:
  "next_token (CHR ''{'' # t) = Some (BraceOpen, t)" "next_token (CHR ''}'' # t) = Some (BraceClose, t)"
  "next_token (CHR ''['' # t) = Some (BracketOpen, t)" "next_token (CHR '']'' # t) = Some (BracketClose, t)"
  "next_token (CHR '':'' # t) = Some (Colon, t)" "next_token (CHR '','' # t) = Some (Comma, t)"
  by (simp_all add: next_token_char json_space_def token_at_def punctuation_def)

lemma next_token_quote [simp]: "next_token (json_quote s @ rest) = Some (Scalar (JString (to_valid s)), rest)"
proof -
  have "next_token (CHR 0x22 # json_escape s @ CHR 0x22 # rest) = Some (Scalar (JString (to_valid s)), rest)"
    by (simp add: next_token_char json_space_def token_at_def punctuation_def read_chars_escape)
  then show ?thesis by (simp add: json_quote_def)
qed

lemma next_token_literal [simplified, simp]:
  "next_token (''null'' @ rest) = Some (Scalar JNull, rest)"
  "next_token (''true'' @ rest) = Some (Scalar (JBool True), rest)"
  "next_token (''false'' @ rest) = Some (Scalar (JBool False), rest)"
  by (simp_all add: next_token_char json_space_def token_at_def punctuation_def literal_token_def digit_def)

definition number_end :: "string \<Rightarrow> bool" where
  "number_end s \<longleftrightarrow> (case s of [] \<Rightarrow> True | c # _ \<Rightarrow> \<not> digit c \<and> c \<noteq> CHR ''.'' \<and> c \<noteq> CHR ''e'' \<and> c \<noteq> CHR ''E'')"

lemma number_end_simps [simp]: "number_end []" "number_end (CHR '','' # t)" "number_end (CHR '']'' # t)" "number_end (CHR ''}'' # t)"
  by (simp_all add: number_end_def digit_def)

lemma nat_decimal_zero: "nat_decimal n = CHR ''0'' # t \<Longrightarrow> n = 0"
proof (induction n arbitrary: t rule: nat_decimal.induct)
  case (1 n)
  show ?case
  proof (cases "n < 10")
    case True
    then have "(char_of (48 + n) :: char) = CHR ''0''" using 1(2) by (simp add: nat_decimal.simps [of n])
    then show ?thesis using digit_byte [OF True] by simp
  next
    case False
    then obtain u where "nat_decimal (n div 10) = CHR ''0'' # u"
      using 1(2) by (cases "nat_decimal (n div 10)") (auto simp: nat_decimal.simps [of n])
    then have "n div 10 = 0" using 1(1) [OF False] by blast
    then show ?thesis using False by simp
  qed
qed

lemma nat_decimal_0: "nat_decimal 0 = ''0''"
proof -
  have "byte (char_of (48 :: nat)) = byte (CHR ''0'')" by simp
  then show ?thesis by (simp only: byte_eq_iff nat_decimal.simps [of 0]) simp
qed

lemma read_magnitude_decimal: "number_end rest \<Longrightarrow> read_magnitude (nat_decimal n @ rest) = Some (nat_decimal n, rest)"
proof -
  assume e: "number_end rest"
  have tail: "read_fraction rest = Some ([], rest)" "read_exponent rest = Some ([], rest)"
    using e by (auto simp: number_end_def read_fraction_def read_exponent_def split: list.splits)
  have span: "takeWhile digit (nat_decimal n @ rest) = nat_decimal n" "dropWhile digit (nat_decimal n @ rest) = rest"
    using e nat_decimal_all_digits [of n]
    by (auto simp: list_all_iff takeWhile_append2 dropWhile_append2 number_end_def split: list.splits)
  obtain c t where n: "nat_decimal n = c # t" by (cases "nat_decimal n") simp_all
  have d: "digit c" using nat_decimal_all_digits [of n] by (simp add: n)
  show ?thesis
  proof (cases "c = CHR ''0''")
    case True
    then have "t = []" using nat_decimal_zero [of n t] nat_decimal_0 n by simp
    then show ?thesis using True tail d by (simp add: n read_magnitude_def)
  next
    case False
    then show ?thesis using tail d span unfolding n by (simp add: read_magnitude_def)
  qed
qed

lemma read_number_decimal: "number_end rest \<Longrightarrow> read_number (int_decimal i @ rest) = Some (int_decimal i, rest)"
proof -
  assume e: "number_end rest"
  obtain c t where n: "nat_decimal (nat i) = c # t" by (cases "nat_decimal (nat i)") simp_all
  have "c \<noteq> CHR ''-''" using nat_decimal_no_minus [of "nat i" t] n by auto
  then show ?thesis
    using read_magnitude_decimal [OF e, of "nat i"] read_magnitude_decimal [OF e, of "nat (- i)"] n
    by (simp add: read_number_def int_decimal_def)
qed

lemma next_token_number [simp]: "number_end rest \<Longrightarrow> next_token (int_decimal i @ rest) = Some (Scalar (json_int i), rest)"
proof -
  assume e: "number_end rest"
  obtain c t where n: "int_decimal i = c # t" by (cases "int_decimal i") (auto simp: int_decimal_def split: if_splits)
  have d: "c = CHR ''-'' \<or> digit c"
    using n nat_decimal_digits [of c "nat i"] by (auto simp: int_decimal_def digit_def split: if_splits)
  then have b: "byte c = 45 \<or> 48 \<le> byte c \<and> byte c \<le> 57" by (auto simp: digit_def)
  have "c \<noteq> CHR ''{''" "c \<noteq> CHR ''}''" "c \<noteq> CHR ''[''" "c \<noteq> CHR '']''" "c \<noteq> CHR '',''" "c \<noteq> CHR '':''" using b by auto
  then have "\<not> json_space c \<and> punctuation c = None \<and> byte c \<noteq> 34"
    using b by (auto simp: json_space_def punctuation_def)
  then show ?thesis
    using read_number_decimal [OF e, of i] d by (simp add: n next_token_char token_at_def json_int_def)
qed

text \<open>What the reader makes of a written value, and the writable values: their numbers are integers.\<close>

fun json_clean :: "json \<Rightarrow> json" where
  "json_clean (JString s) = JString (to_valid s)"
| "json_clean (JArray vs) = JArray (map json_clean vs)"
| "json_clean (JObject ms) = JObject (map (\<lambda>(k, v). (to_valid k, json_clean v)) ms)"
| "json_clean v = v"

fun json_ok :: "nat \<Rightarrow> json \<Rightarrow> bool" where
  "json_ok n (JNumber l) \<longleftrightarrow> (\<exists>i. l = int_decimal i)"
| "json_ok n (JArray vs) \<longleftrightarrow> (case n of 0 \<Rightarrow> False | Suc k \<Rightarrow> \<forall>v \<in> set vs. json_ok k v)"
| "json_ok n (JObject ms) \<longleftrightarrow> (case n of 0 \<Rightarrow> False | Suc k \<Rightarrow> \<forall>(_, v) \<in> set ms. json_ok k v)"
| "json_ok n v \<longleftrightarrow> True"

definition resume :: "json_action \<Rightarrow> string \<Rightarrow> (json \<times> string) option" where
  "resume a rest = (case a of Done v \<Rightarrow> Some (v, rest) | Go st fs \<Rightarrow> read_loop st fs rest | Bad \<Rightarrow> None)"

lemma read_loop_token: "next_token s = Some (t, r) \<Longrightarrow> read_loop st fs s = resume (json_step t st fs) r"
  by (simp add: read_loop.simps [of st fs s] resume_def)

lemmas read_loop_tokens = next_token_punctuation [THEN read_loop_token] next_token_quote [THEN read_loop_token]

lemma resume_Go [simp]: "resume (Go st fs) rest = read_loop st fs rest"
  by (simp add: resume_def)

definition reads :: "json \<Rightarrow> json_frame list \<Rightarrow> bool" where
  "reads v fs \<longleftrightarrow> (\<forall>st rest. st \<in> {WantValue, WantElement} \<longrightarrow> number_end rest \<longrightarrow>
     read_loop st fs (json_text v @ rest) = resume (json_emit (json_clean v) fs) rest)"

lemma readsD:
  "reads v fs \<Longrightarrow> number_end rest \<Longrightarrow> st \<in> {WantValue, WantElement} \<Longrightarrow>
     read_loop st fs (json_text v @ rest) = resume (json_emit (json_clean v) fs) rest"
  unfolding reads_def by blast

lemma reads_scalar:
  assumes "\<And>rest. number_end rest \<Longrightarrow> next_token (json_text v @ rest) = Some (Scalar (json_clean v), rest)"
  shows "reads v fs"
  unfolding reads_def
proof (intro allI impI)
  fix st rest assume st: "st \<in> {WantValue, WantElement}" and e: "number_end rest"
  show "read_loop st fs (json_text v @ rest) = resume (json_emit (json_clean v) fs) rest"
    using st unfolding read_loop_token [OF assms [OF e]] by auto
qed

lemma reads_elements:
  assumes "\<forall>v \<in> set vs. \<forall>us. reads v (InArray us # fs)" "vs \<noteq> []" "st \<in> {WantValue, WantElement}"
  shows "read_loop st (InArray us # fs) (json_commas (map json_text vs) @ CHR '']'' # rest)
     = resume (json_emit (JArray (us @ map json_clean vs)) fs) rest"
  using assms
proof (induction "map json_text vs" arbitrary: vs us st rule: json_commas.induct)
  case (2 x)
  then obtain v where v: "vs = [v]" by auto
  then show ?case using 2 by (auto simp: reads_def read_loop_tokens)
next
  case (3 x y xs)
  then obtain v w ws where v: "vs = v # w # ws" by auto
  have r: "reads v (InArray us # fs)" using 3(3) v by simp
  have "read_loop st (InArray us # fs) (json_text v @ CHR '','' # json_commas (map json_text (w # ws)) @ CHR '']'' # rest)
      = read_loop WantValue (InArray (us @ [json_clean v]) # fs) (json_commas (map json_text (w # ws)) @ CHR '']'' # rest)"
    using 3(5) by (simp add: readsD [OF r] read_loop_tokens)
  moreover have "\<dots> = resume (json_emit (JArray ((us @ [json_clean v]) @ map json_clean (w # ws))) fs) rest"
    by (rule 3(1)) (use 3 v in auto)
  ultimately show ?case by (simp add: v)
qed simp

definition member_text :: "string \<times> json \<Rightarrow> string" where
  "member_text m = json_quote (fst m) @ CHR '':'' # json_text (snd m)"

lemma json_text_object: "json_text (JObject ms) = CHR ''{'' # json_commas (map member_text ms) @ ''}''"
proof -
  have "(\<lambda>(k, v). json_quote k @ CHR '':'' # json_text v) = member_text" by (auto simp: member_text_def fun_eq_iff)
  then show ?thesis by simp
qed

definition clean_member :: "string \<times> json \<Rightarrow> string \<times> json" where
  "clean_member m = (to_valid (fst m), json_clean (snd m))"

lemma json_clean_object: "json_clean (JObject ms) = JObject (map clean_member ms)"
  by (auto simp: clean_member_def case_prod_beta)

lemma reads_members:
  assumes "\<forall>m \<in> set ms. \<forall>us k. reads (snd m) (InObject us k # fs)" "ms \<noteq> []"
  shows "read_loop (WantKey start us) fs (json_commas (map member_text ms) @ CHR ''}'' # rest)
     = resume (json_emit (JObject (us @ map clean_member ms)) fs) rest"
  using assms
proof (induction "map member_text ms" arbitrary: ms us start rule: json_commas.induct)
  case (2 x)
  then obtain m where m: "ms = [m]" by auto
  then show ?case using 2 by (simp add: reads_def read_loop_tokens member_text_def scalar_key_def clean_member_def)
next
  case (3 x y xs)
  then obtain m n ns where m: "ms = m # n # ns" by auto
  have r: "reads (snd m) (InObject us (to_valid (fst m)) # fs)" using 3(3) m by simp
  have "read_loop (WantKey start us) fs (member_text m @ CHR '','' # json_commas (map member_text (n # ns)) @ CHR ''}'' # rest)
      = read_loop (WantKey False (us @ [clean_member m])) fs (json_commas (map member_text (n # ns)) @ CHR ''}'' # rest)"
    using r by (simp add: reads_def read_loop_tokens member_text_def scalar_key_def clean_member_def)
  moreover have "\<dots> = resume (json_emit (JObject ((us @ [clean_member m]) @ map clean_member (n # ns))) fs) rest"
    by (rule 3(1)) (use 3 m in auto)
  ultimately show ?case by (simp add: m)
qed simp

lemma reads_ok: "json_ok n v \<Longrightarrow> length fs + n \<le> maxNestingDepth \<Longrightarrow> reads v fs"
proof (induction n v arbitrary: fs rule: json_ok.induct)
  case (1 n l)
  then obtain i where "l = int_decimal i" by auto
  then show ?case by (intro reads_scalar) (simp add: json_int_def)
next
  case (2 n vs)
  then obtain k where n: "n = Suc k" by (cases n) auto
  have el: "\<forall>v \<in> set vs. \<forall>us. reads v (InArray us # fs)"
  proof (intro ballI allI)
    fix v us assume v: "v \<in> set vs"
    show "reads v (InArray us # fs)" by (rule 2(1) [OF n v]) (use 2(2,3) n v in simp_all)
  qed
  show ?case
  proof (cases "vs = []")
    case True
    then show ?thesis using 2(3) n by (auto simp: reads_def read_loop_tokens)
  next
    case False
    then show ?thesis using 2(3) n reads_elements [OF el False, of WantElement "[]"] by (auto simp: reads_def read_loop_tokens)
  qed
next
  case (3 n ms)
  then obtain k where n: "n = Suc k" by (cases n) auto
  have el: "\<forall>m \<in> set ms. \<forall>us k. reads (snd m) (InObject us k # fs)"
  proof (intro ballI allI)
    fix m us k' assume m: "m \<in> set ms"
    show "reads (snd m) (InObject us k' # fs)"
      by (rule 3(1) [OF n m surjective_pairing [symmetric]]) (use 3(2,3) n m in auto)
  qed
  show ?case
  proof (cases "ms = []")
    case True
    then show ?thesis using 3(3) n by (auto simp: reads_def read_loop_tokens scalar_key_def)
  next
    case False
    then show ?thesis
      using 3(3) n reads_members [OF el False, of True "[]"]
      by (auto simp: reads_def read_loop_tokens json_text_object json_clean_object simp del: json_text.simps json_clean.simps)
  qed
qed (auto intro!: reads_scalar)

theorem read_value_text:
  "json_ok n v \<Longrightarrow> n \<le> maxNestingDepth \<Longrightarrow> number_end rest \<Longrightarrow> read_value (json_text v @ rest) = Some (json_clean v, rest)"
  using reads_ok [of n v "[]"] by (simp add: reads_def read_value_def resume_def)

end
