(* ===== verification/Batch_Pipeline.thy ===== *)
theory Batch_Pipeline
  imports Sandbox_Select Go_Json
begin

text \<open>
  The batch pipeline of internal/service/bundle_batch_pipeline.go, the path every judged submission
  takes: build one request from the manifest and the bundle, run it on a sandbox, fold the case events
  into a verdict, run the special judge on the accepted cases, and score. Sizes of protocol messages
  and the JSON decoder of the checker's answer are arguments; an index out of range or a nil
  dereference is the error \<open>CanonicalPanic\<close>.
\<close>

section \<open>Data\<close>

record CanonicalExecutionRequest =
  ce_Language :: string
  ce_SourceCode :: string
  ce_StopOnFailure :: bool

record CanonicalCaseResult =
  cc_CaseID :: string
  cc_Status :: Status
  cc_TimeUsedMillis :: int
  cc_MemoryUsedKB :: int
  cc_Score :: "int option"
  cc_MaxScore :: "int option"

record CanonicalResult =
  cn_Status :: Status
  cn_ExitCode :: int
  cn_TimeUsedMillis :: int
  cn_MemoryUsedKB :: int
  cn_Stderr :: string
  cn_CompileError :: string
  cn_Score :: "int option"
  cn_TotalScore :: "int option"
  cn_Cases :: "CanonicalCaseResult list"

definition blank_canonical :: CanonicalResult where
  "blank_canonical = \<lparr>cn_Status = UnsupportedStatus [], cn_ExitCode = 0, cn_TimeUsedMillis = 0, cn_MemoryUsedKB = 0,
     cn_Stderr = [], cn_CompileError = [], cn_Score = None, cn_TotalScore = None, cn_Cases = []\<rparr>"

definition CallbackResult :: "CanonicalResult \<Rightarrow> Result" where
  "CallbackResult r = blank_result\<lparr>cr_Status := cn_Status r, cr_ExitCode := cn_ExitCode r,
     cr_TimeUsedMillis := cn_TimeUsedMillis r, cr_MemoryUsedKB := cn_MemoryUsedKB r,
     cr_Score := cn_Score r, cr_TotalScore := cn_TotalScore r,
     cr_Stderr := cn_Stderr r, cr_CompileError := cn_CompileError r\<rparr>"

text \<open>
  An opened bundle: its manifest, the case reader, and the special judge reader (\<open>None\<close> when the
  artifact has no such method, \<open>Some None\<close> when reading fails).
\<close>

record CaseArtifact =
  ca_Manifest :: Manifest
  ca_ReadCase :: "Case \<Rightarrow> (string \<times> string) option"
  ca_ReadSpecialJudge :: "string option option"

record BatchBundlePipeline =
  bp_maxInfraAttempts :: nat
  bp_maxRequestBytes :: int
  bp_maxExpectedCheckBytes :: int

text \<open>Sizes of encoded protocol messages, computed by the protobuf library.\<close>

record proto_sizes =
  ps_request :: "ExecuteBatchV1Request \<Rightarrow> int"
  ps_case :: "ExecuteBatchV1Case \<Rightarrow> int"
  ps_tag :: "nat \<Rightarrow> int"
  ps_varint :: "int \<Rightarrow> int"

datatype canonical_error =
    CanonicalRequired
  | CanonicalInfrastructure string
  | TenantCheckerFailure string
  | CanonicalTransport pipeline_error
  | CanonicalPanic

definition maxSandboxBatchCasesV1 :: nat where "maxSandboxBatchCasesV1 = 256"
definition maxSandboxBatchRequestBytesV1 :: int where "maxSandboxBatchRequestBytesV1 = 67108864"
definition maxSpecialJudgeProtocolBytesV1 :: int where "maxSpecialJudgeProtocolBytesV1 = 4194304"
definition maxSpecialJudgeResultBytesV1 :: nat where "maxSpecialJudgeResultBytesV1 = 65536"

definition NewBatchBundlePipeline :: "int \<Rightarrow> BatchBundlePipeline" where
  "NewBatchBundlePipeline maxInfraAttempts =
     \<lparr>bp_maxInfraAttempts = (if maxInfraAttempts \<le> 0 then 3 else nat maxInfraAttempts),
      bp_maxRequestBytes = maxSandboxBatchRequestBytesV1, bp_maxExpectedCheckBytes = maxSandboxBatchRequestBytesV1\<rparr>"

definition maxBatchRequestBytes :: "BatchBundlePipeline \<Rightarrow> int" where
  "maxBatchRequestBytes p =
     (if bp_maxRequestBytes p > 0 then bp_maxRequestBytes p else maxSandboxBatchRequestBytesV1)"

definition max_check_bytes :: "BatchBundlePipeline \<Rightarrow> int" where
  "max_check_bytes p =
     (if bp_maxExpectedCheckBytes p \<le> 0 then maxSandboxBatchRequestBytesV1 else bp_maxExpectedCheckBytes p)"

section \<open>Comparing outputs\<close>

text \<open>What is hashed for the token checker: every token with its length before it.\<close>

definition token_stream :: "string \<Rightarrow> string" where
  "token_stream output = concat (map (\<lambda>token. be_bytes 8 (length token) @ token) (Fields output))"

definition tokenOutputSHA256 :: "string \<Rightarrow> string" where
  "tokenOutputSHA256 output = hex_encode (sha256 (token_stream output))"

definition outputMatchesExpectedCheck :: "string \<Rightarrow> string \<Rightarrow> string \<Rightarrow> bool" where
  "outputMatchesExpectedCheck checker actual expectedCheck =
     (if checker = CheckerToken then tokenOutputSHA256 actual = expectedCheck
      else outputsMatch checker actual expectedCheck)"

section \<open>Building the request\<close>

definition batchCaseWireBytes :: "proto_sizes \<Rightarrow> ExecuteBatchV1Case \<Rightarrow> int" where
  "batchCaseWireBytes sizes c = ps_tag sizes 6 + ps_varint sizes (ps_case sizes c) + ps_case sizes c"

definition sandbox_case :: "string \<Rightarrow> Case \<Rightarrow> string \<Rightarrow> string \<Rightarrow> ExecuteBatchV1Case" where
  "sandbox_case checker testCase input expected =
     \<lparr>bc_CaseId = case_ID testCase, bc_Stdin = input,
      bc_ExpectedOutput = (if checker = CheckerExact then expected else []),
      bc_CompareOutput = (checker = CheckerExact),
      bc_TokenExpectedSha256 = (if checker = CheckerToken then tokenOutputSHA256 expected else [])\<rparr>"

definition expected_check :: "string \<Rightarrow> string \<Rightarrow> string" where
  "expected_check checker expected = (if checker = CheckerToken then tokenOutputSHA256 expected else expected)"

fun prepare_cases ::
  "proto_sizes \<Rightarrow> string \<Rightarrow> (Case \<Rightarrow> (string \<times> string) option) \<Rightarrow> int \<Rightarrow> int \<Rightarrow> Case list \<Rightarrow> int \<Rightarrow> int
     \<Rightarrow> ExecuteBatchV1Case list \<Rightarrow> string list \<Rightarrow> canonical_error + ExecuteBatchV1Case list \<times> string list" where
  "prepare_cases sizes checker read maxReq maxCheck [] requestBytes retained cases checks = Inr (cases, checks)"
| "prepare_cases sizes checker read maxReq maxCheck (testCase # rest) requestBytes retained cases checks =
     (case read testCase of
        None \<Rightarrow> Inl (CanonicalInfrastructure ''bundle case could not be read'')
      | Some (input, expected) \<Rightarrow>
          if checker \<noteq> CheckerExact \<and> checker \<noteq> CheckerToken \<and> checker \<noteq> CheckerSpecial
          then Inl (CanonicalInfrastructure ''unsupported checker'')
          else
            let check = expected_check checker expected;
                retained' = retained + int (length check);
                requestCase = sandbox_case checker testCase input expected;
                requestBytes' = requestBytes + batchCaseWireBytes sizes requestCase in
            if retained' > maxCheck
            then Inl (CanonicalInfrastructure ''bundle exceeds local expected-check retention limit'')
            else if requestBytes' > maxReq
            then Inl (CanonicalInfrastructure ''bundle exceeds sandbox batch byte limit'')
            else prepare_cases sizes checker read maxReq maxCheck rest requestBytes' retained'
                   (cases @ [requestCase]) (checks @ [check]))"

section \<open>Folding the events into a verdict\<close>

definition case_verdict :: "string \<Rightarrow> string \<Rightarrow> ExecuteResponse \<Rightarrow> Status" where
  "case_verdict checker check r =
     (if er_Status r = ''Accepted'' \<and> checker \<noteq> CheckerSpecial
         \<and> \<not> outputMatchesExpectedCheck checker (er_Stdout r) check
      then StatusWrongAnswer else mapBundleStatus (er_Status r))"

text \<open>The result after one more case, with the summaries of all cases so far.\<close>

definition add_case ::
  "Status \<Rightarrow> ExecuteBatchV1Event \<Rightarrow> ExecuteResponse \<Rightarrow> string list \<Rightarrow> CanonicalResult \<Rightarrow> CanonicalResult" where
  "add_case caseStatus event r summaries result =
     (let time = boundedMetric (er_TimeUsed r) 86400000;
          memory = boundedMetric (er_MemoryUsed r) 2147483647;
          decides = (cn_Status result = StatusAccepted \<and> caseStatus \<noteq> StatusAccepted) in
      result\<lparr>cn_TimeUsedMillis := max (cn_TimeUsedMillis result) time,
        cn_MemoryUsedKB := max (cn_MemoryUsedKB result) memory,
        cn_Status := (if decides then caseStatus else cn_Status result),
        cn_ExitCode := (if decides then er_ExitCode r else cn_ExitCode result),
        cn_Cases := cn_Cases result @ [\<lparr>cc_CaseID = ev_CaseId event, cc_Status = caseStatus,
          cc_TimeUsedMillis = time, cc_MemoryUsedKB = memory, cc_Score = None, cc_MaxScore = None\<rparr>],
        cn_Stderr := TruncateUTF16 (join_semicolon summaries) 65536,
        cn_CompileError := (if caseStatus = StatusCompileError then redacted else cn_CompileError result)\<rparr>)"

fun aggregate_cases ::
  "string \<Rightarrow> string list \<Rightarrow> nat \<Rightarrow> ExecuteBatchV1Event option list \<Rightarrow> CanonicalResult \<Rightarrow> string list \<Rightarrow> string list
     \<Rightarrow> (CanonicalResult \<times> string list) option" where
  "aggregate_cases checker checks index [] result outputs summaries = Some (result, outputs)"
| "aggregate_cases checker checks index (None # rest) result outputs summaries = None"
| "aggregate_cases checker checks index (Some event # rest) result outputs summaries =
     (case ev_Result event of
        None \<Rightarrow> None
      | Some r \<Rightarrow>
          if er_Status r = ''Accepted'' \<and> checker \<noteq> CheckerSpecial \<and> index \<ge> length checks then None
          else
            let caseStatus = case_verdict checker (checks ! index) r;
                summaries' = summaries @ [case_summary (ev_CaseId event) (er_Status r) caseStatus] in
            aggregate_cases checker checks (Suc index) rest (add_case caseStatus event r summaries' result)
              (outputs @ [er_Stdout r]) summaries')"

definition aggregateBatchResult ::
  "string \<Rightarrow> string list \<Rightarrow> ExecuteBatchV1Event option list \<Rightarrow> (CanonicalResult \<times> string list) option" where
  "aggregateBatchResult checker checks events =
     (case events of
        [] \<Rightarrow> None
      | None # _ \<Rightarrow> None
      | Some first # _ \<Rightarrow>
          if ev_Kind first = COMPILE_ERROR then
            Some (blank_canonical\<lparr>cn_Status := StatusCompileError, cn_CompileError := redacted,
                    cn_Stderr := ''compilation failed''\<rparr>, [])
          else
            (case aggregate_cases checker checks 0 (butlast events) (blank_canonical\<lparr>cn_Status := StatusAccepted\<rparr>) [] [] of
               None \<Rightarrow> None
             | Some (result, outputs) \<Rightarrow>
                 Some (if cn_Status result = StatusAccepted then result\<lparr>cn_ExitCode := 0\<rparr> else result, outputs)))"

section \<open>The special judge protocol\<close>

definition special_payload :: "string \<Rightarrow> string \<Rightarrow> string \<Rightarrow> string \<Rightarrow> string" where
  "special_payload caseID input expected actual =
     ''{'' @ json_member ''schemaVersion'' ''1''
     @ '','' @ json_member ''caseId'' (json_quote caseID)
     @ '','' @ json_member ''input'' (json_quote input)
     @ '','' @ json_member ''expectedOutput'' (json_quote expected)
     @ '','' @ json_member ''actualOutput'' (json_quote actual) @ ''}''"

text \<open>The loop of \<open>consumeJSONStringBudget\<close>: cost and width of the next character.\<close>

definition budget_step :: "string \<Rightarrow> int \<times> nat" where
  "budget_step s =
     (let character = hd s in
      if byte character \<in> {34, 92, 8, 12, 10, 13, 9} then (2, 1)
      else if byte character < 32 \<or> character = CHR ''<'' \<or> character = CHR ''>'' \<or> character = CHR ''&'' then (6, 1)
      else if byte character < 128 then (1, 1)
      else (case decode_rune s of (r, width) \<Rightarrow> if r = 8232 \<or> r = 8233 then (6, width) else (int width, width)))"

lemma budget_step_width: "s \<noteq> [] \<Longrightarrow> 1 \<le> snd (budget_step s) \<and> snd (budget_step s) \<le> length s"
  using decode_rune_width [of s] by (cases s) (auto simp: budget_step_def Let_def split: prod.splits)

function consume_loop :: "string \<Rightarrow> int \<Rightarrow> int option" where
  "consume_loop s remaining =
     (if s = [] then Some remaining
      else if fst (budget_step s) > remaining then None
      else consume_loop (drop (snd (budget_step s)) s) (remaining - fst (budget_step s)))"
  by pat_completeness auto
termination
proof (relation "measure (\<lambda>(s, _). length s)")
  fix s :: string and remaining :: int assume "s \<noteq> []"
  then show "((drop (snd (budget_step s)) s, remaining - fst (budget_step s)), (s, remaining)) \<in> measure (\<lambda>(s, _). length s)"
    using budget_step_width [of s] by simp
qed simp

declare consume_loop.simps [simp del]

definition consumeJSONStringBudget :: "string \<Rightarrow> int \<Rightarrow> int option" where
  "consumeJSONStringBudget v remaining =
     (if remaining < 0 \<or> \<not> utf8_valid v then None else consume_loop v remaining)"

fun consume_all :: "string list \<Rightarrow> int \<Rightarrow> int option" where
  "consume_all [] remaining = Some remaining"
| "consume_all (v # vs) remaining =
     (case consumeJSONStringBudget v remaining of None \<Rightarrow> None | Some remaining' \<Rightarrow> consume_all vs remaining')"

definition specialJudgePayloadWithinPreEncodeLimit :: "string \<Rightarrow> string \<Rightarrow> string \<Rightarrow> string \<Rightarrow> bool" where
  "specialJudgePayloadWithinPreEncodeLimit caseID input expected actual =
     (consume_all [caseID, input, expected, actual] (maxSpecialJudgeProtocolBytesV1 - 256) \<noteq> None)"

record specialJudgeOutputV1 =
  so_SchemaVersion :: int
  so_Accepted :: "bool option"
  so_Message :: string

text \<open>\<open>decode\<close> reads exactly one JSON document with no unknown fields.\<close>

definition parseSpecialJudgeOutput ::
  "(string \<Rightarrow> specialJudgeOutputV1 option) \<Rightarrow> string \<Rightarrow> bool option" where
  "parseSpecialJudgeOutput decode data =
     (if length data = 0 \<or> length data > maxSpecialJudgeResultBytesV1 \<or> \<not> utf8_valid data then None
      else case decode data of
        None \<Rightarrow> None
      | Some output \<Rightarrow>
          if so_SchemaVersion output \<noteq> 1 \<or> so_Accepted output = None \<or> UTF16Len (so_Message output) > 1024 then None
          else so_Accepted output)"

section \<open>Applying the special judge\<close>

definition verdict_summary :: "CanonicalCaseResult \<Rightarrow> string" where
  "verdict_summary item = ''case='' @ cc_CaseID item @ '' status='' @ status_text (cc_Status item)"

fun recompute_loop :: "CanonicalCaseResult list \<Rightarrow> CanonicalResult \<Rightarrow> CanonicalResult" where
  "recompute_loop [] result = result"
| "recompute_loop (item # rest) result =
     recompute_loop rest
       (result\<lparr>cn_Status := (if cn_Status result = StatusAccepted \<and> cc_Status item \<noteq> StatusAccepted
                  then cc_Status item else cn_Status result),
               cn_TimeUsedMillis := max (cn_TimeUsedMillis result) (cc_TimeUsedMillis item),
               cn_MemoryUsedKB := max (cn_MemoryUsedKB result) (cc_MemoryUsedKB item)\<rparr>)"

definition recomputeCanonicalVerdict :: "CanonicalResult \<Rightarrow> CanonicalResult" where
  "recomputeCanonicalVerdict result =
     (recompute_loop (cn_Cases result)
        (result\<lparr>cn_Status := StatusAccepted, cn_ExitCode := 0, cn_TimeUsedMillis := 0, cn_MemoryUsedKB := 0\<rparr>))
     \<lparr>cn_Stderr := TruncateUTF16 (join_semicolon (map verdict_summary (cn_Cases result))) 65536\<rparr>"

text \<open>
  The checker's request: one case per accepted case of the contestant. The lists run in step with
  \<^verbatim>\<open>result.Cases\<close>; their lengths are checked before the loop.
\<close>

fun checker_cases ::
  "proto_sizes \<Rightarrow> int \<Rightarrow> nat \<Rightarrow> (CanonicalCaseResult \<times> ExecuteBatchV1Case \<times> string \<times> string) list \<Rightarrow> int
     \<Rightarrow> (ExecuteBatchV1Case \<times> nat) list \<Rightarrow> canonical_error + (ExecuteBatchV1Case \<times> nat) list" where
  "checker_cases sizes maxReq index [] requestBytes acc = Inr acc"
| "checker_cases sizes maxReq index ((item, requestCase, expected, actual) # rest) requestBytes acc =
     (if cc_Status item \<noteq> StatusAccepted then checker_cases sizes maxReq (Suc index) rest requestBytes acc
      else if \<not> specialJudgePayloadWithinPreEncodeLimit (cc_CaseID item) (bc_Stdin requestCase) expected actual
      then Inl (TenantCheckerFailure ''special judge ABI input exceeds its limit'')
      else
        let payload = special_payload (cc_CaseID item) (bc_Stdin requestCase) expected actual in
        if int (length payload) > maxSpecialJudgeProtocolBytesV1
        then Inl (TenantCheckerFailure ''special judge ABI input exceeds its limit'')
        else
          let checkerCase = \<lparr>bc_CaseId = cc_CaseID item, bc_Stdin = payload, bc_ExpectedOutput = [],
                bc_CompareOutput = False, bc_TokenExpectedSha256 = []\<rparr>;
              requestBytes' = requestBytes + batchCaseWireBytes sizes checkerCase in
          if requestBytes' > maxReq
          then Inl (TenantCheckerFailure ''special judge batch exceeds sandbox byte limit'')
          else checker_cases sizes maxReq (Suc index) rest requestBytes' (acc @ [(checkerCase, index)]))"

fun apply_checker_events ::
  "(string \<Rightarrow> specialJudgeOutputV1 option) \<Rightarrow> (ExecuteBatchV1Event option \<times> nat) list \<Rightarrow> CanonicalCaseResult list
     \<Rightarrow> canonical_error + CanonicalCaseResult list" where
  "apply_checker_events decode [] cases = Inr cases"
| "apply_checker_events decode ((None, index) # rest) cases = Inl CanonicalPanic"
| "apply_checker_events decode ((Some event, index) # rest) cases =
     (case ev_Result event of
        None \<Rightarrow> Inl (CanonicalInfrastructure ''special judge sandbox response was invalid'')
      | Some r \<Rightarrow>
          if er_Status r \<noteq> ''Accepted''
          then Inl (TenantCheckerFailure ''special judge did not execute successfully'')
          else (case parseSpecialJudgeOutput decode (er_Stdout r) of
             None \<Rightarrow> Inl (TenantCheckerFailure ''special judge output was invalid'')
           | Some accepted \<Rightarrow>
               if index \<ge> length cases then Inl CanonicalPanic
               else
                 let c = cases ! index in
                 apply_checker_events decode rest
                   (cases[index := c\<lparr>
                      cc_TimeUsedMillis := cc_TimeUsedMillis c + boundedMetric (er_TimeUsed r) 86400000,
                      cc_MemoryUsedKB := max (cc_MemoryUsedKB c) (boundedMetric (er_MemoryUsed r) 2147483647),
                      cc_Status := (if accepted then StatusAccepted else StatusWrongAnswer)\<rparr>])))"

text \<open>What the network answers: \<open>exec phase k address request\<close>, phase 0 for the contestant, 1 for the checker.\<close>

type_synonym batch_exec =
  "nat \<Rightarrow> nat \<Rightarrow> string \<Rightarrow> ExecuteBatchV1Request \<Rightarrow> rpc_error + ExecuteBatchV1Event option list"

definition checker_request :: "SpecialJudge \<Rightarrow> string \<Rightarrow> ExecuteBatchV1Case list \<Rightarrow> ExecuteBatchV1Request" where
  "checker_request sj source cases =
     \<lparr>br_Language = sj_Language sj, br_SourceCode = source, br_Timeout = timeoutSeconds (sj_TimeLimitMillis sj),
      br_MemoryLimit = boundedInt32 (sj_MemoryLimitMiB sj), br_StopOnFailure = False, br_Cases = cases\<rparr>"

definition run_checker ::
  "BatchBundlePipeline \<Rightarrow> (string \<Rightarrow> specialJudgeOutputV1 option) \<Rightarrow> 's sandbox_selector \<Rightarrow> batch_exec
     \<Rightarrow> SpecialJudge \<Rightarrow> string \<Rightarrow> (ExecuteBatchV1Case \<times> nat) list \<Rightarrow> CanonicalResult \<Rightarrow> 's
     \<Rightarrow> (canonical_error + CanonicalResult) \<times> 's" where
  "run_checker p decode selector exec sj source acc result s =
     (if acc = [] then (Inr (recomputeCanonicalVerdict result), s)
      else
        let request = checker_request sj source (map fst acc) in
        case executeBatch (bp_maxInfraAttempts p) selector (\<lambda>k a. exec 1 k a request) request s of
          (BatchFailed e, _, s') \<Rightarrow> (Inl (CanonicalTransport e), s')
        | (BatchInvalid, _, s') \<Rightarrow> (Inl (CanonicalInfrastructure ''special judge sandbox response was invalid''), s')
        | (BatchEvents events, _, s') \<Rightarrow>
            if length events \<noteq> length acc + 1
            then (Inl (CanonicalInfrastructure ''special judge sandbox response was invalid''), s')
            else (case hd events of
              None \<Rightarrow> (Inl CanonicalPanic, s')
            | Some e \<Rightarrow>
                if ev_Kind e = COMPILE_ERROR
                then (Inl (TenantCheckerFailure ''special judge compilation failed''), s')
                else (case apply_checker_events decode (zip (butlast events) (map snd acc)) (cn_Cases result) of
                   Inl err \<Rightarrow> (Inl err, s')
                 | Inr cases \<Rightarrow> (Inr (recomputeCanonicalVerdict (result\<lparr>cn_Cases := cases\<rparr>)), s'))))"

definition applySpecialJudge ::
  "BatchBundlePipeline \<Rightarrow> proto_sizes \<Rightarrow> (string \<Rightarrow> specialJudgeOutputV1 option) \<Rightarrow> 's sandbox_selector \<Rightarrow> batch_exec
     \<Rightarrow> CaseArtifact \<Rightarrow> ExecuteBatchV1Request \<Rightarrow> string list \<Rightarrow> string list \<Rightarrow> CanonicalResult \<Rightarrow> 's
     \<Rightarrow> (canonical_error + CanonicalResult) \<times> 's" where
  "applySpecialJudge p sizes decode selector exec artifact request checks outputs result s =
     (let manifest = ca_Manifest artifact; n = length (Cases manifest) in
      case (ca_ReadSpecialJudge artifact, m_SpecialJudge manifest) of
        (Some source_read, Some sj) \<Rightarrow>
          if length (cn_Cases result) \<noteq> n \<or> length (br_Cases request) \<noteq> n \<or> length checks \<noteq> n \<or> length outputs \<noteq> n
          then (Inl (CanonicalInfrastructure ''special judge artifact is incomplete''), s)
          else (case source_read of
             None \<Rightarrow> (Inl (CanonicalInfrastructure ''special judge source is unavailable''), s)
           | Some source \<Rightarrow>
               if source = [] then (Inl (CanonicalInfrastructure ''special judge source is unavailable''), s)
               else (case checker_cases sizes (maxBatchRequestBytes p) 0
                         (zip (cn_Cases result) (zip (br_Cases request) (zip checks outputs)))
                         (ps_request sizes (checker_request sj source [])) [] of
                  Inl err \<Rightarrow> (Inl err, s)
                | Inr acc \<Rightarrow> run_checker p decode selector exec sj source acc result s))
      | _ \<Rightarrow> (Inl (CanonicalInfrastructure ''special judge artifact is incomplete''), s))"

section \<open>Scoring\<close>

fun score_cases :: "CanonicalCaseResult list \<Rightarrow> Case list \<Rightarrow> int \<Rightarrow> (CanonicalCaseResult list \<times> int) option" where
  "score_cases [] weights score = Some ([], score)"
| "score_cases (c # cs) [] score = None"
| "score_cases (c # cs) (t # ts) score =
     (let caseScore = (if cc_Status c = StatusAccepted then case_Weight t else 0) in
      case score_cases cs ts (wrap64 (score + caseScore)) of
        None \<Rightarrow> None
      | Some (cs', score') \<Rightarrow> Some (c\<lparr>cc_Score := Some caseScore, cc_MaxScore := Some (case_Weight t)\<rparr> # cs', score'))"

definition applyManifestScoring :: "Manifest \<Rightarrow> CanonicalResult \<Rightarrow> CanonicalResult option" where
  "applyManifestScoring manifest result =
     (case TotalScore manifest of
        None \<Rightarrow> Some result
      | Some maximum \<Rightarrow>
          if m_JudgeMode manifest \<noteq> JudgeModeOI then Some result
          else (case score_cases (cn_Cases result) (Cases manifest) 0 of
             None \<Rightarrow> None
           | Some (cases, score) \<Rightarrow>
               let result' = result\<lparr>cn_Cases := cases, cn_Score := Some score, cn_TotalScore := Some maximum\<rparr> in
               Some (if cn_Status result' \<noteq> StatusCompileError
                     then if score = maximum then result'\<lparr>cn_Status := StatusAccepted, cn_ExitCode := 0\<rparr>
                          else result'\<lparr>cn_Status := StatusWrongAnswer\<rparr>
                     else result')))"

section \<open>ExecuteCanonical and ExecuteArtifact\<close>

definition contestant_request ::
  "CanonicalExecutionRequest \<Rightarrow> Manifest \<Rightarrow> ExecuteBatchV1Case list \<Rightarrow> ExecuteBatchV1Request" where
  "contestant_request input manifest cases =
     \<lparr>br_Language = ce_Language input, br_SourceCode = ce_SourceCode input,
      br_Timeout = timeoutSeconds (TimeLimitMillis (m_Limits manifest)),
      br_MemoryLimit = boundedInt32 (MemoryLimitMiB (m_Limits manifest)),
      br_StopOnFailure = (ce_StopOnFailure input \<and> m_JudgeMode manifest = JudgeModeACM
        \<and> m_Checker manifest \<noteq> CheckerSpecial),
      br_Cases = cases\<rparr>"

definition finish_scoring ::
  "Manifest \<Rightarrow> (canonical_error + CanonicalResult) \<times> 's \<Rightarrow> (canonical_error + CanonicalResult) \<times> 's" where
  "finish_scoring manifest rs =
     (case rs of
        (Inl e, s) \<Rightarrow> (Inl e, s)
      | (Inr result, s) \<Rightarrow>
          (case applyManifestScoring manifest result of None \<Rightarrow> (Inl CanonicalPanic, s) | Some r \<Rightarrow> (Inr r, s)))"

definition judge_events ::
  "BatchBundlePipeline \<Rightarrow> proto_sizes \<Rightarrow> (string \<Rightarrow> specialJudgeOutputV1 option) \<Rightarrow> 's sandbox_selector \<Rightarrow> batch_exec
     \<Rightarrow> CaseArtifact \<Rightarrow> ExecuteBatchV1Request \<Rightarrow> string list \<Rightarrow> ExecuteBatchV1Event option list \<Rightarrow> 's
     \<Rightarrow> (canonical_error + CanonicalResult) \<times> 's" where
  "judge_events p sizes decode selector exec artifact request checks events s =
     (let manifest = ca_Manifest artifact in
      case aggregateBatchResult (m_Checker manifest) checks events of
        None \<Rightarrow> (Inl CanonicalPanic, s)
      | Some (result, outputs) \<Rightarrow>
          if cn_Status result = StatusSystemError
          then (Inl (CanonicalInfrastructure ''sandbox returned a system error''), s)
          else finish_scoring manifest
            (if m_Checker manifest = CheckerSpecial \<and> cn_Status result \<noteq> StatusCompileError
             then applySpecialJudge p sizes decode selector exec artifact request checks outputs result s
             else (Inr result, s)))"

definition ExecuteCanonical ::
  "BatchBundlePipeline \<Rightarrow> proto_sizes \<Rightarrow> (string \<Rightarrow> specialJudgeOutputV1 option) \<Rightarrow> 's sandbox_selector \<Rightarrow> batch_exec
     \<Rightarrow> CanonicalExecutionRequest \<Rightarrow> CaseArtifact \<Rightarrow> 's \<Rightarrow> (canonical_error + CanonicalResult) \<times> 's" where
  "ExecuteCanonical p sizes decode selector exec input artifact s =
     (let manifest = ca_Manifest artifact in
      if TrimSpace (ce_Language input) = [] \<or> ce_SourceCode input = [] then (Inl CanonicalRequired, s)
      else if Validate manifest \<noteq> Inr ()
      then (Inl (CanonicalInfrastructure ''bundle manifest became invalid''), s)
      else if length (Cases manifest) > maxSandboxBatchCasesV1
      then (Inl (CanonicalInfrastructure ''bundle exceeds sandbox batch case limit''), s)
      else
        let empty = contestant_request input manifest [] in
        if ps_request sizes empty > maxBatchRequestBytes p
        then (Inl (CanonicalInfrastructure ''submission exceeds sandbox batch byte limit''), s)
        else (case prepare_cases sizes (m_Checker manifest) (ca_ReadCase artifact) (maxBatchRequestBytes p)
                     (max_check_bytes p) (Cases manifest) (ps_request sizes empty) 0 [] [] of
          Inl e \<Rightarrow> (Inl e, s)
        | Inr (cases, checks) \<Rightarrow>
            let request = contestant_request input manifest cases in
            (case executeBatch (bp_maxInfraAttempts p) selector (\<lambda>k a. exec 0 k a request) request s of
               (BatchFailed e, _, s') \<Rightarrow> (Inl (CanonicalTransport e), s')
             | (BatchInvalid, _, s') \<Rightarrow> (Inl (CanonicalInfrastructure ''sandbox batch response was invalid''), s')
             | (BatchEvents events, _, s') \<Rightarrow>
                 judge_events p sizes decode selector exec artifact request checks events s')))"

record ExecutionConfig =
  ec_TimeLimitMillis :: int
  ec_MemoryLimitMB :: int
  ec_JudgeMode :: string
  ec_TotalScore :: int
  ec_CheckerPinned :: bool
  ec_Checker :: string
  ec_SpecialJudge :: bool
  ec_SpecialJudgeLanguage :: string
  ec_SpecialJudgeSource :: string

text \<open>The agreement checks of \<open>ExecuteArtifact\<close>: the summary of the first that fails.\<close>

definition config_disagreement :: "ExecutionConfig \<Rightarrow> CaseArtifact \<Rightarrow> string option" where
  "config_disagreement config artifact =
     (let manifest = ca_Manifest artifact in
      if ec_TimeLimitMillis config \<le> 0 \<or> ec_MemoryLimitMB config \<le> 0
      then Some ''immutable execution limits must be positive''
      else if TimeLimitMillis (m_Limits manifest) \<noteq> ec_TimeLimitMillis config
        \<or> MemoryLimitMiB (m_Limits manifest) \<noteq> ec_MemoryLimitMB config
      then Some ''immutable execution limits disagree with test bundle manifest''
      else if ec_JudgeMode config \<noteq> m_JudgeMode manifest
      then Some ''immutable judge mode disagrees with test bundle manifest''
      else if ec_CheckerPinned config \<and> ec_Checker config \<noteq> m_Checker manifest
      then Some ''immutable checker disagrees with test bundle manifest''
      else if m_JudgeMode manifest = JudgeModeOI \<and> TotalScore manifest \<noteq> Some (ec_TotalScore config)
      then Some ''immutable total score disagrees with test bundle manifest''
      else if m_Checker manifest = CheckerSpecial then
        (case (ca_ReadSpecialJudge artifact, m_SpecialJudge manifest) of
           (Some source, Some sj) \<Rightarrow>
             if \<not> ec_SpecialJudge config \<or> ec_SpecialJudgeLanguage config \<noteq> sj_Language sj
             then Some ''immutable special judge metadata disagrees with test bundle manifest''
             else if source \<noteq> Some (ec_SpecialJudgeSource config)
             then Some ''immutable special judge source disagrees with test bundle manifest''
             else None
         | _ \<Rightarrow> Some ''immutable special judge metadata disagrees with test bundle manifest'')
      else if ec_SpecialJudge config then Some ''immutable special judge config requires a special checker bundle''
      else None)"

definition ExecuteArtifact ::
  "BatchBundlePipeline \<Rightarrow> proto_sizes \<Rightarrow> (string \<Rightarrow> specialJudgeOutputV1 option) \<Rightarrow> 's sandbox_selector \<Rightarrow> batch_exec
     \<Rightarrow> Task \<Rightarrow> ExecutionConfig \<Rightarrow> CaseArtifact \<Rightarrow> 's \<Rightarrow> (canonical_error + Result) \<times> 's" where
  "ExecuteArtifact p sizes decode selector exec submission config artifact s =
     (case config_disagreement config artifact of
        Some summary \<Rightarrow> (Inr (systemErrorResult summary), s)
      | None \<Rightarrow>
          (case ExecuteCanonical p sizes decode selector exec
                  \<lparr>ce_Language = tk_Language submission, ce_SourceCode = tk_Code submission, ce_StopOnFailure = True\<rparr>
                  artifact s of
             (Inl e, s') \<Rightarrow> (Inl e, s')
           | (Inr r, s') \<Rightarrow> (Inr (CallbackResult r), s')))"

end
