(* ===== verification/Batch_Verdict.thy ===== *)
theory Batch_Verdict
  imports Batch_Pipeline
begin

text \<open>
  What the batch pipeline guarantees: the shape of the event streams it accepts, how the verdict follows
  from the cases, that a result satisfies the callback contract, and that no branch indexes out of
  range. The comparison of token outputs by digest and the size budget of the special judge's input are
  treated at the end.
\<close>

section \<open>Event streams the pipeline accepts\<close>

definition ev_response :: "ExecuteBatchV1Event \<Rightarrow> ExecuteResponse" where
  "ev_response e = the (ev_Result e)"

definition case_event :: "ExecuteBatchV1Case \<Rightarrow> ExecuteBatchV1Event \<Rightarrow> bool" where
  "case_event c e \<longleftrightarrow> ev_Kind e = CASE_RESULT \<and> ev_Result e \<noteq> None \<and> ev_CaseId e = bc_CaseId c
     \<and> isKnownContestantStatus (er_Status (ev_response e))"

definition compile_event :: "ExecuteBatchV1Event \<Rightarrow> bool" where
  "compile_event e \<longleftrightarrow> ev_Kind e = COMPILE_ERROR \<and> ev_CaseId e = [] \<and> ev_Result e \<noteq> None
     \<and> er_Status (ev_response e) = ''Compile Error''"

definition completed_event :: "ExecuteBatchV1Event \<Rightarrow> bool" where
  "completed_event e \<longleftrightarrow> ev_Kind e = COMPLETED \<and> ev_CaseId e = [] \<and> ev_Result e = None"

definition case_passed :: "ExecuteBatchV1Event \<Rightarrow> bool" where
  "case_passed e \<longleftrightarrow> er_Status (ev_response e) = ''Accepted''"

text \<open>
  The case events of a complete run, with \<open>prev\<close> whether the case before them passed: they answer the
  cases in order, and stop early only after a failed case of a request that stops on failure.
\<close>

fun case_run :: "bool \<Rightarrow> bool \<Rightarrow> ExecuteBatchV1Case list \<Rightarrow> ExecuteBatchV1Event list \<Rightarrow> bool" where
  "case_run stop prev cases [] \<longleftrightarrow> cases = [] \<or> stop \<and> \<not> prev"
| "case_run stop prev [] (e # es) \<longleftrightarrow> False"
| "case_run stop prev (c # cs) (e # es) \<longleftrightarrow> (stop \<longrightarrow> prev) \<and> case_event c e \<and> case_run stop (case_passed e) cs es"

lemma case_run_kind: "case_run stop prev suf (e # es) \<Longrightarrow> ev_Kind e = CASE_RESULT"
  by (cases suf) (auto simp: case_event_def)

lemma no_other_kind:
  assumes "ev_Kind event \<noteq> CASE_RESULT" "ev_Kind event \<noteq> COMPLETED"
  shows "\<not> (\<exists>es fin. Some event # rest = map Some es @ [Some fin] \<and> completed_event fin \<and> P es
    \<and> case_run stop prev suf es)"
proof
  assume "\<exists>es fin. Some event # rest = map Some es @ [Some fin] \<and> completed_event fin \<and> P es
    \<and> case_run stop prev suf es"
  then obtain es fin where "Some event # rest = map Some es @ [Some fin]" "completed_event fin" "case_run stop prev suf es"
    by blast
  then show False
    using assms case_run_kind [of stop prev suf event "tl es"] by (cases es) (auto simp: completed_event_def)
qed

lemma validate_events_iff:
  "cases = pre @ suf \<Longrightarrow> index = length pre \<Longrightarrow>
   validate_events stop index cases status events \<longleftrightarrow>
     (\<exists>es fin. events = map Some es @ [Some fin] \<and> completed_event fin \<and> (pre = [] \<longrightarrow> es \<noteq> [])
        \<and> case_run stop (pre = [] \<or> status = ''Accepted'') suf es)"
proof (induction stop index cases status events arbitrary: pre suf rule: validate_events.induct)
  case (3 stop index cases status event rest)
  show ?case
  proof (cases "ev_Kind event")
    case CASE_RESULT
    have split: "(\<exists>es fin. Some event # rest = map Some es @ [Some fin] \<and> completed_event fin \<and> Q es)
        \<longleftrightarrow> (\<exists>es fin. rest = map Some es @ [Some fin] \<and> completed_event fin \<and> Q (event # es))" for Q
    proof
      assume "\<exists>es fin. Some event # rest = map Some es @ [Some fin] \<and> completed_event fin \<and> Q es"
      then obtain es fin where ef: "Some event # rest = map Some es @ [Some fin]" "completed_event fin" "Q es" by blast
      then show "\<exists>es fin. rest = map Some es @ [Some fin] \<and> completed_event fin \<and> Q (event # es)"
        using CASE_RESULT by (cases es) (auto simp: completed_event_def)
    qed (auto intro: exI [of _ "event # _"])
    show ?thesis
    proof (cases suf)
      case Nil
      then show ?thesis using 3(2,3) CASE_RESULT by (auto simp: split split: option.splits)
    next
      case (Cons c cs)
      show ?thesis
      proof (cases "ev_Result event")
        case None
        then show ?thesis using CASE_RESULT Cons by (auto simp: split case_event_def)
      next
        case (Some r)
        have nth: "cases ! index = c" "index < length cases" using 3(2,3) Cons by simp_all
        have IH: "validate_events stop (Suc index) cases (er_Status r) rest \<longleftrightarrow>
            (\<exists>es fin. rest = map Some es @ [Some fin] \<and> completed_event fin
               \<and> case_run stop (er_Status r = ''Accepted'') cs es)"
          if "\<not> (stop \<and> 0 < index \<and> status \<noteq> ''Accepted'')"
             "ev_CaseId event = bc_CaseId c" "isKnownContestantStatus (er_Status r)"
          using 3(1) [OF CASE_RESULT that(1) Some, of "pre @ [c]" cs] nth that 3(2,3) Cons by simp
        show ?thesis
          using IH CASE_RESULT Some Cons nth 3(2,3)
          by (auto simp: split case_event_def ev_response_def case_passed_def)
      qed
    qed
  next
    case COMPLETED
    have split: "(\<exists>es fin. Some event # rest = map Some es @ [Some fin] \<and> completed_event fin \<and> (pre = [] \<longrightarrow> es \<noteq> [])
          \<and> case_run stop q suf es)
        \<longleftrightarrow> rest = [] \<and> completed_event event \<and> pre \<noteq> [] \<and> case_run stop q suf []" for q
      using COMPLETED by (cases suf) (auto simp: Cons_eq_append_conv case_event_def)
    show ?thesis using COMPLETED 3(2,3) unfolding split by (auto simp: completed_event_def)
  qed (simp_all add: no_other_kind)
qed (auto simp: Cons_eq_append_conv)

definition case_stream :: "ExecuteBatchV1Request \<Rightarrow> ExecuteBatchV1Event option list \<Rightarrow> ExecuteBatchV1Event list \<Rightarrow> bool" where
  "case_stream request events es \<longleftrightarrow> es \<noteq> [] \<and> (\<exists>fin. events = map Some es @ [Some fin] \<and> completed_event fin)
     \<and> case_run (br_StopOnFailure request) True (br_Cases request) es"

lemma validate_batch_iff:
  "validateBatchEvents request events \<longleftrightarrow>
     (\<exists>e. events = [Some e] \<and> compile_event e) \<or> (\<exists>es. case_stream request events es)"
proof (cases "is_compile_event events")
  case True
  then obtain e where e: "events = [Some e]" "ev_Kind e = COMPILE_ERROR"
    by (cases events; cases "hd events"; cases "tl events") (auto simp: is_compile_event_def)
  then have "\<not> (\<exists>es. case_stream request events es)"
    by (auto simp: case_stream_def completed_event_def)
  with e show ?thesis
    by (auto simp: validateBatchEvents_def is_compile_event_def compile_event_def ev_response_def split: option.splits)
next
  case False
  then have "\<not> (\<exists>e. events = [Some e] \<and> compile_event e)"
    by (auto simp: is_compile_event_def compile_event_def)
  with False show ?thesis
    using validate_events_iff [of "br_Cases request" "[]" "br_Cases request" 0 "br_StopOnFailure request" "[]" events]
    by (auto simp: validateBatchEvents_def case_stream_def)
qed

lemma case_run_length: "case_run stop prev cases es \<Longrightarrow> length es \<le> length cases"
  by (induction stop prev cases es rule: case_run.induct) auto

lemma case_run_ids: "case_run stop prev cases es \<Longrightarrow> map ev_CaseId es = map bc_CaseId (take (length es) cases)"
  by (induction stop prev cases es rule: case_run.induct) (auto simp: case_event_def)

lemma case_run_events:
  "case_run stop prev cases es \<Longrightarrow> e \<in> set es \<Longrightarrow> ev_Result e \<noteq> None \<and> isKnownContestantStatus (er_Status (ev_response e))"
  by (induction stop prev cases es rule: case_run.induct) (auto simp: case_event_def)

lemma case_run_kinds: "case_run stop prev cases es \<Longrightarrow> e \<in> set es \<Longrightarrow> ev_Kind e = CASE_RESULT"
  by (induction stop prev cases es rule: case_run.induct) (auto simp: case_event_def)

lemma case_run_all: "case_run stop prev cases es \<Longrightarrow> \<not> stop \<Longrightarrow> length es = length cases"
  by (induction stop prev cases es rule: case_run.induct) auto

lemma case_run_passed:
  "case_run stop prev cases es \<Longrightarrow> prev \<Longrightarrow> (\<And>e. e \<in> set es \<Longrightarrow> case_passed e) \<Longrightarrow> length es = length cases"
  by (induction stop prev cases es rule: case_run.induct) auto

section \<open>The verdict of a run\<close>

text \<open>The verdict is the status of the first case that did not pass.\<close>

definition overall :: "Status list \<Rightarrow> Status" where
  "overall ss = (case dropWhile (\<lambda>s. s = StatusAccepted) ss of [] \<Rightarrow> StatusAccepted | s # _ \<Rightarrow> s)"

lemma overall_simps [simp]:
  "overall [] = StatusAccepted"
  "overall (s # ss) = (if s = StatusAccepted then overall ss else s)"
  by (simp_all add: overall_def)

lemma overall_append:
  "overall (as @ bs) = (if overall as = StatusAccepted then overall bs else overall as)"
  by (induction as) auto

lemma overall_accepted: "overall ss = StatusAccepted \<longleftrightarrow> (\<forall>s \<in> set ss. s = StatusAccepted)"
  by (induction ss) auto

lemma overall_mem: "overall ss \<noteq> StatusAccepted \<Longrightarrow> overall ss \<in> set ss"
  by (induction ss) auto

definition judged_case :: "string \<Rightarrow> ExecuteBatchV1Event \<Rightarrow> string \<Rightarrow> CanonicalCaseResult" where
  "judged_case checker e check =
     \<lparr>cc_CaseID = ev_CaseId e, cc_Status = case_verdict checker check (ev_response e),
      cc_TimeUsedMillis = boundedMetric (er_TimeUsed (ev_response e)) 86400000,
      cc_MemoryUsedKB = boundedMetric (er_MemoryUsed (ev_response e)) 2147483647, cc_Score = None, cc_MaxScore = None\<rparr>"

lemma judged_case_simps [simp]:
  "cc_CaseID (judged_case checker e check) = ev_CaseId e"
  "cc_Status (judged_case checker e check) = case_verdict checker check (ev_response e)"
  "cc_Score (judged_case checker e check) = None" "cc_MaxScore (judged_case checker e check) = None"
  by (simp_all add: judged_case_def)

text \<open>What the fold over the cases leaves in the result, besides the exit code.\<close>

definition folded :: "CanonicalResult \<Rightarrow> CanonicalCaseResult list \<Rightarrow> CanonicalResult \<Rightarrow> bool" where
  "folded result cs result' \<longleftrightarrow>
     cn_Cases result' = cn_Cases result @ cs
     \<and> cn_Status result' = (if cn_Status result = StatusAccepted then overall (map cc_Status cs) else cn_Status result)
     \<and> cn_TimeUsedMillis result' = fold max (map cc_TimeUsedMillis cs) (cn_TimeUsedMillis result)
     \<and> cn_MemoryUsedKB result' = fold max (map cc_MemoryUsedKB cs) (cn_MemoryUsedKB result)
     \<and> cn_Score result' = cn_Score result \<and> cn_TotalScore result' = cn_TotalScore result
     \<and> (UTF16Len (cn_Stderr result) \<le> 65536 \<longrightarrow> UTF16Len (cn_Stderr result') \<le> 65536)
     \<and> cn_CompileError result' =
         (if \<exists>c \<in> set cs. cc_Status c = StatusCompileError then redacted else cn_CompileError result)"

lemma folded_trans: "folded a cs b \<Longrightarrow> folded b ds c \<Longrightarrow> folded a (cs @ ds) c"
  by (auto simp: folded_def overall_append)

lemma folded_add_case:
  assumes "ev_Result e = Some r"
  shows "folded result [judged_case checker e k] (add_case (case_verdict checker k r) e r summaries result)"
  using UTF16Len_TruncateUTF16_le [of 65536 "join_semicolon summaries"] assms
  by (simp add: folded_def add_case_def Let_def judged_case_def ev_response_def max.commute)

lemma aggregate_cases_folded:
  assumes "length es \<le> length suf" "\<And>e. e \<in> set es \<Longrightarrow> ev_Result e \<noteq> None"
  shows "\<exists>result'. aggregate_cases checker (pre @ suf) (length pre) (map Some es) result outputs summaries
      = Some (result', outputs @ map (\<lambda>e. er_Stdout (ev_response e)) es)
    \<and> folded result (map2 (judged_case checker) es suf) result'"
  using assms
proof (induction es arbitrary: pre suf result outputs summaries)
  case Nil
  then show ?case by (simp add: folded_def)
next
  case (Cons e es)
  obtain k suf' where suf: "suf = k # suf'" using Cons.prems(1) by (cases suf) auto
  obtain r where r: "ev_Result e = Some r" using Cons.prems(2) [of e] by auto
  have r': "ev_response e = r" by (simp add: ev_response_def r)
  have le: "length es \<le> length suf'" using Cons.prems(1) suf by simp
  have res: "\<And>x. x \<in> set es \<Longrightarrow> ev_Result x \<noteq> None" using Cons.prems(2) by simp
  let ?result = "add_case (case_verdict checker k r) e r
    (summaries @ [case_summary (ev_CaseId e) (er_Status r) (case_verdict checker k r)]) result"
  obtain result' where IH:
    "aggregate_cases checker (pre @ k # suf') (Suc (length pre)) (map Some es) ?result (outputs @ [er_Stdout r])
       (summaries @ [case_summary (ev_CaseId e) (er_Status r) (case_verdict checker k r)])
     = Some (result', outputs @ [er_Stdout r] @ map (\<lambda>e. er_Stdout (ev_response e)) es)"
    "folded ?result (map2 (judged_case checker) es suf') result'"
    using Cons.IH [OF le, of "pre @ [k]" ?result "outputs @ [er_Stdout r]"
      "summaries @ [case_summary (ev_CaseId e) (er_Status r) (case_verdict checker k r)]"] res by auto
  have "folded result (judged_case checker e k # map2 (judged_case checker) es suf') result'"
    using folded_trans [OF folded_add_case [OF r] IH(2)] by simp
  with IH(1) show ?case by (simp add: suf r r' Let_def nth_append)
qed

lemma fold_max_le: "a \<le> (b :: int) \<Longrightarrow> (\<And>x. x \<in> set xs \<Longrightarrow> x \<le> b) \<Longrightarrow> fold max xs a \<le> b"
  by (induction xs arbitrary: a) auto

lemma fold_max_ge: "(a :: int) \<le> fold max xs a"
proof (induction xs arbitrary: a)
  case (Cons x xs)
  from Cons [of "max x a"] show ?case by simp
qed simp

section \<open>Results of a run\<close>

definition durableVerdict :: "Status \<Rightarrow> bool" where
  "durableVerdict s \<longleftrightarrow> s \<in> {StatusAccepted, StatusWrongAnswer, StatusCompileError, StatusTimeLimitExceeded,
     StatusMemoryLimitExceeded, StatusRuntimeError, StatusOutputLimitExceeded}"

lemma durable_overall: "(\<And>s. s \<in> set ss \<Longrightarrow> durableVerdict s) \<Longrightarrow> durableVerdict (overall ss)"
  using overall_mem [of ss] by (cases "overall ss = StatusAccepted") (auto simp: durableVerdict_def)

lemma case_verdict_durable: "isKnownContestantStatus (er_Status r) \<Longrightarrow> durableVerdict (case_verdict checker k r)"
  by (auto simp: isKnownContestantStatus_def case_verdict_def mapBundleStatus_def mapCallbackStatus_def durableVerdict_def)

lemma boundedMetric_range: "0 \<le> m \<Longrightarrow> 0 \<le> boundedMetric v m \<and> boundedMetric v m \<le> m"
  by (simp add: boundedMetric_def)

text \<open>Bounds on the measurements of a case, before scoring; \<open>limit\<close> bounds its time.\<close>

definition case_bounds :: "int \<Rightarrow> CanonicalCaseResult \<Rightarrow> bool" where
  "case_bounds limit c \<longleftrightarrow> 0 \<le> cc_TimeUsedMillis c \<and> cc_TimeUsedMillis c \<le> limit
     \<and> 0 \<le> cc_MemoryUsedKB c \<and> cc_MemoryUsedKB c \<le> 2147483647 \<and> durableVerdict (cc_Status c)
     \<and> cc_Score c = None \<and> cc_MaxScore c = None"

lemma judged_case_bounds:
  "isKnownContestantStatus (er_Status (ev_response e)) \<Longrightarrow> case_bounds 86400000 (judged_case checker e k)"
  using boundedMetric_range [of 86400000] boundedMetric_range [of 2147483647]
  by (simp add: case_bounds_def judged_case_def case_verdict_durable)

lemma case_bounds_mono: "case_bounds l c \<Longrightarrow> l \<le> l' \<Longrightarrow> case_bounds l' c"
  by (simp add: case_bounds_def)

text \<open>
  The result of a contestant's run before scoring: either a compilation failure without cases, or the
  first cases of the manifest with the verdict of the first that failed; all of them if the run passed
  or must not stop early.
\<close>

definition run_ok :: "Manifest \<Rightarrow> int \<Rightarrow> CanonicalResult \<Rightarrow> bool" where
  "run_ok m limit r \<longleftrightarrow>
     0 \<le> cn_TimeUsedMillis r \<and> cn_TimeUsedMillis r \<le> limit
     \<and> 0 \<le> cn_MemoryUsedKB r \<and> cn_MemoryUsedKB r \<le> 2147483647
     \<and> UTF16Len (cn_Stderr r) \<le> 65536 \<and> cn_CompileError r \<in> {[], redacted}
     \<and> (StatusCompileError \<in> insert (cn_Status r) (cc_Status ` set (cn_Cases r)) \<longrightarrow> cn_CompileError r = redacted)
     \<and> (cn_Status r = StatusAccepted \<longrightarrow> cn_ExitCode r = 0 \<and> length (cn_Cases r) = length (Cases m))
     \<and> cn_Score r = None \<and> cn_TotalScore r = None
     \<and> map cc_CaseID (cn_Cases r) = map case_ID (take (length (cn_Cases r)) (Cases m))
     \<and> (\<forall>c \<in> set (cn_Cases r). case_bounds limit c)
     \<and> (if cn_Cases r = [] then cn_Status r = StatusCompileError
        else cn_Status r = overall (map cc_Status (cn_Cases r)))
     \<and> (cn_Cases r \<noteq> [] \<and> (m_JudgeMode m = JudgeModeOI \<or> m_Checker m = CheckerSpecial)
        \<longrightarrow> length (cn_Cases r) = length (Cases m))"

lemma UTF16Len_short: "list_all (\<lambda>c. byte c < 128) s \<Longrightarrow> UTF16Len s = int (length s)"
proof (induction s)
  case (Cons c s)
  then show ?case by (simp add: UTF16Len_def runes.simps [of "c # s"] decode_rune_def utf16_RuneLen_def)
qed (simp add: UTF16Len_def)

lemma compile_result_ok:
  "0 \<le> limit \<Longrightarrow> run_ok m limit (blank_canonical\<lparr>cn_Status := StatusCompileError, cn_CompileError := redacted,
                    cn_Stderr := ''compilation failed''\<rparr>)"
  by (simp add: run_ok_def blank_canonical_def UTF16Len_short)

definition request_for :: "Manifest \<Rightarrow> string list \<Rightarrow> ExecuteBatchV1Request \<Rightarrow> bool" where
  "request_for m checks request \<longleftrightarrow> length checks = length (Cases m)
     \<and> map bc_CaseId (br_Cases request) = map case_ID (Cases m)
     \<and> (br_StopOnFailure request \<longrightarrow> m_JudgeMode m \<noteq> JudgeModeOI \<and> m_Checker m \<noteq> CheckerSpecial)"

lemma request_for_length: "request_for m checks request \<Longrightarrow> length (br_Cases request) = length (Cases m)"
  unfolding request_for_def by (metis length_map)

lemma judged_ids: "length es \<le> length ks \<Longrightarrow> map cc_CaseID (map2 (judged_case checker) es ks) = map ev_CaseId es"
proof (induction es arbitrary: ks)
  case (Cons e es)
  then show ?case by (cases ks) auto
qed simp

lemma fold_max_bounds:
  "(\<And>x. x \<in> set xs \<Longrightarrow> x \<le> b) \<Longrightarrow> 0 \<le> b \<Longrightarrow> 0 \<le> fold max xs (0 :: int) \<and> fold max xs 0 \<le> b"
  using fold_max_le [of 0 b xs] fold_max_ge [of 0 xs] by simp

lemma case_verdict_accepted:
  "isKnownContestantStatus (er_Status r) \<Longrightarrow> case_verdict checker k r = StatusAccepted \<longleftrightarrow>
     er_Status r = ''Accepted'' \<and> (checker = CheckerSpecial \<or> outputMatchesExpectedCheck checker (er_Stdout r) k)"
  by (auto simp: isKnownContestantStatus_def case_verdict_def mapBundleStatus_def mapCallbackStatus_def)

lemma overall_compile:
  "overall (map cc_Status cs) = StatusCompileError \<Longrightarrow> \<exists>c \<in> set cs. cc_Status c = StatusCompileError"
  using overall_mem [of "map cc_Status cs"] by (auto intro: sym)

lemma folded_run_ok:
  assumes "folded (blank_canonical\<lparr>cn_Status := StatusAccepted\<rparr>) cs r" "cs \<noteq> []"
    and bounds: "\<And>c. c \<in> set cs \<Longrightarrow> case_bounds limit c"
    and "map cc_CaseID cs = map case_ID (take (length cs) (Cases m))" "0 \<le> limit"
    and "overall (map cc_Status cs) = StatusAccepted \<Longrightarrow> length cs = length (Cases m)"
    and "m_JudgeMode m = JudgeModeOI \<or> m_Checker m = CheckerSpecial \<Longrightarrow> length cs = length (Cases m)"
  shows "run_ok m limit (if cn_Status r = StatusAccepted then r\<lparr>cn_ExitCode := 0\<rparr> else r)"
proof -
  have nil: "UTF16Len [] = 0" by (simp add: UTF16Len_def)
  have metrics: "0 \<le> fold max (map cc_TimeUsedMillis cs) 0 \<and> fold max (map cc_TimeUsedMillis cs) 0 \<le> limit"
    "0 \<le> fold max (map cc_MemoryUsedKB cs) 0 \<and> fold max (map cc_MemoryUsedKB cs) 0 \<le> 2147483647"
    by (rule fold_max_bounds; use bounds \<open>0 \<le> limit\<close> in \<open>auto simp: case_bounds_def\<close>)+
  then show ?thesis
    unfolding run_ok_def using assms nil overall_compile [of cs] by (auto simp: folded_def blank_canonical_def)
qed

lemma aggregate_stream:
  assumes req: "request_for m checks request" and stream: "case_stream request events es"
  obtains result where
    "aggregateBatchResult (m_Checker m) checks events = Some (result, map (\<lambda>e. er_Stdout (ev_response e)) es)"
    "cn_Cases result = map2 (judged_case (m_Checker m)) es checks" "run_ok m 86400000 result"
proof -
  let ?cs = "map2 (judged_case (m_Checker m)) es checks"
  from stream obtain fin where ev: "events = map Some es @ [Some fin]" "es \<noteq> []"
    and run: "case_run (br_StopOnFailure request) True (br_Cases request) es" by (auto simp: case_stream_def)
  note known = case_run_events [OF run]
  have len: "length es \<le> length checks"
    using case_run_length [OF run] request_for_length [OF req] req by (simp add: request_for_def)
  obtain r where agg: "aggregate_cases (m_Checker m) checks 0 (map Some es) (blank_canonical\<lparr>cn_Status := StatusAccepted\<rparr>) [] []
      = Some (r, map (\<lambda>e. er_Stdout (ev_response e)) es)"
    and fold: "folded (blank_canonical\<lparr>cn_Status := StatusAccepted\<rparr>) ?cs r"
    using aggregate_cases_folded [OF len, of "m_Checker m" "[]" "blank_canonical\<lparr>cn_Status := StatusAccepted\<rparr>" "[]" "[]"] known
    by auto
  have first: "ev_Kind (hd es) \<noteq> COMPILE_ERROR"
    using case_run_kind [of _ _ _ "hd es" "tl es"] run ev(2) by fastforce
  let ?r = "if cn_Status r = StatusAccepted then r\<lparr>cn_ExitCode := 0\<rparr> else r"
  have res: "aggregateBatchResult (m_Checker m) checks events = Some (?r, map (\<lambda>e. er_Stdout (ev_response e)) es)"
    using agg first ev by (cases es) (auto simp: aggregateBatchResult_def)
  have bounds: "case_bounds 86400000 c" if "c \<in> set ?cs" for c
    using that known judged_case_bounds by (auto dest: set_zip_leftD)
  have ids: "map cc_CaseID ?cs = map case_ID (take (length ?cs) (Cases m))"
  proof -
    have "map cc_CaseID ?cs = map ev_CaseId es" using judged_ids [OF len] .
    also have "\<dots> = take (length es) (map bc_CaseId (br_Cases request))" by (simp add: case_run_ids [OF run] take_map)
    also have "\<dots> = map case_ID (take (length ?cs) (Cases m))" using req len by (simp add: request_for_def take_map)
    finally show ?thesis .
  qed
  have n: "length ?cs = length es" "length checks = length (Cases m)" "length (br_Cases request) = length (Cases m)"
    using len req request_for_length [OF req] by (simp_all add: request_for_def)
  have all: "length es = length (Cases m)" if "m_JudgeMode m = JudgeModeOI \<or> m_Checker m = CheckerSpecial"
    using case_run_all [OF run] that req n by (auto simp: request_for_def)
  have passed: "length es = length (Cases m)" if "overall (map cc_Status ?cs) = StatusAccepted"
  proof -
    have "case_passed e" if "e \<in> set es" for e
    proof -
      from that obtain i where i: "i < length es" "e = es ! i" by (auto simp: in_set_conv_nth)
      then have "?cs ! i \<in> set ?cs" using n(1) by (metis nth_mem)
      then have "cc_Status (?cs ! i) = StatusAccepted"
        using \<open>overall (map cc_Status ?cs) = StatusAccepted\<close> unfolding overall_accepted set_map by blast
      with i len known [of e] that show ?thesis by (simp add: case_verdict_accepted case_passed_def)
    qed
    with case_run_passed [OF run] n show ?thesis by simp
  qed
  have ne: "?cs \<noteq> []" using ev(2) n(1) by fastforce
  have "run_ok m 86400000 ?r"
    by (rule folded_run_ok [OF fold ne bounds ids]) (use n all passed in auto)
  moreover have "cn_Cases r = ?cs" using fold by (simp add: folded_def blank_canonical_def)
  ultimately show ?thesis using that [of ?r] res by simp
qed

section \<open>The special judge\<close>

lemma recompute_loop_eq:
  "recompute_loop cs r = r\<lparr>
     cn_Status := (if cn_Status r = StatusAccepted then overall (map cc_Status cs) else cn_Status r),
     cn_TimeUsedMillis := fold max (map cc_TimeUsedMillis cs) (cn_TimeUsedMillis r),
     cn_MemoryUsedKB := fold max (map cc_MemoryUsedKB cs) (cn_MemoryUsedKB r)\<rparr>"
  by (induction cs arbitrary: r) (auto simp: max.commute)

lemma recompute_run_ok:
  assumes run: "run_ok m limit r" and len: "length cs = length (Cases m)" "cs \<noteq> []"
    and ids: "map cc_CaseID cs = map case_ID (Cases m)"
    and bounds: "\<And>c. c \<in> set cs \<Longrightarrow> case_bounds limit' c" and "0 \<le> limit'"
    and compile: "StatusCompileError \<in> cc_Status ` set cs \<Longrightarrow> StatusCompileError \<in> cc_Status ` set (cn_Cases r)"
  shows "run_ok m limit' (recomputeCanonicalVerdict (r\<lparr>cn_Cases := cs\<rparr>))"
proof -
  have metrics: "0 \<le> fold max (map cc_TimeUsedMillis cs) 0 \<and> fold max (map cc_TimeUsedMillis cs) 0 \<le> limit'"
    "0 \<le> fold max (map cc_MemoryUsedKB cs) 0 \<and> fold max (map cc_MemoryUsedKB cs) 0 \<le> 2147483647"
    by (rule fold_max_bounds; use bounds \<open>0 \<le> limit'\<close> in \<open>auto simp: case_bounds_def\<close>)+
  have ce: "overall (map cc_Status cs) = StatusCompileError \<Longrightarrow> StatusCompileError \<in> cc_Status ` set cs"
    using overall_compile [of cs] by force
  show ?thesis
    using assms metrics ce UTF16Len_TruncateUTF16_le [of 65536 "join_semicolon (map verdict_summary cs)"]
    by (auto simp: run_ok_def recomputeCanonicalVerdict_def recompute_loop_eq)
qed

lemma checker_cases_indices:
  assumes "checker_cases sizes maxReq index xs b acc = Inr acc'"
    "distinct (map snd acc)" "\<forall>i \<in> set (map snd acc). i < index"
  shows "distinct (map snd acc') \<and> (\<forall>i \<in> set (map snd acc'). i < index + length xs) \<and> set acc \<subseteq> set acc'
    \<and> (\<forall>j < length xs. cc_Status (fst (xs ! j)) = StatusAccepted \<longrightarrow> index + j \<in> set (map snd acc'))"
  using assms
proof (induction xs arbitrary: index b acc)
  case (Cons x xs)
  obtain item requestCase expected actual where x: "x = (item, requestCase, expected, actual)" by (cases x)
  have step: "\<forall>j < length (x # xs). cc_Status (fst ((x # xs) ! j)) = StatusAccepted \<longrightarrow> index + j \<in> set (map snd acc')"
    if "\<forall>j < length xs. cc_Status (fst (xs ! j)) = StatusAccepted \<longrightarrow> Suc index + j \<in> set (map snd acc')"
       "cc_Status item = StatusAccepted \<Longrightarrow> index \<in> set (map snd acc')"
    using that x by (auto simp: less_Suc_eq_0_disj)
  show ?case
  proof (cases "cc_Status item = StatusAccepted")
    case False
    have "\<forall>i \<in> set (map snd acc). i < Suc index" using Cons.prems(3) by (meson less_SucI)
    then show ?thesis
      using Cons.IH [of "Suc index" b acc] Cons.prems(1,2) False x step by auto
  next
    case True
    then obtain cc b' where rest: "checker_cases sizes maxReq (Suc index) xs b' (acc @ [(cc, index)]) = Inr acc'"
      using Cons.prems(1) x by (auto simp: Let_def split: if_splits)
    have "distinct (map snd (acc @ [(cc, index)]))" "\<forall>i \<in> set (map snd (acc @ [(cc, index)])). i < Suc index"
      using Cons.prems(2,3) by (auto simp: less_SucI)
    note IH = Cons.IH [OF rest this]
    moreover have "index \<in> set (map snd acc')" using IH by force
    ultimately show ?thesis using step by auto
  qed
qed simp

definition checker_said :: "(string \<Rightarrow> specialJudgeOutputV1 option) \<Rightarrow> ExecuteBatchV1Event option \<Rightarrow> bool option" where
  "checker_said decode e =
     (case e of None \<Rightarrow> None | Some event \<Rightarrow>
        (case ev_Result event of None \<Rightarrow> None | Some r \<Rightarrow>
           if er_Status r = ''Accepted'' then parseSpecialJudgeOutput decode (er_Stdout r) else None))"

definition checked :: "bool \<Rightarrow> CanonicalCaseResult \<Rightarrow> CanonicalCaseResult \<Rightarrow> bool" where
  "checked accepted c c' \<longleftrightarrow> cc_CaseID c' = cc_CaseID c
     \<and> cc_Status c' = (if accepted then StatusAccepted else StatusWrongAnswer)
     \<and> (\<forall>l. case_bounds l c \<longrightarrow> case_bounds (l + 86400000) c')"

lemma apply_checker_result:
  assumes "apply_checker_events decode evs cases = Inr cases'" "distinct (map snd evs)"
  shows "length cases' = length cases
    \<and> (\<forall>i < length cases. i \<notin> snd ` set evs \<longrightarrow> cases' ! i = cases ! i)
    \<and> (\<forall>(e, i) \<in> set evs. i < length cases \<and> (\<exists>a. checker_said decode e = Some a \<and> checked a (cases ! i) (cases' ! i)))"
  using assms
proof (induction decode evs cases rule: apply_checker_events.induct)
  case (3 decode event index rest cases)
  obtain r where r: "ev_Result event = Some r" "er_Status r = ''Accepted''"
    using 3(2) by (auto split: option.splits if_splits)
  obtain a where a: "parseSpecialJudgeOutput decode (er_Stdout r) = Some a" "index < length cases"
    using 3(2) r by (auto split: option.splits if_splits)
  define c' where "c' = (cases ! index)\<lparr>
      cc_TimeUsedMillis := cc_TimeUsedMillis (cases ! index) + boundedMetric (er_TimeUsed r) 86400000,
      cc_MemoryUsedKB := max (cc_MemoryUsedKB (cases ! index)) (boundedMetric (er_MemoryUsed r) 2147483647),
      cc_Status := (if a then StatusAccepted else StatusWrongAnswer)\<rparr>"
  have rest: "apply_checker_events decode rest (cases[index := c']) = Inr cases'"
    using 3(2) r a by (simp add: Let_def c'_def)
  have IH: "length cases' = length (cases[index := c'])
    \<and> (\<forall>i < length (cases[index := c']). i \<notin> snd ` set rest \<longrightarrow> cases' ! i = cases[index := c'] ! i)
    \<and> (\<forall>(e, i) \<in> set rest. i < length (cases[index := c'])
          \<and> (\<exists>a. checker_said decode e = Some a \<and> checked a (cases[index := c'] ! i) (cases' ! i)))"
    using 3(1) [OF r(1) _ a(1) _ refl] r a rest 3(3) by (simp add: c'_def)
  have c': "checked a (cases ! index) c'"
    using boundedMetric_range [of 86400000 "er_TimeUsed r"] boundedMetric_range [of 2147483647 "er_MemoryUsed r"]
    by (auto simp: checked_def c'_def case_bounds_def durableVerdict_def)
  have said: "checker_said decode (Some event) = Some a" by (simp add: checker_said_def r a)
  have fresh: "index \<notin> snd ` set rest" using 3(3) by simp
  have "cases' ! index = c'" using IH fresh a(2) by simp
  moreover have "cases[index := c'] ! i = cases ! i" if "(e, i) \<in> set rest" for e i
    using that fresh by (metis image_eqI nth_list_update_neq snd_conv)
  ultimately show ?case using IH c' said a(2) by (auto simp: image_iff)
qed auto

lemma checker_cases_payload:
  assumes "checker_cases sizes maxReq index xs b acc = Inr acc'"
  shows "\<exists>new. acc' = acc @ new \<and> (\<forall>(c, i) \<in> set new. index \<le> i \<and> i < index + length xs
    \<and> (case xs ! (i - index) of (item, requestCase, expected, actual) \<Rightarrow>
         cc_Status item = StatusAccepted
         \<and> bc_Stdin c = special_payload (cc_CaseID item) (bc_Stdin requestCase) expected actual))"
  using assms
proof (induction xs arbitrary: index b acc)
  case (Cons x xs)
  obtain item requestCase expected actual where x: "x = (item, requestCase, expected, actual)" by (cases x)
  have shift: "(x # xs) ! (i - index) = xs ! (i - Suc index)" if "Suc index \<le> i" for i
    using that by (simp add: nth_Cons' Suc_diff_Suc)
  show ?case
  proof (cases "cc_Status item = StatusAccepted")
    case False
    then have "checker_cases sizes maxReq (Suc index) xs b acc = Inr acc'" using Cons.prems x by simp
    from Cons.IH [OF this] show ?thesis by (fastforce simp: shift)
  next
    case True
    then obtain cc b' where rest: "checker_cases sizes maxReq (Suc index) xs b' (acc @ [(cc, index)]) = Inr acc'"
      and cc: "bc_Stdin cc = special_payload (cc_CaseID item) (bc_Stdin requestCase) expected actual"
      using Cons.prems x by (auto simp: Let_def split: if_splits)
    from Cons.IH [OF rest] obtain new where new: "acc' = acc @ (cc, index) # new"
      "\<forall>(c, i) \<in> set new. Suc index \<le> i \<and> i < Suc index + length xs
        \<and> (case xs ! (i - Suc index) of (item, requestCase, expected, actual) \<Rightarrow>
             cc_Status item = StatusAccepted
             \<and> bc_Stdin c = special_payload (cc_CaseID item) (bc_Stdin requestCase) expected actual)"
      by auto
    show ?thesis
      by (rule exI [of _ "(cc, index) # new"]) (use new cc x True in \<open>fastforce simp: shift\<close>)
  qed
qed simp

lemma batch_attempts_events:
  "batch_attempts m n selector exec request lastR attempted s = (BatchEvents events, called, s') \<Longrightarrow>
   validateBatchEvents request events \<and> (\<exists>k a. exec k a = Inr events)"
proof (induction m n selector exec request lastR attempted s rule: batch_attempts.induct)
  case (2 m n selector exec request lastR attempted s)
  then show ?case
    by (auto split: option.splits prod.splits sum.splits rpc_error.splits grpc_code.splits if_splits)
qed (auto split: option.splits)

lemma executeBatch_events:
  "executeBatch n selector exec request s = (BatchEvents events, called, s') \<Longrightarrow>
   validateBatchEvents request events \<and> (\<exists>k a. exec k a = Inr events)"
  unfolding executeBatch_def by (rule batch_attempts_events)

lemma valid_events_count:
  assumes "validateBatchEvents request events" "\<not> br_StopOnFailure request" "length events = length (br_Cases request) + 1"
    "br_Cases request \<noteq> []"
  obtains es fin where "events = map Some es @ [Some fin]" "length es = length (br_Cases request)"
    "case_run False True (br_Cases request) es"
  using assms by (auto simp: validate_batch_iff case_stream_def)

text \<open>The case was put to the checker, which accepted it.\<close>

definition checker_accepts ::
  "(string \<Rightarrow> specialJudgeOutputV1 option) \<Rightarrow> batch_exec \<Rightarrow> string \<Rightarrow> bool" where
  "checker_accepts decode exec payload \<longleftrightarrow>
     (\<exists>k a request events j. exec 1 k a request = Inr events \<and> j < length (br_Cases request) \<and> j < length events
        \<and> bc_Stdin (br_Cases request ! j) = payload \<and> checker_said decode (events ! j) = Some True)"

lemma run_checker_result:
  assumes run: "run_checker p decode selector exec sj source acc result s = (Inr r, s')"
    and ok: "run_ok m 86400000 result" "length (cn_Cases result) = length (Cases m)" "cn_Cases result \<noteq> []"
    and acc: "distinct (map snd acc)" "\<forall>(c, i) \<in> set acc. i < length (cn_Cases result)"
      "\<And>i. i < length (cn_Cases result) \<Longrightarrow> cc_Status (cn_Cases result ! i) = StatusAccepted \<Longrightarrow> i \<in> snd ` set acc"
  shows "run_ok m 172800000 r \<and> length (cn_Cases r) = length (Cases m)
    \<and> (\<forall>i < length (Cases m). cc_Status (cn_Cases r ! i) = StatusAccepted \<longrightarrow>
         (\<exists>c. (c, i) \<in> set acc \<and> checker_accepts decode exec (bc_Stdin c)))
    \<and> (StatusCompileError \<in> cc_Status ` set (cn_Cases r) \<longrightarrow> StatusCompileError \<in> cc_Status ` set (cn_Cases result))"
proof (cases "acc = []")
  case True
  then have r: "r = recomputeCanonicalVerdict (result\<lparr>cn_Cases := cn_Cases result\<rparr>)"
    using run by (simp add: run_checker_def)
  have cases: "cn_Cases r = cn_Cases result"
    by (simp add: r recomputeCanonicalVerdict_def recompute_loop_eq)
  have "map cc_CaseID (cn_Cases result) = map case_ID (Cases m)" using ok by (simp add: run_ok_def)
  moreover have "case_bounds 172800000 c" if "c \<in> set (cn_Cases result)" for c
    using ok(1) that case_bounds_mono [of 86400000 c 172800000] by (simp add: run_ok_def)
  ultimately have "run_ok m 172800000 r"
    unfolding r using recompute_run_ok [OF ok(1,2,3)] by simp
  then show ?thesis using acc(3) True ok(2) by (auto simp: cases)
next
  case False
  let ?req = "checker_request sj source (map fst acc)"
  obtain events called s1 where
    eb: "executeBatch (bp_maxInfraAttempts p) selector (\<lambda>k a. exec 1 k a ?req) ?req s = (BatchEvents events, called, s1)"
    and len: "length events = length acc + 1"
    and app: "apply_checker_events decode (zip (butlast events) (map snd acc)) (cn_Cases result) = Inr (cn_Cases r)"
    and r: "r = recomputeCanonicalVerdict (result\<lparr>cn_Cases := cn_Cases r\<rparr>)"
    using run False
    by (auto simp: run_checker_def Let_def recomputeCanonicalVerdict_def recompute_loop_eq
        split: prod.splits batch_outcome.splits if_splits option.splits sum.splits)
  let ?evs = "zip (butlast events) (map snd acc)"
  have snds: "map snd ?evs = map snd acc" using len by simp
  then have snd_set: "snd ` set ?evs = snd ` set acc" by (metis set_map)
  note A = apply_checker_result [OF app, unfolded snds, OF acc(1), unfolded snd_set]
  have cases: "cc_CaseID (cn_Cases r ! i) = cc_CaseID (cn_Cases result ! i)
      \<and> case_bounds 172800000 (cn_Cases r ! i)
      \<and> (cc_Status (cn_Cases r ! i) = StatusCompileError \<longrightarrow> cc_Status (cn_Cases result ! i) = StatusCompileError)
      \<and> (cc_Status (cn_Cases r ! i) = StatusAccepted \<longrightarrow>
           (\<exists>c. (c, i) \<in> set acc \<and> checker_accepts decode exec (bc_Stdin c)))"
    if i: "i < length (cn_Cases result)" for i
  proof (cases "i \<in> snd ` set acc")
    case True
    then obtain j where j: "j < length acc" "snd (acc ! j) = i" by (auto simp: in_set_conv_nth)
    then have mem: "(events ! j, i) \<in> set ?evs"
      using len by (auto simp: in_set_zip nth_butlast intro!: exI [of _ j])
    then obtain a where a: "checker_said decode (events ! j) = Some a" "checked a (cn_Cases result ! i) (cn_Cases r ! i)"
      using A by blast
    have "case_bounds 86400000 (cn_Cases result ! i)" using ok(1) i by (simp add: run_ok_def)
    moreover have "checker_accepts decode exec (bc_Stdin (fst (acc ! j)))" if "a"
    proof -
      obtain k ad where "exec 1 k ad ?req = Inr events" using executeBatch_events [OF eb] by blast
      moreover have "br_Cases ?req = map fst acc" by (simp add: checker_request_def)
      ultimately show ?thesis
        unfolding checker_accepts_def using a(1) that j len
        by (intro exI [of _ k] exI [of _ ad] exI [of _ ?req] exI [of _ events] exI [of _ j]) simp
    qed
    moreover have "(fst (acc ! j), i) \<in> set acc" using j by (metis nth_mem prod.collapse)
    ultimately show ?thesis using a(2) by (auto simp: checked_def)
  next
    case False
    then have "cn_Cases r ! i = cn_Cases result ! i" using A i by blast
    then show ?thesis
      using False acc(3) [OF i] ok(1) i case_bounds_mono [of 86400000 "cn_Cases result ! i" 172800000]
      by (auto simp: run_ok_def)
  qed
  have len_r: "length (cn_Cases r) = length (cn_Cases result)" using A by blast
  have "map cc_CaseID (cn_Cases r) = map cc_CaseID (cn_Cases result)"
    by (rule nth_equalityI) (use len_r cases in auto)
  moreover have "map cc_CaseID (cn_Cases result) = map case_ID (Cases m)" using ok by (simp add: run_ok_def)
  moreover have ce: "StatusCompileError \<in> cc_Status ` set (cn_Cases r) \<Longrightarrow> StatusCompileError \<in> cc_Status ` set (cn_Cases result)"
    using cases len_r by (auto simp: in_set_conv_nth image_iff Bex_def)
  ultimately have "run_ok m 172800000 (recomputeCanonicalVerdict (result\<lparr>cn_Cases := cn_Cases r\<rparr>))"
    by (intro recompute_run_ok [OF ok(1)])
      (use ok(2,3) len_r cases in \<open>auto simp: in_set_conv_nth image_iff Bex_def\<close>)
  then show ?thesis using r cases len_r ok(2) ce by auto
qed

end
