(* ===== verification/Batch_Judge.thy ===== *)
theory Batch_Judge
  imports Batch_Verdict
begin

text \<open>
  The whole of \<open>ExecuteCanonical\<close>: scoring on top of a run, what an accepted verdict says about the cases,
  and that a result satisfies the callback contract.
\<close>

section \<open>Scoring\<close>

definition scored_case :: "CanonicalCaseResult \<Rightarrow> Case \<Rightarrow> CanonicalCaseResult" where
  "scored_case c t = c\<lparr>cc_Score := Some (if cc_Status c = StatusAccepted then case_Weight t else 0),
     cc_MaxScore := Some (case_Weight t)\<rparr>"

definition earned :: "CanonicalCaseResult list \<Rightarrow> Case list \<Rightarrow> int" where
  "earned cs ts = sum_list (map2 (\<lambda>c t. if cc_Status c = StatusAccepted then case_Weight t else 0) cs ts)"

lemma earned_simps [simp]:
  "earned [] ts = 0"
  "earned (c # cs) (t # ts) = (if cc_Status c = StatusAccepted then case_Weight t else 0) + earned cs ts"
  by (simp_all add: earned_def)

lemma earned_bounds:
  "length cs = length ts \<Longrightarrow> (\<And>t. t \<in> set ts \<Longrightarrow> case_ok mode t) \<Longrightarrow>
     0 \<le> earned cs ts \<and> earned cs ts \<le> weight_total ts
     \<and> (earned cs ts = weight_total ts \<longleftrightarrow> (\<forall>c \<in> set cs. cc_Status c = StatusAccepted))"
proof (induction cs ts rule: list_induct2)
  case (Cons c cs t ts)
  have "1 \<le> case_Weight t" using Cons.prems [of t] by (auto simp: case_ok_def dest: weight_ok_pos)
  with Cons show ?case by auto
qed simp

lemma score_cases_eq:
  assumes "length cs = length ts" "0 \<le> score" "score + weight_total ts \<le> maxTotalScore"
    "\<And>t. t \<in> set ts \<Longrightarrow> case_ok mode t"
  shows "score_cases cs ts score = Some (map2 scored_case cs ts, score + earned cs ts)"
  using assms
proof (induction cs ts arbitrary: score rule: list_induct2)
  case (Cons c cs t ts)
  have t: "1 \<le> case_Weight t" using Cons.prems(3) [of t] by (auto simp: case_ok_def dest: weight_ok_pos)
  have nn: "0 \<le> weight_total ts" using Cons.prems(3) weight_total_nonneg [of ts mode] by simp
  let ?s = "if cc_Status c = StatusAccepted then case_Weight t else 0"
  have "wrap64 (score + ?s) = score + ?s"
    by (rule wrap64_id) (use Cons.prems t nn in \<open>auto simp: in_int64_def maxTotalScore_def\<close>)
  then show ?case using Cons.IH [of "score + ?s"] Cons.prems t by (simp add: scored_case_def Let_def)
qed simp

text \<open>What \<open>ExecuteCanonical\<close> returns for a manifest, in terms of the run before scoring.\<close>

definition scored_run :: "Manifest \<Rightarrow> CanonicalResult \<Rightarrow> CanonicalResult" where
  "scored_run m r =
     (if m_JudgeMode m = JudgeModeOI then
        (let cs = cn_Cases r; score = earned cs (Cases m);
             r' = r\<lparr>cn_Cases := map2 scored_case cs (Cases m), cn_Score := Some score,
               cn_TotalScore := Some (weight_total (Cases m))\<rparr> in
         if cn_Status r = StatusCompileError then r'
         else if score = weight_total (Cases m) then r'\<lparr>cn_Status := StatusAccepted, cn_ExitCode := 0\<rparr>
         else r'\<lparr>cn_Status := StatusWrongAnswer\<rparr>)
      else r)"

lemma applyManifestScoring_eq:
  assumes "manifest_ok m" "run_ok m limit r"
  shows "applyManifestScoring m r = Some (scored_run m r)"
proof (cases "m_JudgeMode m = JudgeModeOI")
  case True
  have total: "TotalScore m = Some (weight_total (Cases m))" "weight_total (Cases m) \<le> maxTotalScore"
    "\<And>t. t \<in> set (Cases m) \<Longrightarrow> case_ok (m_JudgeMode m) t" using assms(1) True by (auto simp: manifest_ok_def)
  have "cn_Cases r = [] \<or> length (cn_Cases r) = length (Cases m)" using assms(2) True by (auto simp: run_ok_def)
  then have "score_cases (cn_Cases r) (Cases m) 0
      = Some (map2 scored_case (cn_Cases r) (Cases m), earned (cn_Cases r) (Cases m))"
    using score_cases_eq [of "cn_Cases r" "Cases m" 0] total by auto
  then show ?thesis using True total by (simp add: applyManifestScoring_def scored_run_def Let_def)
next
  case False
  then show ?thesis
    using assms(1) by (simp add: applyManifestScoring_def scored_run_def manifest_ok_def)
qed

lemma scored_accepted:
  assumes "manifest_ok m" "run_ok m limit r" "cn_Status (scored_run m r) = StatusAccepted"
  shows "length (cn_Cases r) = length (Cases m) \<and> (\<forall>c \<in> set (cn_Cases r). cc_Status c = StatusAccepted)"
proof (cases "m_JudgeMode m = JudgeModeOI")
  case True
  have nce: "cn_Status r \<noteq> StatusCompileError" and eq: "earned (cn_Cases r) (Cases m) = weight_total (Cases m)"
    using assms(3) True by (auto simp: scored_run_def Let_def split: if_splits)
  have ne: "cn_Cases r \<noteq> []" using nce assms(2) by (auto simp: run_ok_def)
  then have len: "length (cn_Cases r) = length (Cases m)" using assms(2) True by (auto simp: run_ok_def)
  then show ?thesis
    using earned_bounds [OF len, of "m_JudgeMode m"] eq assms(1) by (auto simp: manifest_ok_def)
next
  case False
  then have acc: "cn_Status r = StatusAccepted" using assms(3) by (simp add: scored_run_def)
  then have "cn_Cases r \<noteq> []" using assms(2) by (auto simp: run_ok_def)
  then show ?thesis using acc assms(2) overall_accepted [of "map cc_Status (cn_Cases r)"] by (auto simp: run_ok_def)
qed

section \<open>Preparing the request\<close>

definition case_input :: "CaseArtifact \<Rightarrow> Case \<Rightarrow> string" where
  "case_input artifact t = fst (the (ca_ReadCase artifact t))"

definition case_expected :: "CaseArtifact \<Rightarrow> Case \<Rightarrow> string" where
  "case_expected artifact t = snd (the (ca_ReadCase artifact t))"

lemma prepare_cases_result:
  assumes "prepare_cases sizes checker (ca_ReadCase artifact) maxReq maxCheck ts b retained cases checks = Inr (cases', checks')"
  shows "(\<forall>t \<in> set ts. ca_ReadCase artifact t \<noteq> None)
    \<and> cases' = cases @ map (\<lambda>t. sandbox_case checker t (case_input artifact t) (case_expected artifact t)) ts
    \<and> checks' = checks @ map (\<lambda>t. expected_check checker (case_expected artifact t)) ts"
  using assms
proof (induction ts arbitrary: b retained cases checks)
  case (Cons t ts)
  obtain input expected where read: "ca_ReadCase artifact t = Some (input, expected)"
    using Cons.prems by (auto split: option.splits)
  then obtain b' retained' where "prepare_cases sizes checker (ca_ReadCase artifact) maxReq maxCheck ts b' retained'
      (cases @ [sandbox_case checker t input expected]) (checks @ [expected_check checker expected]) = Inr (cases', checks')"
    using Cons.prems by (auto simp: Let_def split: if_splits)
  from Cons.IH [OF this] read show ?case by (simp add: case_input_def case_expected_def)
qed simp

lemma prepared_request_for:
  assumes "cases = map (\<lambda>t. sandbox_case (m_Checker m) t (f t) (g t)) (Cases m)" "checks = map h (Cases m)"
  shows "request_for m checks (contestant_request input m cases)"
  using assms by (auto simp: request_for_def contestant_request_def sandbox_case_def)

section \<open>What a result says\<close>

text \<open>
  \<open>case_proof\<close>: the sandbox ran the case on the bundle's input and reported success, and the output was
  accepted by the checker of the manifest.
\<close>

definition case_proof ::
  "(string \<Rightarrow> specialJudgeOutputV1 option) \<Rightarrow> batch_exec \<Rightarrow> CaseArtifact \<Rightarrow> ExecuteBatchV1Request
     \<Rightarrow> ExecuteBatchV1Event option list \<Rightarrow> nat \<Rightarrow> bool" where
  "case_proof decode exec artifact request events i \<longleftrightarrow>
     (\<exists>e r. events ! i = Some e \<and> ev_Result e = Some r \<and> er_Status r = ''Accepted''
       \<and> (let m = ca_Manifest artifact; t = Cases m ! i; checker = m_Checker m in
          ca_ReadCase artifact t \<noteq> None
          \<and> ev_CaseId e = case_ID t
          \<and> bc_Stdin (br_Cases request ! i) = case_input artifact t
          \<and> (if checker = CheckerSpecial
             then checker_accepts decode exec
               (special_payload (case_ID t) (case_input artifact t) (case_expected artifact t) (er_Stdout r))
             else outputMatchesExpectedCheck checker (er_Stdout r) (expected_check checker (case_expected artifact t)))))"

lemma applySpecialJudge_result:
  assumes app: "applySpecialJudge p sizes decode selector exec artifact request checks outputs result s = (Inr r, s')"
    and ok: "run_ok (ca_Manifest artifact) 86400000 result"
  defines "m \<equiv> ca_Manifest artifact"
  assumes ne: "cn_Cases result \<noteq> []"
  shows "run_ok m 172800000 r \<and> (\<forall>i < length (Cases m). cc_Status (cn_Cases r ! i) = StatusAccepted \<longrightarrow>
      cc_Status (cn_Cases result ! i) = StatusAccepted
      \<and> checker_accepts decode exec
           (special_payload (cc_CaseID (cn_Cases result ! i)) (bc_Stdin (br_Cases request ! i)) (checks ! i) (outputs ! i)))
    \<and> (StatusCompileError \<in> cc_Status ` set (cn_Cases r) \<longrightarrow> StatusCompileError \<in> cc_Status ` set (cn_Cases result))"
proof -
  let ?xs = "zip (cn_Cases result) (zip (br_Cases request) (zip checks outputs))"
  obtain sj source acc where len: "length (cn_Cases result) = length (Cases m)" "length (br_Cases request) = length (Cases m)"
      "length checks = length (Cases m)" "length outputs = length (Cases m)"
    and cc: "checker_cases sizes (maxBatchRequestBytes p) 0 ?xs (ps_request sizes (checker_request sj source [])) [] = Inr acc"
    and run: "run_checker p decode selector exec sj source acc result s = (Inr r, s')"
    using app by (auto simp: applySpecialJudge_def Let_def m_def split: option.splits if_splits sum.splits)
  have xs: "length ?xs = length (Cases m)" using len by simp
  have I: "distinct (map snd acc)" "\<forall>i \<in> set (map snd acc). i < length (Cases m)"
      "\<forall>j < length (Cases m). cc_Status (cn_Cases result ! j) = StatusAccepted \<longrightarrow> j \<in> snd ` set acc"
    using checker_cases_indices [OF cc] xs len by auto
  have P: "cc_Status (cn_Cases result ! i) = StatusAccepted \<and> i < length (Cases m)
      \<and> bc_Stdin c = special_payload (cc_CaseID (cn_Cases result ! i)) (bc_Stdin (br_Cases request ! i)) (checks ! i) (outputs ! i)"
    if "(c, i) \<in> set acc" for c i
    using checker_cases_payload [OF cc] that xs len by fastforce
  have "run_ok m 172800000 r \<and> length (cn_Cases r) = length (Cases m)
    \<and> (\<forall>i < length (Cases m). cc_Status (cn_Cases r ! i) = StatusAccepted \<longrightarrow>
         (\<exists>c. (c, i) \<in> set acc \<and> checker_accepts decode exec (bc_Stdin c)))
    \<and> (StatusCompileError \<in> cc_Status ` set (cn_Cases r) \<longrightarrow> StatusCompileError \<in> cc_Status ` set (cn_Cases result))"
    by (rule run_checker_result [OF run]) (use ok ne len I in \<open>auto simp: m_def\<close>)
  with P show ?thesis by metis
qed

lemma finish_scoring_run:
  "manifest_ok m \<Longrightarrow> run_ok m limit r \<Longrightarrow> finish_scoring m (Inr r, s) = (Inr (scored_run m r), s)"
  by (simp add: finish_scoring_def applyManifestScoring_eq)

lemma run_ok_not_system: "run_ok m limit r \<Longrightarrow> durableVerdict (cn_Status r)"
  using durable_overall [of "map cc_Status (cn_Cases r)"]
  by (auto simp: run_ok_def case_bounds_def durableVerdict_def split: if_splits)

lemma run_all_accepted:
  assumes "run_ok m limit r" "manifest_ok m" "length (cn_Cases r) = length (Cases m)"
    "\<And>c. c \<in> set (cn_Cases r) \<Longrightarrow> cc_Status c = StatusAccepted"
  shows "cn_Status r = StatusAccepted"
proof -
  have "cn_Cases r \<noteq> []" using assms(2,3) by (auto simp: manifest_ok_def)
  then have "cn_Status r = overall (map cc_Status (cn_Cases r))" using assms(1) by (simp add: run_ok_def)
  also have "\<dots> = StatusAccepted" using assms(4) by (simp add: overall_accepted)
  finally show ?thesis .
qed

lemma run_ok_mono: "run_ok m l r \<Longrightarrow> l \<le> l' \<Longrightarrow> run_ok m l' r"
  unfolding run_ok_def using case_bounds_mono [of l _ l'] by auto

lemma judge_compile_event:
  assumes m: "manifest_ok (ca_Manifest artifact)" and e: "compile_event e"
  shows "\<exists>r. run_ok (ca_Manifest artifact) 172800000 r \<and> cn_Cases r = [] \<and> cn_Status r = StatusCompileError
    \<and> judge_events p sizes decode selector exec artifact request checks [Some e] s
      = (Inr (scored_run (ca_Manifest artifact) r), s)"
proof -
  let ?r = "blank_canonical\<lparr>cn_Status := StatusCompileError, cn_CompileError := redacted, cn_Stderr := ''compilation failed''\<rparr>"
  have "aggregateBatchResult (m_Checker (ca_Manifest artifact)) checks [Some e] = Some (?r, [])"
    using e by (simp add: aggregateBatchResult_def compile_event_def)
  moreover have "run_ok (ca_Manifest artifact) 172800000 ?r" by (rule compile_result_ok) simp
  ultimately show ?thesis
    using m by (intro exI [of _ ?r]) (simp add: judge_events_def finish_scoring_run blank_canonical_def)
qed

text \<open>The contestant's cases as prepared from the bundle.\<close>

definition prepared :: "CaseArtifact \<Rightarrow> ExecuteBatchV1Request \<Rightarrow> string list \<Rightarrow> bool" where
  "prepared artifact request checks \<longleftrightarrow>
     (let m = ca_Manifest artifact; checker = m_Checker m in
      request_for m checks request
      \<and> (\<forall>t \<in> set (Cases m). ca_ReadCase artifact t \<noteq> None)
      \<and> br_Cases request = map (\<lambda>t. sandbox_case checker t (case_input artifact t) (case_expected artifact t)) (Cases m)
      \<and> checks = map (\<lambda>t. expected_check checker (case_expected artifact t)) (Cases m))"

lemma case_proof_intro:
  assumes prep: "prepared artifact request checks" and stream: "case_stream request events es"
    and i: "i < length (Cases (ca_Manifest artifact))" "length es = length (Cases (ca_Manifest artifact))"
    and acc: "case_verdict (m_Checker (ca_Manifest artifact)) (checks ! i) (ev_response (es ! i)) = StatusAccepted"
    and special: "m_Checker (ca_Manifest artifact) = CheckerSpecial \<Longrightarrow>
      checker_accepts decode exec (special_payload (ev_CaseId (es ! i)) (bc_Stdin (br_Cases request ! i)) (checks ! i)
        (er_Stdout (ev_response (es ! i))))"
  shows "case_proof decode exec artifact request events i"
proof -
  let ?m = "ca_Manifest artifact" and ?e = "es ! i"
  from stream obtain fin where ev: "events = map Some es @ [Some fin]"
    and run: "case_run (br_StopOnFailure request) True (br_Cases request) es" by (auto simp: case_stream_def)
  have mem: "?e \<in> set es" using i by simp
  note known = case_run_events [OF run mem]
  then obtain r where r: "ev_Result ?e = Some r" "ev_response ?e = r" by (auto simp: ev_response_def)
  have status: "er_Status r = ''Accepted''"
    "m_Checker ?m = CheckerSpecial \<or> outputMatchesExpectedCheck (m_Checker ?m) (er_Stdout r) (checks ! i)"
    using acc known case_verdict_accepted [of r "m_Checker ?m" "checks ! i"] r by auto
  have req: "br_Cases request ! i = sandbox_case (m_Checker ?m) (Cases ?m ! i) (case_input artifact (Cases ?m ! i))
      (case_expected artifact (Cases ?m ! i))"
    "checks ! i = expected_check (m_Checker ?m) (case_expected artifact (Cases ?m ! i))"
    "ca_ReadCase artifact (Cases ?m ! i) \<noteq> None" "length (br_Cases request) = length (Cases ?m)"
    using prep i(1) by (simp_all add: prepared_def Let_def)
  have "map ev_CaseId es ! i = map bc_CaseId (take (length es) (br_Cases request)) ! i"
    using case_run_ids [OF run] by simp
  then have id: "ev_CaseId ?e = case_ID (Cases ?m ! i)" using i req by (simp add: sandbox_case_def)
  show ?thesis
    unfolding case_proof_def
    by (rule exI [of _ ?e], rule exI [of _ r])
      (use ev i r status req id special in \<open>auto simp: Let_def nth_append sandbox_case_def expected_check_def split: if_splits\<close>)
qed

text \<open>A case event, rather than the single compile event, reports a compilation failure.\<close>

definition compile_case :: "ExecuteBatchV1Event option list \<Rightarrow> bool" where
  "compile_case events \<longleftrightarrow> (\<exists>e. Some e \<in> set events \<and> ev_Kind e = CASE_RESULT \<and> er_Status (ev_response e) = ''Compile Error'')"

lemma judged_compile:
  assumes "case_stream request events es" "StatusCompileError \<in> cc_Status ` set (map2 (judged_case checker) es ks)"
  shows "compile_case events"
proof -
  obtain e k where e: "e \<in> set es" "case_verdict checker k (ev_response e) = StatusCompileError"
    using assms(2) by (auto dest: set_zip_leftD) (metis set_zip_leftD)
  have "case_run (br_StopOnFailure request) True (br_Cases request) es" "Some e \<in> set events"
    using assms(1) e(1) by (auto simp: case_stream_def)
  moreover have "ev_Kind e = CASE_RESULT" using case_run_kinds [OF calculation(1) e(1)] .
  ultimately show ?thesis
    using e(2) by (auto simp: compile_case_def case_verdict_def mapBundleStatus_def mapCallbackStatus_def split: if_splits)
qed

lemma judge_case_stream:
  assumes m: "manifest_ok (ca_Manifest artifact)" and prep: "prepared artifact request checks"
    and stream: "case_stream request events es"
    and judge: "judge_events p sizes decode selector exec artifact request checks events s = (Inr r', s')"
  obtains r where "run_ok (ca_Manifest artifact) 172800000 r" "r' = scored_run (ca_Manifest artifact) r"
    "length (cn_Cases r) = length (Cases (ca_Manifest artifact)) \<Longrightarrow>
       (\<And>c. c \<in> set (cn_Cases r) \<Longrightarrow> cc_Status c = StatusAccepted) \<Longrightarrow>
       \<forall>i < length (Cases (ca_Manifest artifact)). case_proof decode exec artifact request events i"
    "StatusCompileError \<in> cc_Status ` set (cn_Cases r) \<Longrightarrow> compile_case events"
proof -
  let ?m = "ca_Manifest artifact"
  have req: "request_for ?m checks request" using prep unfolding prepared_def Let_def by blast
  obtain result where agg: "aggregateBatchResult (m_Checker ?m) checks events
      = Some (result, map (\<lambda>e. er_Stdout (ev_response e)) es)"
    and cases: "cn_Cases result = map2 (judged_case (m_Checker ?m)) es checks" and ok: "run_ok ?m 86400000 result"
    using aggregate_stream [OF req stream] by blast
  have len: "length checks = length (Cases ?m)" "length es \<le> length (Cases ?m)"
    using req request_for_length [OF req] stream case_run_length [of "br_StopOnFailure request" True "br_Cases request" es]
    by (simp_all add: request_for_def case_stream_def)
  have ns: "cn_Status result \<noteq> StatusSystemError" using run_ok_not_system [OF ok] by (auto simp: durableVerdict_def)
  have ce: "StatusCompileError \<in> cc_Status ` set (cn_Cases result) \<Longrightarrow> compile_case events"
    using judged_compile [OF stream, of "m_Checker ?m" checks] cases by simp
  show ?thesis
  proof (cases "m_Checker ?m = CheckerSpecial \<and> cn_Status result \<noteq> StatusCompileError")
    case False
    have r': "r' = scored_run ?m result"
      using judge agg ns False finish_scoring_run [OF m ok, of s] by (auto simp: judge_events_def split: if_splits)
    show ?thesis
    proof (rule that [OF run_ok_mono [OF ok] r'])
      assume full: "length (cn_Cases result) = length (Cases ?m)"
        and acc: "\<And>c. c \<in> set (cn_Cases result) \<Longrightarrow> cc_Status c = StatusAccepted"
      then have es: "length es = length (Cases ?m)" using cases len by simp
      have "cn_Status result \<noteq> StatusCompileError"
        using run_all_accepted [OF ok m full acc] by simp
      then have ns: "m_Checker ?m \<noteq> CheckerSpecial" using False by blast
      show "\<forall>i < length (Cases ?m). case_proof decode exec artifact request events i"
      proof (intro allI impI)
        fix i assume i: "i < length (Cases ?m)"
        then have "cc_Status (cn_Cases result ! i) = StatusAccepted" using acc full by simp
        then have "case_verdict (m_Checker ?m) (checks ! i) (ev_response (es ! i)) = StatusAccepted"
          using cases i es len by simp
        then show "case_proof decode exec artifact request events i"
          using case_proof_intro [OF prep stream i es] ns by blast
      qed
    qed (use ce in simp_all)
  next
    case True
    let ?outs = "map (\<lambda>e. er_Stdout (ev_response e)) es"
    obtain r where app: "applySpecialJudge p sizes decode selector exec artifact request checks ?outs result s = (Inr r, s')"
      and sc: "applyManifestScoring ?m r = Some r'"
      using judge agg ns True
      by (auto simp: judge_events_def finish_scoring_def split: prod.splits sum.splits option.splits)
    have ne: "cn_Cases result \<noteq> []" using True ok by (auto simp: run_ok_def)
    note R = applySpecialJudge_result [OF app ok ne]
    have es: "length es = length (Cases ?m)" using cases len ok True ne by (auto simp: run_ok_def)
    have r': "r' = scored_run ?m r" using applyManifestScoring_eq [OF m conjunct1 [OF R]] sc by simp
    show ?thesis
    proof (rule that [OF conjunct1 [OF R] r'], intro allI impI)
      fix i assume full: "length (cn_Cases r) = length (Cases ?m)"
        and acc: "\<And>c. c \<in> set (cn_Cases r) \<Longrightarrow> cc_Status c = StatusAccepted" and i: "i < length (Cases ?m)"
      then have "cc_Status (cn_Cases r ! i) = StatusAccepted" by simp
      then show "case_proof decode exec artifact request events i"
        using case_proof_intro [OF prep stream i es] R i cases es len by simp
    qed (use R ce in blast)
  qed
qed

lemma ExecuteCanonical_result:
  assumes "ExecuteCanonical p sizes decode selector exec input artifact s = (Inr r', s')"
  obtains r where "manifest_ok (ca_Manifest artifact)" "length (Cases (ca_Manifest artifact)) \<le> 256"
    "run_ok (ca_Manifest artifact) 172800000 r" "r' = scored_run (ca_Manifest artifact) r"
    "cn_Status r' = StatusAccepted \<Longrightarrow>
       \<exists>k a request events. exec 0 k a request = Inr events \<and> br_SourceCode request = ce_SourceCode input
         \<and> (\<forall>i < length (Cases (ca_Manifest artifact)). case_proof decode exec artifact request events i)"
    "StatusCompileError \<in> cc_Status ` set (cn_Cases r) \<Longrightarrow> \<exists>k a request events. exec 0 k a request = Inr events \<and> compile_case events"
proof -
  let ?m = "ca_Manifest artifact"
  have m: "manifest_ok ?m" and n: "length (Cases ?m) \<le> 256"
    using assms by (auto simp: ExecuteCanonical_def Let_def Validate_spec maxSandboxBatchCasesV1_def split: if_splits)
  obtain cases checks events called s1 where
    prep: "prepare_cases sizes (m_Checker ?m) (ca_ReadCase artifact) (maxBatchRequestBytes p) (max_check_bytes p)
        (Cases ?m) (ps_request sizes (contestant_request input ?m [])) 0 [] [] = Inr (cases, checks)"
    and eb: "executeBatch (bp_maxInfraAttempts p) selector (\<lambda>k a. exec 0 k a (contestant_request input ?m cases))
        (contestant_request input ?m cases) s = (BatchEvents events, called, s1)"
    and judge: "judge_events p sizes decode selector exec artifact (contestant_request input ?m cases) checks events s1 = (Inr r', s')"
    using assms by (auto simp: ExecuteCanonical_def Let_def split: if_splits sum.splits prod.splits batch_outcome.splits)
  let ?req = "contestant_request input ?m cases"
  note P = prepare_cases_result [OF prep, simplified]
  have req: "request_for ?m checks ?req" by (rule prepared_request_for) (use P in auto)
  have pr: "prepared artifact ?req checks"
    using P req by (simp add: prepared_def Let_def) (simp add: contestant_request_def)
  obtain k a where valid: "validateBatchEvents ?req events" and ex: "exec 0 k a ?req = Inr events"
    using executeBatch_events [OF eb] by blast
  from valid consider e where "events = [Some e]" "compile_event e" | es where "case_stream ?req events es"
    unfolding validate_batch_iff by blast
  then show ?thesis
  proof cases
    case 1
    from judge_compile_event [OF m 1(2), of p sizes decode selector exec ?req checks s1] judge 1(1) obtain r where
      r: "run_ok ?m 172800000 r" "cn_Cases r = []" "cn_Status r = StatusCompileError" "r' = scored_run ?m r" by auto
    then have "cn_Status r' \<noteq> StatusAccepted" by (simp add: scored_run_def Let_def)
    with that [OF m n r(1,4)] r(2) show ?thesis by auto
  next
    case 2
    from judge_case_stream [OF m pr 2 judge] obtain r where
      r: "run_ok ?m 172800000 r" "r' = scored_run ?m r"
      and proofs: "length (cn_Cases r) = length (Cases ?m) \<Longrightarrow> (\<And>c. c \<in> set (cn_Cases r) \<Longrightarrow> cc_Status c = StatusAccepted)
        \<Longrightarrow> \<forall>i < length (Cases ?m). case_proof decode exec artifact ?req events i"
      and ce: "StatusCompileError \<in> cc_Status ` set (cn_Cases r) \<Longrightarrow> compile_case events" by blast
    show ?thesis
    proof (rule that [OF m n r])
      assume "cn_Status r' = StatusAccepted"
      with scored_accepted [OF m r(1)] r(2) proofs
      have "\<forall>i < length (Cases ?m). case_proof decode exec artifact ?req events i" by blast
      with ex show "\<exists>k a request events. exec 0 k a request = Inr events \<and> br_SourceCode request = ce_SourceCode input
         \<and> (\<forall>i < length (Cases ?m). case_proof decode exec artifact request events i)"
        by (intro exI [of _ k] exI [of _ a] exI [of _ ?req] exI [of _ events]) (simp add: contestant_request_def)
    qed (use ex ce in blast)
  qed
qed

end
