(* ===== verification/Worker_Runner.thy ===== *)
theory Worker_Runner
  imports Batch_Judge Job_Store
begin

text \<open>
  The durable worker (internal/worker/runner.go): one claimed job is loaded, executed by the canonical
  pipeline and settled by a fenced transaction. The two monitoring loops contribute one value, the
  outcome of \<open>monitorClaim\<close>; the database of the settling transaction is an argument of its own since
  other transactions run while the sandbox works.
\<close>

section \<open>Durable results\<close>

definition max_memory_kb :: int where "max_memory_kb = 9007199254740991"

definition validCanonicalScorePair :: "int option \<Rightarrow> int option \<Rightarrow> bool" where
  "validCanonicalScorePair score maximum =
     (if (score = None) \<noteq> (maximum = None) then False
      else case (score, maximum) of
        (Some s, Some m) \<Rightarrow> m > 0 \<and> m \<le> 1000000000 \<and> s \<ge> 0 \<and> s \<le> m
      | _ \<Rightarrow> True)"

definition durable_case :: "CanonicalCaseResult \<Rightarrow> DurableCaseResult" where
  "durable_case item =
     \<lparr>dc_CaseID = cc_CaseID item, dc_Verdict = status_text (cc_Status item), dc_TimeMillis = cc_TimeUsedMillis item,
      dc_MemoryBytes = cc_MemoryUsedKB item * 1024, dc_Score = cc_Score item, dc_MaxScore = cc_MaxScore item\<rparr>"

fun durable_cases :: "CanonicalCaseResult list \<Rightarrow> DurableCaseResult list option" where
  "durable_cases [] = Some []"
| "durable_cases (item # rest) =
     (if cc_CaseID item = [] \<or> \<not> durableVerdict (cc_Status item) \<or> cc_TimeUsedMillis item < 0
         \<or> cc_MemoryUsedKB item < 0 \<or> cc_MemoryUsedKB item > max_memory_kb then None
      else if \<not> validCanonicalScorePair (cc_Score item) (cc_MaxScore item) then None
      else case durable_cases rest of None \<Rightarrow> None | Some ds \<Rightarrow> Some (durable_case item # ds))"

definition durableResult :: "CanonicalResult \<Rightarrow> DurableJobResult option" where
  "durableResult r =
     (if \<not> durableVerdict (cn_Status r) \<or> cn_TimeUsedMillis r < 0 \<or> cn_MemoryUsedKB r < 0
         \<or> cn_MemoryUsedKB r > max_memory_kb then None
      else if \<not> validCanonicalScorePair (cn_Score r) (cn_TotalScore r) then None
      else case durable_cases (cn_Cases r) of
        None \<Rightarrow> None
      | Some cases \<Rightarrow>
          let durable = \<lparr>dr_Verdict = status_text (cn_Status r),
                dr_CompileStatus = (if cn_Status r = StatusCompileError then ''FAILED'' else ''SUCCEEDED''),
                dr_TimeMillis = cn_TimeUsedMillis r, dr_MemoryBytes = cn_MemoryUsedKB r * 1024,
                dr_Score = cn_Score r, dr_TotalScore = cn_TotalScore r, dr_Cases = cases\<rparr> in
          if validateDurableJobResult durable then Some durable else None)"

section \<open>The runner\<close>

record runner_config =
  rc_LeaseDuration :: int
  rc_HeartbeatInterval :: int
  rc_ControlPollInterval :: int
  rc_RetryDelay :: int

definition NewRunner :: "runner_config \<Rightarrow> runner_config option" where
  "NewRunner config =
     (if rc_LeaseDuration config \<le> 0 \<or> rc_LeaseDuration config > 900000
         \<or> rc_HeartbeatInterval config \<le> 0 \<or> rc_HeartbeatInterval config \<ge> rc_LeaseDuration config
         \<or> rc_ControlPollInterval config \<le> 0 \<or> rc_ControlPollInterval config \<ge> rc_LeaseDuration config
         \<or> rc_RetryDelay config < 0 \<or> rc_RetryDelay config > 3600000
      then None else Some config)"

datatype control_outcome = ControlQuiet | CancellationRequested | ControlFailed job_error

datatype exec_failure = ExecStale | ExecContextCanceled | ExecTenantChecker | ExecOther

datatype runner_outcome = RunnerNil | RunnerContext | RunnerError job_error

definition stale_ok :: "job_error + 'd \<Rightarrow> 'd \<Rightarrow> runner_outcome \<times> 'd" where
  "stale_ok r d =
     (case r of
        Inr d' \<Rightarrow> (RunnerNil, d')
      | Inl e \<Rightarrow> if e = JobState ErrStaleJobClaim then (RunnerNil, d) else (RunnerError e, d))"

definition failInfrastructure ::
  "runner_config \<Rightarrow> finish_env \<Rightarrow> WorkerJobClaim \<Rightarrow> string \<Rightarrow> bool \<Rightarrow> bool \<Rightarrow> db \<Rightarrow> runner_outcome \<times> db" where
  "failInfrastructure config env claim code chargeFull permanent d =
     stale_ok (bind_result (job_FailInfrastructure env claim
         \<lparr>if_Code = code, if_RetryDelay = rc_RetryDelay config, if_ChargeFullReservation = chargeFull,
          if_Permanent = permanent\<rparr> d) (\<lambda>(_, d'). Inr d')) d"

definition runner_complete ::
  "runner_config \<Rightarrow> finish_env \<Rightarrow> WorkerJobClaim \<Rightarrow> CanonicalResult \<Rightarrow> db \<Rightarrow> runner_outcome \<times> db" where
  "runner_complete config env claim result d =
     (case durableResult result of
        None \<Rightarrow> failInfrastructure config env claim ''INVALID_EXECUTION_RESULT'' False False d
      | Some durable \<Rightarrow> stale_ok (job_Complete env claim durable d) d)"

definition placeholder_result :: DurableJobResult where
  "placeholder_result = \<lparr>dr_Verdict = status_text StatusAccepted, dr_CompileStatus = ''SUCCEEDED'', dr_TimeMillis = 0,
     dr_MemoryBytes = 0, dr_Score = None, dr_TotalScore = None, dr_Cases = []\<rparr>"

definition completeCancellation :: "finish_env \<Rightarrow> WorkerJobClaim \<Rightarrow> db \<Rightarrow> runner_outcome \<times> db" where
  "completeCancellation env claim d = stale_ok (job_Complete env claim placeholder_result d) d"

text \<open>
  \<open>executeControlled\<close>: the failure code with the class of the error, or the result. \<open>openMetadata\<close> is
  the bundle provider (\<open>Inl True\<close> for an invalid bundle), \<open>core\<close> the canonical pipeline.
\<close>

definition job_failure :: "job_error \<Rightarrow> exec_failure" where
  "job_failure e = (if e = JobState ErrStaleJobClaim then ExecStale else ExecOther)"

definition canonical_failure :: "canonical_error \<Rightarrow> exec_failure" where
  "canonical_failure e = (case e of TenantCheckerFailure _ \<Rightarrow> ExecTenantChecker | _ \<Rightarrow> ExecOther)"

definition executeControlled ::
  "(WorkerJobClaim \<Rightarrow> job_error + WorkerExecutionInput) \<Rightarrow> (WorkerBundleInput \<Rightarrow> bool + CaseArtifact)
     \<Rightarrow> (CanonicalExecutionRequest \<Rightarrow> CaseArtifact \<Rightarrow> canonical_error + CanonicalResult)
     \<Rightarrow> WorkerJobClaim \<Rightarrow> (string \<times> exec_failure) + CanonicalResult" where
  "executeControlled load openMetadata core claim =
     (case load claim of
        Inl e \<Rightarrow> Inl (''LOAD_EXECUTION_INPUT_FAILED'', job_failure e)
      | Inr input \<Rightarrow>
          (case openMetadata (wi_Bundle input) of
             Inl invalid \<Rightarrow> Inl (if invalid then ''LOAD_BUNDLE_INVALID'' else ''LOAD_BUNDLE_FAILED'', ExecOther)
           | Inr artifact \<Rightarrow>
               (case core \<lparr>ce_Language = wi_Language input, ce_SourceCode = wi_SourceCode input,
                       ce_StopOnFailure = wi_StopOnFailure input\<rparr> artifact of
                  Inl e \<Rightarrow> Inl (''SANDBOX_EXECUTION_FAILED'', canonical_failure e)
                | Inr result \<Rightarrow> Inr result)))"

text \<open>\<open>ctxDone\<close> says that the worker's own context has ended.\<close>

definition ExecuteClaim ::
  "runner_config \<Rightarrow> finish_env \<Rightarrow> bool \<Rightarrow> control_outcome \<Rightarrow> (string \<times> exec_failure) + CanonicalResult
     \<Rightarrow> WorkerJobClaim \<Rightarrow> db \<Rightarrow> runner_outcome \<times> db" where
  "ExecuteClaim config env ctxDone control execution claim d =
     (case control of
        CancellationRequested \<Rightarrow> completeCancellation env claim d
      | ControlFailed e \<Rightarrow>
          if ctxDone then (RunnerContext, d)
          else if e = JobState ErrStaleJobClaim then (RunnerNil, d)
          else failInfrastructure config env claim ''LEASE_CONTROL_FAILED'' False False d
      | ControlQuiet \<Rightarrow>
          (case execution of
             Inr result \<Rightarrow> runner_complete config env claim result d
           | Inl (code, failure) \<Rightarrow>
               if failure = ExecStale then (RunnerNil, d)
               else if failure = ExecContextCanceled \<and> ctxDone then (RunnerContext, d)
               else
                 let tenant = (failure = ExecTenantChecker) in
                 failInfrastructure config env claim (if tenant then ''TENANT_CHECKER_FAILED'' else code) tenant tenant d))"

section \<open>The settling step\<close>

lemma stale_ok_db: "stale_ok r d = (out, d') \<Longrightarrow> d' = d \<or> r = Inr d'"
  by (auto simp: stale_ok_def split: sum.splits if_splits)

lemma failInfrastructure_step: "failInfrastructure config env claim code full perm d = (out, d') \<Longrightarrow> d' = d \<or> store_step d d'"
  unfolding failInfrastructure_def by (drule stale_ok_db) (auto simp: bind_result_Inr_iff intro: store_fail)

lemma ExecuteClaim_step:
  "ExecuteClaim config env ctxDone control execution claim d = (out, d') \<Longrightarrow> d' = d \<or> store_step d d'"
  by (auto simp: ExecuteClaim_def completeCancellation_def runner_complete_def Let_def
      split: control_outcome.splits sum.splits option.splits if_splits
      dest!: stale_ok_db failInfrastructure_step intro: store_complete)

section \<open>Results of the pipeline are durable\<close>

lemma status_text_accepted: "durableVerdict s \<Longrightarrow> status_text s = ''ACCEPTED'' \<longleftrightarrow> s = StatusAccepted"
  by (auto simp: durableVerdict_def status_text_def)

lemma status_text_plain: "durableVerdict s \<Longrightarrow> \<not> blank (status_text s) \<and> length (status_text s) \<le> 64"
  by (auto simp: durableVerdict_def status_text_def blank_def dest!: TrimSpace_graph_ne [THEN notE, rotated] simp: graph_def)

lemma compile_text_plain [simp]: "\<not> blank ''FAILED''" "\<not> blank ''SUCCEEDED''"
  by (simp_all add: blank_def TrimSpace_graph_ne graph_def)

text \<open>The conditions \<open>durableResult\<close> puts on one case.\<close>

definition case_durable :: "CanonicalCaseResult \<Rightarrow> bool" where
  "case_durable c \<longleftrightarrow> caseIDPattern (cc_CaseID c) \<and> durableVerdict (cc_Status c)
     \<and> 0 \<le> cc_TimeUsedMillis c \<and> 0 \<le> cc_MemoryUsedKB c \<and> cc_MemoryUsedKB c \<le> max_memory_kb
     \<and> validCanonicalScorePair (cc_Score c) (cc_MaxScore c)"

lemma durable_cases_ok: "(\<And>c. c \<in> set cs \<Longrightarrow> case_durable c) \<Longrightarrow> durable_cases cs = Some (map durable_case cs)"
proof (induction cs)
  case (Cons c cs)
  have c: "case_durable c" using Cons.prems by simp
  then show ?case
    using Cons caseIDPattern_length [of "cc_CaseID c"] by (simp add: case_durable_def [of c])
qed simp

lemma case_durable_fields: "case_durable c \<Longrightarrow> \<not> invalid_case_fields (durable_case c)"
  using caseIDPattern_length [of "cc_CaseID c"] caseIDPattern_not_blank [of "cc_CaseID c"] status_text_plain [of "cc_Status c"]
  by (auto simp: case_durable_def invalid_case_fields_def durable_case_def blank_def)

lemma durable_case_id [simp]: "dc_CaseID (durable_case c) = cc_CaseID c"
  by (simp add: durable_case_def)

lemma cases_ok_durable:
  "(\<And>c. c \<in> set cs \<Longrightarrow> case_durable c) \<Longrightarrow> distinct (map cc_CaseID cs) \<Longrightarrow> cases_ok (map durable_case cs)"
  by (auto simp: cases_ok_def case_durable_fields comp_def)

lemma scored_totals:
  "length cs = length ts \<Longrightarrow> score_total (map durable_case (map2 scored_case cs ts)) = earned cs ts
     \<and> max_total (map durable_case (map2 scored_case cs ts)) = weight_total ts"
  by (induction cs ts rule: list_induct2) (auto simp: durable_case_def scored_case_def)

lemma run_case_durable:
  assumes "manifest_ok m" "run_ok m limit r" "c \<in> set (cn_Cases r)"
  shows "case_durable c" "durableVerdict (cc_Status c)"
proof -
  have "cc_CaseID c \<in> set (map cc_CaseID (cn_Cases r))" using assms(3) by simp
  also have "\<dots> = set (map case_ID (take (length (cn_Cases r)) (Cases m)))" using assms(2) by (simp add: run_ok_def)
  finally obtain t where "t \<in> set (Cases m)" "cc_CaseID c = case_ID t" by (auto dest: in_set_takeD)
  moreover have "\<forall>t \<in> set (Cases m). caseIDPattern (case_ID t)" using assms(1) by (simp add: manifest_ok_def case_ok_def)
  moreover have "case_bounds limit c" using assms(2,3) unfolding run_ok_def by blast
  ultimately show "case_durable c" "durableVerdict (cc_Status c)"
    by (simp_all add: case_bounds_def case_durable_def validCanonicalScorePair_def max_memory_kb_def)
qed

lemma run_ids_distinct: "manifest_ok m \<Longrightarrow> run_ok m limit r \<Longrightarrow> distinct (map cc_CaseID (cn_Cases r))"
  by (simp add: run_ok_def manifest_ok_def take_map [symmetric])

lemma run_length: "run_ok m limit r \<Longrightarrow> length (cn_Cases r) \<le> length (Cases m)"
proof -
  assume "run_ok m limit r"
  then have "map cc_CaseID (cn_Cases r) = map case_ID (take (length (cn_Cases r)) (Cases m))" by (simp add: run_ok_def)
  from arg_cong [OF this, of length] show ?thesis by simp
qed

lemma unscored_durable:
  assumes m: "manifest_ok m" "length (Cases m) \<le> 256" and r: "run_ok m limit r"
  shows "\<exists>d. durableResult r = Some d \<and> dr_Verdict d = status_text (cn_Status r) \<and> dr_Cases d = map durable_case (cn_Cases r)"
proof -
  note cs = durable_cases_ok [OF run_case_durable(1) [OF m(1) r]]
  note dv = run_ok_not_system [OF r]
  have len: "length (cn_Cases r) \<le> 256" using run_length [OF r] m(2) by simp
  have plain: "0 \<le> cn_TimeUsedMillis r" "0 \<le> cn_MemoryUsedKB r" "cn_MemoryUsedKB r \<le> 2147483647"
    "cn_Score r = None" "cn_TotalScore r = None" using r by (simp_all add: run_ok_def)
  have un: "\<forall>c \<in> set (cn_Cases r). case_unscored (durable_case c)"
    using r by (simp add: run_ok_def case_bounds_def case_unscored_def durable_case_def)
  have "cases_ok (map durable_case (cn_Cases r))"
    by (rule cases_ok_durable [OF run_case_durable(1) [OF m(1) r] run_ids_distinct [OF m(1) r]])
  then show ?thesis
    using cs dv len status_text_plain [OF dv] plain un
    by (simp add: durableResult_def validate_result_iff durable_ok_def validCanonicalScorePair_def max_memory_kb_def)
qed

lemma scored_case_simps [simp]:
  "cc_CaseID (scored_case c t) = cc_CaseID c" "cc_Status (scored_case c t) = cc_Status c"
  "cc_TimeUsedMillis (scored_case c t) = cc_TimeUsedMillis c" "cc_MemoryUsedKB (scored_case c t) = cc_MemoryUsedKB c"
  by (simp_all add: scored_case_def)

lemma scored_ids: "length cs = length ts \<Longrightarrow> map cc_CaseID (map2 scored_case cs ts) = map cc_CaseID cs"
  by (induction cs ts rule: list_induct2) auto

lemma scored_statuses: "length cs = length ts \<Longrightarrow> cc_Status ` set (map2 scored_case cs ts) = cc_Status ` set cs"
  by (induction cs ts rule: list_induct2) auto

lemma scored_case_ok:
  assumes "c \<in> set (map2 scored_case cs ts)" "\<And>c. c \<in> set cs \<Longrightarrow> case_durable c" "\<And>t. t \<in> set ts \<Longrightarrow> case_ok mode t"
  shows "case_durable c \<and> case_scored (durable_case c)"
proof -
  obtain b t where bt: "b \<in> set cs" "t \<in> set ts" "c = scored_case b t"
    using assms(1) by (auto dest: set_zip_leftD set_zip_rightD)
  have "1 \<le> case_Weight t \<and> case_Weight t \<le> 1000000000"
    using assms(3) [OF bt(2)] weight_ok_pos [of mode "case_Weight t"] by (simp add: case_ok_def maxTotalScore_def)
  with assms(2) [OF bt(1)] status_text_accepted [of "cc_Status b"] show ?thesis
    by (auto simp: bt(3) case_durable_def case_scored_def durable_case_def scored_case_def validCanonicalScorePair_def)
qed

lemma scored_durable:
  assumes m: "manifest_ok m" "length (Cases m) \<le> 256" "m_JudgeMode m = JudgeModeOI" and r: "run_ok m limit r"
    and ce: "\<forall>c \<in> set (cn_Cases r). cc_Status c \<noteq> StatusCompileError"
  shows "\<exists>d. durableResult (scored_run m r) = Some d \<and> dr_Verdict d = status_text (cn_Status (scored_run m r))
    \<and> dr_Cases d = map durable_case (cn_Cases (scored_run m r))"
proof -
  let ?cs = "map2 scored_case (cn_Cases r) (Cases m)"
  have ne: "Cases m \<noteq> []" using m(1) by (auto simp: manifest_ok_def)
  have plain: "0 \<le> cn_TimeUsedMillis r" "0 \<le> cn_MemoryUsedKB r" "cn_MemoryUsedKB r \<le> 2147483647"
    using r by (simp_all add: run_ok_def)
  have wt: "0 < weight_total (Cases m)" "weight_total (Cases m) \<le> 1000000000" "\<And>t. t \<in> set (Cases m) \<Longrightarrow> case_ok (m_JudgeMode m) t"
    using m(1) weight_total_pos [OF ne, of "m_JudgeMode m"] by (auto simp: manifest_ok_def maxTotalScore_def)
  show ?thesis
  proof (cases "cn_Cases r = []")
    case True
    then have st: "cn_Status r = StatusCompileError" using r by (simp add: run_ok_def)
    then show ?thesis
      using True m(3) wt plain status_text_plain [of StatusCompileError]
      by (simp add: scored_run_def Let_def durableResult_def durableVerdict_def validCanonicalScorePair_def
          max_memory_kb_def validate_result_iff durable_ok_def cases_ok_def status_text_def)
  next
    case False
    then have len: "length (cn_Cases r) = length (Cases m)" using r m(3) by (auto simp: run_ok_def)
    have st: "cn_Status r \<noteq> StatusCompileError"
      using False r ce overall_compile [of "cn_Cases r"] by (auto simp: run_ok_def)
    have cs: "case_durable c \<and> case_scored (durable_case c)" if "c \<in> set ?cs" for c
      by (rule scored_case_ok [OF that run_case_durable(1) [OF m(1) r] wt(3)])
    have dc: "durable_cases ?cs = Some (map durable_case ?cs)" using cs by (intro durable_cases_ok) blast
    have ok: "cases_ok (map durable_case ?cs)"
      using cases_ok_durable [of ?cs] cs run_ids_distinct [OF m(1) r] scored_ids [OF len] by simp
    define cs' where "cs' = ?cs"
    have sc: "\<forall>c \<in> set cs'. case_scored (durable_case c)" using cs by (auto simp: cs'_def)
    have n: "length cs' = length (Cases m)" using len by (simp add: cs'_def)
    have tot: "score_total (map durable_case cs') = earned (cn_Cases r) (Cases m)"
      "max_total (map durable_case cs') = weight_total (Cases m)" using scored_totals [OF len] by (simp_all add: cs'_def)
    have eb: "0 \<le> earned (cn_Cases r) (Cases m)" "earned (cn_Cases r) (Cases m) \<le> weight_total (Cases m)"
      using earned_bounds [OF len wt(3)] by auto
    show ?thesis
      using m(2,3) st dc ok sc wt eb plain n tot status_text_plain [of StatusAccepted] status_text_plain [of StatusWrongAnswer]
      unfolding cs'_def [symmetric]
      by (auto simp: scored_run_def Let_def durableResult_def durableVerdict_def validCanonicalScorePair_def
          max_memory_kb_def validate_result_iff durable_ok_def status_text_def cs'_def [symmetric])
  qed
qed

lemma canonical_durable:
  assumes "manifest_ok m" "length (Cases m) \<le> 256" "run_ok m limit r"
    "\<forall>c \<in> set (cn_Cases (scored_run m r)). cc_Status c \<noteq> StatusCompileError"
  shows "\<exists>d. durableResult (scored_run m r) = Some d \<and> dr_Verdict d = status_text (cn_Status (scored_run m r))
    \<and> dr_Cases d = map durable_case (cn_Cases (scored_run m r))"
proof (cases "m_JudgeMode m = JudgeModeOI")
  case True
  have "cn_Cases (scored_run m r) = map2 scored_case (cn_Cases r) (Cases m)"
    using True by (simp add: scored_run_def Let_def)
  moreover have "cn_Cases r = [] \<or> length (cn_Cases r) = length (Cases m)" using assms(3) True by (auto simp: run_ok_def)
  ultimately have "cc_Status ` set (cn_Cases r) = cc_Status ` set (cn_Cases (scored_run m r))"
    using scored_statuses [of "cn_Cases r" "Cases m"] by auto
  moreover have "StatusCompileError \<notin> cc_Status ` set (cn_Cases (scored_run m r))" using assms(4) by force
  ultimately have "StatusCompileError \<notin> cc_Status ` set (cn_Cases r)" by simp
  then have "\<forall>c \<in> set (cn_Cases r). cc_Status c \<noteq> StatusCompileError" by force
  then show ?thesis by (rule scored_durable [OF assms(1,2) True assms(3)])
next
  case False
  then show ?thesis using unscored_durable [OF assms(1-3)] by (simp add: scored_run_def)
qed

end
