(* ===== verification/Judge_Service.thy ===== *)
theory Judge_Service
  imports Batch_Judge Go_Numbers
begin

text \<open>
  The path of a submission event: decoding (internal/consumer/event.go, rocketmq.go), the immutable
  execution configuration (internal/service/problem_version.go), the judge service
  (internal/service/judge_service.go, hidden_test_executor.go) and the callback client
  (internal/callback/client.go). JSON decoders, the UUID parser, the database lookups and the HTTP
  answers are arguments.
\<close>

section \<open>Events\<close>

record SubmissionRequested =
  sr_SchemaVersion :: int
  sr_EventID :: string
  sr_SubmissionID :: int
  sr_AttemptNo :: int
  sr_ProblemID :: int
  sr_UserID :: int
  sr_Language :: string

definition DeduplicationKey :: "SubmissionRequested \<Rightarrow> string" where
  "DeduplicationKey event =
     sr_EventID event @ ''/'' @ int_decimal (sr_SubmissionID event) @ ''/'' @ int_decimal (sr_AttemptNo event)"

definition DecodeSubmissionRequested ::
  "(string \<Rightarrow> SubmissionRequested option) \<Rightarrow> (string \<Rightarrow> bool) \<Rightarrow> string \<Rightarrow> SubmissionRequested option" where
  "DecodeSubmissionRequested decode uuid body =
     (case decode body of
        None \<Rightarrow> None
      | Some event0 \<Rightarrow>
          if sr_SchemaVersion event0 \<noteq> 1 then None
          else
            let event = event0\<lparr>sr_EventID := TrimSpace (sr_EventID event0)\<rparr> in
            if sr_EventID event = [] \<or> length (sr_EventID event) > 128 then None
            else if \<not> uuid (sr_EventID event) then None
            else if sr_SubmissionID event \<le> 0 \<or> sr_AttemptNo event \<le> 0 \<or> sr_ProblemID event \<le> 0 \<or> sr_UserID event \<le> 0
            then None
            else
              let event' = event\<lparr>sr_Language := TrimSpace (sr_Language event)\<rparr> in
              if sr_Language event' = [] \<or> length (sr_Language event') > 20 then None else Some event')"

section \<open>The immutable execution configuration\<close>

record versionLimits =
  vl_TimeLimit :: int
  vl_MemoryLimit :: int
  vl_TotalScore :: "int option"

record versionJudgeConfig =
  vj_SpecialJudge :: "bool option"
  vj_SpecialJudgeCode :: "string option"
  vj_SpecialJudgeLanguage :: "string option"
  vj_JudgeMode :: "int option"
  vj_Checker :: "string option"
  vj_Difficulty :: "int option"

record ProblemVersion =
  pv_ID :: int
  pv_ProblemID :: int
  pv_State :: string
  pv_LimitsJSON :: string
  pv_JudgeConfigJSON :: string

definition limits_supported :: "versionLimits \<Rightarrow> bool" where
  "limits_supported limits \<longleftrightarrow>
     \<not> (vl_TimeLimit limits \<le> 0 \<or> vl_TimeLimit limits > 86400000 \<or> vl_MemoryLimit limits \<le> 0
        \<or> vl_MemoryLimit limits > 2147483647)
     \<and> (case vl_TotalScore limits of None \<Rightarrow> True | Some t \<Rightarrow> \<not> (t \<le> 0 \<or> t > 1000000000))"

definition apply_mode :: "versionLimits \<Rightarrow> int \<Rightarrow> ExecutionConfig \<Rightarrow> ExecutionConfig option" where
  "apply_mode limits mode config =
     (if mode = 0 then Some config
      else if mode = 1 then
        (case vl_TotalScore limits of
           None \<Rightarrow> None
         | Some t \<Rightarrow> Some (config\<lparr>ec_JudgeMode := JudgeModeOI, ec_TotalScore := t\<rparr>))
      else None)"

definition apply_special :: "versionJudgeConfig \<Rightarrow> bool \<Rightarrow> ExecutionConfig \<Rightarrow> ExecutionConfig option" where
  "apply_special judge special config =
     (if special then
        (case (vj_SpecialJudgeCode judge, vj_SpecialJudgeLanguage judge) of
           (Some code, Some language) \<Rightarrow>
             if TrimSpace code = [] \<or> length code > 4194304 then None
             else if ResolveLanguage language = None then None
             else Some (config\<lparr>ec_SpecialJudge := True, ec_SpecialJudgeLanguage := language,
               ec_SpecialJudgeSource := code, ec_Checker := CheckerSpecial, ec_CheckerPinned := True\<rparr>)
         | _ \<Rightarrow> None)
      else if vj_SpecialJudgeCode judge \<noteq> None \<or> vj_SpecialJudgeLanguage judge \<noteq> None then None
      else Some config)"

definition apply_checker :: "versionJudgeConfig \<Rightarrow> bool \<Rightarrow> ExecutionConfig \<Rightarrow> ExecutionConfig option" where
  "apply_checker judge special config =
     (case vj_Checker judge of
        None \<Rightarrow> Some config
      | Some checker \<Rightarrow>
          if \<not> IsCanonicalChecker checker then None
          else if special \<and> checker \<noteq> CheckerSpecial \<or> \<not> special \<and> checker = CheckerSpecial then None
          else Some (config\<lparr>ec_Checker := checker, ec_CheckerPinned := True\<rparr>))"

definition ParseExecutionConfig ::
  "(string \<Rightarrow> versionLimits option) \<Rightarrow> (string \<Rightarrow> versionJudgeConfig option) \<Rightarrow> ProblemVersion \<Rightarrow> ExecutionConfig option" where
  "ParseExecutionConfig decodeLimits decodeJudge version =
     (case decodeLimits (pv_LimitsJSON version) of
        None \<Rightarrow> None
      | Some limits \<Rightarrow>
          if \<not> limits_supported limits then None
          else (case decodeJudge (pv_JudgeConfigJSON version) of
             None \<Rightarrow> None
           | Some judge \<Rightarrow>
               (case (vj_SpecialJudge judge, vj_JudgeMode judge) of
                  (Some special, Some mode) \<Rightarrow>
                    let config = \<lparr>ec_TimeLimitMillis = vl_TimeLimit limits, ec_MemoryLimitMB = vl_MemoryLimit limits,
                          ec_JudgeMode = JudgeModeACM, ec_TotalScore = 0, ec_CheckerPinned = False,
                          ec_Checker = CheckerExact, ec_SpecialJudge = False, ec_SpecialJudgeLanguage = [],
                          ec_SpecialJudgeSource = []\<rparr> in
                    Option.bind (apply_mode limits mode config) (\<lambda>config.
                      Option.bind (apply_special judge special config) (apply_checker judge special))
                | _ \<Rightarrow> None)))"

section \<open>The judge service\<close>

record TestBundle =
  tb_ProblemVersionID :: int
  tb_ObjectKey :: string
  tb_SHA256 :: string
  tb_SizeBytes :: int
  tb_ManifestJSON :: string

datatype service_error =
    StoreUnavailable
  | PermanentEvent string
  | ExecutionFailed canonical_error
  | BundleUnavailable

text \<open>Opening a bundle fails with \<open>Inl True\<close> when the bundle itself is invalid; \<open>closes\<close> says that closing it succeeds.\<close>

definition HiddenTestExecutor_Execute ::
  "(TestBundle \<Rightarrow> bool + CaseArtifact) \<Rightarrow> bool
     \<Rightarrow> (Task \<Rightarrow> ExecutionConfig \<Rightarrow> CaseArtifact \<Rightarrow> canonical_error + Result)
     \<Rightarrow> Task \<Rightarrow> ExecutionConfig \<Rightarrow> TestBundle \<Rightarrow> service_error + Result" where
  "HiddenTestExecutor_Execute openBundle closes pipeline submission config metadata =
     (case openBundle metadata of
        Inl invalid \<Rightarrow>
          if invalid then Inr (systemErrorResult ''immutable test bundle is invalid'') else Inl BundleUnavailable
      | Inr artifact \<Rightarrow>
          (case pipeline submission config artifact of
             Inl e \<Rightarrow> Inl (ExecutionFailed e)
           | Inr result \<Rightarrow>
               Inr (if closes then result else systemErrorResult ''immutable test bundle could not be closed'')))"

definition withResultIdentity :: "Result \<Rightarrow> SubmissionRequested \<Rightarrow> Result" where
  "withResultIdentity result event =
     result\<lparr>cr_ResultID := sr_EventID event, cr_SubmissionID := sr_SubmissionID event, cr_AttemptNo := sr_AttemptNo event\<rparr>"

text \<open>The lookups of the submission store; \<open>None\<close> is a failed query, \<open>Some None\<close> no row.\<close>

record SubmissionStore =
  ss_Submission :: "int \<Rightarrow> Task option option"
  ss_Version :: "int \<Rightarrow> ProblemVersion option option"
  ss_Bundle :: "int \<Rightarrow> TestBundle option option"

definition published_version :: "ProblemVersion option \<Rightarrow> int \<Rightarrow> int \<Rightarrow> bool" where
  "published_version v versionID problemID =
     (case v of None \<Rightarrow> False
      | Some p \<Rightarrow> \<not> (pv_ID p \<noteq> versionID \<or> pv_ProblemID p \<noteq> problemID \<or> pv_State p \<noteq> ''PUBLISHED''))"

definition execute_version ::
  "SubmissionStore \<Rightarrow> (ProblemVersion \<Rightarrow> ExecutionConfig option)
     \<Rightarrow> (Task \<Rightarrow> ExecutionConfig \<Rightarrow> TestBundle \<Rightarrow> service_error + Result)
     \<Rightarrow> SubmissionRequested \<Rightarrow> Task \<Rightarrow> int \<Rightarrow> service_error + Result" where
  "execute_version store parse executor event submission versionID =
     (case ss_Version store versionID of
        None \<Rightarrow> Inl StoreUnavailable
      | Some version \<Rightarrow>
          if \<not> published_version version versionID (sr_ProblemID event)
          then Inr (systemErrorResult ''immutable problem version is unavailable'')
          else (case parse (the version) of
             None \<Rightarrow> Inr (systemErrorResult ''immutable problem version is invalid or unsupported'')
           | Some config \<Rightarrow>
               (case ss_Bundle store versionID of
                  None \<Rightarrow> Inl StoreUnavailable
                | Some None \<Rightarrow> Inr (systemErrorResult ''immutable test bundle is unavailable'')
                | Some (Some testBundle) \<Rightarrow>
                    if tb_ProblemVersionID testBundle \<noteq> versionID
                    then Inr (systemErrorResult ''immutable test bundle is unavailable'')
                    else executor submission config testBundle)))"

definition service_execute ::
  "SubmissionStore \<Rightarrow> (ProblemVersion \<Rightarrow> ExecutionConfig option)
     \<Rightarrow> (Task \<Rightarrow> ExecutionConfig \<Rightarrow> TestBundle \<Rightarrow> service_error + Result)
     \<Rightarrow> SubmissionRequested \<Rightarrow> service_error + Result" where
  "service_execute store parse executor event =
     (case ss_Submission store (sr_SubmissionID event) of
        None \<Rightarrow> Inl StoreUnavailable
      | Some None \<Rightarrow> Inl (PermanentEvent ''submission does not exist'')
      | Some (Some submission) \<Rightarrow>
          if tk_Status submission \<noteq> SubPending then Inl (PermanentEvent ''submission is already terminal'')
          else if tk_ProblemID submission \<noteq> sr_ProblemID event \<or> tk_UserID submission \<noteq> sr_UserID event
            \<or> tk_Language submission \<noteq> sr_Language event
          then Inl (PermanentEvent ''SubmissionRequested metadata does not match submission'')
          else
            bind_result
              (case tk_ProblemVersionID submission of
                 None \<Rightarrow> Inr (systemErrorResult ''submission has no immutable problem version'')
               | Some versionID \<Rightarrow>
                   if versionID \<le> 0 then Inr (systemErrorResult ''submission has no immutable problem version'')
                   else execute_version store parse executor event submission versionID)
              (\<lambda>result. Inr (withResultIdentity result event)))"

section \<open>Publishing\<close>

datatype Disposition = DispositionApplied | DispositionDuplicate

record envelope =
  en_Code :: int
  en_Success :: bool
  en_Disposition :: "Disposition option"

datatype http_answer = TransportFailed | HttpStatus int | HttpOK "envelope option"

definition isRetryableStatus :: "int \<Rightarrow> bool" where
  "isRetryableStatus status \<longleftrightarrow> status \<in> {401, 408, 425, 429}"

datatype publish_error = PermanentPublish | TransientPublish

definition Publish :: "http_answer \<Rightarrow> Result \<Rightarrow> publish_error + Disposition" where
  "Publish answer result =
     (if \<not> validateResult result then Inl PermanentPublish
      else case answer of
        TransportFailed \<Rightarrow> Inl TransientPublish
      | HttpStatus status \<Rightarrow>
          if status \<ge> 400 \<and> status < 500 \<and> \<not> isRetryableStatus status then Inl PermanentPublish else Inl TransientPublish
      | HttpOK None \<Rightarrow> Inl TransientPublish
      | HttpOK (Some e) \<Rightarrow>
          if en_Code e \<noteq> 20000 \<or> \<not> en_Success e then Inl TransientPublish
          else (case en_Disposition e of None \<Rightarrow> Inl TransientPublish | Some disposition \<Rightarrow> Inr disposition))"

section \<open>Consuming a batch of messages\<close>

datatype process_error = PermanentProcess | TransientProcess

datatype ConsumeResult = ConsumeSuccess | ConsumeRetryLater

fun handleMessage ::
  "(string \<Rightarrow> SubmissionRequested option) \<Rightarrow> (SubmissionRequested \<Rightarrow> 's \<Rightarrow> process_error option \<times> 's)
     \<Rightarrow> string list \<Rightarrow> 's \<Rightarrow> ConsumeResult \<times> 's" where
  "handleMessage decode process [] s = (ConsumeSuccess, s)"
| "handleMessage decode process (body # rest) s =
     (case decode body of
        None \<Rightarrow> handleMessage decode process rest s
      | Some event \<Rightarrow>
          (case process event s of
             (Some TransientProcess, s') \<Rightarrow> (ConsumeRetryLater, s')
           | (_, s') \<Rightarrow> handleMessage decode process rest s'))"

section \<open>Deduplication keys identify the attempt\<close>

lemma dedup_key_inj:
  assumes "DeduplicationKey a = DeduplicationKey b"
  shows "sr_EventID a = sr_EventID b \<and> sr_SubmissionID a = sr_SubmissionID b \<and> sr_AttemptNo a = sr_AttemptNo b"
proof -
  have eq: "(sr_EventID a @ CHR ''/'' # int_decimal (sr_SubmissionID a)) @ CHR ''/'' # int_decimal (sr_AttemptNo a)
      = (sr_EventID b @ CHR ''/'' # int_decimal (sr_SubmissionID b)) @ CHR ''/'' # int_decimal (sr_AttemptNo b)"
    using assms by (simp add: DeduplicationKey_def)
  have no: "CHR ''/'' \<notin> set (int_decimal i)" for i using int_decimal_chars by blast
  note one = last_separator [OF eq no no]
  note two = last_separator [OF conjunct1 [OF one] no no]
  show ?thesis using one two int_decimal_inj by blast
qed

section \<open>Every published result satisfies the callback contract\<close>

text \<open>The part of the contract that does not depend on the event.\<close>

definition contract_ok :: "Result \<Rightarrow> bool" where
  "contract_ok r \<longleftrightarrow> 0 \<le> cr_TimeUsedMillis r \<and> cr_TimeUsedMillis r \<le> 172800000
     \<and> 0 \<le> cr_MemoryUsedKB r \<and> cr_MemoryUsedKB r \<le> 2147483647 \<and> score_contract r
     \<and> UTF16Len (cr_Stdout r) \<le> 65536 \<and> UTF16Len (cr_Stderr r) \<le> 65536 \<and> UTF16Len (cr_CompileError r) \<le> 32768
     \<and> supported_status (cr_Status r) \<and> (cr_Status r = StatusAccepted \<longrightarrow> cr_ExitCode r = 0)
     \<and> (cr_Status r = StatusCompileError \<longrightarrow> TrimSpace (cr_CompileError r) \<noteq> [])"

lemma score_identity: "score_contract (withResultIdentity r event) = score_contract r"
  by (cases "cr_Score r"; cases "cr_TotalScore r") (simp_all add: score_contract_def withResultIdentity_def)

lemma contract_identity:
  assumes "contract_ok r" "TrimSpace (sr_EventID event) \<noteq> []" "length (sr_EventID event) \<le> 128"
    "0 < sr_SubmissionID event" "0 < sr_AttemptNo event"
  shows "validateResult (withResultIdentity r event)"
  using assms score_identity [of r event] by (simp add: validateResult_def contract_ok_def) (simp add: withResultIdentity_def)

lemma UTF16Len_Nil [simp]: "UTF16Len [] = 0"
  by (simp add: UTF16Len_def)

lemma system_error_contract: "contract_ok (systemErrorResult summary)"
  using UTF16Len_TruncateUTF16_le [of 65536 summary]
  by (simp add: contract_ok_def systemErrorResult_def blank_result_def score_contract_def supported_status_def)

lemma redacted_plain: "UTF16Len redacted \<le> 32768" "TrimSpace redacted \<noteq> []"
  by (simp_all add: redacted_def UTF16Len_short TrimSpace_graph_ne graph_def)

lemma canonical_contract:
  assumes m: "manifest_ok m" and r: "run_ok m 172800000 r"
    and ce: "\<forall>c \<in> set (cn_Cases r). cc_Status c \<noteq> StatusCompileError"
  shows "contract_ok (CallbackResult (scored_run m r))"
proof -
  have plain: "0 \<le> cn_TimeUsedMillis r" "cn_TimeUsedMillis r \<le> 172800000" "0 \<le> cn_MemoryUsedKB r" "cn_MemoryUsedKB r \<le> 2147483647"
    "UTF16Len (cn_Stderr r) \<le> 65536" "cn_CompileError r \<in> {[], redacted}"
    "cn_Status r = StatusCompileError \<longrightarrow> cn_CompileError r = redacted"
    "cn_Status r = StatusAccepted \<longrightarrow> cn_ExitCode r = 0" "cn_Score r = None" "cn_TotalScore r = None"
    using r by (simp_all add: run_ok_def)
  have supp: "supported_status (cn_Status r)"
    using run_ok_not_system [OF r] by (auto simp: durableVerdict_def supported_status_def)
  show ?thesis
  proof (cases "m_JudgeMode m = JudgeModeOI")
    case False
    then show ?thesis
      using plain supp redacted_plain
      by (auto simp: contract_ok_def CallbackResult_def scored_run_def blank_result_def score_contract_def)
  next
    case True
    have ne: "Cases m \<noteq> []" using m by (auto simp: manifest_ok_def)
    have wt: "0 < weight_total (Cases m)" "weight_total (Cases m) \<le> 1000000000"
      using m weight_total_pos [OF ne, of "m_JudgeMode m"] by (auto simp: manifest_ok_def maxTotalScore_def)
    have st: "cn_Cases r \<noteq> [] \<Longrightarrow> cn_Status r \<noteq> StatusCompileError"
      using r ce overall_compile [of "cn_Cases r"] by (auto simp: run_ok_def)
    have full: "cn_Cases r \<noteq> [] \<Longrightarrow> length (cn_Cases r) = length (Cases m)" using r True by (auto simp: run_ok_def)
    have eb: "0 \<le> earned (cn_Cases r) (Cases m) \<and> earned (cn_Cases r) (Cases m) \<le> weight_total (Cases m)"
      using earned_bounds [of "cn_Cases r" "Cases m" "m_JudgeMode m"] full wt m by (cases "cn_Cases r = []") (auto simp: manifest_ok_def)
    have zero: "cn_Status r = StatusCompileError \<Longrightarrow> earned (cn_Cases r) (Cases m) = 0" using st by fastforce
    show ?thesis
      using True plain redacted_plain wt eb zero
      by (auto simp: contract_ok_def CallbackResult_def scored_run_def blank_result_def score_contract_def supported_status_def Let_def)
  qed
qed

end
