(* ===== verification/Batch_Encoding.thy ===== *)
theory Batch_Encoding
  imports Batch_Pipeline
begin

text \<open>
  Two encodings of the batch pipeline: the length-prefixed token stream whose digest replaces the
  expected output of token problems, and the JSON payload of the special judge with the byte budget that
  is checked before it is built.
\<close>

section \<open>Token streams\<close>

lemma tokens_equal_iff: "length as = length bs \<Longrightarrow> tokens_equal as bs \<longleftrightarrow> as = bs"
  by (induction as bs rule: list_induct2) auto

lemma outputsMatch_token: "outputsMatch CheckerToken actual expected \<longleftrightarrow> Fields actual = Fields expected"
  by (auto simp: outputsMatch_def tokens_equal_iff)

lemma fields_from_length: "t \<in> set (fields_from cur s) \<Longrightarrow> length t \<le> length cur + length s"
proof (induction cur s rule: fields_from.induct)
  case (1 cur s)
  show ?case
  proof (cases s)
    case Nil
    then show ?thesis using 1(4) by (simp add: fields_from.simps split: if_splits)
  next
    case (Cons c cs)
    show ?thesis
    proof (cases "0 < space_width s")
      case True
      then have "t = rev cur \<or> t \<in> set (fields_from [] (drop (space_width s) s))"
        using 1(4) Cons by (subst (asm) fields_from.simps) (auto simp: Let_def split: if_splits)
      then show ?thesis
        using 1(1) [OF Cons refl True] 1(2) [OF Cons refl True] by (cases "cur = []") auto
    next
      case False
      then have "t \<in> set (fields_from (c # cur) cs)"
        using 1(4) Cons by (subst (asm) fields_from.simps) (auto simp: Let_def)
      then show ?thesis using 1(3) [OF Cons refl False] Cons by simp
    qed
  qed
qed

lemma Fields_length: "t \<in> set (Fields s) \<Longrightarrow> length t \<le> length s"
  using fields_from_length [of t "[]" s] by (simp add: Fields_def)

lemma prefixed_inj:
  assumes "concat (map (\<lambda>t. be_bytes 8 (length t) @ t) ts) = concat (map (\<lambda>t. be_bytes 8 (length t) @ t) us)"
    "\<And>t. t \<in> set ts \<Longrightarrow> length t < 256 ^ 8" "\<And>u. u \<in> set us \<Longrightarrow> length u < 256 ^ 8"
  shows "ts = us"
  using assms
proof (induction ts arbitrary: us)
  case Nil
  then show ?case by (cases us) (auto dest: arg_cong [of _ _ length])
next
  case (Cons t ts)
  show ?case
  proof (cases us)
    case Nil
    then show ?thesis using arg_cong [OF Cons.prems(1), of length] by simp
  next
    case (Cons u us')
    let ?enc = "\<lambda>ts. concat (map (\<lambda>t. be_bytes 8 (length t) @ t) ts)"
    have eq: "be_bytes 8 (length t) @ t @ ?enc ts = be_bytes 8 (length u) @ u @ ?enc us'"
      using Cons.prems(1) Cons by simp
    then have "be_bytes 8 (length t) = be_bytes 8 (length u)" and rest: "t @ ?enc ts = u @ ?enc us'" by simp_all
    then have "length t = length u"
      using be_bytes_inj [of 8 "length t" "length u"] Cons.prems(2) [of t] Cons.prems(3) [of u] Cons by simp
    with rest have "t = u" "?enc ts = ?enc us'" by simp_all
    then show ?thesis using Cons.IH [of us'] Cons.prems(2,3) Cons by simp
  qed
qed

lemma token_stream_inj:
  assumes "token_stream a = token_stream b" "length a < 256 ^ 8" "length b < 256 ^ 8"
  shows "Fields a = Fields b"
  by (rule prefixed_inj [OF assms(1) [unfolded token_stream_def]])
    (use assms(2,3) Fields_length in \<open>fastforce dest: Fields_length\<close>)+

lemma token_check_iff:
  assumes "length actual < 256 ^ 8" "length expected < 256 ^ 8"
    and "sha256 (token_stream actual) = sha256 (token_stream expected) \<Longrightarrow> token_stream actual = token_stream expected"
  shows "outputMatchesExpectedCheck CheckerToken actual (expected_check CheckerToken expected)
    \<longleftrightarrow> outputsMatch CheckerToken actual expected"
proof -
  have "tokenOutputSHA256 actual = tokenOutputSHA256 expected \<longleftrightarrow> token_stream actual = token_stream expected"
    using assms(3) hex_encode_inj by (auto simp: tokenOutputSHA256_def)
  also have "\<dots> \<longleftrightarrow> Fields actual = Fields expected"
    using token_stream_inj [OF _ assms(1,2)] by (auto simp: token_stream_def)
  finally show ?thesis
    by (simp add: outputMatchesExpectedCheck_def expected_check_def outputsMatch_token)
qed

section \<open>The special judge payload\<close>

lemma json_two_byte_iff: "json_two_byte c = None \<longleftrightarrow> byte c \<notin> {34, 92, 8, 12, 10, 13, 9}"
  by (simp add: json_two_byte_def Let_def)

lemma json_two_byte_length: "json_two_byte c = Some e \<Longrightarrow> length e = 2"
  by (auto simp: json_two_byte_def Let_def split: if_splits)

lemma budget_is_escape:
  assumes "s \<noteq> []" "\<not> (fst (decode_rune s) = rune_error \<and> snd (decode_rune s) = 1)"
  shows "fst (budget_step s) = int (length (fst (json_char s)))" "snd (budget_step s) = snd (json_char s)"
    "snd (budget_step s) = snd (decode_rune s)"
proof -
  obtain c t where s: "s = c # t" using assms(1) by (cases s) auto
  obtain r w where rw: "decode_rune s = (r, w)" by (cases "decode_rune s")
  have ascii: "byte c < 128 \<Longrightarrow> w = 1" using rw by (simp add: s decode_rune_def)
  have le: "w \<le> length s" using decode_rune_width [OF assms(1)] rw by simp
  have hd: "hd s = c" by (simp add: s)
  have "fst (budget_step s) = int (length (fst (json_char s))) \<and> snd (budget_step s) = snd (json_char s) \<and> snd (budget_step s) = w"
  proof (cases "json_two_byte c")
    case (Some e)
    then have two: "byte c \<in> {34, 92, 8, 12, 10, 13, 9}" using json_two_byte_iff [of c] by auto
    then have "byte c < 128" by auto
    with Some two ascii json_two_byte_length [OF Some] show ?thesis
      by (simp add: budget_step_def json_char_def hd Let_def)
  next
    case None
    then have two: "byte c \<notin> {34, 92, 8, 12, 10, 13, 9}" using json_two_byte_iff by blast
    have six: "json_six_byte c \<Longrightarrow> byte c < 128" by (auto simp: json_six_byte_def)
    consider "json_six_byte c" | "\<not> json_six_byte c" "byte c < 128" | "\<not> json_six_byte c" "\<not> byte c < 128" by blast
    then show ?thesis
    proof cases
      case 1
      with six have "byte c < 128" by blast
      moreover have "byte c < 32 \<or> c = CHR ''<'' \<or> c = CHR ''>'' \<or> c = CHR ''&''" using 1 by (simp add: json_six_byte_def)
      ultimately show ?thesis
        using 1 None two ascii by (simp only: budget_step_def json_char_def hd Let_def) simp
    next
      case 2
      then have "\<not> byte c < 32" "c \<noteq> CHR ''<''" "c \<noteq> CHR ''>''" "c \<noteq> CHR ''&''" by (auto simp: json_six_byte_def)
      with 2 None two ascii show ?thesis
        by (simp add: budget_step_def json_char_def hd Let_def)
    next
      case 3
      then have "\<not> byte c < 32" "c \<noteq> CHR ''<''" "c \<noteq> CHR ''>''" "c \<noteq> CHR ''&''" by (auto simp: json_six_byte_def)
      with 3 None two le assms(2) show ?thesis
        by (auto simp: budget_step_def json_char_def hd Let_def rw rune_error_def)
    qed
  qed
  then show "fst (budget_step s) = int (length (fst (json_char s)))" "snd (budget_step s) = snd (json_char s)"
    "snd (budget_step s) = snd (decode_rune s)" using rw by simp_all
qed

lemma consume_loop_exact:
  "utf8_valid s \<Longrightarrow> 0 \<le> remaining \<Longrightarrow> consume_loop s remaining = Some rest \<Longrightarrow>
     0 \<le> rest \<and> rest = remaining - int (length (json_escape s))"
proof (induction s remaining rule: consume_loop.induct)
  case (1 s remaining)
  show ?case
  proof (cases "s = []")
    case True
    then show ?thesis using 1(3,4) by (simp add: consume_loop.simps json_escape.simps)
  next
    case False
    have valid: "\<not> (fst (decode_rune s) = rune_error \<and> snd (decode_rune s) = 1)"
      "utf8_valid (drop (snd (decode_rune s)) s)"
      using 1(2) False by (subst (asm) utf8_valid.simps, simp)+
    note b = budget_is_escape [OF False valid(1)]
    have le: "\<not> fst (budget_step s) > remaining"
      and rest: "consume_loop (drop (snd (budget_step s)) s) (remaining - fst (budget_step s)) = Some rest"
      using 1(4) False by (subst (asm) consume_loop.simps, simp split: if_splits)+
    have "0 \<le> rest \<and> rest = remaining - fst (budget_step s) - int (length (json_escape (drop (snd (budget_step s)) s)))"
      by (rule 1(1) [OF False le _ _ rest]) (use valid(2) b(3) le in auto)
    moreover have "json_escape s = fst (json_char s) @ json_escape (drop (snd (json_char s)) s)"
      using False by (subst json_escape.simps) simp
    ultimately show ?thesis using b by simp
  qed
qed

lemma consume_exact:
  "consumeJSONStringBudget v remaining = Some rest \<Longrightarrow> 0 \<le> rest \<and> rest = remaining - int (length (json_escape v))"
  using consume_loop_exact [of v remaining rest] by (auto simp: consumeJSONStringBudget_def split: if_splits)

lemma json_quote_keys:
  "length (json_quote ''schemaVersion'') = 15" "length (json_quote ''caseId'') = 8" "length (json_quote ''input'') = 7"
  "length (json_quote ''expectedOutput'') = 16" "length (json_quote ''actualOutput'') = 14"
  by code_simp+

lemma payload_length:
  "length (special_payload caseID input expected actual)
     = 80 + length (json_escape caseID) + length (json_escape input) + length (json_escape expected) + length (json_escape actual)"
  by (simp add: special_payload_def json_member_def json_quote_keys) (simp add: json_quote_def)

lemma payload_bound:
  assumes "specialJudgePayloadWithinPreEncodeLimit caseID input expected actual"
  shows "int (length (special_payload caseID input expected actual)) \<le> maxSpecialJudgeProtocolBytesV1 - 176"
  using assms
  by (auto simp: specialJudgePayloadWithinPreEncodeLimit_def payload_length maxSpecialJudgeProtocolBytesV1_def
      split: option.splits dest!: consume_exact)

end
