(* ===== verification/Judging_Properties.thy ===== *)
theory Judging_Properties
  imports Job_Properties Worker_Runner Judge_Service Batch_Encoding
begin

text \<open>
  Properties of the judging path: which sandboxes a batch is sent to, which event streams are believed,
  what a verdict means, that results are accepted by the callback contract and by the durable store, and
  that the settling step of a worker is one transaction of the job store.
\<close>

section \<open>An example run\<close>

definition ex_response :: "string \<Rightarrow> string \<Rightarrow> ExecuteResponse" where
  "ex_response status output = \<lparr>er_Status = status, er_ExitCode = 0, er_Stdout = output, er_Stderr = [], er_Error = [],
     er_CompileError = [], er_TimeUsed = 12, er_MemoryUsed = 4\<rparr>"

definition ex_events :: "ExecuteBatchV1Event option list" where
  "ex_events = [Some \<lparr>ev_Kind = CASE_RESULT, ev_CaseId = ''1'', ev_Result = Some (ex_response ''Accepted'' ''42'')\<rparr>,
     Some \<lparr>ev_Kind = COMPLETED, ev_CaseId = [], ev_Result = None\<rparr>]"

text \<open>The first sandbox is down, the second answers.\<close>

definition ex_exec :: batch_exec where
  "ex_exec phase k address request =
     (if address = ''10.0.0.1:50051'' then Inl (RpcStatus Unavailable) else Inr ex_events)"

definition ex_scheduler :: Scheduler where
  "ex_scheduler = \<lparr>endpoints = [''10.0.0.1:50051'', ''10.0.0.2:50051''], next_index = 0\<rparr>"

definition ex_artifact :: CaseArtifact where
  "ex_artifact = \<lparr>ca_Manifest = ex_manifest, ca_ReadCase = (\<lambda>c. Some (''20 22'', ''42'')), ca_ReadSpecialJudge = None\<rparr>"

definition ex_sizes :: proto_sizes where
  "ex_sizes = \<lparr>ps_request = (\<lambda>_. 20), ps_case = (\<lambda>_. 20), ps_tag = (\<lambda>_. 1), ps_varint = (\<lambda>_. 1)\<rparr>"

definition ex_input :: CanonicalExecutionRequest where
  "ex_input = \<lparr>ce_Language = ''cpp'', ce_SourceCode = ''int main(){}'', ce_StopOnFailure = True\<rparr>"

definition ex_select :: "Scheduler sandbox_selector" where
  "ex_select = ExcludingSelector SelectSandboxExcluding"

definition ex_canonical :: CanonicalResult where
  "ex_canonical = \<lparr>cn_Status = StatusAccepted, cn_ExitCode = 0, cn_TimeUsedMillis = 12, cn_MemoryUsedKB = 4,
     cn_Stderr = ''case=1 sandboxStatus=Accepted status=ACCEPTED'', cn_CompileError = [], cn_Score = None,
     cn_TotalScore = None,
     cn_Cases = [\<lparr>cc_CaseID = ''1'', cc_Status = StatusAccepted, cc_TimeUsedMillis = 12, cc_MemoryUsedKB = 4,
       cc_Score = None, cc_MaxScore = None\<rparr>]\<rparr>"

lemma ex_scheduler_inv: "scheduler_inv ex_scheduler"
  by (simp add: scheduler_inv_def ex_scheduler_def)

lemma ex_selects:
  "SelectSandboxExcluding ex_scheduler []
     = (Some ''10.0.0.1:50051'', \<lparr>endpoints = [''10.0.0.1:50051'', ''10.0.0.2:50051''], next_index = Suc 0\<rparr>)"
  "SelectSandboxExcluding \<lparr>endpoints = [''10.0.0.1:50051'', ''10.0.0.2:50051''], next_index = Suc 0\<rparr> [''10.0.0.1:50051'']
     = (Some ''10.0.0.2:50051'', \<lparr>endpoints = [''10.0.0.1:50051'', ''10.0.0.2:50051''], next_index = 2\<rparr>)"
  by (simp_all add: SelectSandboxExcluding_def ex_scheduler_def uint64_def Let_def upt_rec numeral_2_eq_2)

lemma ex_batch:
  assumes "br_Cases request = [c]" "bc_CaseId c = ''1''"
  shows "executeBatch 3 ex_select (\<lambda>k a. ex_exec 0 k a request) request ex_scheduler
    = (BatchEvents ex_events, [''10.0.0.2:50051'', ''10.0.0.1:50051''], \<lparr>endpoints = [''10.0.0.1:50051'', ''10.0.0.2:50051''], next_index = 2\<rparr>)"
proof -
  have valid: "validateBatchEvents request ex_events"
    using assms by (simp add: validateBatchEvents_def is_compile_event_def ex_events_def ex_response_def isKnownContestantStatus_def)
  show ?thesis
    using valid by (simp add: executeBatch_def numeral_3_eq_3 ex_select_def ex_selects ex_exec_def)
qed

lemma ex_outputs: "outputMatchesExpectedCheck ''exact'' ''42'' ''42''"
  by (simp add: outputMatchesExpectedCheck_def outputsMatch_def checker_defs)

lemma ex_fields:
  "ca_Manifest ex_artifact = ex_manifest" "m_Checker ex_manifest = ''exact''" "TotalScore ex_manifest = None"
  "cn_Status ex_canonical = StatusAccepted" "length (Cases ex_manifest) = 1"
  by (simp_all add: ex_artifact_def ex_manifest_def ex_canonical_def)

lemma ex_limits:
  "maxBatchRequestBytes (NewBatchBundlePipeline 3) = 67108864" "max_check_bytes (NewBatchBundlePipeline 3) = 67108864"
  "bp_maxInfraAttempts (NewBatchBundlePipeline 3) = 3" "ps_request ex_sizes r = 20" "ce_SourceCode ex_input \<noteq> []"
  "TrimSpace (ce_Language ex_input) \<noteq> []" "1 \<le> maxSandboxBatchCasesV1"
  by (simp_all add: maxBatchRequestBytes_def max_check_bytes_def NewBatchBundlePipeline_def maxSandboxBatchRequestBytesV1_def
      ex_sizes_def ex_input_def TrimSpace_graph_ne graph_def maxSandboxBatchCasesV1_def)

lemma ex_run:
  "ExecuteCanonical (NewBatchBundlePipeline 3) ex_sizes (\<lambda>_. None) ex_select ex_exec ex_input ex_artifact ex_scheduler
     = (Inr ex_canonical, \<lparr>endpoints = [''10.0.0.1:50051'', ''10.0.0.2:50051''], next_index = 2\<rparr>)"
proof -
  let ?case = "\<lparr>bc_CaseId = ''1'', bc_Stdin = ''20 22'', bc_ExpectedOutput = ''42'', bc_CompareOutput = True, bc_TokenExpectedSha256 = []\<rparr>"
  have prep: "prepare_cases ex_sizes ''exact'' (ca_ReadCase ex_artifact) 67108864 67108864 (Cases ex_manifest) 20 0 [] []
      = Inr ([?case], [''42''])"
    by (simp add: ex_manifest_def ex_artifact_def ex_sizes_def batchCaseWireBytes_def sandbox_case_def expected_check_def checker_defs)
  have agg: "aggregateBatchResult ''exact'' [''42''] ex_events = Some (ex_canonical, [''42''])"
    by (simp add: aggregateBatchResult_def ex_events_def ex_response_def case_verdict_def ex_outputs add_case_def
        mapBundleStatus_def mapCallbackStatus_def boundedMetric_def case_summary_def status_text_def TruncateUTF16_def
        UTF16Len_short ex_canonical_def blank_canonical_def checker_defs Let_def)
  have judge: "judge_events p ex_sizes (\<lambda>_. None) ex_select ex_exec ex_artifact request [''42''] ex_events s
      = (Inr ex_canonical, s)" for p request s
    by (simp add: judge_events_def ex_fields agg finish_scoring_def applyManifestScoring_def CheckerSpecial_def)
  show ?thesis
    using ex_batch [of "contestant_request ex_input ex_manifest [?case]" ?case] prep judge ex_manifest_valid
    by (simp add: ExecuteCanonical_def ex_fields ex_limits contestant_request_def [of _ _ "[_]"] maxSandboxBatchCasesV1_def)
qed

section \<open>Helper lemmas\<close>








section \<open>Properties\<close>

text \<open>C23: with the round-robin scheduler one batch never calls the same sandbox twice, only calls ready
  sandboxes, and makes at most the configured number of attempts.\<close>

theorem batch_endpoints_distinct:
  assumes "scheduler_inv s"
    and "executeBatch n (ExcludingSelector SelectSandboxExcluding) exec request s = (outcome, called, s')"
  shows "distinct called \<and> set called \<subseteq> set (endpoints s) \<and> length called \<le> n"
  using round_robin.attempts_distinct [OF assms(2) [unfolded executeBatch_def] assms(1)] by simp

definition ex_request :: ExecuteBatchV1Request where
  "ex_request = contestant_request ex_input ex_manifest
     [\<lparr>bc_CaseId = ''1'', bc_Stdin = ''20 22'', bc_ExpectedOutput = ''42'', bc_CompareOutput = True, bc_TokenExpectedSha256 = []\<rparr>]"

lemma ex_request_cases: "br_Cases ex_request = [\<lparr>bc_CaseId = ''1'', bc_Stdin = ''20 22'', bc_ExpectedOutput = ''42'',
    bc_CompareOutput = True, bc_TokenExpectedSha256 = []\<rparr>]"
  by (simp add: ex_request_def contestant_request_def)

lemmas ex_request_batch = ex_batch [OF ex_request_cases, simplified]

theorem batch_endpoints_distinct_witness:
  "fst (snd (executeBatch 3 ex_select (\<lambda>k a. ex_exec 0 k a ex_request) ex_request ex_scheduler))
     = [''10.0.0.2:50051'', ''10.0.0.1:50051'']
   \<and> distinct [''10.0.0.2:50051'', ''10.0.0.1:50051'']"
  using batch_endpoints_distinct [OF ex_scheduler_inv ex_request_batch [unfolded ex_select_def]] ex_request_batch
  by (simp add: ex_select_def)

text \<open>C16: a batch succeeds as long as some ready sandbox answers: if every ready sandbox either answers
  with a valid stream or is temporarily unavailable, one of them always answers, and there are as many
  attempts as ready sandboxes, the batch ends with events.\<close>

theorem batch_reaches_healthy_sandbox:
  assumes "scheduler_inv s" and "card (set (endpoints s)) \<le> n" and "good \<in> set (endpoints s)"
    and "\<forall>k. \<exists>events. exec k good = Inr events \<and> validateBatchEvents request events"
    and "\<forall>k. \<forall>a \<in> set (endpoints s). exec k a \<in> {Inl (RpcStatus Unavailable), Inl (RpcStatus ResourceExhausted)}
      \<or> (\<exists>events. exec k a = Inr events \<and> validateBatchEvents request events)"
  shows "\<exists>events called s'. executeBatch n (ExcludingSelector SelectSandboxExcluding) exec request s
    = (BatchEvents events, called, s')"
  unfolding executeBatch_def
  by (rule round_robin.attempts_succeed [where good = good]) (use assms in auto)

theorem batch_reaches_healthy_sandbox_witness:
  "\<exists>events called s'. executeBatch 2 (ExcludingSelector SelectSandboxExcluding) (\<lambda>k a. ex_exec 0 k a ex_request) ex_request ex_scheduler
    = (BatchEvents events, called, s')"
proof -
  have valid: "validateBatchEvents ex_request ex_events"
    by (simp add: validateBatchEvents_def is_compile_event_def ex_events_def ex_response_def isKnownContestantStatus_def ex_request_cases)
  have n: "card (set (endpoints ex_scheduler)) \<le> 2" by (simp add: ex_scheduler_def card_insert_if)
  have good: "''10.0.0.2:50051'' \<in> set (endpoints ex_scheduler)" by (simp add: ex_scheduler_def)
  show ?thesis
    by (rule batch_reaches_healthy_sandbox [OF ex_scheduler_inv n good]) (use valid in \<open>auto simp: ex_exec_def\<close>)
qed

text \<open>C24: the pipeline believes exactly two kinds of event streams: a single compile failure, or case
  results for the first cases of the request in order, each with a contestant's verdict, closed by one
  completion event; cases are missing at the end only if the request stops on failure and the last case
  reported failed, and no case follows a failed one then.\<close>

theorem validateBatchEvents_iff:
  "validateBatchEvents request events \<longleftrightarrow>
     (\<exists>e. events = [Some e] \<and> compile_event e) \<or> (\<exists>es. case_stream request events es)"
  by (rule validate_batch_iff)

text \<open>C12: an accepted verdict is earned: for every case of the manifest a sandbox ran the submitted source
  on the bundle's input and reported success, and its output passed the manifest's checker, the
  comparison with the expected output or the special judge on exactly this case's payload.\<close>

theorem accepted_verdict_sound:
  assumes "ExecuteCanonical p sizes decode selector exec input artifact s = (Inr r, s')"
    and "cn_Status r = StatusAccepted"
  shows "\<exists>k a request events. exec 0 k a request = Inr events \<and> br_SourceCode request = ce_SourceCode input
    \<and> (\<forall>i < length (Cases (ca_Manifest artifact)). case_proof decode exec artifact request events i)"
  by (rule ExecuteCanonical_result [OF assms(1)]) (use assms(2) in blast)

theorem accepted_verdict_sound_witness:
  "\<exists>k a request events. ex_exec 0 k a request = Inr events \<and> case_proof (\<lambda>_. None) ex_exec ex_artifact request events 0"
  using accepted_verdict_sound [OF ex_run ex_fields(4)] by (fastforce simp: ex_fields)
















text \<open>C25: comparing digests of length-prefixed tokens decides exactly what the token checker decides on the
  outputs themselves, unless the two outputs collide under SHA-256. The expected output need not be kept.\<close>

theorem token_digest_equiv:
  assumes "length actual < 18446744073709551616" and "length expected < 18446744073709551616"
    and "sha256 (token_stream actual) = sha256 (token_stream expected) \<longrightarrow> token_stream actual = token_stream expected"
  shows "outputMatchesExpectedCheck CheckerToken actual (expected_check CheckerToken expected)
    \<longleftrightarrow> outputsMatch CheckerToken actual expected"
  using token_check_iff [of actual expected] assms by simp

theorem token_digest_equiv_witness:
  "outputMatchesExpectedCheck CheckerToken ''1  2 '' (expected_check CheckerToken '' 1 2'')"
proof -
  have f: "Fields ''1  2 '' = [''1'', ''2'']" "Fields '' 1 2'' = [''1'', ''2'']" by code_simp+
  then have "token_stream ''1  2 '' = token_stream '' 1 2''" by (simp add: token_stream_def)
  then show ?thesis using token_digest_equiv [of "''1  2 ''" "'' 1 2''"] f by (simp add: outputsMatch_token)
qed



text \<open>C27: a special judge that does not compile is not reported as the tenant's failure. Its single compile
  event fails the length check that precedes the compile check, so the pipeline reports a platform
  failure, which the worker retries and does not charge.\<close>

theorem checker_compile_failure_misreported:
  assumes "acc \<noteq> []" and "ev_Kind e = COMPILE_ERROR"
    and "executeBatch (bp_maxInfraAttempts p) selector (\<lambda>k a. exec 1 k a (checker_request sj source (map fst acc)))
      (checker_request sj source (map fst acc)) s = (BatchEvents [Some e], called, s')"
  shows "\<exists>why. run_checker p decode selector exec sj source acc result s = (Inl (CanonicalInfrastructure why), s')
    \<and> canonical_failure (CanonicalInfrastructure why) = ExecOther"
  using assms by (simp add: run_checker_def Let_def canonical_failure_def)

definition ex_checker :: SpecialJudge where
  "ex_checker = \<lparr>sj_Language = ''cpp'', sj_Source = ''checker.cpp'', sj_SourceSHA256 = [], sj_TimeLimitMillis = 1000, sj_MemoryLimitMiB = 64\<rparr>"

definition ex_compile :: ExecuteBatchV1Event where
  "ex_compile = \<lparr>ev_Kind = COMPILE_ERROR, ev_CaseId = [], ev_Result = Some (ex_response ''Compile Error'' [])\<rparr>"

lemma ex_checker_batch:
  "executeBatch 3 ex_select (\<lambda>k a. Inr [Some ex_compile]) request ex_scheduler
     = (BatchEvents [Some ex_compile], [''10.0.0.1:50051''], \<lparr>endpoints = [''10.0.0.1:50051'', ''10.0.0.2:50051''], next_index = Suc 0\<rparr>)"
  by (simp add: executeBatch_def numeral_3_eq_3 ex_select_def ex_selects validateBatchEvents_def is_compile_event_def
      ex_compile_def ex_response_def)

theorem checker_compile_failure_misreported_witness:
  "\<exists>why. fst (run_checker (NewBatchBundlePipeline 3) (\<lambda>_. None) ex_select (\<lambda>_ _ _ _. Inr [Some ex_compile]) ex_checker ''int main(''
      [(\<lparr>bc_CaseId = ''1'', bc_Stdin = [], bc_ExpectedOutput = [], bc_CompareOutput = False, bc_TokenExpectedSha256 = []\<rparr>, 0)]
      ex_canonical ex_scheduler) = Inl (CanonicalInfrastructure why)"
proof -
  have ne: "[(\<lparr>bc_CaseId = ''1'', bc_Stdin = [], bc_ExpectedOutput = [], bc_CompareOutput = False, bc_TokenExpectedSha256 = []\<rparr>, 0 :: nat)] \<noteq> []"
    by simp
  have kind: "ev_Kind ex_compile = COMPILE_ERROR" by (simp add: ex_compile_def)
  have batch: "executeBatch (bp_maxInfraAttempts (NewBatchBundlePipeline 3)) ex_select (\<lambda>k a. Inr [Some ex_compile]) request ex_scheduler
      = (BatchEvents [Some ex_compile], [''10.0.0.1:50051''], \<lparr>endpoints = [''10.0.0.1:50051'', ''10.0.0.2:50051''], next_index = Suc 0\<rparr>)"
    for request using ex_checker_batch by (simp add: ex_limits)
  show ?thesis
    using checker_compile_failure_misreported [where exec = "\<lambda>_ _ _ _. Inr [Some ex_compile]" and decode = "\<lambda>_. None"
      and sj = ex_checker and source = "''int main(''" and result = ex_canonical, OF ne kind batch]
    by auto
qed

text \<open>C30: the deduplication key of an event identifies its result, submission and attempt: two events with
  the same key are the same judging request.\<close>

theorem dedup_key_identifies_attempt:
  "DeduplicationKey a = DeduplicationKey b \<longleftrightarrow>
     (sr_EventID a, sr_SubmissionID a, sr_AttemptNo a) = (sr_EventID b, sr_SubmissionID b, sr_AttemptNo b)"
  using dedup_key_inj [of a b] by (auto simp: DeduplicationKey_def)

end
