(* ===== verification/Go_Maps.thy ===== *)
theory Go_Maps
  imports Judge_Prelude "HOL-Library.AList" "HOL-Library.Multiset"
begin

text \<open>
  Go maps as association lists with distinct keys: insertion is \<^const>\<open>AList.update\<close>, deletion
  \<^const>\<open>AList.delete\<close>, and a \<^verbatim>\<open>range\<close> loop that deletes some keys is a filter. The order in which a
  \<^verbatim>\<open>range\<close> loop visits a map is unspecified, so nothing may depend on it: \<open>map_of_permuted\<close>.
\<close>

lemma map_of_filter_keys:
  assumes "distinct (map fst xs)"
  shows "map_of (filter P xs) k = (case map_of xs k of Some v \<Rightarrow> if P (k, v) then Some v else None | None \<Rightarrow> None)"
  using assms
proof (induction xs)
  case (Cons x xs)
  obtain k' v where x: "x = (k', v)" by (cases x)
  have "map_of xs k' = None" using Cons.prems x by (simp add: map_of_eq_None_iff)
  then show ?case using Cons x by (auto split: option.splits)
qed simp

lemma distinct_filter_keys: "distinct (map fst xs) \<Longrightarrow> distinct (map fst (filter P xs))"
  by (induction xs) auto

lemma length_delete: "length (AList.delete k xs) \<le> length xs"
  by (simp add: AList.delete_eq)

lemma length_delete_less:
  assumes "k \<in> fst ` set xs"
  shows "length (AList.delete k xs) < length xs"
proof -
  from assms obtain x where "x \<in> set xs" "fst x = k" by auto
  then show ?thesis unfolding AList.delete_eq by (intro length_filter_less [of x]) (auto simp: case_prod_unfold)
qed

lemma length_update: "length (AList.update k v xs) = (if k \<in> fst ` set xs then length xs else Suc (length xs))"
  by (induction xs) auto

lemma map_of_permuted:
  assumes "mset xs = mset ys" "distinct (map fst ys)"
  shows "distinct (map fst xs)" and "map_of xs = map_of ys" and "length xs = length ys"
proof -
  from assms(1) have m: "mset (map fst xs) = mset (map fst ys)" by (metis mset_map)
  then show d: "distinct (map fst xs)" using assms(2) by (metis mset_eq_imp_distinct_iff)
  have s: "set xs = set ys" using assms(1) by (rule mset_eq_setD)
  show "map_of xs = map_of ys" using map_of_inject_set [OF d assms(2)] s by simp
  show "length xs = length ys" using assms(1) by (rule mset_eq_length)
qed

text \<open>
  The scan for the entry used least recently, as several caches write it: the entries \<open>skip\<close> selects are
  passed over, and a later entry wins only when it is strictly older.
\<close>

fun scan_oldest :: "('k \<times> 'v \<Rightarrow> bool) \<Rightarrow> ('v \<Rightarrow> int) \<Rightarrow> ('k \<times> 'v) list \<Rightarrow> ('k \<times> 'v) option \<Rightarrow> ('k \<times> 'v) option" where
  "scan_oldest skip used [] oldest = oldest"
| "scan_oldest skip used (entry # rest) oldest =
     (if skip entry then scan_oldest skip used rest oldest
      else if (case oldest of None \<Rightarrow> True | Some best \<Rightarrow> used (snd entry) < used (snd best))
      then scan_oldest skip used rest (Some entry)
      else scan_oldest skip used rest oldest)"

end
