(* ===== verification/Task_Registry.thy ===== *)
theory Task_Registry
  imports Judge_Service Go_Maps
begin

text \<open>
  The process-local registry of tasks (\<^verbatim>\<open>internal/service/task_registry.go\<close>) and
  \<open>JudgeService.ProcessEvent\<close>. The registry's map is an association list with distinct keys; Go ranges
  over a map in an unspecified order, so the step relation may permute the list at any time. Pointers and
  channels are natural numbers drawn from a counter, \<open>tr_closed\<close> are the channels closed so far, and
  closing one of them again is a panic. Concurrent calls of \<open>Process\<close> interleave between the critical
  sections of the registry's mutex: each caller has a phase, and one step of a caller is one critical
  section together with the call it makes before it.
\<close>

section \<open>Entries and registry\<close>

record 'r taskEntry =
  te_id :: nat
  te_processing :: bool
  te_done :: nat
  te_result :: "'r option"
  te_complete :: bool
  te_lastUsed :: int

record 'r TaskRegistry =
  tr_entries :: "(string \<times> 'r taskEntry) list"
  tr_capacity :: int
  tr_ttl :: int
  tr_next :: nat
  tr_closed :: "nat list"

definition NewTaskRegistry :: "int \<Rightarrow> int \<Rightarrow> 'r TaskRegistry" where
  "NewTaskRegistry capacity ttl =
     \<lparr>tr_entries = [], tr_capacity = (if capacity \<le> 0 then 10000 else capacity),
      tr_ttl = (if ttl \<le> 0 then 3600000 else ttl), tr_next = 0, tr_closed = []\<rparr>"

definition registry_Len :: "'r TaskRegistry \<Rightarrow> nat" where
  "registry_Len registry = length (tr_entries registry)"

definition finished_entry :: "'r taskEntry \<Rightarrow> bool" where
  "finished_entry entry \<longleftrightarrow> te_complete entry \<and> \<not> te_processing entry"

definition pruneCompleted :: "int \<Rightarrow> 'r TaskRegistry \<Rightarrow> 'r TaskRegistry" where
  "pruneCompleted now registry =
     registry\<lparr>tr_entries :=
       filter (\<lambda>(_, entry). \<not> (finished_entry entry \<and> now - te_lastUsed entry \<ge> tr_ttl registry)) (tr_entries registry)\<rparr>"

fun oldest_completed :: "(string \<times> 'r taskEntry) list \<Rightarrow> string \<times> int \<Rightarrow> string \<times> int" where
  "oldest_completed [] oldest = oldest"
| "oldest_completed ((key, entry) # rest) (oldestKey, oldestTime) =
     (if \<not> te_complete entry \<or> te_processing entry then oldest_completed rest (oldestKey, oldestTime)
      else if oldestKey = [] \<or> te_lastUsed entry < oldestTime
      then oldest_completed rest (key, te_lastUsed entry)
      else oldest_completed rest (oldestKey, oldestTime))"

definition evictOldestCompleted :: "'r TaskRegistry \<Rightarrow> 'r TaskRegistry" where
  "evictOldestCompleted registry =
     (if int (length (tr_entries registry)) < tr_capacity registry then registry
      else let (oldestKey, _) = oldest_completed (tr_entries registry) ([], 0) in
        if oldestKey \<noteq> [] then registry\<lparr>tr_entries := AList.delete oldestKey (tr_entries registry)\<rparr> else registry)"

definition put_entry :: "string \<Rightarrow> 'r taskEntry \<Rightarrow> 'r TaskRegistry \<Rightarrow> 'r TaskRegistry" where
  "put_entry key entry registry = registry\<lparr>tr_entries := AList.update key entry (tr_entries registry)\<rparr>"

datatype 'r claim_answer = ClaimDone | ClaimWait nat | ClaimOwn nat "'r option" | ClaimFull

definition registry_claim :: "int \<Rightarrow> string \<Rightarrow> 'r TaskRegistry \<Rightarrow> 'r claim_answer \<times> 'r TaskRegistry" where
  "registry_claim now key registry =
     (let reg1 = pruneCompleted now registry in
      case map_of (tr_entries reg1) key of
        Some found \<Rightarrow>
          let entry = found\<lparr>te_lastUsed := now\<rparr> in
          if te_complete entry then (ClaimDone, put_entry key entry reg1)
          else if te_processing entry then (ClaimWait (te_done entry), put_entry key entry reg1)
          else (ClaimOwn (te_id entry) (te_result entry),
                put_entry key (entry\<lparr>te_processing := True, te_done := tr_next reg1\<rparr>) (reg1\<lparr>tr_next := Suc (tr_next reg1)\<rparr>))
      | None \<Rightarrow>
          let reg2 = evictOldestCompleted reg1 in
          if int (length (tr_entries reg2)) \<ge> tr_capacity reg2 then (ClaimFull, reg2)
          else (ClaimOwn (tr_next reg2) None,
                put_entry key \<lparr>te_id = tr_next reg2, te_processing = True, te_done = tr_next reg2, te_result = None,
                  te_complete = False, te_lastUsed = now\<rparr> (reg2\<lparr>tr_next := Suc (tr_next reg2)\<rparr>)))"

text \<open>The entry a caller holds, when the map still points to it.\<close>

definition owned_entry :: "string \<Rightarrow> nat \<Rightarrow> 'r TaskRegistry \<Rightarrow> 'r taskEntry option" where
  "owned_entry key i registry =
     (case map_of (tr_entries registry) key of
        Some entry \<Rightarrow> if te_id entry = i then Some entry else None
      | None \<Rightarrow> None)"

definition close_channel :: "nat \<Rightarrow> 'r TaskRegistry \<Rightarrow> 'r TaskRegistry option" where
  "close_channel c registry =
     (if c \<in> set (tr_closed registry) then None else Some (registry\<lparr>tr_closed := c # tr_closed registry\<rparr>))"

definition rememberResult :: "string \<Rightarrow> nat \<Rightarrow> 'r \<Rightarrow> 'r TaskRegistry \<Rightarrow> 'r TaskRegistry" where
  "rememberResult key i result registry =
     (case owned_entry key i registry of
        Some entry \<Rightarrow> put_entry key (entry\<lparr>te_result := Some result\<rparr>) registry
      | None \<Rightarrow> registry)"

text \<open>\<open>None\<close> is the panic of closing a closed channel.\<close>

definition finishExecutionFailure :: "string \<Rightarrow> nat \<Rightarrow> 'r TaskRegistry \<Rightarrow> 'r TaskRegistry option" where
  "finishExecutionFailure key i registry =
     (case owned_entry key i registry of
        None \<Rightarrow> Some registry
      | Some entry \<Rightarrow>
          close_channel (te_done entry) (registry\<lparr>tr_entries := AList.delete key (tr_entries registry)\<rparr>))"

definition finishPublish :: "int \<Rightarrow> string \<Rightarrow> nat \<Rightarrow> bool \<Rightarrow> 'r TaskRegistry \<Rightarrow> 'r TaskRegistry option" where
  "finishPublish now key i complete registry =
     (case owned_entry key i registry of
        None \<Rightarrow> Some registry
      | Some entry \<Rightarrow>
          close_channel (te_done entry)
            (put_entry key (entry\<lparr>te_processing := False, te_complete := complete, te_lastUsed := now\<rparr>) registry))"

section \<open>Concurrent calls of Process\<close>

datatype 'r phase = Claiming | Waiting nat | Executing nat | Publishing nat 'r | Returned | Panicked

text \<open>
  What happens at a step of a caller: the clock it reads, whether its context ended, and what the calls
  \<^verbatim>\<open>execute\<close> and \<^verbatim>\<open>publish\<close> returned; \<open>Published now complete\<close> is a publication that ended with
  \<^verbatim>\<open>publishErr == nil || callback.IsPermanent(publishErr)\<close> having the value \<open>complete\<close>.
\<close>

datatype 'r action = Claim int | Wake | ContextDone | ExecuteFailed | Executed 'r | Published int bool

definition after_panic :: "'r TaskRegistry \<Rightarrow> 'r TaskRegistry option \<Rightarrow> 'r phase \<times> 'r TaskRegistry" where
  "after_panic registry r = (case r of Some registry' \<Rightarrow> (Returned, registry') | None \<Rightarrow> (Panicked, registry))"

fun Process_step :: "'r action \<Rightarrow> string \<Rightarrow> 'r phase \<Rightarrow> 'r TaskRegistry \<Rightarrow> ('r phase \<times> 'r TaskRegistry) option" where
  "Process_step (Claim now) key Claiming registry =
     (case registry_claim now key registry of
        (ClaimFull, registry') \<Rightarrow> Some (Returned, registry')
      | (ClaimWait c, registry') \<Rightarrow> Some (Waiting c, registry')
      | (ClaimDone, registry') \<Rightarrow> Some (Returned, registry')
      | (ClaimOwn i None, registry') \<Rightarrow> Some (Executing i, registry')
      | (ClaimOwn i (Some r), registry') \<Rightarrow> Some (Publishing i r, registry'))"
| "Process_step Wake key (Waiting c) registry =
     (if c \<in> set (tr_closed registry) then Some (Claiming, registry) else None)"
| "Process_step ContextDone key (Waiting c) registry = Some (Returned, registry)"
| "Process_step ExecuteFailed key (Executing i) registry =
     Some (after_panic registry (finishExecutionFailure key i registry))"
| "Process_step (Executed r) key (Executing i) registry = Some (Publishing i r, rememberResult key i r registry)"
| "Process_step (Published now complete) key (Publishing i r) registry =
     Some (after_panic registry (finishPublish now key i complete registry))"
| "Process_step _ key _ registry = None"

text \<open>
  The callers so far, the registry they share, and the publications made, newest first: key, payload and
  whether the entry was completed by it.
\<close>

record 'r registry_system =
  sy_registry :: "'r TaskRegistry"
  sy_callers :: "(string \<times> 'r phase) list"
  sy_log :: "(string \<times> 'r \<times> bool) list"

fun publication :: "'r action \<Rightarrow> string \<Rightarrow> 'r phase \<Rightarrow> (string \<times> 'r \<times> bool) list" where
  "publication (Published now complete) key (Publishing i r) = [(key, r, complete)]"
| "publication _ key _ = []"

inductive registry_step :: "'r registry_system \<Rightarrow> 'r registry_system \<Rightarrow> bool" where
  call: "registry_step s (s\<lparr>sy_callers := sy_callers s @ [(key, Claiming)]\<rparr>)"
| act: "sy_callers s = before @ (key, phase) # behind \<Longrightarrow>
    Process_step action key phase (sy_registry s) = Some (phase', registry') \<Longrightarrow>
    registry_step s \<lparr>sy_registry = registry', sy_callers = before @ (key, phase') # behind,
      sy_log = publication action key phase @ sy_log s\<rparr>"
| ranged: "mset entries = mset (tr_entries (sy_registry s)) \<Longrightarrow>
    registry_step s (s\<lparr>sy_registry := (sy_registry s)\<lparr>tr_entries := entries\<rparr>\<rparr>)"

definition registry_start :: "int \<Rightarrow> int \<Rightarrow> 'r registry_system" where
  "registry_start capacity ttl = \<lparr>sy_registry = NewTaskRegistry capacity ttl, sy_callers = [], sy_log = []\<rparr>"

section \<open>The invariant\<close>

definition holding :: "'r phase \<Rightarrow> bool" where
  "holding phase \<longleftrightarrow> (case phase of Executing _ \<Rightarrow> True | Publishing _ _ \<Rightarrow> True | _ \<Rightarrow> False)"

definition phase_ok :: "(string \<rightharpoonup> 'r taskEntry) \<Rightarrow> nat list \<Rightarrow> string \<Rightarrow> 'r phase \<Rightarrow> bool" where
  "phase_ok m closed key phase \<longleftrightarrow>
     (case phase of
        Waiting c \<Rightarrow> c \<in> set closed \<or> (\<exists>e. m key = Some e \<and> te_processing e \<and> te_done e = c)
      | Executing i \<Rightarrow> \<exists>e. m key = Some e \<and> te_id e = i \<and> te_processing e \<and> te_result e = None
      | Publishing i r \<Rightarrow> \<exists>e. m key = Some e \<and> te_id e = i \<and> te_processing e \<and> te_result e = Some r
      | Panicked \<Rightarrow> False
      | _ \<Rightarrow> True)"

definition entry_ok :: "nat list \<Rightarrow> nat \<Rightarrow> (string \<times> 'r phase) list \<Rightarrow> string \<Rightarrow> 'r taskEntry \<Rightarrow> bool" where
  "entry_ok closed n callers key e \<longleftrightarrow>
     te_done e < n \<and> (te_complete e \<longrightarrow> \<not> te_processing e)
     \<and> (te_processing e \<longrightarrow> te_done e \<notin> set closed \<and> key \<in> fst ` {c \<in> set callers. holding (snd c)})"

definition channels_apart :: "(string \<rightharpoonup> 'r taskEntry) \<Rightarrow> bool" where
  "channels_apart m \<longleftrightarrow>
     (\<forall>k e k' e'. m k = Some e \<and> m k' = Some e' \<and> te_processing e \<and> te_processing e' \<and> te_done e = te_done e' \<longrightarrow> k = k')"

definition single_flight :: "(string \<times> 'r phase) list \<Rightarrow> bool" where
  "single_flight callers \<longleftrightarrow> distinct (map fst (filter (\<lambda>c. holding (snd c)) callers))"

definition retained :: "(string \<rightharpoonup> 'r taskEntry) \<Rightarrow> (string \<times> 'r \<times> bool) list \<Rightarrow> bool" where
  "retained m log \<longleftrightarrow>
     (\<forall>k r. map_of log k = Some (r, False) \<longrightarrow> (\<exists>e. m k = Some e \<and> te_result e = Some r \<and> \<not> te_complete e))"

text \<open>A publication after a transient failure for the same key has the payload of the failed one.\<close>

fun log_ok :: "(string \<times> 'r \<times> bool) list \<Rightarrow> bool" where
  "log_ok [] \<longleftrightarrow> True"
| "log_ok ((key, r, _) # log) \<longleftrightarrow> (\<forall>r'. map_of log key = Some (r', False) \<longrightarrow> r' = r) \<and> log_ok log"

definition view_ok ::
  "(string \<rightharpoonup> 'r taskEntry) \<Rightarrow> nat list \<Rightarrow> nat \<Rightarrow> (string \<times> 'r phase) list \<Rightarrow> (string \<times> 'r \<times> bool) list \<Rightarrow> bool" where
  "view_ok m closed n callers log \<longleftrightarrow>
     (\<forall>c \<in> set closed. c < n) \<and> (\<forall>k e. m k = Some e \<longrightarrow> entry_ok closed n callers k e) \<and> channels_apart m
     \<and> (\<forall>(k, phase) \<in> set callers. phase_ok m closed k phase) \<and> single_flight callers \<and> retained m log \<and> log_ok log"

definition registry_ok :: "'r TaskRegistry \<Rightarrow> bool" where
  "registry_ok registry \<longleftrightarrow>
     distinct (map fst (tr_entries registry)) \<and> 0 < tr_capacity registry
     \<and> int (length (tr_entries registry)) \<le> tr_capacity registry"

abbreviation entry_map :: "'r TaskRegistry \<Rightarrow> string \<rightharpoonup> 'r taskEntry" where
  "entry_map registry \<equiv> map_of (tr_entries registry)"

definition system_ok :: "'r registry_system \<Rightarrow> bool" where
  "system_ok s \<longleftrightarrow> registry_ok (sy_registry s)
     \<and> view_ok (entry_map (sy_registry s)) (tr_closed (sy_registry s)) (tr_next (sy_registry s)) (sy_callers s) (sy_log s)"

lemmas view_defs = view_ok_def entry_ok_def channels_apart_def phase_ok_def single_flight_def retained_def holding_def

lemma view_forget:
  assumes "view_ok m closed n callers log"
    and "\<And>k. m' k = m k \<or> (m' k = None \<and> (\<exists>e. m k = Some e \<and> finished_entry e))"
  shows "view_ok m' closed n callers log"
proof -
  have sub: "m k = Some e" if "m' k = Some e" for k e using assms(2) [of k] that by auto
  have keep: "m' k = Some e" if "m k = Some e" "\<not> finished_entry e" for k e using assms(2) [of k] that by auto
  have 1: "phase_ok m' closed k phase" if "phase_ok m closed k phase" for k phase
    using that keep by (fastforce simp: phase_ok_def finished_entry_def split: phase.splits)
  have 2: "retained m' log" if "retained m log"
    using that keep by (fastforce simp: retained_def finished_entry_def)
  have 3: "channels_apart m'" if "channels_apart m"
    using that sub unfolding channels_apart_def by blast
  show ?thesis using assms(1) sub 1 2 3 unfolding view_ok_def by fast
qed

lemma view_update:
  assumes "view_ok m closed n callers log" "m k = Some e" "te_processing e' = te_processing e" "te_done e' = te_done e"
    "te_result e' = te_result e" "te_complete e' = te_complete e" "te_id e' = te_id e"
  shows "view_ok (m(k \<mapsto> e')) closed n callers log"
proof -
  have 1: "phase_ok (m(k \<mapsto> e')) closed k' phase" if "phase_ok m closed k' phase" for k' phase
    using that assms by (cases "k' = k"; cases phase) (auto simp: phase_ok_def)
  have 2: "retained (m(k \<mapsto> e')) log" if "retained m log"
    using that assms by (fastforce simp: retained_def)
  have 3: "channels_apart (m(k \<mapsto> e'))" if "channels_apart m"
    using that assms unfolding channels_apart_def by (simp split: if_splits) (metis)
  have 4: "entry_ok closed n callers k e'" if "entry_ok closed n callers k e"
    using that assms by (simp add: entry_ok_def)
  show ?thesis using assms(1,2) 1 2 3 4 unfolding view_ok_def by (auto split: if_splits)
qed


definition busy :: "(string \<times> 'r phase) list \<Rightarrow> string list" where
  "busy callers = map fst (filter (\<lambda>c. holding (snd c)) callers)"

lemma busy_append [simp]: "busy (xs @ ys) = busy xs @ busy ys" by (simp add: busy_def)

lemma busy_Cons [simp]: "busy ((k, phase) # cs) = (if holding phase then k # busy cs else busy cs)"
  by (simp add: busy_def)

lemma busy_Nil [simp]: "busy [] = []" by (simp add: busy_def)

lemma set_busy: "k \<in> set (busy callers) \<longleftrightarrow> (\<exists>phase. (k, phase) \<in> set callers \<and> holding phase)"
  by (force simp: busy_def)

lemma entry_ok_busy: "entry_ok closed n callers key e \<longleftrightarrow>
    te_done e < n \<and> (te_complete e \<longrightarrow> \<not> te_processing e)
    \<and> (te_processing e \<longrightarrow> te_done e \<notin> set closed \<and> key \<in> set (busy callers))"
  by (auto simp: entry_ok_def busy_def)

lemma single_flight_busy: "single_flight callers \<longleftrightarrow> distinct (busy callers)"
  by (simp add: single_flight_def busy_def)

lemma holding_simps [simp]: "\<not> holding Claiming" "\<not> holding (Waiting c)" "\<not> holding Returned" "\<not> holding Panicked"
  "holding (Executing i)" "holding (Publishing i r)"
  by (simp_all add: holding_def)

lemma phase_ok_simps [simp]: "phase_ok m closed k Claiming" "phase_ok m closed k Returned"
  "\<not> phase_ok m closed k Panicked"
  by (simp_all add: phase_ok_def)

lemma phase_ok_holds: "phase_ok m closed k phase \<Longrightarrow> holding phase \<Longrightarrow> \<exists>e. m k = Some e \<and> te_processing e"
  by (auto simp: phase_ok_def holding_def split: phase.splits)

lemma phase_ok_other: "k' \<noteq> k \<Longrightarrow> phase_ok (m(k := x)) closed k' phase = phase_ok m closed k' phase"
  by (simp add: phase_ok_def split: phase.splits)

lemma phase_ok_mono: "phase_ok m closed k phase \<Longrightarrow> set closed \<subseteq> set closed' \<Longrightarrow> phase_ok m closed' k phase"
  by (auto simp: phase_ok_def split: phase.splits)

lemma view_busy: "view_ok m closed n callers log \<Longrightarrow> k \<in> set (busy callers) \<Longrightarrow> \<exists>e. m k = Some e \<and> te_processing e"
  by (auto simp: view_ok_def set_busy dest: phase_ok_holds)

lemma view_caller: "view_ok m closed n callers log \<Longrightarrow> (k, phase) \<in> set callers \<Longrightarrow> phase_ok m closed k phase"
  by (auto simp: view_ok_def)

lemma view_idle_caller:
  assumes "view_ok m closed n (B @ (k, phase) # A) log" "\<not> holding phase" "\<not> holding phase'" "phase_ok m closed k phase'"
  shows "view_ok m closed n (B @ (k, phase') # A) log"
  using assms by (auto simp: view_ok_def entry_ok_busy single_flight_busy)

text \<open>Claiming an entry that nobody holds.\<close>

lemma view_own:
  assumes ok: "view_ok m closed n (B @ (k, Claiming) # A) log"
    and e': "te_processing e'" "te_done e' = n" "\<not> te_complete e'"
    and old: "case m k of None \<Rightarrow> te_result e' = None
      | Some e \<Rightarrow> \<not> te_processing e \<and> te_result e' = te_result e"
    and phase: "phase = (case te_result e' of None \<Rightarrow> Executing (te_id e') | Some r \<Rightarrow> Publishing (te_id e') r)"
  shows "view_ok (m(k \<mapsto> e')) closed (Suc n) (B @ (k, phase) # A) log"
proof -
  have free: "\<not> te_processing e" if "m k = Some e" for e using old that by simp
  have idle: "k \<notin> set (busy (B @ (k, Claiming) # A))" using view_busy [OF ok] free by blast
  have h: "holding phase" and p: "phase_ok (m(k \<mapsto> e')) closed k phase"
    using e' phase by (simp_all add: phase_ok_def split: option.splits)
  have others: "phase_ok (m(k \<mapsto> e')) closed k' ph"
    if here: "(k', ph) \<in> set B \<union> set A" for k' ph
  proof (cases "k' = k")
    case True
    with that idle have "\<not> holding ph" by (auto simp: set_busy)
    with view_caller [OF ok, of k' ph] that True free show ?thesis by (cases ph) (auto simp: phase_ok_def)
  qed (use view_caller [OF ok, of k' ph] that in \<open>auto simp: phase_ok_other\<close>)
  have ent: "entry_ok closed (Suc n) (B @ (k, phase) # A) k' e"
    if "m k' = Some e" "k' \<noteq> k" for k' e
    using ok that h by (auto simp: view_ok_def entry_ok_busy less_Suc_eq)
  have new: "entry_ok closed (Suc n) (B @ (k, phase) # A) k e'" using ok e' h by (auto simp: view_ok_def entry_ok_busy)
  have ch: "channels_apart (m(k \<mapsto> e'))"
  proof -
    have less: "te_done e < n" if "m k' = Some e" for k' e
      using ok that by (auto simp: view_ok_def entry_ok_def)
    have lt: "te_done e \<noteq> te_done e'" "te_done e' \<noteq> te_done e" if "m k' = Some e" for k' e
      using less [OF that] e'(2) by simp_all
    have old: "channels_apart m" using ok by (simp add: view_ok_def)
    show ?thesis unfolding channels_apart_def
      using old by (auto simp: channels_apart_def split: if_splits dest: lt)
  qed
  have "retained (m(k \<mapsto> e')) log" using ok old e'(3)
    by (fastforce simp: view_ok_def retained_def split: option.splits)
  then show ?thesis using ok others ent new ch p h idle
    by (auto simp: view_ok_def single_flight_busy less_SucI split: if_splits)
qed

text \<open>A holder gives its entry up, either deleting it or leaving it unheld.\<close>

lemma view_finish:
  assumes ok: "view_ok m closed n (B @ (k, phase) # A) log" and h: "holding phase"
    and e: "m k = Some e" and x: "\<And>e'. x = Some e' \<Longrightarrow> \<not> te_processing e' \<and> te_done e' < n"
    and log: "retained (m(k := x)) log'" "log_ok log'"
  shows "te_done e \<notin> set closed" and "view_ok (m(k := x)) (te_done e # closed) n (B @ (k, Returned) # A) log'"
proof -
  have pe: "te_processing e" using view_busy [OF ok, of k] h e by auto
  then have ent: "te_done e \<notin> set closed" "te_done e < n" using ok e by (auto simp: view_ok_def entry_ok_def)
  then show "te_done e \<notin> set closed" by simp
  have idle: "k \<notin> set (busy B)" "k \<notin> set (busy A)" using ok h by (auto simp: view_ok_def single_flight_busy)
  have others: "phase_ok (m(k := x)) (te_done e # closed) k' ph"
    if here: "(k', ph) \<in> set B \<union> set A" for k' ph
  proof (cases "k' = k")
    case True
    with that idle have "\<not> holding ph" by (auto simp: set_busy)
    with view_caller [OF ok, of k' ph] that True e show ?thesis by (cases ph) (auto simp: phase_ok_def)
  qed (use view_caller [OF ok, of k' ph] that phase_ok_mono [of m closed k' ph "te_done e # closed"] in \<open>auto simp: phase_ok_other\<close>)
  have ch: "channels_apart m" using ok by (simp add: view_ok_def)
  then have ch': "channels_apart (m(k := x))"
    using x unfolding channels_apart_def by (simp split: if_splits) blast
  have apart: "te_done e' \<noteq> te_done e" if "m k' = Some e'" "te_processing e'" "k' \<noteq> k" for k' e'
    using ch e pe that unfolding channels_apart_def by blast
  have keep: "entry_ok (te_done e # closed) n (B @ (k, Returned) # A) k' e'" if "m k' = Some e'" "k' \<noteq> k" for k' e'
    using ok that h apart by (auto simp: view_ok_def entry_ok_busy)
  show "view_ok (m(k := x)) (te_done e # closed) n (B @ (k, Returned) # A) log'"
    using ok others ch' keep log ent idle x
    by (auto simp: view_ok_def single_flight_busy entry_ok_busy [of _ _ _ k] h split: if_splits)
qed

lemma view_remember:
  assumes ok: "view_ok m closed n (B @ (k, Executing i) # A) log"
    and e: "m k = Some e"
  shows "view_ok (m(k \<mapsto> e\<lparr>te_result := Some r\<rparr>)) closed n (B @ (k, Publishing i r) # A) log"
proof -
  let ?e = "e\<lparr>te_result := Some r\<rparr>"
  have pe: "te_id e = i" "te_processing e" "te_result e = None" using ok e by (auto simp: view_ok_def phase_ok_def)
  have idle: "k \<notin> set (busy B)" "k \<notin> set (busy A)" using ok by (auto simp: view_ok_def single_flight_busy)
  have others: "phase_ok (m(k \<mapsto> ?e)) closed k' ph"
    if here: "(k', ph) \<in> set B \<union> set A" for k' ph
  proof (cases "k' = k")
    case True
    with that idle have "\<not> holding ph" by (auto simp: set_busy)
    with view_caller [OF ok, of k' ph] that True e show ?thesis by (cases ph) (auto simp: phase_ok_def)
  qed (use view_caller [OF ok, of k' ph] that in \<open>auto simp: phase_ok_other\<close>)
  have ch: "channels_apart (m(k \<mapsto> ?e))"
    using ok e unfolding view_ok_def channels_apart_def by (simp split: if_splits) blast
  have rt: "retained (m(k \<mapsto> ?e)) log" using ok e pe(3) by (fastforce simp: view_ok_def retained_def)
  have "phase_ok (m(k \<mapsto> ?e)) closed k (Publishing i r)" using pe by (simp add: phase_ok_def)
  then show ?thesis using ok e others ch rt
    by (auto simp: view_ok_def single_flight_busy entry_ok_busy split: if_splits)
qed


section \<open>The operations keep it\<close>

abbreviation registry_view :: "'r TaskRegistry \<Rightarrow> (string \<times> 'r phase) list \<Rightarrow> (string \<times> 'r \<times> bool) list \<Rightarrow> bool" where
  "registry_view registry callers log \<equiv> view_ok (entry_map registry) (tr_closed registry) (tr_next registry) callers log"

lemma put_entry_simps [simp]:
  "tr_capacity (put_entry k e registry) = tr_capacity registry" "tr_next (put_entry k e registry) = tr_next registry"
  "tr_closed (put_entry k e registry) = tr_closed registry" "tr_ttl (put_entry k e registry) = tr_ttl registry"
  "entry_map (put_entry k e registry) = (entry_map registry)(k \<mapsto> e)"
  by (simp_all add: put_entry_def update_conv')

lemma put_entry_ok:
  assumes "registry_ok registry"
    and "entry_map registry k \<noteq> None \<or> int (length (tr_entries registry)) < tr_capacity registry"
  shows "registry_ok (put_entry k e registry)"
  using assms by (auto simp: registry_ok_def put_entry_def distinct_update length_update map_of_eq_None_iff)

lemma prune_forgets:
  assumes "registry_ok registry"
  shows "entry_map (pruneCompleted now registry) k = entry_map registry k
    \<or> (entry_map (pruneCompleted now registry) k = None \<and> (\<exists>e. entry_map registry k = Some e \<and> finished_entry e))"
  using assms by (auto simp: pruneCompleted_def registry_ok_def map_of_filter_keys split: option.splits)

lemma prune_ok: "registry_ok registry \<Longrightarrow> registry_ok (pruneCompleted now registry)"
  by (auto simp: registry_ok_def pruneCompleted_def distinct_filter_keys
      intro: order_trans [OF of_nat_mono [OF length_filter_le]])

lemma oldest_completed_finished:
  "oldest_completed es (k0, t0) = (k, t) \<Longrightarrow> k = k0 \<or> (\<exists>e. (k, e) \<in> set es \<and> finished_entry e)"
proof (induction es arbitrary: k0 t0)
  case (Cons x es)
  obtain k' e where x: "x = (k', e)" by (cases x)
  show ?case using Cons.IH Cons.prems x by (auto simp: finished_entry_def split: if_splits)
qed simp

lemma evict_cases:
  obtains "evictOldestCompleted registry = registry"
  | k e where "evictOldestCompleted registry = registry\<lparr>tr_entries := AList.delete k (tr_entries registry)\<rparr>"
      "(k, e) \<in> set (tr_entries registry)" "finished_entry e"
proof -
  obtain k t where o: "oldest_completed (tr_entries registry) ([], 0) = (k, t)" by fastforce
  have "evictOldestCompleted registry = registry
    \<or> k \<noteq> [] \<and> evictOldestCompleted registry = registry\<lparr>tr_entries := AList.delete k (tr_entries registry)\<rparr>"
    by (simp add: evictOldestCompleted_def o)
  then show thesis using that oldest_completed_finished [OF o] by blast
qed

lemma evict_simps [simp]:
  "tr_capacity (evictOldestCompleted registry) = tr_capacity registry"
  "tr_next (evictOldestCompleted registry) = tr_next registry"
  "tr_closed (evictOldestCompleted registry) = tr_closed registry"
  by (rule evict_cases [of registry]; simp)+

lemma prune_simps [simp]:
  "tr_capacity (pruneCompleted now registry) = tr_capacity registry"
  "tr_next (pruneCompleted now registry) = tr_next registry"
  "tr_closed (pruneCompleted now registry) = tr_closed registry"
  by (simp_all add: pruneCompleted_def)

lemma evict_forgets:
  assumes "registry_ok registry"
  shows "entry_map (evictOldestCompleted registry) k = entry_map registry k
    \<or> (entry_map (evictOldestCompleted registry) k = None \<and> (\<exists>e. entry_map registry k = Some e \<and> finished_entry e))"
proof (rule evict_cases [of registry])
  fix k' e assume "evictOldestCompleted registry = registry\<lparr>tr_entries := AList.delete k' (tr_entries registry)\<rparr>"
    "(k', e) \<in> set (tr_entries registry)" "finished_entry e"
  with assms show ?thesis by (auto simp: registry_ok_def delete_conv')
qed simp

lemma evict_ok: "registry_ok registry \<Longrightarrow> registry_ok (evictOldestCompleted registry)"
proof (rule evict_cases [of registry])
  fix k e assume "registry_ok registry"
    "evictOldestCompleted registry = registry\<lparr>tr_entries := AList.delete k (tr_entries registry)\<rparr>"
  then show ?thesis using length_delete [of k "tr_entries registry"]
    by (auto simp: registry_ok_def distinct_delete)
qed simp


lemma claim_keeps:
  assumes ok: "registry_ok registry" "registry_view registry (B @ (k, Claiming) # A) log"
    and step: "Process_step (Claim now) k Claiming registry = Some (phase, registry')"
  shows "registry_ok registry' \<and> registry_view registry' (B @ (k, phase) # A) log"
proof -
  define reg1 where "reg1 = pruneCompleted now registry"
  define reg2 where "reg2 = evictOldestCompleted reg1"
  have ok1: "registry_ok reg1" unfolding reg1_def by (rule prune_ok [OF ok(1)])
  have v1: "registry_view reg1 (B @ (k, Claiming) # A) log"
    using view_forget [OF ok(2) prune_forgets [OF ok(1)]] unfolding reg1_def by simp
  have ok2: "registry_ok reg2" unfolding reg2_def by (rule evict_ok [OF ok1])
  have v2: "registry_view reg2 (B @ (k, Claiming) # A) log"
    using view_forget [OF v1 evict_forgets [OF ok1]] unfolding reg2_def by simp
  note claim = step [simplified, unfolded registry_claim_def Let_def reg1_def [symmetric] reg2_def [symmetric]]
  show ?thesis
  proof (cases "entry_map reg1 k")
    case None
    then have none2: "entry_map reg2 k = None" using evict_forgets [OF ok1, of k] by (simp add: reg2_def)
    show ?thesis
    proof (cases "int (length (tr_entries reg2)) \<ge> tr_capacity reg2")
      case True
      then have "phase = Returned" "registry' = reg2" using claim None by simp_all
      then show ?thesis using ok2 view_idle_caller [OF v2] by simp
    next
      case False
      let ?e = "\<lparr>te_id = tr_next reg2, te_processing = True, te_done = tr_next reg2, te_result = None,
        te_complete = False, te_lastUsed = now\<rparr>"
      let ?r = "reg2\<lparr>tr_next := Suc (tr_next reg2)\<rparr>"
      have r: "phase = Executing (tr_next reg2)" "registry' = put_entry k ?e ?r" using claim None False by simp_all
      have "registry_ok ?r" using ok2 by (simp add: registry_ok_def)
      then have "registry_ok registry'" unfolding r using put_entry_ok [of ?r k ?e] False by simp
      then show ?thesis using view_own [OF v2, of ?e] none2 by (simp add: r)
    qed
  next
    case (Some e)
    let ?t = "e\<lparr>te_lastUsed := now\<rparr>"
    have touch: "registry_ok (put_entry k ?t reg1)" "registry_view (put_entry k ?t reg1) (B @ (k, Claiming) # A) log"
      using put_entry_ok [OF ok1, of k ?t] view_update [OF v1 Some, of ?t] Some by simp_all
    consider "te_complete e" | "\<not> te_complete e" "te_processing e" | "\<not> te_complete e" "\<not> te_processing e" by blast
    then show ?thesis
    proof cases
      case 1
      then have "phase = Returned" "registry' = put_entry k ?t reg1" using claim Some by simp_all
      then show ?thesis using touch view_idle_caller [OF touch(2)] by simp
    next
      case 2
      then have r: "phase = Waiting (te_done e)" "registry' = put_entry k ?t reg1" using claim Some by simp_all
      have "phase_ok (entry_map (put_entry k ?t reg1)) (tr_closed reg1) k (Waiting (te_done e))"
        using 2 by (simp add: phase_ok_def)
      then show ?thesis using touch view_idle_caller [OF touch(2)] r by simp
    next
      case 3
      let ?e = "?t\<lparr>te_processing := True, te_done := tr_next reg1\<rparr>"
      let ?r = "reg1\<lparr>tr_next := Suc (tr_next reg1)\<rparr>"
      have r: "phase = (case te_result e of None \<Rightarrow> Executing (te_id e) | Some r \<Rightarrow> Publishing (te_id e) r)"
        "registry' = put_entry k ?e ?r" using claim Some 3 by (auto split: option.splits)
      have "registry_ok ?r" using ok1 by (simp add: registry_ok_def)
      then have "registry_ok registry'" unfolding r using put_entry_ok [of ?r k ?e] Some by simp
      then show ?thesis using view_own [OF v1, of ?e] Some 3 by (cases "te_result e") (simp_all add: r)
    qed
  qed
qed

lemma owned_entry_at:
  "entry_map registry k = Some e \<Longrightarrow> te_id e = i \<Longrightarrow> owned_entry k i registry = Some e"
  by (simp add: owned_entry_def)

lemma execute_failed_keeps:
  assumes ok: "registry_ok registry" "registry_view registry (B @ (k, Executing i) # A) log"
  shows "\<exists>registry'. finishExecutionFailure k i registry = Some registry' \<and> registry_ok registry'
    \<and> registry_view registry' (B @ (k, Returned) # A) log"
proof -
  from view_caller [OF ok(2), of k "Executing i"] obtain e where
    e: "entry_map registry k = Some e" "te_id e = i" "te_result e = None" by (auto simp: phase_ok_def)
  have "retained (entry_map registry) log" "log_ok log" using ok(2) by (simp_all add: view_ok_def)
  then have log: "retained ((entry_map registry)(k := None)) log" "log_ok log"
    using e by (fastforce simp: retained_def)+
  note v = view_finish [OF ok(2) _ e(1) _ log, simplified]
  have "registry_ok (registry\<lparr>tr_entries := AList.delete k (tr_entries registry)\<rparr>)"
    using ok(1) length_delete [of k "tr_entries registry"] by (auto simp: registry_ok_def distinct_delete)
  then show ?thesis
    using v by (simp add: finishExecutionFailure_def owned_entry_at [OF e(1,2)] close_channel_def delete_conv' registry_ok_def)
qed

lemma publish_keeps:
  assumes ok: "registry_ok registry" "registry_view registry (B @ (k, Publishing i r) # A) log"
  shows "\<exists>registry'. finishPublish now k i complete registry = Some registry' \<and> registry_ok registry'
    \<and> registry_view registry' (B @ (k, Returned) # A) ((k, r, complete) # log)"
proof -
  from view_caller [OF ok(2), of k "Publishing i r"] obtain e where
    e: "entry_map registry k = Some e" "te_id e = i" "te_result e = Some r" by (auto simp: phase_ok_def)
  let ?e = "e\<lparr>te_processing := False, te_complete := complete, te_lastUsed := now\<rparr>"
  have old: "retained (entry_map registry) log" "log_ok log" using ok(2) by (simp_all add: view_ok_def)
  have log: "retained ((entry_map registry)(k \<mapsto> ?e)) ((k, r, complete) # log)" "log_ok ((k, r, complete) # log)"
    using old e by (fastforce simp: retained_def)+
  have "te_done e < tr_next registry" using ok(2) e(1) by (auto simp: view_ok_def entry_ok_def)
  then have v: "te_done e \<notin> set (tr_closed registry)"
    "view_ok ((entry_map registry)(k \<mapsto> ?e)) (te_done e # tr_closed registry) (tr_next registry)
      (B @ (k, Returned) # A) ((k, r, complete) # log)"
    using view_finish [OF ok(2) _ e(1) _ log] by simp_all
  have "registry_ok (put_entry k ?e registry)" using put_entry_ok [OF ok(1)] e(1) by simp
  then show ?thesis
    using v by (simp add: finishPublish_def owned_entry_at [OF e(1,2)] close_channel_def registry_ok_def)
qed

lemma executed_keeps:
  assumes ok: "registry_ok registry" "registry_view registry (B @ (k, Executing i) # A) log"
  shows "registry_ok (rememberResult k i r registry)
    \<and> registry_view (rememberResult k i r registry) (B @ (k, Publishing i r) # A) log"
proof -
  from view_caller [OF ok(2), of k "Executing i"] obtain e where
    e: "entry_map registry k = Some e" "te_id e = i" by (auto simp: phase_ok_def)
  show ?thesis
    using put_entry_ok [OF ok(1), of k "e\<lparr>te_result := Some r\<rparr>"] view_remember [OF ok(2) e(1), of r] e(1)
    by (simp add: rememberResult_def owned_entry_at [OF e])
qed

lemma Process_step_keeps:
  assumes ok: "registry_ok registry" "registry_view registry (B @ (k, phase) # A) log"
    and step: "Process_step action k phase registry = Some (phase', registry')"
  shows "registry_ok registry' \<and> registry_view registry' (B @ (k, phase') # A) (publication action k phase @ log)"
  using step
proof (cases rule: Process_step.cases [of "(action, k, phase, registry)"])
  case (1 now key reg)
  then show ?thesis using claim_keeps [OF ok(1)] ok(2) step by simp
next
  case (2 key c reg)
  then show ?thesis using ok step view_idle_caller [of _ _ _ _ k phase A log Claiming] by (auto split: if_splits)
next
  case (3 key c reg)
  then show ?thesis using ok step view_idle_caller [of _ _ _ _ k phase A log Returned] by auto
next
  case (4 key i reg)
  then show ?thesis using execute_failed_keeps [OF ok(1)] ok(2) step by (fastforce simp: after_panic_def)
next
  case (5 r key i reg)
  then show ?thesis using executed_keeps [OF ok(1)] ok(2) step by auto
next
  case (6 now complete key i r reg)
  then show ?thesis using publish_keeps [OF ok(1), of B k i r A log now complete] ok(2) step
    by (auto simp: after_panic_def)
qed simp_all

lemma registry_step_keeps: "registry_step s s' \<Longrightarrow> system_ok s \<Longrightarrow> system_ok s'"
proof (induction rule: registry_step.induct)
  case (call s key)
  then show ?case by (auto simp: system_ok_def view_ok_def entry_ok_busy single_flight_busy)
next
  case (act s B key phase A action phase' registry')
  then show ?case using Process_step_keeps [of "sy_registry s" B key phase A "sy_log s"] by (simp add: system_ok_def)
next
  case (ranged entries s)
  then show ?case using map_of_permuted [OF ranged(1)] by (simp add: system_ok_def registry_ok_def)
qed

lemma registry_start_ok: "system_ok (registry_start capacity ttl)"
  by (simp add: system_ok_def registry_ok_def registry_start_def NewTaskRegistry_def view_ok_def channels_apart_def
      single_flight_def retained_def)

lemma registry_reachable_ok: "registry_step\<^sup>*\<^sup>* (registry_start capacity ttl) s \<Longrightarrow> system_ok s"
  by (induction rule: rtranclp_induct) (auto intro: registry_start_ok registry_step_keeps)


section \<open>One call at a time\<close>

text \<open>
  \<open>Process\<close> for a caller that is not interleaved with others, with the payload it handed to
  \<^verbatim>\<open>publish\<close>. A caller that would wait for another one is \<open>ProcessBlocked\<close>.
\<close>

datatype process_answer = ProcessReturned "process_error option" | ProcessBlocked nat | ProcessPanicked

definition publish_and_finish ::
  "int \<Rightarrow> string \<Rightarrow> nat \<Rightarrow> 'r \<Rightarrow> ('r \<Rightarrow> process_error option) \<Rightarrow> 'r TaskRegistry \<Rightarrow> process_answer \<times> 'r option \<times> 'r TaskRegistry" where
  "publish_and_finish now key i result publish registry =
     (let publishErr = publish result in
      case finishPublish now key i (publishErr = None \<or> publishErr = Some PermanentProcess) registry of
        Some registry' \<Rightarrow> (ProcessReturned publishErr, Some result, registry')
      | None \<Rightarrow> (ProcessPanicked, Some result, registry))"

definition Process ::
  "int \<Rightarrow> int \<Rightarrow> string \<Rightarrow> process_error + 'r \<Rightarrow> ('r \<Rightarrow> process_error option) \<Rightarrow> 'r TaskRegistry
     \<Rightarrow> process_answer \<times> 'r option \<times> 'r TaskRegistry" where
  "Process now later key execute publish registry =
     (case registry_claim now key registry of
        (ClaimFull, registry1) \<Rightarrow> (ProcessReturned (Some TransientProcess), None, registry1)
      | (ClaimWait c, registry1) \<Rightarrow> (ProcessBlocked c, None, registry1)
      | (ClaimDone, registry1) \<Rightarrow> (ProcessReturned None, None, registry1)
      | (ClaimOwn i (Some result), registry1) \<Rightarrow> publish_and_finish later key i result publish registry1
      | (ClaimOwn i None, registry1) \<Rightarrow>
          (case execute of
             Inl executeErr \<Rightarrow>
               (case finishExecutionFailure key i registry1 of
                  Some registry2 \<Rightarrow> (ProcessReturned (Some executeErr), None, registry2)
                | None \<Rightarrow> (ProcessPanicked, None, registry1))
           | Inr value \<Rightarrow> publish_and_finish later key i value publish (rememberResult key i value registry1)))"

definition execute_error :: "service_error \<Rightarrow> process_error" where
  "execute_error e = (case e of PermanentEvent _ \<Rightarrow> PermanentProcess | _ \<Rightarrow> TransientProcess)"

definition publish_error_of :: "publish_error + Disposition \<Rightarrow> process_error option" where
  "publish_error_of r =
     (case r of Inl PermanentPublish \<Rightarrow> Some PermanentProcess | Inl TransientPublish \<Rightarrow> Some TransientProcess | Inr _ \<Rightarrow> None)"

definition ProcessEvent ::
  "int \<Rightarrow> int \<Rightarrow> SubmissionStore \<Rightarrow> (ProblemVersion \<Rightarrow> ExecutionConfig option)
     \<Rightarrow> (Task \<Rightarrow> ExecutionConfig \<Rightarrow> TestBundle \<Rightarrow> service_error + Result) \<Rightarrow> http_answer
     \<Rightarrow> SubmissionRequested \<Rightarrow> Result TaskRegistry \<Rightarrow> process_answer \<times> Result option \<times> Result TaskRegistry" where
  "ProcessEvent now later store parse executor answer event registry =
     Process now later (DeduplicationKey event)
       (case service_execute store parse executor event of Inl e \<Rightarrow> Inl (execute_error e) | Inr r \<Rightarrow> Inr r)
       (\<lambda>r. publish_error_of (Publish answer r)) registry"

text \<open>Each call is a run of the steps of one caller.\<close>

inductive caller_run :: "string \<Rightarrow> 'r phase \<Rightarrow> 'r TaskRegistry \<Rightarrow> 'r phase \<Rightarrow> 'r TaskRegistry \<Rightarrow> (string \<times> 'r \<times> bool) list \<Rightarrow> bool" where
  run_stop: "caller_run key phase registry phase registry []"
| run_step: "Process_step action key phase registry = Some (phase', registry') \<Longrightarrow>
    caller_run key phase' registry' phase'' registry'' log \<Longrightarrow>
    caller_run key phase registry phase'' registry'' (log @ publication action key phase)"

definition final_phase :: "process_answer \<Rightarrow> 'r phase" where
  "final_phase answer = (case answer of ProcessReturned _ \<Rightarrow> Returned | ProcessBlocked c \<Rightarrow> Waiting c | ProcessPanicked \<Rightarrow> Panicked)"

lemma run_one:
  "Process_step action key phase registry = Some (phase', registry') \<Longrightarrow>
    caller_run key phase registry phase' registry' (publication action key phase)"
  using run_step [OF _ run_stop] by fastforce

lemma publish_run:
  assumes "publish_and_finish now key i result publish registry = (answer, published, registry')"
  shows "\<exists>complete. caller_run key (Publishing i result) registry (final_phase answer) registry' [(key, result, complete)]"
    and "published = Some result"
proof -
  let ?c = "publish result = None \<or> publish result = Some PermanentProcess"
  have "Process_step (Published now ?c) key (Publishing i result) registry = Some (final_phase answer, registry')"
    using assms by (auto simp: publish_and_finish_def Let_def after_panic_def final_phase_def split: option.splits)
  from run_one [OF this]
  show "\<exists>complete. caller_run key (Publishing i result) registry (final_phase answer) registry' [(key, result, complete)]"
    by (auto simp del: Process_step.simps)
  show "published = Some result"
    using assms by (auto simp: publish_and_finish_def Let_def split: option.splits)
qed

lemma Process_run:
  assumes "Process now later key execute publish registry = (answer, published, registry')"
  shows "\<exists>log. caller_run key Claiming registry (final_phase answer) registry' log
    \<and> map (\<lambda>(k, r, _). r) log = (case published of None \<Rightarrow> [] | Some r \<Rightarrow> [r])"
proof -
  obtain claimed registry1 where c: "registry_claim now key registry = (claimed, registry1)" by fastforce
  note run = run_step [of "Claim now" key Claiming registry]
  show ?thesis
  proof (cases claimed)
    case (ClaimOwn i cached)
    show ?thesis
    proof (cases cached)
      case (Some r)
      have p: "publish_and_finish later key i r publish registry1 = (answer, published, registry')"
        using assms c ClaimOwn Some by (simp add: Process_def)
      from publish_run [OF p] obtain complete where
        "caller_run key (Publishing i r) registry1 (final_phase answer) registry' [(key, r, complete)]" by blast
      then show ?thesis using run c ClaimOwn Some publish_run(2) [OF p] by fastforce
    next
      case None
      note step1 = run [of "Executing i" registry1] c ClaimOwn None
      show ?thesis
      proof (cases execute)
        case (Inl e)
        then have "Process_step ExecuteFailed key (Executing i) registry1 = Some (final_phase answer, registry')" "published = None"
          using assms c ClaimOwn None
          by (auto simp: Process_def final_phase_def after_panic_def split: option.splits)
        then show ?thesis using step1 run_one by fastforce
      next
        case (Inr v)
        let ?r = "rememberResult key i v registry1"
        have p: "publish_and_finish later key i v publish ?r = (answer, published, registry')"
          using assms c ClaimOwn None Inr by (simp add: Process_def)
        from publish_run [OF p] obtain complete where
          "caller_run key (Publishing i v) ?r (final_phase answer) registry' [(key, v, complete)]" by blast
        then have "caller_run key (Executing i) registry1 (final_phase answer) registry' [(key, v, complete)]"
          using run_step [of "Executed v" key "Executing i" registry1 "Publishing i v" ?r] by fastforce
        then show ?thesis using step1 publish_run(2) [OF p] by fastforce
      qed
    qed
  qed (use assms c run_one [of "Claim now" key Claiming registry] in
      \<open>auto simp: Process_def final_phase_def intro!: exI [of _ "[]"]\<close>)
qed


lemma log_ok_suffix: "log_ok (later @ log) \<Longrightarrow> log_ok log"
  by (induction later) auto

lemma log_same_payload:
  "log_ok (later @ (k, r2, c) # middle @ (k, r1, False) # earlier) \<Longrightarrow> k \<notin> fst ` set middle \<Longrightarrow> r1 = r2"
proof -
  assume "log_ok (later @ (k, r2, c) # middle @ (k, r1, False) # earlier)" "k \<notin> fst ` set middle"
  then have "log_ok ((k, r2, c) # middle @ (k, r1, False) # earlier)" "map_of middle k = None"
    using log_ok_suffix by (blast, simp add: map_of_eq_None_iff)
  then show ?thesis by (auto simp: map_add_def)
qed

lemma step_of_run:
  "caller_run key phase registry phase' registry' log \<Longrightarrow> sy_callers s = B @ (key, phase) # A \<Longrightarrow> sy_registry s = registry \<Longrightarrow>
    registry_step\<^sup>*\<^sup>* s \<lparr>sy_registry = registry', sy_callers = B @ (key, phase') # A, sy_log = log @ sy_log s\<rparr>"
proof (induction arbitrary: s rule: caller_run.induct)
  case (run_stop key phase registry)
  then have "s = \<lparr>sy_registry = registry, sy_callers = B @ (key, phase) # A, sy_log = [] @ sy_log s\<rparr>" by simp
  then show ?case by (metis rtranclp.rtrancl_refl)
next
  case (run_step action key phase registry phase' registry' phase'' registry'' log)
  let ?s = "\<lparr>sy_registry = registry', sy_callers = B @ (key, phase') # A, sy_log = publication action key phase @ sy_log s\<rparr>"
  have "registry_step s ?s" using run_step.hyps(1) run_step.prems by (auto intro: act)
  with run_step.IH [of ?s] show ?case by (simp add: converse_rtranclp_into_rtranclp)
qed

lemma Process_reachable:
  assumes "Process now later key execute publish (sy_registry s) = (answer, published, registry')"
  shows "\<exists>log. registry_step\<^sup>*\<^sup>* s \<lparr>sy_registry = registry', sy_callers = sy_callers s @ [(key, final_phase answer)],
      sy_log = log @ sy_log s\<rparr> \<and> map (\<lambda>(k, r, _). r) log = (case published of None \<Rightarrow> [] | Some r \<Rightarrow> [r])"
proof -
  let ?s = "s\<lparr>sy_callers := sy_callers s @ [(key, Claiming)]\<rparr>"
  from Process_run [OF assms] obtain log where
    run: "caller_run key Claiming (sy_registry s) (final_phase answer) registry' log"
    and log: "map (\<lambda>(k, r, _). r) log = (case published of None \<Rightarrow> [] | Some r \<Rightarrow> [r])" by blast
  have "registry_step\<^sup>*\<^sup>* ?s \<lparr>sy_registry = registry', sy_callers = sy_callers s @ [(key, final_phase answer)], sy_log = log @ sy_log ?s\<rparr>"
    using step_of_run [OF run, of ?s "sy_callers s" "[]"] by simp
  with call [of s key] log show ?thesis by (auto intro: converse_rtranclp_into_rtranclp)
qed

section \<open>Properties\<close>

text \<open>C11: in every state the registry can reach, whatever the interleaving of the concurrent calls of
  \<open>Process\<close>, the clock readings, the failures of \<open>execute\<close> and \<open>publish\<close> and the order in which the map is
  ranged over, a key is executed or published by at most one caller, no caller has panicked by closing a
  closed channel, and the registry holds at most its capacity.\<close>

theorem registry_single_flight:
  assumes "registry_step\<^sup>*\<^sup>* (registry_start capacity ttl) s"
  shows "distinct (map fst (filter (\<lambda>c. holding (snd c)) (sy_callers s)))
    \<and> (\<forall>k. (k, Panicked) \<notin> set (sy_callers s))
    \<and> int (registry_Len (sy_registry s)) \<le> tr_capacity (sy_registry s)"
proof (intro conjI)
  have ok: "registry_ok (sy_registry s)" "registry_view (sy_registry s) (sy_callers s) (sy_log s)"
    using registry_reachable_ok [OF assms] by (simp_all add: system_ok_def)
  show "distinct (map fst (filter (\<lambda>c. holding (snd c)) (sy_callers s)))"
    using ok(2) by (simp add: view_ok_def single_flight_def)
  show "\<forall>k. (k, Panicked) \<notin> set (sy_callers s)" using view_caller [OF ok(2)] by fastforce
  show "int (registry_Len (sy_registry s)) \<le> tr_capacity (sy_registry s)"
    using ok(1) by (simp add: registry_ok_def registry_Len_def)
qed

text \<open>C17: a payload whose publication failed transiently is kept: the next publication for the same key,
  made by whichever caller retries it, has exactly the same payload, until a publication completes the
  task.\<close>

theorem registry_same_payload:
  assumes "registry_step\<^sup>*\<^sup>* (registry_start capacity ttl) s"
    and "sy_log s = later @ (k, r2, c) # middle @ (k, r1, False) # earlier" and "k \<notin> fst ` set middle"
  shows "r2 = r1"
proof -
  have "log_ok (sy_log s)" using registry_reachable_ok [OF assms(1)] by (simp add: system_ok_def view_ok_def)
  then show ?thesis using log_same_payload [of later k r2 c middle r1 earlier] assms(2,3) by simp
qed

text \<open>C18: no wake-up is lost. A caller that waits on a channel still open waits for another caller that
  holds the entry of the same key, and when that caller fails to execute or ends its publication the
  channel is closed, so that the waiter can claim again.\<close>

theorem registry_waiter_woken:
  assumes reach: "registry_step\<^sup>*\<^sup>* (registry_start capacity ttl) s"
    and waits: "(k, Waiting c) \<in> set (sy_callers s)" and "c \<notin> set (tr_closed (sy_registry s))"
  shows "\<exists>phase. (k, phase) \<in> set (sy_callers s) \<and> holding phase
    \<and> (\<forall>i. phase = Executing i \<longrightarrow>
        (\<exists>registry'. finishExecutionFailure k i (sy_registry s) = Some registry' \<and> c \<in> set (tr_closed registry')))
    \<and> (\<forall>i r now complete. phase = Publishing i r \<longrightarrow>
        (\<exists>registry'. finishPublish now k i complete (sy_registry s) = Some registry' \<and> c \<in> set (tr_closed registry')))"
proof -
  let ?m = "entry_map (sy_registry s)"
  have v: "registry_view (sy_registry s) (sy_callers s) (sy_log s)"
    using registry_reachable_ok [OF reach] by (simp add: system_ok_def)
  from view_caller [OF v waits] assms(3) obtain e where
    e: "?m k = Some e" "te_processing e" "te_done e = c" by (auto simp: phase_ok_def)
  then have "k \<in> set (busy (sy_callers s))" using v by (auto simp: view_ok_def entry_ok_busy)
  then obtain phase where p: "(k, phase) \<in> set (sy_callers s)" "holding phase" by (auto simp: set_busy)
  have own: "owned_entry k i (sy_registry s) = Some e" if "phase = Executing i \<or> (\<exists>r. phase = Publishing i r)" for i
    using view_caller [OF v p(1)] that e(1) by (auto simp: phase_ok_def owned_entry_def)
  show ?thesis using p own e(3) assms(3)
    by (intro exI [of _ phase]) (auto simp: finishExecutionFailure_def finishPublish_def close_channel_def)
qed

lemma Process_transient_keeps:
  assumes "Process now later key execute publish registry = (ProcessReturned (Some TransientProcess), Some r, registry1)"
  shows "\<exists>e. entry_map registry1 key = Some e \<and> te_result e = Some r \<and> \<not> te_complete e \<and> \<not> te_processing e"
proof -
  have fin: "\<exists>e. entry_map registry1 key = Some e \<and> te_result e = Some r \<and> \<not> te_complete e \<and> \<not> te_processing e"
    if "publish_and_finish later key i x publish reg = (ProcessReturned (Some TransientProcess), Some r, registry1)"
      "entry_map reg key = Some e" "te_id e = i" "te_result e = Some x" for i x reg e
    using that by (auto simp: publish_and_finish_def finishPublish_def owned_entry_at close_channel_def Let_def split: if_splits option.splits)
  obtain a reg where c: "registry_claim now key registry = (a, reg)" by fastforce
  show ?thesis
  proof (cases a)
    case (ClaimOwn i cached)
    then obtain e where "entry_map reg key = Some e" "te_id e = i" "te_result e = cached"
      using c by (auto simp: registry_claim_def Let_def split: option.splits if_splits)
    then show ?thesis using assms c ClaimOwn
      by (auto simp: Process_def rememberResult_def owned_entry_at split: option.splits sum.splits intro!: fin)
  qed (use assms c in \<open>auto simp: Process_def\<close>)
qed

text \<open>C22: when the callback of a judged event fails transiently, the redelivered event publishes exactly the
  result computed the first time: the second delivery never executes the submission again, whatever its
  store and executor would answer, and whatever the clock reads.\<close>

theorem redelivered_event_republishes:
  assumes "registry_step\<^sup>*\<^sup>* (registry_start capacity ttl) s"
    and "ProcessEvent now later store parse executor answer event (sy_registry s)
      = (ProcessReturned (Some TransientProcess), Some r, registry1)"
  shows "\<exists>answer2 registry2. ProcessEvent now' later' store' parse' executor' answer' event registry1
    = (answer2, Some r, registry2)"
proof -
  let ?k = "DeduplicationKey event"
  note first = assms(2) [unfolded ProcessEvent_def]
  from Process_transient_keeps [OF first] obtain e where
    e: "entry_map registry1 ?k = Some e" "te_result e = Some r" "\<not> te_complete e" "\<not> te_processing e" by blast
  from Process_reachable [OF first] assms(1) obtain s' where
    "registry_step\<^sup>*\<^sup>* (registry_start capacity ttl) s'" "sy_registry s' = registry1"
    by (metis registry_system.select_convs(1) rtranclp_trans)
  then have "distinct (map fst (tr_entries registry1))"
    using registry_reachable_ok by (auto simp: system_ok_def registry_ok_def)
  with e have "entry_map (pruneCompleted now' registry1) ?k = Some e"
    by (simp add: pruneCompleted_def map_of_filter_keys finished_entry_def)
  then show ?thesis using e
    by (simp add: ProcessEvent_def Process_def registry_claim_def Let_def publish_and_finish_def split: option.splits)
qed

section \<open>A run of the registry\<close>

definition rx_event :: SubmissionRequested where
  "rx_event = \<lparr>sr_SchemaVersion = 1, sr_EventID = ''e'', sr_SubmissionID = 9, sr_AttemptNo = 1, sr_ProblemID = 4,
     sr_UserID = 3, sr_Language = ''cpp''\<rparr>"

definition rx_store :: SubmissionStore where
  "rx_store = \<lparr>ss_Submission = (\<lambda>_. Some (Some \<lparr>tk_ID = 9, tk_ProblemID = 4, tk_ProblemVersionID = None, tk_UserID = 3,
      tk_Language = ''cpp'', tk_Code = [], tk_Status = SubPending\<rparr>)), ss_Version = (\<lambda>_. None), ss_Bundle = (\<lambda>_. None)\<rparr>"

definition rx_result :: Result where
  "rx_result = withResultIdentity (systemErrorResult ''submission has no immutable problem version'') rx_event"

definition rx_entry :: "nat \<Rightarrow> Result option \<Rightarrow> bool \<Rightarrow> Result taskEntry" where
  "rx_entry c r processing = \<lparr>te_id = 0, te_processing = processing, te_done = c, te_result = r, te_complete = False, te_lastUsed = 0\<rparr>"

definition rx_registry :: "nat \<Rightarrow> Result option \<Rightarrow> bool \<Rightarrow> nat list \<Rightarrow> Result TaskRegistry" where
  "rx_registry c r processing closed = \<lparr>tr_entries = [(''k'', rx_entry c r processing)], tr_capacity = 1, tr_ttl = 5,
     tr_next = Suc c, tr_closed = closed\<rparr>"

lemmas rx_defs = rx_registry_def rx_entry_def registry_start_def NewTaskRegistry_def registry_claim_def pruneCompleted_def
  evictOldestCompleted_def put_entry_def rememberResult_def finishPublish_def owned_entry_def close_channel_def
  after_panic_def finished_entry_def Let_def

lemma act_first:
  "Process_step action k phase (sy_registry s) = Some (phase', registry') \<Longrightarrow> sy_callers s = (k, phase) # behind \<Longrightarrow>
    registry_step s \<lparr>sy_registry = registry', sy_callers = (k, phase') # behind, sy_log = publication action k phase @ sy_log s\<rparr>"
  using act [of s "[]" k phase behind] by simp

text \<open>Two callers for one key: the first executes and its publication fails, the second waits, wakes up and publishes again.\<close>

lemma rx_waiting:
  "registry_step\<^sup>*\<^sup>* (registry_start 1 5)
    \<lparr>sy_registry = rx_registry 0 None True [], sy_callers = [(''k'', Executing 0), (''k'', Waiting 0)], sy_log = []\<rparr>"
proof -
  let ?s0 = "registry_start 1 5 :: Result registry_system"
  let ?s1 = "?s0\<lparr>sy_callers := [(''k'', Claiming)]\<rparr>"
  let ?s2 = "\<lparr>sy_registry = rx_registry 0 None True [], sy_callers = [(''k'', Executing 0)], sy_log = []\<rparr>"
  let ?s3 = "?s2\<lparr>sy_callers := [(''k'', Executing 0), (''k'', Claiming)]\<rparr>"
  have 1: "registry_step ?s0 ?s1" using call [of ?s0 "''k''"] by (simp add: registry_start_def)
  have 2: "registry_step ?s1 ?s2" using act_first [of "Claim 0" "''k''" Claiming ?s1 "Executing 0" "rx_registry 0 None True []" "[]"]
    by (simp add: rx_defs)
  have 3: "registry_step ?s2 ?s3" using call [of ?s2 "''k''"] by simp
  have 4: "registry_step ?s3 (?s3\<lparr>sy_callers := [(''k'', Executing 0), (''k'', Waiting 0)]\<rparr>)"
    using act [of ?s3 "[(''k'', Executing 0)]" "''k''" Claiming "[]" "Claim 0" "Waiting 0" "rx_registry 0 None True []"]
    by (simp add: rx_defs)
  from 1 2 3 4 show ?thesis by (auto intro: converse_rtranclp_into_rtranclp)
qed

definition rx_final :: "Result registry_system" where
  "rx_final = \<lparr>sy_registry = rx_registry 1 (Some rx_result) False [1, 0], sy_callers = [(''k'', Returned), (''k'', Returned)],
     sy_log = [(''k'', rx_result, False), (''k'', rx_result, False)]\<rparr>"

lemma rx_republished: "registry_step\<^sup>*\<^sup>* (registry_start 1 5) rx_final"
proof -
  let ?r = rx_result
  let ?s0 = "\<lparr>sy_registry = rx_registry 0 None True [], sy_callers = [(''k'', Executing 0), (''k'', Waiting 0)], sy_log = []\<rparr>"
  let ?s1 = "\<lparr>sy_registry = rx_registry 0 (Some ?r) True [], sy_callers = [(''k'', Publishing 0 ?r), (''k'', Waiting 0)], sy_log = []\<rparr>"
  let ?s2 = "\<lparr>sy_registry = rx_registry 0 (Some ?r) False [0], sy_callers = [(''k'', Returned), (''k'', Waiting 0)], sy_log = [(''k'', ?r, False)]\<rparr>"
  let ?s3 = "?s2\<lparr>sy_callers := [(''k'', Returned), (''k'', Claiming)]\<rparr>"
  let ?s4 = "\<lparr>sy_registry = rx_registry 1 (Some ?r) True [0], sy_callers = [(''k'', Returned), (''k'', Publishing 0 ?r)], sy_log = [(''k'', ?r, False)]\<rparr>"
  note second = act [of _ "[(''k'', Returned)]" "''k''" _ "[]"]
  have 1: "registry_step ?s0 ?s1"
    using act_first [of "Executed ?r" "''k''" "Executing 0" ?s0 "Publishing 0 ?r" "rx_registry 0 (Some ?r) True []" "[(''k'', Waiting 0)]"]
    by (simp add: rx_defs)
  have 2: "registry_step ?s1 ?s2"
    using act_first [of "Published 0 False" "''k''" "Publishing 0 ?r" ?s1 Returned "rx_registry 0 (Some ?r) False [0]" "[(''k'', Waiting 0)]"]
    by (simp add: rx_defs)
  have 3: "registry_step ?s2 ?s3"
    using second [of ?s2 "Waiting 0" Wake Claiming "rx_registry 0 (Some ?r) False [0]"] by (simp add: rx_registry_def)
  have 4: "registry_step ?s3 ?s4"
    using second [of ?s3 Claiming "Claim 0" "Publishing 0 ?r" "rx_registry 1 (Some ?r) True [0]"] by (simp add: rx_defs)
  have 5: "registry_step ?s4 \<lparr>sy_registry = rx_registry 1 (Some ?r) False [1, 0],
      sy_callers = [(''k'', Returned), (''k'', Returned)], sy_log = [(''k'', ?r, False), (''k'', ?r, False)]\<rparr>"
    using second [of ?s4 "Publishing 0 ?r" "Published 0 False" Returned "rx_registry 1 (Some ?r) False [1, 0]"]
    by (simp add: rx_defs)
  from rx_waiting 1 2 3 4 5 show ?thesis unfolding rx_final_def by (meson rtranclp.rtrancl_into_rtrancl)
qed

theorem registry_single_flight_witness:
  "distinct (map fst (filter (\<lambda>c. holding (snd c)) [(''k'', Executing 0 :: Result phase), (''k'', Waiting 0)]))"
  using registry_single_flight [OF rx_waiting] by simp

theorem registry_same_payload_witness:
  "length (sy_log rx_final) = 2 \<and> fst (snd (sy_log rx_final ! 0)) = fst (snd (sy_log rx_final ! 1))"
  using registry_same_payload [OF rx_republished, of "[]" "''k''" "fst (snd (sy_log rx_final ! 0))" False "[]" "fst (snd (sy_log rx_final ! 1))" "[]"]
  by (simp add: rx_final_def)

theorem registry_waiter_woken_witness:
  "\<exists>registry'. finishExecutionFailure ''k'' 0 (rx_registry 0 None True []) = Some registry' \<and> 0 \<in> set (tr_closed registry')"
  using registry_waiter_woken [OF rx_waiting, of "''k''" 0] by (auto simp: rx_registry_def)

theorem redelivered_event_republishes_witness:
  "\<exists>answer2 registry1 registry2. ProcessEvent 7 8 rx_store (\<lambda>_. None) (\<lambda>_ _ _. Inl StoreUnavailable) TransportFailed rx_event registry1
    = (answer2, Some rx_result, registry2)"
proof -
  have exec: "service_execute rx_store (\<lambda>_. None) (\<lambda>_ _ _. Inl StoreUnavailable) rx_event = Inr rx_result"
    by (simp add: service_execute_def rx_store_def rx_event_def rx_result_def)
  have "TrimSpace ''e'' \<noteq> []" by (simp add: TrimSpace_graph_ne graph_def)
  then have "validateResult rx_result"
    unfolding rx_result_def by (intro contract_identity system_error_contract) (simp_all add: rx_event_def)
  then have pub: "publish_error_of (Publish TransportFailed rx_result) = Some TransientProcess"
    by (simp add: Publish_def publish_error_of_def)
  obtain registry1 where "ProcessEvent 0 0 rx_store (\<lambda>_. None) (\<lambda>_ _ _. Inl StoreUnavailable) TransportFailed rx_event
      (sy_registry (registry_start 1 5)) = (ProcessReturned (Some TransientProcess), Some rx_result, registry1)"
    by (simp add: ProcessEvent_def Process_def exec pub publish_and_finish_def rx_defs)
  from redelivered_event_republishes [OF rtranclp.rtrancl_refl this] show ?thesis by metis
qed

end
