(* ===== verification/Webhook_Outbox.thy ===== *)
theory Webhook_Outbox
  imports Job_Store
begin

text \<open>
  The durable outbox of terminal events (\<^verbatim>\<open>internal/external/mysql_webhook_outbox.go\<close>): claiming a due
  delivery under a lease, settling it, and sweeping settled rows. Columns are in milliseconds like every
  table of the model; instants and durations of the Go side are in nanoseconds, and \<open>we_round\<close> is the
  rounding of an instant that the driver and the column type \<^verbatim>\<open>DATETIME(3)\<close> apply on a write.
\<close>

section \<open>Claims and settlements\<close>

datatype webhook_error =
    ErrWebhookNotAvailable
  | ErrWebhookLeaseLost
  | ErrWebhookSettlementInvalid
  | WebhookUnavailable string

record WebhookClaim =
  wb_OutboxID :: nat
  wb_EventID :: string
  wb_EventType :: string
  wb_TenantID :: string
  wb_CallbackID :: string
  wb_DestinationURL :: string
  wb_AllowedHost :: string
  wb_AllowedPort :: nat
  wb_Body :: terminalWebhookPayload
  wb_AttemptCount :: nat
  wb_WorkerID :: string
  wb_LeaseToken :: string
  wb_LeaseUntil :: int
  wb_ExpiresAt :: int
  wb_Ciphertext :: string
  wb_Nonce :: string
  wb_KeyVersion :: nat

datatype WebhookDisposition = WebhookDelivered | WebhookRetry | WebhookPermanentFailure | OtherDisposition string

record WebhookSettlement =
  ws_Disposition :: WebhookDisposition
  ws_HTTPStatus :: int
  ws_ErrorCode :: string
  ws_RetryAt :: int
  ws_RetryDelay :: int

definition maximumWebhookRetryAfter :: int where "maximumWebhookRetryAfter = 15 * 60 * 1000000000"

definition WebhookErrorConfiguration :: string where "WebhookErrorConfiguration = ''configuration''"
definition WebhookErrorCallbackDecrypt :: string where "WebhookErrorCallbackDecrypt = ''callback_decrypt''"
definition WebhookErrorHTTPPermanent :: string where "WebhookErrorHTTPPermanent = ''http_permanent''"
definition WebhookErrorHTTPRetryable :: string where "WebhookErrorHTTPRetryable = ''http_retryable''"
definition WebhookErrorInvalidDelivery :: string where "WebhookErrorInvalidDelivery = ''invalid_delivery''"
definition WebhookErrorNetwork :: string where "WebhookErrorNetwork = ''network''"
definition WebhookErrorUnsafeDestination :: string where "WebhookErrorUnsafeDestination = ''unsafe_destination''"
definition WebhookErrorDeliveryExpired :: string where "WebhookErrorDeliveryExpired = ''delivery_expired''"

definition retryableWebhookHTTPStatus :: "int \<Rightarrow> bool" where
  "retryableWebhookHTTPStatus status \<longleftrightarrow> status = 408 \<or> status = 425 \<or> status = 429 \<or> status \<ge> 500 \<and> status \<le> 599"

definition permanentWebhookHTTPStatus :: "int \<Rightarrow> bool" where
  "permanentWebhookHTTPStatus status \<longleftrightarrow> status \<ge> 300 \<and> status \<le> 499 \<and> \<not> retryableWebhookHTTPStatus status"

definition nullableWebhookHTTPStatus :: "int \<Rightarrow> int option" where
  "nullableWebhookHTTPStatus status = (if status = 0 then None else Some status)"

definition validWebhookClaim :: "WebhookClaim \<Rightarrow> bool" where
  "validWebhookClaim claim \<longleftrightarrow> wb_OutboxID claim > 0 \<and> wb_AttemptCount claim > 0 \<and> validWorkerID (wb_WorkerID claim)
     \<and> length (wb_LeaseToken claim) = 32"

text \<open>Go's zero instant in nanoseconds, so \<^verbatim>\<open>RetryAt.IsZero()\<close> is \<open>ws_RetryAt = zero_time\<close>\<close>

definition zero_time :: int where "zero_time = time_zero * 1000000"

definition validWebhookSettlement :: "WebhookSettlement \<Rightarrow> bool" where
  "validWebhookSettlement s =
     (let statusValid = (ws_HTTPStatus s = 0 \<or> ws_HTTPStatus s \<ge> 100 \<and> ws_HTTPStatus s \<le> 599) in
      if \<not> statusValid then False
      else case ws_Disposition s of
        WebhookDelivered \<Rightarrow>
          ws_HTTPStatus s \<ge> 200 \<and> ws_HTTPStatus s \<le> 299 \<and> ws_ErrorCode s = [] \<and> ws_RetryAt s = zero_time \<and> ws_RetryDelay s = 0
      | WebhookRetry \<Rightarrow>
          if ws_RetryDelay s < 0 then False
          else
            let hasAbsolute = (ws_RetryAt s \<noteq> zero_time);
                hasDelay = (ws_RetryDelay s > 0 \<and> ws_RetryDelay s \<le> maximumWebhookRetryAfter) in
            hasAbsolute \<noteq> hasDelay
            \<and> (ws_ErrorCode s = WebhookErrorNetwork \<and> ws_HTTPStatus s = 0
               \<or> ws_ErrorCode s = WebhookErrorHTTPRetryable \<and> retryableWebhookHTTPStatus (ws_HTTPStatus s))
      | WebhookPermanentFailure \<Rightarrow>
          if ws_RetryAt s \<noteq> zero_time \<or> ws_RetryDelay s \<noteq> 0 then False
          else if ws_ErrorCode s = WebhookErrorHTTPPermanent then permanentWebhookHTTPStatus (ws_HTTPStatus s)
          else ws_HTTPStatus s = 0
            \<and> (ws_ErrorCode s = WebhookErrorUnsafeDestination \<or> ws_ErrorCode s = WebhookErrorConfiguration
               \<or> ws_ErrorCode s = WebhookErrorInvalidDelivery \<or> ws_ErrorCode s = WebhookErrorCallbackDecrypt
               \<or> ws_ErrorCode s = WebhookErrorDeliveryExpired)
      | OtherDisposition _ \<Rightarrow> False)"

definition NewMySQLWebhookOutboxRepository :: "nat \<Rightarrow> nat option" where
  "NewMySQLWebhookOutboxRepository maximumAttempts =
     (let attempts = (if maximumAttempts = 0 then 12 else maximumAttempts) in if attempts > 100 then None else Some attempts)"

section \<open>Claiming\<close>

record webhook_env =
  we_now :: int
  we_lease_now :: int
  we_locked :: "nat \<Rightarrow> bool"
  we_token :: "string option"
  we_round :: "int \<Rightarrow> int"

definition millis_ns :: "int \<Rightarrow> int" where "millis_ns t = t * 1000000"

definition webhook_due :: "int \<Rightarrow> outbox_row \<Rightarrow> bool" where
  "webhook_due now o' \<longleftrightarrow>
     ob_status o' = OutboxPending \<and> ob_next_attempt_at o' \<le> now
     \<or> ob_status o' = OutboxDelivering \<and> (case ob_lease_until o' of None \<Rightarrow> False | Some l \<Rightarrow> l \<le> now)"

text \<open>\<^verbatim>\<open>CASE WHEN status = 'DELIVERING' THEN lease_until ELSE next_attempt_at END\<close>\<close>

definition due_time :: "outbox_row \<Rightarrow> int" where
  "due_time o' = (if ob_status o' = OutboxDelivering then (case ob_lease_until o' of None \<Rightarrow> 0 | Some l \<Rightarrow> l)
     else ob_next_attempt_at o')"

definition earlier_due :: "int \<Rightarrow> outbox_row list \<Rightarrow> outbox_row \<Rightarrow> bool" where
  "earlier_due now rows o' =
     sql_exists (\<lambda>e. ob_tenant_id e = ob_tenant_id o' \<and> webhook_due now e
       \<and> (due_time e < due_time o' \<or> due_time e = due_time o' \<and> ob_id e < ob_id o')) rows"

definition outbox_tenant :: "db \<Rightarrow> outbox_row \<Rightarrow> tenant_row option" where
  "outbox_tenant d o' = List.find (\<lambda>t. tn_id t = ob_tenant_id o') (tenants d)"

definition outbox_callback :: "db \<Rightarrow> outbox_row \<Rightarrow> callback_row option" where
  "outbox_callback d o' = List.find (\<lambda>c. cb_id c = ob_callback_id o' \<and> cb_tenant_id c = ob_tenant_id o') (callbacks d)"

definition select_webhook :: "webhook_env \<Rightarrow> db \<Rightarrow> outbox_row option" where
  "select_webhook env d =
     min_row (\<lambda>o'. (due_time o', ob_tenant_id o', ob_id o'))
       (filter (\<lambda>o'. webhook_due (we_now env) o' \<and> outbox_tenant d o' \<noteq> None \<and> outbox_callback d o' \<noteq> None
          \<and> \<not> earlier_due (we_now env) (outbox d) o' \<and> \<not> we_locked env (ob_id o')) (outbox d))"

definition callbackSecretNonceBytes :: nat where "callbackSecretNonceBytes = 12"

definition dead_code :: "nat \<Rightarrow> int \<Rightarrow> tenant_row \<Rightarrow> callback_row \<Rightarrow> outbox_row \<Rightarrow> string" where
  "dead_code maximumAttempts leaseNow t c o' =
     (if tn_status t \<noteq> ''ACTIVE'' then ''tenant_disabled''
      else if cb_disabled_at c \<noteq> None then ''callback_disabled''
      else if \<not> ob_expires_at o' > leaseNow then ''delivery_expired''
      else if ob_attempt_count o' \<ge> maximumAttempts then ''attempts_exhausted''
      else if cb_allowed_port c = 0 \<or> cb_allowed_port c > 65535 \<or> cb_secret_key_version c = 0 \<or> cb_secret_key_version c > 65535
        \<or> length (cb_secret_ciphertext c) \<le> 16 \<or> length (cb_secret_nonce c) \<noteq> callbackSecretNonceBytes
      then ''callback_invalid''
      else [])"

definition clear_delivery :: "outbox_row \<Rightarrow> outbox_row" where
  "clear_delivery o' = o'\<lparr>ob_worker_id := None, ob_lease_token := None, ob_lease_until := None\<rparr>"

definition dead_row :: "int option \<Rightarrow> string \<Rightarrow> int \<Rightarrow> outbox_row \<Rightarrow> outbox_row" where
  "dead_row http code now o' =
     clear_delivery (o'\<lparr>ob_status := OutboxDead, ob_last_http_status := http, ob_last_error_code := Some code,
       ob_dead_at := Some now\<rparr>)"

definition update_outbox :: "nat \<Rightarrow> (outbox_row \<Rightarrow> outbox_row) \<Rightarrow> db \<Rightarrow> db" where
  "update_outbox i f d = d\<lparr>outbox := sql_update (\<lambda>o'. ob_id o' = i) f (outbox d)\<rparr>"

definition leased_row :: "string \<Rightarrow> string \<Rightarrow> int \<Rightarrow> outbox_row \<Rightarrow> outbox_row" where
  "leased_row workerID token leaseUntil o' =
     o'\<lparr>ob_status := OutboxDelivering, ob_attempt_count := Suc (ob_attempt_count o'), ob_worker_id := Some workerID,
        ob_lease_token := Some token, ob_lease_until := Some leaseUntil\<rparr>"

text \<open>
  One claim transaction: \<open>Inr (None, d)\<close> has committed a dead letter and asks for another round. The dead
  letter of a claim leaves the last HTTP status as it is.
\<close>

definition claimWebhook ::
  "nat \<Rightarrow> webhook_env \<Rightarrow> string \<Rightarrow> int \<Rightarrow> db \<Rightarrow> webhook_error + (WebhookClaim option \<times> db)" where
  "claimWebhook maximumAttempts env workerID leaseDuration d =
     (case select_webhook env d of
        None \<Rightarrow> Inl ErrWebhookNotAvailable
      | Some o' \<Rightarrow>
          let t = the (outbox_tenant d o'); c = the (outbox_callback d o');
              deadCode = dead_code maximumAttempts (we_lease_now env) t c o' in
          if deadCode \<noteq> [] then
            Inr (None, update_outbox (ob_id o') (\<lambda>r. dead_row (ob_last_http_status r) deadCode (we_lease_now env) r) d)
          else case we_token env of
            None \<Rightarrow> Inl (WebhookUnavailable ''generate webhook lease token'')
          | Some token \<Rightarrow>
              let leaseUntil = millis_ns (we_lease_now env) + leaseDuration;
                  f = leased_row workerID token (we_round env leaseUntil) in
              if sql_affected (\<lambda>r. ob_id r = ob_id o') f (outbox d) \<noteq> 1 then Inl ErrWebhookNotAvailable
              else Inr (Some \<lparr>wb_OutboxID = ob_id o', wb_EventID = ob_event_id o', wb_EventType = ob_event_type o',
                wb_TenantID = tn_external_id t, wb_CallbackID = cb_external_id c, wb_DestinationURL = cb_destination_url c,
                wb_AllowedHost = cb_allowed_host c, wb_AllowedPort = cb_allowed_port c, wb_Body = ob_payload o',
                wb_AttemptCount = Suc (ob_attempt_count o'), wb_WorkerID = workerID, wb_LeaseToken = token,
                wb_LeaseUntil = leaseUntil, wb_ExpiresAt = millis_ns (ob_expires_at o'),
                wb_Ciphertext = cb_secret_ciphertext c, wb_Nonce = cb_secret_nonce c, wb_KeyVersion = cb_secret_key_version c\<rparr>,
                update_outbox (ob_id o') f d))"

fun claim_webhook_rounds ::
  "nat \<Rightarrow> nat \<Rightarrow> (nat \<Rightarrow> webhook_env) \<Rightarrow> string \<Rightarrow> int \<Rightarrow> db \<Rightarrow> (webhook_error + WebhookClaim) \<times> db" where
  "claim_webhook_rounds maximumAttempts 0 env workerID leaseDuration d = (Inl ErrWebhookNotAvailable, d)"
| "claim_webhook_rounds maximumAttempts (Suc n) env workerID leaseDuration d =
     (case claimWebhook maximumAttempts (env n) workerID leaseDuration d of
        Inl e \<Rightarrow> (Inl e, d)
      | Inr (Some claim, d') \<Rightarrow> (Inr claim, d')
      | Inr (None, d') \<Rightarrow> claim_webhook_rounds maximumAttempts n env workerID leaseDuration d')"

definition maintenanceBudget :: nat where "maintenanceBudget = 64"

text \<open>\<open>env n\<close> is what the round with \<open>n\<close> rounds left after it reads from outside.\<close>

definition ClaimNextWebhook ::
  "nat \<Rightarrow> (nat \<Rightarrow> webhook_env) \<Rightarrow> string \<Rightarrow> int \<Rightarrow> db \<Rightarrow> (webhook_error + WebhookClaim) \<times> db" where
  "ClaimNextWebhook maximumAttempts env workerID leaseDuration d =
     (if \<not> validWorkerID workerID \<or> leaseDuration \<le> 0 \<or> leaseDuration > maximumWebhookRetryAfter
      then (Inl ErrWebhookSettlementInvalid, d)
      else claim_webhook_rounds maximumAttempts maintenanceBudget env workerID leaseDuration d)"

section \<open>Settling\<close>

definition webhook_holds :: "WebhookClaim \<Rightarrow> int \<Rightarrow> outbox_row \<Rightarrow> bool" where
  "webhook_holds claim now o' \<longleftrightarrow>
     ob_id o' = wb_OutboxID claim \<and> ob_status o' = OutboxDelivering \<and> ob_attempt_count o' = wb_AttemptCount claim
     \<and> ob_worker_id o' = Some (wb_WorkerID claim) \<and> ob_lease_token o' = Some (wb_LeaseToken claim)
     \<and> (case ob_lease_until o' of None \<Rightarrow> False | Some l \<Rightarrow> l > now)"

definition delivered_row :: "int option \<Rightarrow> int \<Rightarrow> outbox_row \<Rightarrow> outbox_row" where
  "delivered_row http now o' =
     clear_delivery (o'\<lparr>ob_status := OutboxDelivered, ob_last_http_status := http, ob_last_error_code := None,
       ob_delivered_at := Some now\<rparr>)"

definition retry_row :: "int option \<Rightarrow> string \<Rightarrow> int \<Rightarrow> outbox_row \<Rightarrow> outbox_row" where
  "retry_row http code retryAt o' =
     clear_delivery (o'\<lparr>ob_status := OutboxPending, ob_next_attempt_at := retryAt, ob_last_http_status := http,
       ob_last_error_code := Some code\<rparr>)"

definition settled_retry ::
  "nat \<Rightarrow> (int \<Rightarrow> int) \<Rightarrow> int \<Rightarrow> WebhookSettlement \<Rightarrow> outbox_row \<Rightarrow> (outbox_row \<Rightarrow> outbox_row) option" where
  "settled_retry maximumAttempts rnd now s o' =
     (let http = nullableWebhookHTTPStatus (ws_HTTPStatus s);
          retryAt = (if ws_RetryDelay s > 0 then millis_ns now + ws_RetryDelay s else ws_RetryAt s) in
      if \<not> ws_RetryDelay s > 0 \<and> (\<not> retryAt > millis_ns now \<or> retryAt - millis_ns now > maximumWebhookRetryAfter) then None
      else if ob_attempt_count o' \<ge> maximumAttempts \<or> \<not> retryAt < millis_ns (ob_expires_at o')
      then Some (dead_row http (ws_ErrorCode s) now)
      else Some (retry_row http (ws_ErrorCode s) (rnd retryAt)))"

definition SettleWebhook ::
  "nat \<Rightarrow> (int \<Rightarrow> int) \<Rightarrow> int \<Rightarrow> WebhookClaim \<Rightarrow> WebhookSettlement \<Rightarrow> db \<Rightarrow> webhook_error + db" where
  "SettleWebhook maximumAttempts rnd now claim s d =
     (if \<not> validWebhookClaim claim \<or> \<not> validWebhookSettlement s then Inl ErrWebhookSettlementInvalid
      else case List.find (webhook_holds claim now) (outbox d) of
        None \<Rightarrow> Inl ErrWebhookLeaseLost
      | Some o' \<Rightarrow>
          let http = nullableWebhookHTTPStatus (ws_HTTPStatus s) in
          (case ws_Disposition s of
             WebhookDelivered \<Rightarrow> Inr (update_outbox (wb_OutboxID claim) (delivered_row http now) d)
           | WebhookPermanentFailure \<Rightarrow> Inr (update_outbox (wb_OutboxID claim) (dead_row http (ws_ErrorCode s) now) d)
           | WebhookRetry \<Rightarrow>
               (case settled_retry maximumAttempts rnd now s o' of
                  None \<Rightarrow> Inl ErrWebhookSettlementInvalid
                | Some f \<Rightarrow> Inr (update_outbox (wb_OutboxID claim) f d))
           | OtherDisposition _ \<Rightarrow> Inr d))"

section \<open>Sweeping\<close>

definition sweepable :: "int \<Rightarrow> outbox_row \<Rightarrow> bool" where
  "sweepable cutoff o' \<longleftrightarrow>
     ob_status o' = OutboxDelivered \<and> (case ob_delivered_at o' of None \<Rightarrow> False | Some t \<Rightarrow> millis_ns t \<le> cutoff)
     \<or> ob_status o' = OutboxDead \<and> (case ob_dead_at o' of None \<Rightarrow> False | Some t \<Rightarrow> millis_ns t \<le> cutoff)"

definition settled_at :: "outbox_row \<Rightarrow> int option" where
  "settled_at o' = (case ob_delivered_at o' of None \<Rightarrow> ob_dead_at o' | Some t \<Rightarrow> Some t)"

fun sweep_ids :: "nat list \<Rightarrow> int \<Rightarrow> outbox_row list \<Rightarrow> int \<times> outbox_row list" where
  "sweep_ids [] deleted rows = (deleted, rows)"
| "sweep_ids (i # ids) deleted rows =
     sweep_ids ids (deleted + int (sql_count (\<lambda>o'. ob_id o' = i) rows)) (sql_delete (\<lambda>o'. ob_id o' = i) rows)"

definition SweepTerminal :: "(nat \<Rightarrow> bool) \<Rightarrow> int \<Rightarrow> int \<Rightarrow> int \<Rightarrow> db \<Rightarrow> webhook_error + (int \<times> db)" where
  "SweepTerminal locked now retention limit d =
     (if retention \<le> 0 \<or> retention > 365 * 24 * 3600000000000 \<or> limit < 1 \<or> limit > 1000 then Inl ErrWebhookSettlementInvalid
      else
        let cutoff = millis_ns now - retention;
            rows = sort_key (\<lambda>o'. (settled_at o', ob_id o'))
              (filter (\<lambda>o'. sweepable cutoff o' \<and> \<not> locked (ob_id o')) (outbox d));
            ids = map ob_id (take (nat limit) rows);
            (deleted, rest) = sweep_ids ids 0 (outbox d) in
        Inr (deleted, d\<lparr>outbox := rest\<rparr>))"


section \<open>What the job transactions do to the outbox\<close>

definition new_event :: "db \<Rightarrow> outbox_row \<Rightarrow> bool" where
  "new_event d e \<longleftrightarrow> ob_id e = next_outbox_id d \<and> ob_status e = OutboxPending \<and> ob_attempt_count e = 0
     \<and> ob_worker_id e = None \<and> ob_lease_token e = None \<and> ob_lease_until e = None"

definition outbox_grows :: "db \<Rightarrow> db \<Rightarrow> bool" where
  "outbox_grows d d' \<longleftrightarrow> outbox d' = outbox d \<or> (\<exists>e. outbox d' = outbox d @ [e] \<and> new_event d e)"

lemma grows_same: "outbox d' = outbox d \<Longrightarrow> outbox_grows d d'"
  by (simp add: outbox_grows_def)

lemma grows_from: "outbox_grows d1 d' \<Longrightarrow> outbox d1 = outbox d \<Longrightarrow> outbox_grows d d'"
  by (auto simp: outbox_grows_def new_event_def next_outbox_id_def)

lemma insert_event_grows: "insert_event n ids w now j c job d = Inr (eid, d') \<Longrightarrow> outbox_grows d d'"
proof (induction n ids w now j c job d rule: insert_event.induct)
  case (3 n x ids w now j c job d)
  then show ?case
    by (auto simp: outbox_grows_def new_event_def pending_event_def split: option.splits prod.splits if_splits)
qed simp_all

lemma insertTerminal_grows: "insertTerminalWebhookEvent ids w now job d = Inr (eid, d') \<Longrightarrow> outbox_grows d d'"
  by (auto simp: insertTerminalWebhookEvent_def grows_same split: option.splits dest: insert_event_grows)

lemma emit_grows: "emit_terminal what ids w now i d = Inr (job, d') \<Longrightarrow> outbox_grows d d'"
  by (auto simp: emit_terminal_def result_simps split: option.splits dest: insertTerminal_grows)

lemma release_outbox: "releaseAttemptReservation t i n now cs full d = Inr (x, d') \<Longrightarrow> outbox d' = outbox d"
  by (auto simp: releaseAttemptReservation_def Let_def split: option.splits if_splits)

lemma expire_outbox: "expireAttempt t i n now d = Inr d' \<Longrightarrow> outbox d' = outbox d"
  by (auto simp: expireAttempt_def result_simps split: if_splits dest: release_outbox)

lemma settle_outbox: "settleAttemptReservation claim now cs full d = Inr (x, d') \<Longrightarrow> outbox d' = outbox d"
  by (simp add: settleAttemptReservation_def release_outbox)

lemma finish_outbox: "finishAttempt claim st code ms now d = Inr d' \<Longrightarrow> outbox d' = outbox d"
  by (auto simp: finishAttempt_def Let_def split: if_splits)

lemma reserve_outbox: "reserveDailyExecution t day lim ms d = Inr (x, d') \<Longrightarrow> outbox d' = outbox d"
  by (auto simp: reserveDailyExecution_def Let_def split: if_splits option.splits)

lemmas outbox_same = release_outbox expire_outbox settle_outbox finish_outbox reserve_outbox

lemma branch_db_simps [simp]: "branch_db (CommitRetry d) = d" "branch_db (Proceed d) = d"
  by (simp_all add: branch_db_def)

lemma settle_expired_grows: "settle_expired env what f j d = Inr b \<Longrightarrow> outbox_grows d (branch_db b)"
  by (auto simp: settle_expired_def result_simps dest!: emit_grows intro: grows_from)

lemma impossible_grows: "failImpossibleDailyExecution env t i st n d = Inr d' \<Longrightarrow> outbox_grows d d'"
  by (auto simp: failImpossibleDailyExecution_def Let_def result_simps split: if_splits dest!: emit_grows intro: grows_from)

lemma reserve_or_settle_grows:
  assumes "reserve_or_settle env t j lim ms p f d = Inr b"
  shows "outbox_grows d (branch_db b)"
proof -
  from assms obtain decision d1 where r: "reserveDailyExecution (tn_id t) (ce_day env) lim ms d = Inr (decision, d1)"
    by (auto simp: reserve_or_settle_def result_simps)
  note same = reserve_outbox [OF r]
  show ?thesis
  proof (cases decision)
    case dailyReservationImpossible
    then show ?thesis using assms r same
      by (auto simp: reserve_or_settle_def result_simps dest!: impossible_grows intro: grows_from)
  qed (use assms r same in \<open>auto simp: reserve_or_settle_def intro: grows_same\<close>)
qed

lemma claim_recover_grows: "claim_recover env t policy j ms d = Inr b \<Longrightarrow> outbox_grows d (branch_db b)"
  by (auto simp: claim_recover_def result_simps split: if_splits dest!: expire_outbox settle_expired_grows reserve_or_settle_grows
      intro: grows_from)

lemma claim_queued_grows: "claim_queued env t policy j ms d = Inr b \<Longrightarrow> outbox_grows d (branch_db b)"
  by (auto simp: claim_queued_def split: if_splits sum.splits dest!: reserve_or_settle_grows)

lemma claim_commit_outbox: "claim_commit env w l t j ms d = Inr (c, d') \<Longrightarrow> outbox d' = outbox d"
  by (auto simp: claim_commit_def Let_def split: if_splits option.splits)

lemma claim_selected_grows:
  assumes "claim_selected env w l t policy j d = Inr (c, d')"
  shows "outbox_grows d d'"
proof -
  from assms obtain ms b where
    b: "claim_recover env t policy j ms d = Inr b \<or> claim_queued env t policy j ms d = Inr b"
    and d': "b = CommitRetry d' \<or> (\<exists>d1 c'. b = Proceed d1 \<and> claim_commit env w l t j ms d1 = Inr (c', d'))"
    by (auto simp: claim_selected_def split: option.splits if_splits sum.splits claim_branch.splits prod.splits)
  have "outbox_grows d (branch_db b)" using b claim_recover_grows claim_queued_grows by blast
  moreover have "outbox d' = outbox (branch_db b)" using d' claim_commit_outbox by force
  ultimately show ?thesis by (auto simp: outbox_grows_def)
qed

lemma fail_grows:
  assumes "job_FailInfrastructure env claim fl d = Inr (x, d')"
  shows "outbox_grows d d'"
proof -
  from assms obtain cancelled pol policy where
    lock: "lockActiveClaimAndPolicy claim (fe_lock_now env) d = Inr (cancelled, pol)"
    and pol: "decodeTenantPolicy pol = Some policy"
    by (auto simp: job_FailInfrastructure_def result_simps split: if_splits option.splits)
  show ?thesis using assms lock pol
    by (auto simp: job_FailInfrastructure_def Let_def result_simps split: if_splits
        dest!: settle_outbox finish_outbox emit_grows intro: grows_from grows_same)
qed

lemma store_step_grows: "store_step d d' \<Longrightarrow> outbox_grows d d'"
proof (induction rule: store_step.induct)
  case (store_claim env w l d c d')
  then show ?case
    by (auto simp: claimOneWithClock_def split: option.splits if_splits dest: claim_selected_grows)
next
  case (store_heartbeat claim l now d d')
  then show ?case by (auto simp: job_Heartbeat_def Let_def grows_same split: if_splits)
next
  case (store_complete env claim r d d')
  then show ?case
    by (auto simp: job_Complete_def Let_def result_simps split: if_splits dest!: settle_outbox finish_outbox emit_grows
        intro: grows_from)
next
  case (store_fail env claim fl d x d')
  then show ?case by (rule fail_grows)
next
  case (store_cancel env te je d job d')
  then show ?case
    by (auto simp: job_Cancel_def Let_def result_simps grows_same split: if_splits option.splits JobStatus.splits prod.splits
        dest!: insertTerminal_grows intro: grows_from)
qed


section \<open>The delivery machine\<close>

text \<open>Committed transactions of the job workers, the clients and the webhook workers, in any order.\<close>

inductive delivery_step :: "nat \<Rightarrow> db \<Rightarrow> db \<Rightarrow> bool" for maximumAttempts where
  delivery_store: "store_step d d' \<Longrightarrow> delivery_step maximumAttempts d d'"
| delivery_claim: "claimWebhook maximumAttempts env w l d = Inr (c, d') \<Longrightarrow> delivery_step maximumAttempts d d'"
| delivery_settle: "SettleWebhook maximumAttempts rnd now claim s d = Inr d' \<Longrightarrow> delivery_step maximumAttempts d d'"

definition event_row_ok :: "nat \<Rightarrow> outbox_row \<Rightarrow> bool" where
  "event_row_ok m o' \<longleftrightarrow>
     ob_attempt_count o' \<le> m
     \<and> (if ob_status o' = OutboxDelivering
        then ob_worker_id o' \<noteq> None \<and> ob_lease_token o' \<noteq> None \<and> ob_lease_until o' \<noteq> None \<and> ob_attempt_count o' > 0
        else ob_worker_id o' = None \<and> ob_lease_token o' = None \<and> ob_lease_until o' = None)
     \<and> (ob_status o' = OutboxDelivered \<longrightarrow> ob_delivered_at o' \<noteq> None
         \<and> (\<exists>h. ob_last_http_status o' = Some h \<and> 200 \<le> h \<and> h \<le> 299))
     \<and> (ob_status o' = OutboxDead \<longrightarrow> ob_dead_at o' \<noteq> None \<and> ob_last_error_code o' \<noteq> None)"

definition outbox_ok :: "nat \<Rightarrow> db \<Rightarrow> bool" where
  "outbox_ok m d \<longleftrightarrow> distinct (map ob_id (outbox d)) \<and> (\<forall>o' \<in> set (outbox d). event_row_ok m o')"

definition delivery_inv :: "nat \<Rightarrow> db \<Rightarrow> bool" where
  "delivery_inv m d \<longleftrightarrow> store_inv d \<and> outbox_ok m d"

text \<open>What a delivery transaction may change of a row: everything but its event.\<close>

definition event_of :: "outbox_row \<Rightarrow> outbox_row" where
  "event_of o' = o'\<lparr>ob_status := OutboxPending, ob_worker_id := None, ob_lease_token := None, ob_lease_until := None,
     ob_attempt_count := 0, ob_next_attempt_at := 0, ob_last_http_status := None, ob_last_error_code := None,
     ob_delivered_at := None, ob_dead_at := None\<rparr>"

definition event_terminal :: "outbox_row \<Rightarrow> bool" where
  "event_terminal o' \<longleftrightarrow> ob_status o' = OutboxDelivered \<or> ob_status o' = OutboxDead"

definition row_step :: "outbox_row \<Rightarrow> outbox_row \<Rightarrow> bool" where
  "row_step o' o'' \<longleftrightarrow> event_of o'' = event_of o' \<and> ob_attempt_count o' \<le> ob_attempt_count o'' \<and> \<not> event_terminal o'"

lemma event_of_fields:
  assumes "event_of o'' = event_of o'"
  shows "ob_id o'' = ob_id o'" "ob_event_id o'' = ob_event_id o'" "ob_job_id o'' = ob_job_id o'"
    "ob_callback_id o'' = ob_callback_id o'" "ob_tenant_id o'' = ob_tenant_id o'" "ob_payload o'' = ob_payload o'"
    "ob_event_type o'' = ob_event_type o'" "ob_expires_at o'' = ob_expires_at o'"
  using arg_cong [OF assms, of ob_id] arg_cong [OF assms, of ob_event_id] arg_cong [OF assms, of ob_job_id]
    arg_cong [OF assms, of ob_callback_id] arg_cong [OF assms, of ob_tenant_id] arg_cong [OF assms, of ob_payload]
    arg_cong [OF assms, of ob_event_type] arg_cong [OF assms, of ob_expires_at]
  by (simp_all add: event_of_def)

text \<open>A delivery transaction changes one row, found by its id.\<close>

definition one_row_step :: "nat \<Rightarrow> db \<Rightarrow> db \<Rightarrow> bool" where
  "one_row_step m d d' \<longleftrightarrow>
     d' = d \<or> (\<exists>o' f. o' \<in> set (outbox d) \<and> d' = update_outbox (ob_id o') f d \<and> row_step o' (f o') \<and> event_row_ok m (f o'))"

lemma select_webhook_due:
  assumes "select_webhook env d = Some o'"
  shows "o' \<in> set (outbox d)" "webhook_due (we_now env) o'" "\<not> earlier_due (we_now env) (outbox d) o'"
    "\<exists>t. outbox_tenant d o' = Some t" "\<exists>c. outbox_callback d o' = Some c"
  using min_row_mem [OF assms [unfolded select_webhook_def]] by auto

lemma due_not_terminal: "webhook_due now o' \<Longrightarrow> \<not> event_terminal o'"
  by (auto simp: webhook_due_def event_terminal_def)

lemma claim_one_row:
  assumes "claimWebhook m env w l d = Inr (c, d')" "outbox_ok m d"
  shows "one_row_step m d d'"
proof -
  from assms(1) obtain o' where o: "select_webhook env d = Some o'"
    by (auto simp: claimWebhook_def split: option.splits)
  note due = select_webhook_due [OF o]
  have ok: "event_row_ok m o'" using assms(2) due(1) by (simp add: outbox_ok_def)
  note nt = due_not_terminal [OF due(2)]
  let ?code = "dead_code m (we_lease_now env) (the (outbox_tenant d o')) (the (outbox_callback d o')) o'"
  show ?thesis
  proof (cases "?code = []")
    case False
    let ?f = "\<lambda>r. dead_row (ob_last_http_status r) ?code (we_lease_now env) r"
    have "d' = update_outbox (ob_id o') ?f d" using assms(1) o False by (simp add: claimWebhook_def Let_def)
    moreover have "row_step o' (?f o')" using nt by (simp add: row_step_def dead_row_def clear_delivery_def event_of_def)
    moreover have "event_row_ok m (?f o')" using ok by (simp add: event_row_ok_def dead_row_def clear_delivery_def)
    ultimately show ?thesis using due(1) unfolding one_row_step_def by blast
  next
    case True
    then obtain token where token: "we_token env = Some token"
      using assms(1) o by (auto simp: claimWebhook_def Let_def split: option.splits)
    let ?f = "leased_row w token (we_round env (millis_ns (we_lease_now env) + l))"
    have "d' = update_outbox (ob_id o') ?f d"
      using assms(1) o True token by (simp add: claimWebhook_def Let_def split: if_splits)
    moreover have "ob_attempt_count o' < m" using True by (auto simp: dead_code_def split: if_splits)
    then have "event_row_ok m (?f o')" using ok by (simp add: event_row_ok_def leased_row_def)
    moreover have "row_step o' (?f o')" using nt by (simp add: row_step_def leased_row_def event_of_def)
    ultimately show ?thesis using due(1) unfolding one_row_step_def by blast
  qed
qed

lemma valid_delivered:
  "validWebhookSettlement s \<Longrightarrow> ws_Disposition s = WebhookDelivered \<Longrightarrow> 200 \<le> ws_HTTPStatus s \<and> ws_HTTPStatus s \<le> 299"
  by (simp add: validWebhookSettlement_def split: if_splits)

lemma settle_one_row:
  assumes "SettleWebhook m rnd now claim s d = Inr d'" "outbox_ok m d"
  shows "one_row_step m d d'"
proof -
  from assms(1) obtain o' where o: "List.find (webhook_holds claim now) (outbox d) = Some o'"
    and valid: "validWebhookSettlement s"
    by (auto simp: SettleWebhook_def split: if_splits option.splits)
  from find_Some_mem [OF o] have mem: "o' \<in> set (outbox d)" and h: "webhook_holds claim now o'" by simp_all
  have ok: "event_row_ok m o'" using assms(2) mem by (simp add: outbox_ok_def)
  have i: "wb_OutboxID claim = ob_id o'" and nt: "\<not> event_terminal o'"
    using h by (simp_all add: webhook_holds_def event_terminal_def)
  let ?h = "nullableWebhookHTTPStatus (ws_HTTPStatus s)"
  from assms(1) o valid i consider (same) "d' = d" | (upd) f where "d' = update_outbox (ob_id o') f d"
    "f = delivered_row ?h now \<and> ws_Disposition s = WebhookDelivered \<or> f = dead_row ?h (ws_ErrorCode s) now
      \<or> (\<exists>t. f = retry_row ?h (ws_ErrorCode s) t)"
    by (auto simp: SettleWebhook_def settled_retry_def Let_def split: if_splits option.splits WebhookDisposition.splits)
  then show ?thesis
  proof cases
    case (upd f)
    have "row_step o' (f o')" using upd(2) nt
      by (auto simp: row_step_def delivered_row_def dead_row_def retry_row_def clear_delivery_def event_of_def)
    moreover have "ob_attempt_count o' \<le> m" using ok by (simp add: event_row_ok_def)
    then have "event_row_ok m (f o')" using upd(2) valid_delivered [OF valid]
      by (elim disjE exE) (simp_all add: event_row_ok_def delivered_row_def dead_row_def retry_row_def clear_delivery_def
          nullableWebhookHTTPStatus_def)
    ultimately show ?thesis using upd(1) mem unfolding one_row_step_def by blast
  qed (simp add: one_row_step_def)
qed


lemma find_map_same:
  assumes "\<And>r. P (g r) = P r"
  shows "List.find P (map g xs) = map_option g (List.find P xs)"
  by (induction xs) (simp_all add: assms)

lemma one_row_outbox:
  assumes step: "one_row_step m d d'" and ok: "outbox_ok m d"
  shows "outbox_ok m d'" and "map event_of (outbox d') = map event_of (outbox d)"
    and "\<forall>i. List.find (\<lambda>r. ob_id r = i) (outbox d') = List.find (\<lambda>r. ob_id r = i) (outbox d)
      \<or> (\<exists>o' o''. List.find (\<lambda>r. ob_id r = i) (outbox d) = Some o' \<and> List.find (\<lambda>r. ob_id r = i) (outbox d') = Some o''
          \<and> row_step o' o'')"
    and "\<exists>es. d' = d\<lparr>outbox := es\<rparr>"
proof -
  consider "d' = d" | o' f where "o' \<in> set (outbox d)" "d' = update_outbox (ob_id o') f d" "row_step o' (f o')" "event_row_ok m (f o')"
    using step unfolding one_row_step_def by blast
  then have "outbox_ok m d' \<and> map event_of (outbox d') = map event_of (outbox d)
    \<and> (\<forall>i. List.find (\<lambda>r. ob_id r = i) (outbox d') = List.find (\<lambda>r. ob_id r = i) (outbox d)
      \<or> (\<exists>o' o''. List.find (\<lambda>r. ob_id r = i) (outbox d) = Some o' \<and> List.find (\<lambda>r. ob_id r = i) (outbox d') = Some o''
          \<and> row_step o' o'')) \<and> (\<exists>es. d' = d\<lparr>outbox := es\<rparr>)"
  proof cases
    case 1
    then show ?thesis using ok by (auto intro: exI [of _ "outbox d"])
  next
    case (2 o' f)
    have dist: "distinct (map ob_id (outbox d))" using ok by (simp add: outbox_ok_def)
    have only: "r = o'" if "r \<in> set (outbox d)" "ob_id r = ob_id o'" for r
      using distinct_key_unique [OF dist that(1) 2(1)] that(2) by simp
    have eq: "outbox d' = map (\<lambda>r. if r = o' then f o' else r) (outbox d)"
      unfolding 2(2) update_outbox_def sql_update_def using only by simp
    have ev: "event_of (f o') = event_of o'" using 2(3) by (simp add: row_step_def)
    note fid = event_of_fields(1) [OF ev]
    have m1: "map event_of (outbox d') = map event_of (outbox d)" using ev by (simp add: eq)
    have m2: "map ob_id (outbox d') = map ob_id (outbox d)" using fid by (simp add: eq)
    have find: "List.find (\<lambda>r. ob_id r = i) (outbox d') = map_option (\<lambda>r. if r = o' then f o' else r) (List.find (\<lambda>r. ob_id r = i) (outbox d))" for i
      unfolding eq by (rule find_map_same) (simp add: fid)
    have "\<forall>r \<in> set (outbox d'). event_row_ok m r" using ok 2(4) by (auto simp: outbox_ok_def eq)
    then have "outbox_ok m d'" using m2 dist by (simp add: outbox_ok_def)
    moreover have "List.find (\<lambda>r. ob_id r = i) (outbox d') = List.find (\<lambda>r. ob_id r = i) (outbox d)
      \<or> (\<exists>o' o''. List.find (\<lambda>r. ob_id r = i) (outbox d) = Some o' \<and> List.find (\<lambda>r. ob_id r = i) (outbox d') = Some o''
          \<and> row_step o' o'')" for i
      using find [of i] 2(3) by (cases "List.find (\<lambda>r. ob_id r = i) (outbox d)") auto
    moreover have "\<exists>es. d' = d\<lparr>outbox := es\<rparr>" using 2(2) by (auto simp: update_outbox_def)
    ultimately show ?thesis using m1 by blast
  qed
  then show "outbox_ok m d'" "map event_of (outbox d') = map event_of (outbox d)"
    "\<forall>i. List.find (\<lambda>r. ob_id r = i) (outbox d') = List.find (\<lambda>r. ob_id r = i) (outbox d)
      \<or> (\<exists>o' o''. List.find (\<lambda>r. ob_id r = i) (outbox d) = Some o' \<and> List.find (\<lambda>r. ob_id r = i) (outbox d') = Some o''
          \<and> row_step o' o'')" "\<exists>es. d' = d\<lparr>outbox := es\<rparr>" by blast+
qed

lemma outbox_inv_events:
  assumes "map event_of es' = map event_of es" "outbox_inv Y js es"
  shows "outbox_inv Y js es'"
proof -
  have len: "length es' = length es" using assms(1) by (metis length_map)
  have at: "event_of (es' ! i) = event_of (es ! i)" if "i < length es" for i
    using arg_cong [OF assms(1), of "\<lambda>xs. xs ! i"] that len by simp
  have job: "map ob_job_id es' = map ob_job_id es" and eid: "map ob_event_id es' = map ob_event_id es"
    using len event_of_fields(2,3) [OF at] by (simp_all add: list_eq_iff_nth_eq)
  have ok: "event_ok js e'" if "e' \<in> set es'" for e'
  proof -
    from that obtain i where i: "i < length es" "e' = es' ! i" using len by (metis in_set_conv_nth)
    have "event_ok js (es ! i)" using assms(2) i(1) by (auto simp: outbox_inv_def)
    then show ?thesis using event_of_fields [OF at [OF i(1)]] i(2) by (simp add: event_ok_def)
  qed
  have img: "ob_job_id ` set es' = ob_job_id ` set es" using arg_cong [OF job, of set] by simp
  have has: "(\<exists>e \<in> set xs. ob_job_id e = i) \<longleftrightarrow> i \<in> ob_job_id ` set xs" for i xs by auto
  show ?thesis using assms(2) ok unfolding outbox_inv_def has job eid img by blast
qed


lemma fold_max_above: "a \<le> fold max xs (a :: nat)" "x \<in> set xs \<Longrightarrow> x \<le> fold max xs a"
proof (induction xs arbitrary: a)
  case (Cons y xs)
  { case 1
    show ?case using Cons.IH(1) [of "max y a"] by simp
  next
    case 2
    show ?case
    proof (cases "x = y")
      case True
      then show ?thesis using Cons.IH(1) [of "max y a"] by simp
    next
      case False
      then show ?thesis using 2 Cons.IH(2) by simp
    qed
  }
qed simp_all

lemma find_snoc: "List.find P (xs @ [x]) = (case List.find P xs of None \<Rightarrow> if P x then Some x else None | Some r \<Rightarrow> Some r)"
  by (induction xs) auto

lemma next_outbox_fresh: "e \<in> set (outbox d) \<Longrightarrow> ob_id e < next_outbox_id d"
  using fold_max_above(2) [of "ob_id e" "map ob_id (outbox d)" 0] by (simp add: next_outbox_id_def less_Suc_eq_le)

definition outbox_view :: "nat \<Rightarrow> db \<Rightarrow> outbox_row option" where
  "outbox_view i d = List.find (\<lambda>r. ob_id r = i) (outbox d)"

definition row_moves :: "outbox_row option \<Rightarrow> outbox_row option \<Rightarrow> bool" where
  "row_moves v v' \<longleftrightarrow> v' = v \<or> (v = None \<and> (\<exists>e. v' = Some e \<and> ob_status e = OutboxPending \<and> ob_attempt_count e = 0))
     \<or> (\<exists>o' o''. v = Some o' \<and> v' = Some o'' \<and> row_step o' o'')"

lemma grows_ok:
  assumes "outbox_grows d d'" "outbox_ok m d"
  shows "outbox_ok m d'" and "row_moves (outbox_view i d) (outbox_view i d')"
proof -
  consider "outbox d' = outbox d" | e where "outbox d' = outbox d @ [e]" "new_event d e"
    using assms(1) unfolding outbox_grows_def by blast
  then have "outbox_ok m d' \<and> row_moves (outbox_view i d) (outbox_view i d')"
  proof cases
    case (2 e)
    have fresh: "ob_id e \<notin> ob_id ` set (outbox d)"
      using 2(2) next_outbox_fresh by (force simp: new_event_def)
    have "event_row_ok m e" using 2(2) by (simp add: new_event_def event_row_ok_def)
    then have "outbox_ok m d'" using 2(1) fresh assms(2) by (simp add: outbox_ok_def)
    moreover have "row_moves (outbox_view i d) (outbox_view i d')"
      using 2 by (cases "List.find (\<lambda>r. ob_id r = i) (outbox d)")
        (simp_all add: row_moves_def outbox_view_def find_snoc new_event_def)
    ultimately show ?thesis by blast
  qed (use assms(2) in \<open>simp add: outbox_ok_def row_moves_def outbox_view_def\<close>)
  then show "outbox_ok m d'" "row_moves (outbox_view i d) (outbox_view i d')" by blast+
qed

lemma one_row_delivers:
  assumes "one_row_step m d d'" "delivery_inv m d"
  shows "delivery_inv m d'" and "row_moves (outbox_view i d) (outbox_view i d')"
proof -
  have ok: "outbox_ok m d" and inv: "store_mid {} {} d" using assms(2) by (simp_all add: delivery_inv_def store_inv_def)
  note o = one_row_outbox [OF assms(1) ok]
  from o(4) obtain es where es: "d' = d\<lparr>outbox := es\<rparr>" by blast
  have "store_mid {} {} d'"
    using inv outbox_inv_events [OF o(2), of "{}" "jobs d"] by (simp add: store_mid_def es)
  then show "delivery_inv m d'" using o(1) by (simp add: delivery_inv_def store_inv_def)
  show "row_moves (outbox_view i d) (outbox_view i d')"
    using o(3) unfolding row_moves_def outbox_view_def by blast
qed

lemma delivery_step_effect:
  assumes "delivery_step m d d'" "delivery_inv m d"
  shows "delivery_inv m d' \<and> row_moves (outbox_view i d) (outbox_view i d')"
  using assms
proof (induction rule: delivery_step.induct)
  case (delivery_store d d')
  then show ?case using grows_ok [OF store_step_grows [OF delivery_store(1)]] store_step_inv [OF delivery_store(1)]
    by (simp add: delivery_inv_def) blast
next
  case (delivery_claim env w l d c d')
  then have "one_row_step m d d'" using claim_one_row [OF delivery_claim(1)] by (simp add: delivery_inv_def)
  from one_row_delivers [OF this delivery_claim(2)] show ?case by blast
next
  case (delivery_settle rnd now claim s d d')
  then have "one_row_step m d d'" using settle_one_row [OF delivery_settle(1)] by (simp add: delivery_inv_def)
  from one_row_delivers [OF this delivery_settle(2)] show ?case by blast
qed

definition outbox_terminal :: "outbox_row option \<Rightarrow> bool" where
  "outbox_terminal v \<longleftrightarrow> (case v of None \<Rightarrow> False | Some o' \<Rightarrow> event_terminal o')"

definition outbox_epoch :: "outbox_row option \<Rightarrow> nat" where
  "outbox_epoch v = (case v of None \<Rightarrow> 0 | Some o' \<Rightarrow> ob_attempt_count o')"

definition outbox_holds :: "WebhookClaim \<Rightarrow> int \<Rightarrow> outbox_row option \<Rightarrow> bool" where
  "outbox_holds claim now v \<longleftrightarrow> (case v of None \<Rightarrow> False | Some o' \<Rightarrow> webhook_holds claim now o')"

text \<open>A row of the outbox is a leased work item, with the attempt count as its epoch.\<close>

interpretation webhook_row: leased_machine "delivery_step m" "delivery_inv m" "outbox_view i" outbox_terminal
  outbox_epoch outbox_holds wb_AttemptCount for m i
proof unfold_locales
  fix d d' assume step: "delivery_step m d d'" and inv: "delivery_inv m d"
  note eff = delivery_step_effect [OF step inv, of i]
  show "delivery_inv m d'" using eff by blast
  show "outbox_view i d' = outbox_view i d" if "outbox_terminal (outbox_view i d)"
    using eff that by (auto simp: row_moves_def row_step_def outbox_terminal_def split: option.splits)
  show "outbox_epoch (outbox_view i d) \<le> outbox_epoch (outbox_view i d')"
    using eff by (auto simp: row_moves_def row_step_def outbox_epoch_def split: option.splits)
next
  fix d c now assume "outbox_holds c now (outbox_view i d)"
  then show "wb_AttemptCount c = outbox_epoch (outbox_view i d)" "\<not> outbox_terminal (outbox_view i d)"
    by (auto simp: outbox_holds_def outbox_epoch_def outbox_terminal_def webhook_holds_def event_terminal_def split: option.splits)
qed


lemma settle_holds:
  assumes "SettleWebhook m rnd now claim s d = Inr d'" "outbox_ok m d"
  shows "outbox_holds claim now (outbox_view (wb_OutboxID claim) d)"
proof -
  from assms(1) obtain o' where o: "List.find (webhook_holds claim now) (outbox d) = Some o'"
    by (auto simp: SettleWebhook_def split: if_splits option.splits)
  from find_Some_mem [OF o] have mem: "o' \<in> set (outbox d)" and h: "webhook_holds claim now o'" by simp_all
  obtain r where r: "outbox_view (wb_OutboxID claim) d = Some r"
    using mem h by (cases "outbox_view (wb_OutboxID claim) d") (auto simp: outbox_view_def find_None_all webhook_holds_def)
  from find_Some_mem [OF r [unfolded outbox_view_def]] have "r = o'"
    using distinct_key_unique [of ob_id "outbox d" r o'] mem h assms(2) by (simp add: outbox_ok_def webhook_holds_def)
  then show ?thesis using r h by (simp add: outbox_holds_def)
qed

definition event_reports :: "nat \<Rightarrow> job_row \<Rightarrow> outbox_row \<Rightarrow> bool" where
  "event_reports m j o' \<longleftrightarrow> ob_job_id o' = jb_id j
    \<and> pl_Status (ob_payload o') = jb_status j \<and> pl_Result (ob_payload o') = jb_result j
    \<and> ob_attempt_count o' \<le> m
    \<and> (ob_status o' = OutboxDelivered \<longrightarrow> (\<exists>h. ob_last_http_status o' = Some h \<and> 200 \<le> h \<and> h \<le> 299))"

lemma delivery_unique:
  assumes "delivery_inv m d" "j \<in> set (jobs d)" "row_terminal j" "jb_callback_id j \<noteq> None"
  shows "\<exists>!o'. o' \<in> set (outbox d) \<and> event_reports m j o'"
proof -
  have out: "outbox_inv {} (jobs d) (outbox d)" and rows: "rows_ok (jobs d)" and ok: "outbox_ok m d"
    using assms(1) by (simp_all add: delivery_inv_def store_inv_def store_mid_def)
  from outbox_invD(4) [OF out assms(2-4)] obtain o' where o: "o' \<in> set (outbox d)" "ob_job_id o' = jb_id j" by auto
  obtain k where k: "k \<in> set (jobs d)" "jb_id k = ob_job_id o'" "pl_Status (ob_payload o') = jb_status k"
    "pl_Result (ob_payload o') = jb_result k"
    using outbox_invD(3) [OF out o(1)] by (auto simp: event_ok_def)
  have kj: "k = j" using k(2) o(2) distinct_key_unique [of jb_id "jobs d" k j] rows k(1) assms(2) by (simp add: rows_ok_def)
  have row: "event_row_ok m o'" using ok o(1) by (simp add: outbox_ok_def)
  have one: "event_reports m j o'" using row o(2) k(3,4) kj by (simp add: event_reports_def event_row_ok_def)
  have "r = o'" if "r \<in> set (outbox d)" "event_reports m j r" for r
    using distinct_key_unique [OF outbox_invD(1) [OF out] that(1) o(1)] that(2) o(2) by (simp add: event_reports_def)
  then show ?thesis using o(1) one by (intro ex1I [of _ o']) blast+
qed

end
