(* ===== verification/Safe_Transport.thy ===== *)
theory Safe_Transport
  imports Go_Numbers
begin

text \<open>
  The outbound transport of webhooks (\<^verbatim>\<open>internal/external/safe_transport.go\<close>): which destinations may be
  registered and called, and which addresses may be dialled. An address is a \<^verbatim>\<open>netip.Addr\<close>: 32 bits, or 128
  bits with a zone. The URL parser of the library is the argument \<open>parse\<close>, its Unicode case mapping (used on
  strings with non-ASCII bytes only) the argument \<open>casing\<close>, and the resolver and the dialler are arguments too.
\<close>

section \<open>Host names\<close>

definition lower_char :: "char \<Rightarrow> char" where
  "lower_char c = (if upper_letter c then char_of (byte c + 32) else c)"

definition ascii :: "string \<Rightarrow> bool" where
  "ascii s \<longleftrightarrow> list_all (\<lambda>c. byte c < 128) s"

definition ToLower :: "(string \<Rightarrow> string) \<Rightarrow> string \<Rightarrow> string" where
  "ToLower casing s = (if ascii s then map lower_char s else casing s)"

fun split_dot :: "string \<Rightarrow> string list" where
  "split_dot [] = [[]]"
| "split_dot (c # s) =
     (if c = CHR ''.'' then [] # split_dot s
      else (case split_dot s of [] \<Rightarrow> [[c]] | h # t \<Rightarrow> (c # h) # t))"

definition has_dot_suffix :: "string \<Rightarrow> bool" where
  "has_dot_suffix s \<longleftrightarrow> s \<noteq> [] \<and> last s = CHR ''.''"

definition trim_dot :: "string \<Rightarrow> string" where
  "trim_dot s = (if has_dot_suffix s then butlast s else s)"

definition dns_label :: "string \<Rightarrow> bool" where
  "dns_label label \<longleftrightarrow>
     \<not> (label = [] \<or> length label > 63 \<or> hd label = CHR ''-'' \<or> last label = CHR ''-'')
     \<and> list_all (\<lambda>c. lower_letter c \<or> digit c \<or> c = CHR ''-'') label"

text \<open>A host with a non-ASCII byte fails both the comparison with its lower case and the check of the labels.\<close>

definition validDNSName :: "string \<Rightarrow> bool" where
  "validDNSName host =
     (if host = [] \<or> length host > 253 \<or> host \<noteq> map lower_char host \<or> has_dot_suffix host then False
      else list_all dns_label (split_dot host))"

text \<open>
  \<^verbatim>\<open>netip.ParseAddr\<close> accepts a DNS name only in the dotted form: such a name has no colon and no percent sign.
\<close>

definition ipv4_octet :: "string \<Rightarrow> bool" where
  "ipv4_octet s \<longleftrightarrow> s \<noteq> [] \<and> list_all digit s \<and> (length s > 1 \<longrightarrow> hd s \<noteq> CHR ''0'') \<and> digits_value s \<le> 255"

definition is_ip_literal :: "string \<Rightarrow> bool" where
  "is_ip_literal host \<longleftrightarrow> length (split_dot host) = 4 \<and> list_all ipv4_octet (split_dot host)"

section \<open>Destinations\<close>

record parsed_url =
  pu_Scheme :: string
  pu_Host :: string
  pu_Hostname :: string
  pu_Port :: string
  pu_User :: bool
  pu_Fragment :: string
  pu_Opaque :: string

definition parseHTTPSDestination ::
  "(string \<Rightarrow> parsed_url option) \<Rightarrow> (string \<Rightarrow> string) \<Rightarrow> string \<Rightarrow> parsed_url option" where
  "parseHTTPSDestination parse casing raw =
     (case parse raw of
        None \<Rightarrow> None
      | Some parsed \<Rightarrow>
          if pu_Scheme parsed \<noteq> ''https'' \<or> pu_Host parsed = [] \<or> pu_User parsed \<or> pu_Fragment parsed \<noteq> []
             \<or> pu_Opaque parsed \<noteq> [] then None
          else
            let host = ToLower casing (pu_Hostname parsed) in
            if \<not> validDNSName host then None
            else if is_ip_literal host then None
            else if pu_Port parsed \<noteq> [] \<and> (case ParseUint (pu_Port parsed) 16 of None \<Rightarrow> True | Some port \<Rightarrow> port = 0) then None
            else Some parsed)"

definition effective_port :: "parsed_url \<Rightarrow> nat" where
  "effective_port parsed =
     (if pu_Port parsed \<noteq> [] then (case ParseUint (pu_Port parsed) 16 of None \<Rightarrow> 0 | Some port \<Rightarrow> port) else 443)"

definition validateCallbackDestination ::
  "(string \<Rightarrow> parsed_url option) \<Rightarrow> (string \<Rightarrow> string) \<Rightarrow> string \<Rightarrow> string \<Rightarrow> nat \<Rightarrow> parsed_url option" where
  "validateCallbackDestination parse casing raw allowedHost allowedPort =
     (case parseHTTPSDestination parse casing raw of
        None \<Rightarrow> None
      | Some parsed \<Rightarrow>
          let normalizedHost = ToLower casing (trim_dot allowedHost) in
          if \<not> validDNSName normalizedHost \<or> ToLower casing (trim_dot (pu_Hostname parsed)) \<noteq> normalizedHost then None
          else if allowedPort = 0 \<or> effective_port parsed \<noteq> allowedPort then None
          else Some parsed)"

section \<open>Addresses\<close>

datatype ip_addr = InvalidAddr | IPv4 "32 word" | IPv6 "128 word" string

definition quad :: "nat \<Rightarrow> nat \<Rightarrow> nat \<Rightarrow> nat \<Rightarrow> 32 word" where
  "quad a b c d = of_nat (((a * 256 + b) * 256 + c) * 256 + d)"

definition hextets :: "nat list \<Rightarrow> 128 word" where
  "hextets hs = of_nat (foldl (\<lambda>n h. n * 65536 + h) 0 hs * 65536 ^ (8 - length hs))"

datatype ip_prefix = Prefix4 "32 word" nat | Prefix6 "128 word" nat

fun prefix_Contains :: "ip_prefix \<Rightarrow> ip_addr \<Rightarrow> bool" where
  "prefix_Contains (Prefix4 net bits) (IPv4 a) \<longleftrightarrow> drop_bit (32 - bits) a = drop_bit (32 - bits) net"
| "prefix_Contains (Prefix6 net bits) (IPv6 a zone) \<longleftrightarrow> zone = [] \<and> drop_bit (128 - bits) a = drop_bit (128 - bits) net"
| "prefix_Contains _ _ \<longleftrightarrow> False"

definition in4 :: "32 word \<Rightarrow> 32 word \<Rightarrow> nat \<Rightarrow> bool" where
  "in4 a net bits \<longleftrightarrow> drop_bit (32 - bits) a = drop_bit (32 - bits) net"

definition in6 :: "128 word \<Rightarrow> 128 word \<Rightarrow> nat \<Rightarrow> bool" where
  "in6 a net bits \<longleftrightarrow> drop_bit (128 - bits) a = drop_bit (128 - bits) net"

definition Unmap :: "ip_addr \<Rightarrow> ip_addr" where
  "Unmap address =
     (case address of
        IPv6 a zone \<Rightarrow> if drop_bit 32 a = 0xffff then IPv4 (ucast a) else address
      | _ \<Rightarrow> address)"

text \<open>The classification of \<^verbatim>\<open>net/netip\<close>; a zone does not matter for it, except for the unspecified address.\<close>

fun IsUnspecified :: "ip_addr \<Rightarrow> bool" where
  "IsUnspecified (IPv4 a) \<longleftrightarrow> a = 0"
| "IsUnspecified (IPv6 a zone) \<longleftrightarrow> a = 0 \<and> zone = []"
| "IsUnspecified InvalidAddr \<longleftrightarrow> False"

fun IsLoopback :: "ip_addr \<Rightarrow> bool" where
  "IsLoopback (IPv4 a) \<longleftrightarrow> in4 a (quad 127 0 0 0) 8"
| "IsLoopback (IPv6 a zone) \<longleftrightarrow> a = 1"
| "IsLoopback InvalidAddr \<longleftrightarrow> False"

fun IsPrivate :: "ip_addr \<Rightarrow> bool" where
  "IsPrivate (IPv4 a) \<longleftrightarrow> in4 a (quad 10 0 0 0) 8 \<or> in4 a (quad 172 16 0 0) 12 \<or> in4 a (quad 192 168 0 0) 16"
| "IsPrivate (IPv6 a zone) \<longleftrightarrow> in6 a (hextets [0xfc00]) 7"
| "IsPrivate InvalidAddr \<longleftrightarrow> False"

fun IsLinkLocalUnicast :: "ip_addr \<Rightarrow> bool" where
  "IsLinkLocalUnicast (IPv4 a) \<longleftrightarrow> in4 a (quad 169 254 0 0) 16"
| "IsLinkLocalUnicast (IPv6 a zone) \<longleftrightarrow> in6 a (hextets [0xfe80]) 10"
| "IsLinkLocalUnicast InvalidAddr \<longleftrightarrow> False"

fun IsMulticast :: "ip_addr \<Rightarrow> bool" where
  "IsMulticast (IPv4 a) \<longleftrightarrow> in4 a (quad 224 0 0 0) 4"
| "IsMulticast (IPv6 a zone) \<longleftrightarrow> in6 a (hextets [0xff00]) 8"
| "IsMulticast InvalidAddr \<longleftrightarrow> False"

fun IsLinkLocalMulticast :: "ip_addr \<Rightarrow> bool" where
  "IsLinkLocalMulticast (IPv4 a) \<longleftrightarrow> in4 a (quad 224 0 0 0) 24"
| "IsLinkLocalMulticast (IPv6 a zone) \<longleftrightarrow> and (drop_bit 112 a) 0xff0f = 0xff02"
| "IsLinkLocalMulticast InvalidAddr \<longleftrightarrow> False"

fun IsGlobalUnicast :: "ip_addr \<Rightarrow> bool" where
  "IsGlobalUnicast (IPv4 a) \<longleftrightarrow>
     a \<noteq> 0 \<and> a \<noteq> quad 255 255 255 255 \<and> \<not> IsLoopback (IPv4 a) \<and> \<not> IsMulticast (IPv4 a) \<and> \<not> IsLinkLocalUnicast (IPv4 a)"
| "IsGlobalUnicast (IPv6 a zone) \<longleftrightarrow>
     \<not> IsUnspecified (IPv6 a zone) \<and> \<not> IsLoopback (IPv6 a zone) \<and> \<not> IsMulticast (IPv6 a zone)
     \<and> \<not> IsLinkLocalUnicast (IPv6 a zone)"
| "IsGlobalUnicast InvalidAddr \<longleftrightarrow> False"

definition prohibitedCallbackPrefixes :: "ip_prefix list" where
  "prohibitedCallbackPrefixes =
     [Prefix4 (quad 0 0 0 0) 8, Prefix4 (quad 10 0 0 0) 8, Prefix4 (quad 100 64 0 0) 10, Prefix4 (quad 127 0 0 0) 8,
      Prefix4 (quad 169 254 0 0) 16, Prefix4 (quad 172 16 0 0) 12, Prefix4 (quad 192 0 0 0) 24, Prefix4 (quad 192 0 2 0) 24,
      Prefix4 (quad 192 88 99 0) 24, Prefix4 (quad 192 168 0 0) 16, Prefix4 (quad 198 18 0 0) 15, Prefix4 (quad 198 51 100 0) 24,
      Prefix4 (quad 203 0 113 0) 24, Prefix4 (quad 224 0 0 0) 4, Prefix4 (quad 240 0 0 0) 4,
      Prefix6 (hextets []) 128, Prefix6 (hextets [0, 0, 0, 0, 0, 0, 0, 1]) 128, Prefix6 (hextets []) 96,
      Prefix6 (hextets [0x64, 0xff9b]) 96, Prefix6 (hextets [0x64, 0xff9b, 1]) 48, Prefix6 (hextets [0x100]) 64,
      Prefix6 (hextets [0x100, 0, 0, 1]) 64, Prefix6 (hextets [0x2001]) 32, Prefix6 (hextets [0x2001, 0xdb8]) 32,
      Prefix6 (hextets [0x2001]) 23, Prefix6 (hextets [0x2002]) 16, Prefix6 (hextets [0x3fff]) 20,
      Prefix6 (hextets [0xfc00]) 7, Prefix6 (hextets [0xfec0]) 10, Prefix6 (hextets [0xfe80]) 10, Prefix6 (hextets [0xff00]) 8]"

definition globallyAllocatedIPv6 :: ip_prefix where
  "globallyAllocatedIPv6 = Prefix6 (hextets [0x2000]) 3"

definition Is6 :: "ip_addr \<Rightarrow> bool" where
  "Is6 address \<longleftrightarrow> (case address of IPv6 _ _ \<Rightarrow> True | _ \<Rightarrow> False)"

definition isPublicCallbackAddress :: "ip_addr \<Rightarrow> bool" where
  "isPublicCallbackAddress address =
     (if address = InvalidAddr \<or> \<not> IsGlobalUnicast address \<or> IsPrivate address \<or> IsLoopback address
         \<or> IsLinkLocalUnicast address \<or> IsLinkLocalMulticast address \<or> IsMulticast address \<or> IsUnspecified address then False
      else if Is6 address \<and> \<not> prefix_Contains globallyAllocatedIPv6 address then False
      else \<not> list_ex (\<lambda>prefix. prefix_Contains prefix address) prohibitedCallbackPrefixes)"

section \<open>Resolving and dialling\<close>

datatype resolve_error = ResolveFailed | UnsafeDestination

text \<open>\<^verbatim>\<open>Addr.Compare\<close> orders by bit length, then by value, then by zone.\<close>

definition addr_key :: "ip_addr \<Rightarrow> nat \<times> nat \<times> nat list" where
  "addr_key address =
     (case address of InvalidAddr \<Rightarrow> (0, 0, []) | IPv4 a \<Rightarrow> (32, unat a, []) | IPv6 a zone \<Rightarrow> (128, unat a, map byte zone))"

fun list_less :: "nat list \<Rightarrow> nat list \<Rightarrow> bool" where
  "list_less _ [] \<longleftrightarrow> False"
| "list_less [] (_ # _) \<longleftrightarrow> True"
| "list_less (x # xs) (y # ys) \<longleftrightarrow> x < y \<or> x = y \<and> list_less xs ys"

definition addr_less :: "ip_addr \<Rightarrow> ip_addr \<Rightarrow> bool" where
  "addr_less x y \<longleftrightarrow>
     (case (addr_key x, addr_key y) of
        ((b, v, z), (b', v', z')) \<Rightarrow> b < b' \<or> b = b' \<and> (v < v' \<or> v = v' \<and> list_less z z'))"

fun insert_addr :: "ip_addr \<Rightarrow> ip_addr list \<Rightarrow> ip_addr list" where
  "insert_addr x [] = [x]"
| "insert_addr x (y # ys) = (if addr_less y x then y # insert_addr x ys else x # y # ys)"

definition sort_addrs :: "ip_addr list \<Rightarrow> ip_addr list" where
  "sort_addrs xs = foldr insert_addr xs []"

fun collect_public :: "ip_addr list \<Rightarrow> ip_addr list \<Rightarrow> resolve_error + ip_addr list" where
  "collect_public [] result = Inr result"
| "collect_public (raw # rest) result =
     (let address = Unmap raw in
      if \<not> isPublicCallbackAddress address then Inl UnsafeDestination
      else if address \<notin> set result then collect_public rest (result @ [address])
      else collect_public rest result)"

text \<open>\<open>lookup host\<close> is what the resolver answers, \<open>None\<close> for an error.\<close>

definition resolvePublicCallback :: "(string \<Rightarrow> ip_addr list option) \<Rightarrow> string \<Rightarrow> resolve_error + ip_addr list" where
  "resolvePublicCallback lookup host =
     (if \<not> validDNSName host then Inl ResolveFailed
      else case lookup host of
        None \<Rightarrow> Inl ResolveFailed
      | Some addresses \<Rightarrow>
          if addresses = [] then Inl ResolveFailed
          else (case collect_public addresses [] of Inl e \<Rightarrow> Inl e | Inr result \<Rightarrow> Inr (sort_addrs result)))"

record safeCallbackTransport =
  sc_host :: string
  sc_port :: nat

definition NewSafeCallbackClient ::
  "(string \<Rightarrow> string) \<Rightarrow> string \<Rightarrow> nat \<Rightarrow> int \<Rightarrow> int \<Rightarrow> safeCallbackTransport option" where
  "NewSafeCallbackClient casing host port requestTimeout dialTimeout =
     (let host' = ToLower casing (trim_dot (TrimSpace host)) in
      if \<not> validDNSName host' \<or> port = 0 \<or> requestTimeout \<le> 0 \<or> dialTimeout \<le> 0 then None
      else Some \<lparr>sc_host = host', sc_port = port\<rparr>)"

text \<open>
  The dial hook of the transport: the addresses it tries, in order, up to the first that answers, and the
  connection it returns. \<open>dial\<close> says whether a connection to an address and port succeeds.
\<close>

fun dial_addresses :: "(ip_addr \<Rightarrow> nat \<Rightarrow> bool) \<Rightarrow> nat \<Rightarrow> ip_addr list \<Rightarrow> (ip_addr \<times> nat) list \<times> (ip_addr \<times> nat) option" where
  "dial_addresses dial port [] = ([], None)"
| "dial_addresses dial port (address # rest) =
     (if dial address port then ([(address, port)], Some (address, port))
      else let (tried, conn) = dial_addresses dial port rest in ((address, port) # tried, conn))"

datatype trip_error = TripUnsafe | TripFailed

definition dial_public ::
  "safeCallbackTransport \<Rightarrow> (string \<Rightarrow> ip_addr list option) \<Rightarrow> (ip_addr \<Rightarrow> nat \<Rightarrow> bool)
     \<Rightarrow> (ip_addr \<times> nat) list \<times> (trip_error + ip_addr \<times> nat)" where
  "dial_public transport lookup dial =
     (case resolvePublicCallback lookup (sc_host transport) of
        Inl UnsafeDestination \<Rightarrow> ([], Inl TripUnsafe)
      | Inl ResolveFailed \<Rightarrow> ([], Inl TripFailed)
      | Inr addresses \<Rightarrow>
          (case dial_addresses dial (sc_port transport) addresses of
             (tried, None) \<Rightarrow> (tried, Inl TripFailed)
           | (tried, Some conn) \<Rightarrow> (tried, Inr conn)))"

text \<open>
  \<open>RoundTrip\<close> on a new connection: the addresses dialled, and the answer of the peer on the connection
  (\<open>send\<close>), which is \<open>None\<close> when the exchange fails.
\<close>

definition RoundTrip ::
  "(string \<Rightarrow> parsed_url option) \<Rightarrow> (string \<Rightarrow> string) \<Rightarrow> safeCallbackTransport \<Rightarrow> (string \<Rightarrow> ip_addr list option)
     \<Rightarrow> (ip_addr \<Rightarrow> nat \<Rightarrow> bool) \<Rightarrow> (ip_addr \<times> nat \<Rightarrow> 'r option) \<Rightarrow> string \<Rightarrow> (ip_addr \<times> nat) list \<times> (trip_error + 'r)" where
  "RoundTrip parse casing transport lookup dial send url =
     (case validateCallbackDestination parse casing url (sc_host transport) (sc_port transport) of
        None \<Rightarrow> ([], Inl TripUnsafe)
      | Some _ \<Rightarrow>
          (case dial_public transport lookup dial of
             (tried, Inl e) \<Rightarrow> (tried, Inl e)
           | (tried, Inr conn) \<Rightarrow> (tried, case send conn of None \<Rightarrow> Inl TripFailed | Some r \<Rightarrow> Inr r)))"


section \<open>What counts as public\<close>

lemma in4_shorter: "in4 a net n \<Longrightarrow> m \<le> n \<Longrightarrow> n \<le> 32 \<Longrightarrow> in4 a net m"
proof -
  assume "in4 a net n" "m \<le> n" "n \<le> 32"
  then have "drop_bit (n - m) (drop_bit (32 - n) a) = drop_bit (n - m) (drop_bit (32 - n) net)" by (simp add: in4_def)
  then show "in4 a net m" using \<open>m \<le> n\<close> \<open>n \<le> 32\<close> by (simp add: in4_def drop_bit_drop_bit)
qed


definition prohibited4 :: "32 word \<Rightarrow> bool" where
  "prohibited4 a \<longleftrightarrow>
     in4 a (quad 0 0 0 0) 8 \<or> in4 a (quad 10 0 0 0) 8 \<or> in4 a (quad 100 64 0 0) 10 \<or> in4 a (quad 127 0 0 0) 8
     \<or> in4 a (quad 169 254 0 0) 16 \<or> in4 a (quad 172 16 0 0) 12 \<or> in4 a (quad 192 0 0 0) 24 \<or> in4 a (quad 192 0 2 0) 24
     \<or> in4 a (quad 192 88 99 0) 24 \<or> in4 a (quad 192 168 0 0) 16 \<or> in4 a (quad 198 18 0 0) 15 \<or> in4 a (quad 198 51 100 0) 24
     \<or> in4 a (quad 203 0 113 0) 24 \<or> in4 a (quad 224 0 0 0) 4 \<or> in4 a (quad 240 0 0 0) 4"


lemma broadcast_reserved: "in4 (quad 255 255 255 255) (quad 240 0 0 0) 4"
  by (simp add: in4_def quad_def)

lemma public4_iff: "isPublicCallbackAddress (IPv4 a) \<longleftrightarrow> \<not> prohibited4 a"
proof -
  have zero: "in4 0 (quad 0 0 0 0) 8" by (simp add: in4_def quad_def)
  have link: "in4 a (quad 224 0 0 0) 24 \<Longrightarrow> in4 a (quad 224 0 0 0) 4"
    using in4_shorter [of a "quad 224 0 0 0" 24 4] by simp
  have "list_ex (\<lambda>prefix. prefix_Contains prefix (IPv4 a)) prohibitedCallbackPrefixes \<longleftrightarrow> prohibited4 a"
    by (simp add: prohibitedCallbackPrefixes_def prohibited4_def in4_def)
  moreover have "prohibited4 a" if "\<not> IsGlobalUnicast (IPv4 a) \<or> IsPrivate (IPv4 a) \<or> IsLoopback (IPv4 a)
      \<or> IsLinkLocalUnicast (IPv4 a) \<or> IsLinkLocalMulticast (IPv4 a) \<or> IsMulticast (IPv4 a) \<or> IsUnspecified (IPv4 a)"
    using that zero broadcast_reserved link by (auto simp: prohibited4_def)
  ultimately show ?thesis by (auto simp: isPublicCallbackAddress_def Is6_def)
qed





section \<open>Only public addresses are dialled\<close>

lemma set_insert_addr: "set (insert_addr x ys) = insert x (set ys)"
  by (induction ys) auto

lemma set_sort_addrs: "set (sort_addrs xs) = set xs"
  unfolding sort_addrs_def by (induction xs) (simp_all add: set_insert_addr)

lemma collect_public_sound:
  "collect_public raws acc = Inr result \<Longrightarrow>
    set result = set acc \<union> Unmap ` set raws \<and> (\<forall>raw \<in> set raws. isPublicCallbackAddress (Unmap raw))"
proof (induction raws arbitrary: acc)
  case (Cons raw rest)
  let ?acc = "if Unmap raw \<notin> set acc then acc @ [Unmap raw] else acc"
  have pub: "isPublicCallbackAddress (Unmap raw)" and rec: "collect_public rest ?acc = Inr result"
    using Cons.prems by (simp_all add: Let_def split: if_splits)
  from Cons.IH [OF rec] have "set result = set ?acc \<union> Unmap ` set rest" "\<forall>raw \<in> set rest. isPublicCallbackAddress (Unmap raw)"
    by simp_all
  then show ?case using pub by auto
qed simp

lemma resolve_sound:
  assumes "resolvePublicCallback lookup host = Inr result"
  shows "\<exists>answers. lookup host = Some answers \<and> set result = Unmap ` set answers
    \<and> (\<forall>raw \<in> set answers. isPublicCallbackAddress (Unmap raw))"
proof -
  from assms obtain answers r where "lookup host = Some answers" "collect_public answers [] = Inr r" "result = sort_addrs r"
    by (auto simp: resolvePublicCallback_def split: if_splits option.splits sum.splits)
  then show ?thesis using collect_public_sound [of answers "[]" r] by (simp add: set_sort_addrs)
qed

lemma dial_addresses_tried: "(a, p) \<in> set (fst (dial_addresses dial port as)) \<Longrightarrow> a \<in> set as \<and> p = port"
  by (induction as) (auto split: if_splits prod.splits)

definition destination_matches ::
  "(string \<Rightarrow> parsed_url option) \<Rightarrow> (string \<Rightarrow> string) \<Rightarrow> string \<Rightarrow> string \<Rightarrow> nat \<Rightarrow> bool" where
  "destination_matches parse casing url host port \<longleftrightarrow>
     (\<exists>u. parse url = Some u \<and> pu_Scheme u = ''https'' \<and> \<not> pu_User u \<and> \<not> is_ip_literal (ToLower casing (pu_Hostname u))
        \<and> ToLower casing (trim_dot (pu_Hostname u)) = ToLower casing (trim_dot host) \<and> effective_port u = port)"

lemma validate_matches:
  "validateCallbackDestination parse casing url host port = Some u \<Longrightarrow> destination_matches parse casing url host port"
  by (auto simp: validateCallbackDestination_def parseHTTPSDestination_def destination_matches_def Let_def
      split: option.splits if_splits)

section \<open>Properties\<close>


text \<open>C10: whatever the URL, the resolver and the network answer, a webhook request is sent only over https to the
  registered host and port, and every address dialled for it is a public address the resolver gave for that
  host; if one of the answers is not public, nothing is dialled at all.\<close>

theorem webhook_dials_public:
  assumes "RoundTrip parse casing transport lookup dial send url = (tried, result)" and "(a, p) \<in> set tried"
  shows "isPublicCallbackAddress a \<and> p = sc_port transport
    \<and> (\<exists>answers. lookup (sc_host transport) = Some answers \<and> a \<in> Unmap ` set answers
         \<and> (\<forall>raw \<in> set answers. isPublicCallbackAddress (Unmap raw)))
    \<and> destination_matches parse casing url (sc_host transport) (sc_port transport)"
proof -
  from assms obtain u where u: "validateCallbackDestination parse casing url (sc_host transport) (sc_port transport) = Some u"
    by (auto simp: RoundTrip_def split: option.splits)
  with assms have "(a, p) \<in> set (fst (dial_public transport lookup dial))"
    by (auto simp: RoundTrip_def split: prod.splits sum.splits)
  then obtain addresses where r: "resolvePublicCallback lookup (sc_host transport) = Inr addresses"
    and "(a, p) \<in> set (fst (dial_addresses dial (sc_port transport) addresses))"
    by (auto simp: dial_public_def split: sum.splits resolve_error.splits prod.splits option.splits)
  from dial_addresses_tried [OF this(2)] have a: "a \<in> set addresses" "p = sc_port transport" by simp_all
  from resolve_sound [OF r] obtain answers where ans: "lookup (sc_host transport) = Some answers"
    "set addresses = Unmap ` set answers" "\<forall>raw \<in> set answers. isPublicCallbackAddress (Unmap raw)" by blast
  then show ?thesis using a validate_matches [OF u] by auto
qed

definition st_transport :: safeCallbackTransport where
  "st_transport = \<lparr>sc_host = ''a.io'', sc_port = 443\<rparr>"

definition st_parse :: "string \<Rightarrow> parsed_url option" where
  "st_parse raw = Some \<lparr>pu_Scheme = ''https'', pu_Host = ''a.io'', pu_Hostname = ''a.io'',
     pu_Port = [], pu_User = False, pu_Fragment = [], pu_Opaque = []\<rparr>"

definition st_lookup :: "string \<Rightarrow> ip_addr list option" where
  "st_lookup host = Some [IPv4 (quad 8 8 8 8)]"

lemma st_public: "isPublicCallbackAddress (IPv4 (quad 8 8 8 8))"
  by (simp add: public4_iff prohibited4_def in4_def quad_def)

lemma st_name: "validDNSName ''a.io''" "map lower_char ''a.io'' = ''a.io''"
  "ascii ''a.io''" "\<not> has_dot_suffix ''a.io''" "\<not> is_ip_literal ''a.io''"
  by (simp_all add: validDNSName_def dns_label_def lower_char_def upper_letter_def lower_letter_def digit_def
      has_dot_suffix_def ascii_def is_ip_literal_def)

lemma st_trip:
  "RoundTrip st_parse (\<lambda>s. s) st_transport st_lookup (\<lambda>_ _. True) (\<lambda>_. Some (200 :: int)) ''https://a.io/x''
    = ([(IPv4 (quad 8 8 8 8), 443)], Inr 200)"
  using st_public st_name
  by (simp add: RoundTrip_def validateCallbackDestination_def parseHTTPSDestination_def st_parse_def st_transport_def
      st_lookup_def ToLower_def trim_dot_def effective_port_def dial_public_def resolvePublicCallback_def Unmap_def
      sort_addrs_def Let_def)

theorem webhook_dials_public_witness:
  "isPublicCallbackAddress (IPv4 (quad 8 8 8 8)) \<and> (443 :: nat) = sc_port st_transport"
  using webhook_dials_public [OF st_trip, of "IPv4 (quad 8 8 8 8)" 443] by simp

end
