(* ===== verification/Webhook_Delivery.thy ===== *)
theory Webhook_Delivery
  imports Webhook_Outbox Safe_Transport Go_Json
begin

text \<open>
  One signed delivery of a terminal event (\<^verbatim>\<open>internal/external/webhook.go\<close>): the bytes of the event body as
  \<^verbatim>\<open>webhook_event.go\<close> marshals it, the check that the body names its event, the signature, and the
  classification of the answer. The parser of HTTP dates and of URLs, the Unicode case mapping and the
  transport are arguments; instants and durations are in nanoseconds.
\<close>

section \<open>The body of an event\<close>

text \<open>
  A day number of the Unix calendar as year, month and day: eras of 400 years that start in March, the
  year within the era, the day within the year, the month counted from March.
\<close>

definition era_year :: "int \<Rightarrow> int" where
  "era_year doe = (doe - doe div 1460 + doe div 36524 - doe div 146096) div 365"

definition year_day :: "int \<Rightarrow> int" where
  "year_day doe = (let yoe = era_year doe in doe - (365 * yoe + yoe div 4 - yoe div 100))"

definition march_month :: "int \<Rightarrow> int" where
  "march_month doy = (5 * doy + 2) div 153"

definition civil_date :: "int \<Rightarrow> int \<times> int \<times> int" where
  "civil_date days =
     (let z = days + 719468; doe = z mod 146097; doy = year_day doe; mp = march_month doy;
          m = (if mp < 10 then mp + 3 else mp - 9) in
      (era_year doe + z div 146097 * 400 + (if m \<le> 2 then 1 else 0), m, doy - (153 * mp + 2) div 5 + 1))"

definition zero_padded :: "nat \<Rightarrow> int \<Rightarrow> string" where
  "zero_padded width i =
     (let digits = nat_decimal (nat \<bar>i\<bar>) in (if i < 0 then ''-'' else []) @ replicate (width - length digits) (CHR ''0'') @ digits)"

text \<open>\<^verbatim>\<open>Format("2006-01-02T15:04:05.000Z")\<close> of an instant in milliseconds\<close>

definition format_millis :: "int \<Rightarrow> string" where
  "format_millis ms =
     (let (y, m, d) = civil_date (ms div 86400000); t = ms mod 86400000 in
      zero_padded 4 y @ ''-'' @ zero_padded 2 m @ ''-'' @ zero_padded 2 d @ ''T''
      @ zero_padded 2 (t div 3600000) @ '':'' @ zero_padded 2 (t div 60000 mod 60) @ '':''
      @ zero_padded 2 (t div 1000 mod 60) @ ''.'' @ zero_padded 3 (t mod 1000) @ ''Z'')"

definition job_status_text :: "JobStatus \<Rightarrow> string" where
  "job_status_text s =
     (case s of
        JobStatusQueued \<Rightarrow> ''QUEUED'' | JobStatusRunning \<Rightarrow> ''RUNNING'' | JobStatusSucceeded \<Rightarrow> ''SUCCEEDED''
      | JobStatusFailed \<Rightarrow> ''FAILED'' | JobStatusCancelled \<Rightarrow> ''CANCELLED'' | UnknownStatus t \<Rightarrow> t)"

definition int_member :: "string \<Rightarrow> int option \<Rightarrow> (string \<times> json) list" where
  "int_member k v = (case v of None \<Rightarrow> [] | Some i \<Rightarrow> [(k, json_int i)])"

definition text_member :: "string \<Rightarrow> string \<Rightarrow> (string \<times> json) list" where
  "text_member k s = (if s = [] then [] else [(k, JString s)])"

definition case_json :: "DurableCaseResult \<Rightarrow> json" where
  "case_json c = JObject
     ([(''caseId'', JString (dc_CaseID c)), (''verdict'', JString (dc_Verdict c)),
       (''timeMillis'', json_int (dc_TimeMillis c)), (''memoryBytes'', json_int (dc_MemoryBytes c))]
      @ int_member ''score'' (dc_Score c) @ int_member ''maxScore'' (dc_MaxScore c))"

definition result_json :: "DurableJobResult \<Rightarrow> json" where
  "result_json r = JObject
     ([(''verdict'', JString (dr_Verdict r)), (''compileStatus'', JString (dr_CompileStatus r)),
       (''timeMillis'', json_int (dr_TimeMillis r)), (''memoryBytes'', json_int (dr_MemoryBytes r))]
      @ int_member ''score'' (dr_Score r) @ int_member ''totalScore'' (dr_TotalScore r)
      @ [(''cases'', JArray (map case_json (dr_Cases r)))])"

definition payload_members :: "terminalWebhookPayload \<Rightarrow> (string \<times> json) list" where
  "payload_members p =
     [(''schemaVersion'', json_int (pl_SchemaVersion p)), (''eventId'', JString (pl_EventID p)),
      (''eventType'', JString (pl_EventType p)), (''occurredAt'', JString (format_millis (pl_OccurredAt p))),
      (''tenantId'', JString (pl_TenantID p)), (''jobId'', JString (pl_JobID p))]
     @ text_member ''clientReference'' (pl_ClientReference p)
     @ [(''status'', JString (job_status_text (pl_Status p)))]
     @ (case pl_Result p of None \<Rightarrow> [] | Some r \<Rightarrow> [(''result'', result_json r)])
     @ text_member ''failureCode'' (pl_FailureCode p)"

definition payload_body :: "terminalWebhookPayload \<Rightarrow> string" where
  "payload_body p = json_text (JObject (payload_members p))"

section \<open>The event a body names\<close>

lemma read_loop_shorter: "read_loop st fs s = Some (v, r) \<Longrightarrow> length r < length s"
proof (induction st fs s rule: read_loop.induct)
  case (1 st fs s)
  obtain t u where tok: "next_token s = Some (t, u)" using 1(2) by (cases "next_token s") (auto simp: read_loop.simps [of st fs s])
  have lt: "length u < length s" by (rule next_token_shorter [OF tok])
  have res: "resume (json_step t st fs) u = Some (v, r)" using 1(2) read_loop_token [OF tok] by simp
  show ?case
  proof (cases "json_step t st fs")
    case (Done w)
    then show ?thesis using res lt by (simp add: resume_def)
  next
    case (Go st' fs')
    then have "length r < length u" using res 1(1) [OF tok refl Go] by simp
    then show ?thesis using lt by simp
  qed (use res in \<open>simp add: resume_def\<close>)
qed

lemma read_value_shorter: "read_value s = Some (v, r) \<Longrightarrow> length r < length s"
  unfolding read_value_def by (rule read_loop_shorter)

text \<open>\<^verbatim>\<open>decoder.Decode\<close> into a Go string: null leaves the variable as it is.\<close>

definition decode_string :: "json \<Rightarrow> string \<Rightarrow> string option" where
  "decode_string v old = (case v of JString s \<Rightarrow> Some s | JNull \<Rightarrow> Some old | _ \<Rightarrow> None)"

text \<open>The key of the next member; \<open>start\<close> says that no member has been read yet.\<close>

definition member_key :: "bool \<Rightarrow> json_token \<times> string \<Rightarrow> (string \<times> string) option" where
  "member_key start tok =
     (case (if start then Some tok else if fst tok = Comma then next_token (snd tok) else None) of
        None \<Rightarrow> None
      | Some (k, r) \<Rightarrow> (case scalar_key k of None \<Rightarrow> None | Some key \<Rightarrow> Some (key, r)))"

definition member_value :: "string \<Rightarrow> (json \<times> string) option" where
  "member_value s = (case next_token s of Some (Colon, r) \<Rightarrow> read_value r | _ \<Rightarrow> None)"

lemma member_key_shorter: "member_key start (t, r) = Some (k, u) \<Longrightarrow> length u \<le> length r"
  using next_token_shorter [of r]
  by (auto simp: member_key_def split: if_splits option.splits dest: less_imp_le)

lemma member_value_shorter: "member_value s = Some (v, r) \<Longrightarrow> length r < length s"
  by (auto simp: member_value_def split: option.splits json_token.splits dest!: next_token_shorter read_value_shorter)

text \<open>The next member of the object, or \<open>None\<close> in the first component for its closing brace.\<close>

definition next_member :: "bool \<Rightarrow> string \<Rightarrow> ((string \<times> json) option \<times> string) option" where
  "next_member start s =
     (case next_token s of
        None \<Rightarrow> None
      | Some (t, r) \<Rightarrow>
          if t = BraceClose then Some (None, r)
          else (case member_key start (t, r) of
            None \<Rightarrow> None
          | Some (key, r1) \<Rightarrow>
              (case member_value r1 of None \<Rightarrow> None | Some (v, r2) \<Rightarrow> Some (Some (key, v), r2))))"

lemma next_member_shorter:
  assumes "next_member start s = Some (m, r)"
  shows "length r < length s"
proof -
  from assms obtain t u where t: "next_token s = Some (t, u)" by (auto simp: next_member_def split: option.splits)
  note lt = next_token_shorter [OF t]
  show ?thesis
  proof (cases "t = BraceClose")
    case False
    then obtain k u1 v where "member_key start (t, u) = Some (k, u1)" "member_value u1 = Some (v, r)"
      using assms t by (auto simp: next_member_def split: option.splits)
    from member_key_shorter [OF this(1)] member_value_shorter [OF this(2)] lt show ?thesis by simp
  qed (use assms t lt in \<open>simp add: next_member_def\<close>)
qed

function body_members :: "bool \<Rightarrow> string \<Rightarrow> bool \<Rightarrow> string \<Rightarrow> (string \<times> bool \<times> string) option" where
  "body_members start eventID seen s =
     (case next_member start s of
        None \<Rightarrow> None
      | Some (None, r) \<Rightarrow> Some (eventID, seen, r)
      | Some (Some (key, v), r) \<Rightarrow>
          if key = ''eventId'' then
            (if seen then None
             else (case decode_string v eventID of None \<Rightarrow> None | Some e \<Rightarrow> body_members False e True r))
          else body_members False eventID seen r)"
  by pat_completeness auto
termination
  by (relation "measure (\<lambda>(_, _, _, s). length s)") (auto dest: next_member_shorter)

declare body_members.simps [simp del]

definition webhookBodyEventID :: "string \<Rightarrow> string option" where
  "webhookBodyEventID body =
     (case next_token body of
        Some (BraceOpen, s) \<Rightarrow>
          (case body_members True [] False s of
             None \<Rightarrow> None
           | Some (eventID, seen, rest) \<Rightarrow>
               if skip_space rest \<noteq> [] then None
               else if \<not> seen \<or> \<not> externalIDPattern eventID then None
               else Some eventID)
      | _ \<Rightarrow> None)"

section \<open>Delivering\<close>

record WebhookOutcome =
  wo_Disposition :: WebhookDisposition
  wo_HTTPStatus :: int
  wo_RetryAfter :: int
  wo_ErrorCode :: string

record WebhookDelivery =
  wd_EventID :: string
  wd_DestinationURL :: string
  wd_Secret :: string
  wd_Body :: string

record webhook_request =
  rq_URL :: string
  rq_EventID :: string
  rq_Timestamp :: string
  rq_Signature :: string
  rq_Body :: string

record webhook_response =
  rs_StatusCode :: int
  rs_RetryAfter :: string

definition maximumWebhookBodyBytes :: nat where "maximumWebhookBodyBytes = 1048576"

definition validateWebhookDelivery ::
  "(string \<Rightarrow> parsed_url option) \<Rightarrow> (string \<Rightarrow> string) \<Rightarrow> WebhookDelivery \<Rightarrow> bool" where
  "validateWebhookDelivery parse casing delivery =
     (if \<not> externalIDPattern (wd_EventID delivery) then False
      else if parseHTTPSDestination parse casing (wd_DestinationURL delivery) = None then False
      else if length (wd_Secret delivery) < 32 \<or> length (wd_Secret delivery) > 1024 then False
      else if wd_Body delivery = [] \<or> length (wd_Body delivery) > maximumWebhookBodyBytes then False
      else webhookBodyEventID (wd_Body delivery) = Some (wd_EventID delivery))"

definition signed_message :: "string \<Rightarrow> string \<Rightarrow> string \<Rightarrow> string" where
  "signed_message eventID timestamp body =
     ''v1'' @ CHR 0x0A # nat_decimal (length eventID) @ CHR 0x0A # eventID @ CHR 0x0A # timestamp @ CHR 0x0A # body"

definition signWebhook :: "string \<Rightarrow> string \<Rightarrow> string \<Rightarrow> string \<Rightarrow> string" where
  "signWebhook secret eventID timestamp body =
     ''v1='' @ hex_encode (hmac_sha256 secret (signed_message eventID timestamp body))"

definition second :: int where "second = 1000000000"

text \<open>\<open>http_date\<close> is \<^verbatim>\<open>http.ParseTime\<close>.\<close>

definition parseWebhookRetryAfter :: "(string \<Rightarrow> int option) \<Rightarrow> string \<Rightarrow> int \<Rightarrow> int \<Rightarrow> int" where
  "parseWebhookRetryAfter http_date raw now maximum =
     (let raw = TrimSpace raw in
      if raw = [] then 0
      else case ParseUint raw 64 of
        Some seconds \<Rightarrow>
          if int seconds > max_int64 div second then 0
          else if int seconds > maximum div second then maximum
          else int seconds * second
      | None \<Rightarrow>
          (case http_date raw of
             None \<Rightarrow> 0
           | Some date \<Rightarrow> let delay = date - now in if delay \<le> 0 then 0 else if delay > maximum then maximum else delay))"

definition permanentWebhookOutcome :: "string \<Rightarrow> WebhookOutcome" where
  "permanentWebhookOutcome code =
     \<lparr>wo_Disposition = WebhookPermanentFailure, wo_HTTPStatus = 0, wo_RetryAfter = 0, wo_ErrorCode = code\<rparr>"

definition retry_outcome :: "int \<Rightarrow> int \<Rightarrow> string \<Rightarrow> WebhookOutcome" where
  "retry_outcome status retryAfter code =
     \<lparr>wo_Disposition = WebhookRetry, wo_HTTPStatus = status, wo_RetryAfter = retryAfter, wo_ErrorCode = code\<rparr>"

definition classify_response :: "(string \<Rightarrow> int option) \<Rightarrow> int \<Rightarrow> int \<Rightarrow> webhook_response \<Rightarrow> WebhookOutcome" where
  "classify_response http_date responseTime retryAfterMaximum response =
     (let status = rs_StatusCode response in
      if status < 200 \<or> status > 599 then permanentWebhookOutcome WebhookErrorInvalidDelivery
      else if status \<ge> 200 \<and> status < 300 then
        \<lparr>wo_Disposition = WebhookDelivered, wo_HTTPStatus = status, wo_RetryAfter = 0, wo_ErrorCode = []\<rparr>
      else if status = 408 \<or> status = 425 \<or> status = 429 \<or> status \<ge> 500 \<and> status \<le> 599 then
        retry_outcome status (parseWebhookRetryAfter http_date (rs_RetryAfter response) responseTime retryAfterMaximum)
          WebhookErrorHTTPRetryable
      else
        \<lparr>wo_Disposition = WebhookPermanentFailure, wo_HTTPStatus = status, wo_RetryAfter = 0,
         wo_ErrorCode = WebhookErrorHTTPPermanent\<rparr>)"

record delivery_env =
  de_parse :: "string \<Rightarrow> parsed_url option"
  de_casing :: "string \<Rightarrow> string"
  de_http_date :: "string \<Rightarrow> int option"
  de_request_time :: int
  de_response_time :: int

definition webhook_request_of :: "delivery_env \<Rightarrow> WebhookDelivery \<Rightarrow> webhook_request" where
  "webhook_request_of env delivery =
     (let timestamp = int_decimal (de_request_time env div second) in
      \<lparr>rq_URL = wd_DestinationURL delivery, rq_EventID = wd_EventID delivery, rq_Timestamp = timestamp,
       rq_Signature = signWebhook (wd_Secret delivery) (wd_EventID delivery) timestamp (wd_Body delivery),
       rq_Body = wd_Body delivery\<rparr>)"

text \<open>\<open>trip\<close> is the round trip of the transport; \<open>Inr None\<close> is a nil response without an error.\<close>

definition DeliverOutcome ::
  "delivery_env \<Rightarrow> (webhook_request \<Rightarrow> trip_error + webhook_response option) \<Rightarrow> WebhookDelivery \<Rightarrow> int \<Rightarrow> WebhookOutcome" where
  "DeliverOutcome env trip delivery retryAfterMaximum =
     (if retryAfterMaximum \<le> 0 \<or> retryAfterMaximum > maximumWebhookRetryAfter then permanentWebhookOutcome WebhookErrorConfiguration
      else if \<not> validateWebhookDelivery (de_parse env) (de_casing env) delivery then
        permanentWebhookOutcome WebhookErrorInvalidDelivery
      else if de_parse env (wd_DestinationURL delivery) = None then permanentWebhookOutcome WebhookErrorInvalidDelivery
      else case trip (webhook_request_of env delivery) of
        Inl TripUnsafe \<Rightarrow> permanentWebhookOutcome WebhookErrorUnsafeDestination
      | Inl TripFailed \<Rightarrow> retry_outcome 0 0 WebhookErrorNetwork
      | Inr None \<Rightarrow> retry_outcome 0 0 WebhookErrorNetwork
      | Inr (Some response) \<Rightarrow> classify_response (de_http_date env) (de_response_time env) retryAfterMaximum response)"

definition Deliver ::
  "delivery_env \<Rightarrow> (webhook_request \<Rightarrow> trip_error + webhook_response option) \<Rightarrow> WebhookDelivery \<Rightarrow> WebhookDisposition" where
  "Deliver env trip delivery = wo_Disposition (DeliverOutcome env trip delivery maximumWebhookRetryAfter)"

section \<open>Every event names itself\<close>

fun event_scan :: "(string \<times> json) list \<Rightarrow> string \<Rightarrow> bool \<Rightarrow> (string \<times> bool) option" where
  "event_scan [] e seen = Some (e, seen)"
| "event_scan ((k, v) # ms) e seen =
     (if k = ''eventId'' then
        (if seen then None else (case decode_string v e of None \<Rightarrow> None | Some e' \<Rightarrow> event_scan ms e' True))
      else event_scan ms e seen)"

lemma event_scan_other: "\<forall>m \<in> set ms. fst m \<noteq> ''eventId'' \<Longrightarrow> event_scan ms e seen = Some (e, seen)"
  by (induction ms) auto

definition writable :: "string \<times> json \<Rightarrow> bool" where
  "writable m \<longleftrightarrow> (\<exists>n \<le> maxNestingDepth. json_ok n (snd m))"

lemma member_value_text:
  assumes "writable m" "number_end rest"
  shows "member_value (CHR '':'' # json_text (snd m) @ rest) = Some (json_clean (snd m), rest)"
proof -
  from assms(1) obtain n where n: "n \<le> maxNestingDepth" "json_ok n (snd m)" by (auto simp: writable_def)
  show ?thesis using read_value_text [OF n(2,1) assms(2)] by (simp add: member_value_def)
qed

lemma next_member_start:
  assumes "writable m" "number_end rest"
  shows "next_member True (member_text m @ rest) = Some (Some (clean_member m), rest)"
  using member_value_text [OF assms]
  by (simp add: next_member_def member_text_def member_key_def scalar_key_def clean_member_def)

lemma next_member_comma:
  assumes "writable m" "number_end rest"
  shows "next_member False (CHR '','' # member_text m @ rest) = Some (Some (clean_member m), rest)"
  using member_value_text [OF assms]
  by (simp add: next_member_def member_text_def member_key_def scalar_key_def clean_member_def)

definition comma_members :: "(string \<times> json) list \<Rightarrow> string" where
  "comma_members ms = concat (map (\<lambda>m. CHR '','' # member_text m) ms)"

lemma json_commas_Cons: "json_commas (map member_text (m # ms)) = member_text m @ comma_members ms"
  by (induction ms arbitrary: m) (simp_all add: comma_members_def)

definition scanned :: "(string \<times> bool) option \<Rightarrow> string \<Rightarrow> (string \<times> bool \<times> string) option" where
  "scanned r rest = (case r of None \<Rightarrow> None | Some (e, seen) \<Rightarrow> Some (e, seen, rest))"

lemma scanned_split:
  "(if k = ''eventId'' then (if seen then None else (case decode_string v e of None \<Rightarrow> None | Some e' \<Rightarrow> scanned (event_scan ms e' True) rest))
    else scanned (event_scan ms e seen) rest) = scanned (event_scan ((k, v) # ms) e seen) rest"
  by (simp add: scanned_def split: option.splits)

lemma body_members_member:
  assumes "next_member start s = Some (Some (k, v), r)"
    and "\<And>e seen. body_members False e seen r = scanned (event_scan ms e seen) rest"
  shows "body_members start e seen s = scanned (event_scan ((k, v) # ms) e seen) rest"
  unfolding body_members.simps [of start e seen s] assms(1) scanned_split [symmetric]
  by (simp add: assms(2) split: option.split)

lemma comma_end: "number_end (comma_members ms @ CHR ''}'' # rest)"
  by (cases ms) (simp_all add: comma_members_def)

lemma body_members_comma:
  "\<forall>m \<in> set ms. writable m \<Longrightarrow>
     body_members False e seen (comma_members ms @ CHR ''}'' # rest) = scanned (event_scan (map clean_member ms) e seen) rest"
proof (induction ms arbitrary: e seen)
  case Nil
  show ?case by (simp add: comma_members_def body_members.simps [of False e seen "CHR ''}'' # rest"] next_member_def scanned_def)
next
  case (Cons m ms)
  let ?s = "comma_members (m # ms) @ CHR ''}'' # rest" and ?r = "comma_members ms @ CHR ''}'' # rest"
  have s: "?s = CHR '','' # member_text m @ ?r" by (simp add: comma_members_def)
  have nm: "next_member False ?s = Some (Some (clean_member m), ?r)"
    unfolding s by (rule next_member_comma [OF _ comma_end]) (use Cons.prems in simp)
  have ih: "body_members False e' seen' ?r = scanned (event_scan (map clean_member ms) e' seen') rest" for e' seen'
    by (rule Cons.IH) (use Cons.prems in simp)
  obtain k v where kv: "clean_member m = (k, v)" by (cases "clean_member m")
  show ?case using body_members_member [OF nm [unfolded kv] ih] kv by simp
qed

lemma body_members_text:
  assumes "\<forall>m \<in> set ms. writable m" "ms \<noteq> []"
  shows "body_members True e seen (json_commas (map member_text ms) @ CHR ''}'' # rest)
    = scanned (event_scan (map clean_member ms) e seen) rest"
proof -
  obtain m ns where ms: "ms = m # ns" using assms(2) by (cases ms) auto
  let ?s = "json_commas (map member_text ms) @ CHR ''}'' # rest" and ?r = "comma_members ns @ CHR ''}'' # rest"
  have s: "?s = member_text m @ ?r" unfolding ms json_commas_Cons by simp
  have nm: "next_member True ?s = Some (Some (clean_member m), ?r)"
    unfolding s by (rule next_member_start [OF _ comma_end]) (use assms ms in simp)
  have ih: "body_members False e' seen' ?r = scanned (event_scan (map clean_member ns) e' seen') rest" for e' seen'
    by (rule body_members_comma) (use assms ms in simp)
  obtain k v where kv: "clean_member m = (k, v)" by (cases "clean_member m")
  show ?thesis using body_members_member [OF nm [unfolded kv] ih] kv by (simp add: ms)
qed

lemma webhookBodyEventID_text:
  assumes "\<forall>m \<in> set ms. writable m" "ms \<noteq> []"
  shows "webhookBodyEventID (json_text (JObject ms)) =
    (case event_scan (map clean_member ms) [] False of
       Some (e, True) \<Rightarrow> if externalIDPattern e then Some e else None
     | _ \<Rightarrow> None)"
proof -
  have "next_token (json_text (JObject ms)) = Some (BraceOpen, json_commas (map member_text ms) @ ''}'')"
    unfolding json_text_object by (rule next_token_punctuation)
  then show ?thesis
    using body_members_text [OF assms, of "[]" False "[]"]
    by (auto simp: webhookBodyEventID_def scanned_def skip_space_def split: option.splits prod.splits bool.splits)
qed

lemma to_valid_ascii: "list_all (\<lambda>c. byte c < 128) s \<Longrightarrow> to_valid s = s"
  by (simp add: to_valid_id utf8_valid_ascii)

lemma externalID_ascii: "externalIDPattern s \<Longrightarrow> to_valid s = s"
  by (rule to_valid_ascii) (auto simp: externalIDPattern_def lower_letter_def list_all_iff)

lemma writable_simps [simp]: "writable (k, JString s)" "writable (k, json_int i)"
  by (auto simp: writable_def json_int_def intro: exI [of _ 0])

lemma case_json_ok: "json_ok 1 (case_json c)"
  by (auto simp: case_json_def json_int_def int_member_def split: option.splits)

lemma writable_result: "writable (k, result_json r)"
proof -
  have "json_ok 3 (result_json r)"
    using case_json_ok by (auto simp: result_json_def json_int_def int_member_def numeral_3_eq_3 split: option.splits)
  moreover have "3 \<le> maxNestingDepth" by (simp add: maxNestingDepth_def)
  ultimately show ?thesis by (auto simp: writable_def)
qed

lemma payload_writable: "\<forall>m \<in> set (payload_members p). writable m"
  by (auto simp: payload_members_def text_member_def writable_result split: option.splits)

lemma payload_keys:
  "to_valid ''schemaVersion'' = ''schemaVersion''" "to_valid ''eventId'' = ''eventId''" "to_valid ''eventType'' = ''eventType''"
  "to_valid ''occurredAt'' = ''occurredAt''" "to_valid ''tenantId'' = ''tenantId''" "to_valid ''jobId'' = ''jobId''"
  "to_valid ''clientReference'' = ''clientReference''" "to_valid ''status'' = ''status''" "to_valid ''result'' = ''result''"
  "to_valid ''failureCode'' = ''failureCode''"
  by (rule to_valid_ascii, simp)+

lemma payload_names_event:
  assumes "externalIDPattern (pl_EventID p)"
  shows "webhookBodyEventID (payload_body p) = Some (pl_EventID p)"
proof -
  define first where "first = (''schemaVersion'', json_int (pl_SchemaVersion p))"
  define others where "others = drop 2 (payload_members p)"
  have split: "payload_members p = first # (''eventId'', JString (pl_EventID p)) # others"
    by (simp add: first_def others_def payload_members_def)
  have "fst (clean_member m) \<noteq> ''eventId''" if "m \<in> set others" for m
    using that by (auto simp: others_def payload_members_def text_member_def clean_member_def payload_keys split: option.splits if_splits)
  then have "event_scan (map clean_member others) (pl_EventID p) True = Some (pl_EventID p, True)"
    by (intro event_scan_other) auto
  then have "event_scan (map clean_member (payload_members p)) [] False = Some (pl_EventID p, True)"
    unfolding split first_def
    by (simp add: clean_member_def payload_keys decode_string_def externalID_ascii [OF assms])
  moreover have "payload_members p \<noteq> []" by (simp add: split)
  ultimately show ?thesis
    unfolding payload_body_def using webhookBodyEventID_text [OF payload_writable] assms by simp
qed

section \<open>Every event fits\<close>

lemma json_char_length: "s \<noteq> [] \<Longrightarrow> length (fst (json_char s)) \<le> 6 * snd (json_char s)"
proof -
  assume s: "s \<noteq> []"
  have w: "1 \<le> snd (decode_rune s)" using decode_rune_width [OF s] by simp
  show ?thesis
    using w by (auto simp: json_char_def Let_def json_two_byte_def split: option.splits prod.splits if_splits)
qed

lemma json_escape_length: "length (json_escape s) \<le> 6 * length s"
proof (induction s rule: json_escape.induct)
  case (1 s)
  show ?case
  proof (cases "s = []")
    case False
    have "length (json_escape (drop (snd (json_char s)) s)) \<le> 6 * (length s - snd (json_char s))"
      using 1 [OF False] by simp
    moreover have "snd (json_char s) \<le> length s" using json_char_width [OF False] by simp
    ultimately show ?thesis using json_char_length [OF False] False by (simp add: json_escape.simps [of s])
  qed (simp add: json_escape.simps)
qed

lemma json_quote_length: "length (json_quote s) \<le> 6 * length s + 2"
  using json_escape_length [of s] by (simp add: json_quote_def)

lemma nat_decimal_length: "n < 10 ^ Suc k \<Longrightarrow> length (nat_decimal n) \<le> Suc k"
proof (induction k arbitrary: n)
  case 0
  then show ?case by (simp add: nat_decimal.simps [of n])
next
  case (Suc k)
  then have "n div 10 < 10 ^ Suc k" by (simp add: less_mult_imp_div_less)
  then show ?case using Suc.IH [of "n div 10"] by (simp add: nat_decimal.simps [of n])
qed

lemma int_decimal_length: "in_int64 i \<Longrightarrow> length (int_decimal i) \<le> 20"
proof -
  assume "in_int64 i"
  then have "nat i \<le> nat 9223372036854775808" "nat (- i) \<le> nat 9223372036854775808" by (auto simp: in_int64_def)
  then have "nat i < 10 ^ Suc 18" "nat (- i) < 10 ^ Suc 18" by simp_all
  from this [THEN nat_decimal_length] show ?thesis by (simp add: int_decimal_def)
qed

lemma commas_length: "length (json_commas xs) \<le> sum_list (map (\<lambda>x. length x + 1) xs)"
  by (induction xs rule: json_commas.induct) simp_all

lemma object_length: "length (json_text (JObject ms)) \<le> 2 + sum_list (map (\<lambda>m. length (member_text m) + 1) ms)"
  using commas_length [of "map member_text ms"] unfolding json_text_object by (simp add: comp_def)

lemma member_length: "length (member_text m) \<le> 6 * length (fst m) + 3 + length (json_text (snd m))"
  using json_quote_length [of "fst m"] by (simp add: member_text_def)

definition members_bound :: "(string \<times> json) list \<Rightarrow> nat" where
  "members_bound ms = sum_list (map (\<lambda>m. 6 * length (fst m) + 4 + length (json_text (snd m))) ms)"

lemma object_bound: "length (json_text (JObject ms)) \<le> 2 + members_bound ms"
proof -
  have "sum_list (map (\<lambda>m. length (member_text m) + 1) ms) \<le> members_bound ms"
    unfolding members_bound_def
  proof (rule sum_list_mono)
    fix m show "length (member_text m) + 1 \<le> 6 * length (fst m) + 4 + length (json_text (snd m))"
      using member_length [of m] by linarith
  qed
  then show ?thesis using object_length [of ms] by simp
qed

lemma members_bound_append [simp]:
  "members_bound [] = 0" "members_bound (m # ms) = 6 * length (fst m) + 4 + length (json_text (snd m)) + members_bound ms"
  "members_bound (ms @ ns) = members_bound ms + members_bound ns"
  by (simp_all add: members_bound_def)

definition case_sized :: "DurableCaseResult \<Rightarrow> bool" where
  "case_sized c \<longleftrightarrow> in_int64 (dc_TimeMillis c) \<and> in_int64 (dc_MemoryBytes c)
     \<and> pred_option in_int64 (dc_Score c) \<and> pred_option in_int64 (dc_MaxScore c)"

definition result_sized :: "DurableJobResult \<Rightarrow> bool" where
  "result_sized r \<longleftrightarrow> in_int64 (dr_TimeMillis r) \<and> in_int64 (dr_MemoryBytes r)
     \<and> pred_option in_int64 (dr_Score r) \<and> pred_option in_int64 (dr_TotalScore r) \<and> list_all case_sized (dr_Cases r)"

lemma int_member_bound:
  "pred_option in_int64 v \<Longrightarrow> members_bound (int_member k v) \<le> 6 * length k + 24"
  using int_decimal_length by (cases v) (auto simp: int_member_def json_int_def)

lemma string_text_length: "length s \<le> n \<Longrightarrow> length (json_quote s) \<le> 6 * n + 2"
  using json_quote_length [of s] by linarith

lemma case_length:
  assumes "case_sized c" "length (dc_CaseID c) \<le> 128" "length (dc_Verdict c) \<le> 64"
  shows "length (json_text (case_json c)) \<le> 1600"
proof -
  have i: "length (int_decimal (dc_TimeMillis c)) \<le> 20" "length (int_decimal (dc_MemoryBytes c)) \<le> 20"
    using assms(1) int_decimal_length by (auto simp: case_sized_def)
  have m: "members_bound (int_member ''score'' (dc_Score c)) \<le> 54" "members_bound (int_member ''maxScore'' (dc_MaxScore c)) \<le> 72"
    using int_member_bound [of "dc_Score c" "''score''"] int_member_bound [of "dc_MaxScore c" "''maxScore''"] assms(1)
    by (simp_all add: case_sized_def)
  show ?thesis
    unfolding case_json_def
    by (rule order_trans [OF object_bound])
      (use i m string_text_length [OF assms(2)] string_text_length [OF assms(3)] in \<open>simp add: json_int_def\<close>)
qed

lemma array_length: "(\<And>v. v \<in> set vs \<Longrightarrow> length (json_text v) \<le> n) \<Longrightarrow> length (json_text (JArray vs)) \<le> 2 + (n + 1) * length vs"
proof -
  assume b: "\<And>v. v \<in> set vs \<Longrightarrow> length (json_text v) \<le> n"
  have "sum_list (map (\<lambda>x. length x + 1) (map json_text vs)) \<le> (n + 1) * length vs"
    using b by (induction vs) (auto simp: algebra_simps intro!: add_mono)
  then show ?thesis using commas_length [of "map json_text vs"] by simp
qed

lemma result_length:
  assumes "validateDurableJobResult r" "result_sized r"
  shows "length (json_text (result_json r)) \<le> 412000"
proof -
  have ok: "durable_ok r" using assms(1) by (simp add: validate_result_iff)
  have "length (json_text (case_json c)) \<le> 1600" if "c \<in> set (dr_Cases r)" for c
    by (rule case_length)
      (use ok assms(2) that in \<open>auto simp: durable_ok_def cases_ok_def invalid_case_fields_def result_sized_def list_all_iff not_less\<close>)
  then have "length (json_text (JArray (map case_json (dr_Cases r)))) \<le> 2 + 1601 * length (dr_Cases r)"
    using array_length [of "map case_json (dr_Cases r)" 1600] by auto
  moreover have "length (dr_Cases r) \<le> 256" and v: "length (dr_Verdict r) \<le> 64" "length (dr_CompileStatus r) \<le> 64"
    using ok by (simp_all add: durable_ok_def)
  ultimately have cases: "length (json_text (JArray (map case_json (dr_Cases r)))) \<le> 409858" by linarith
  have i: "length (int_decimal (dr_TimeMillis r)) \<le> 20" "length (int_decimal (dr_MemoryBytes r)) \<le> 20"
    using assms(2) int_decimal_length by (auto simp: result_sized_def)
  have m: "members_bound (int_member ''score'' (dr_Score r)) \<le> 54" "members_bound (int_member ''totalScore'' (dr_TotalScore r)) \<le> 84"
    using int_member_bound [of "dr_Score r" "''score''"] int_member_bound [of "dr_TotalScore r" "''totalScore''"] assms(2)
    by (simp_all add: result_sized_def)
  show ?thesis
    unfolding result_json_def
    by (rule order_trans [OF object_bound])
      (use i m cases string_text_length [OF v(1)] string_text_length [OF v(2)] in \<open>simp add: json_int_def\<close>)
qed

lemma zero_padded_length: "\<bar>i\<bar> < 10 ^ 12 \<Longrightarrow> w \<le> 12 \<Longrightarrow> length (zero_padded w i) \<le> 13"
proof -
  assume i: "\<bar>i\<bar> < 10 ^ 12" and w: "w \<le> 12"
  then have "nat \<bar>i\<bar> < nat (10 ^ 12)" by (simp add: nat_less_iff)
  then have "length (nat_decimal (nat \<bar>i\<bar>)) \<le> 12" using nat_decimal_length [of "nat \<bar>i\<bar>" 11] by simp
  then show ?thesis using w by (auto simp: zero_padded_def Let_def)
qed

lemma div_bounds: "0 < c \<Longrightarrow> a \<le> x \<Longrightarrow> x \<le> b \<Longrightarrow> a div c \<le> x div c \<and> x div c \<le> b div c" for x :: int
  by (simp add: zdiv_mono1)

lemma era_year_bounds:
  assumes "0 \<le> doe" "doe \<le> 146096"
  shows "0 \<le> era_year doe \<and> era_year doe \<le> 400"
proof -
  have "0 \<le> doe - doe div 1460 + doe div 36524 - doe div 146096 \<and> doe - doe div 1460 + doe div 36524 - doe div 146096 \<le> 146100"
    using assms div_bounds [of 1460 0 doe 146096] div_bounds [of 36524 0 doe 146096] div_bounds [of 146096 0 doe 146096]
    by (cases "doe < 200") auto
  then show ?thesis
    using div_bounds [of 365 0 "doe - doe div 1460 + doe div 36524 - doe div 146096" 146100] by (simp add: era_year_def)
qed

lemma year_day_bounds:
  assumes "0 \<le> doe" "doe \<le> 146096"
  shows "\<bar>year_day doe\<bar> \<le> 300000"
proof -
  obtain p q where pq: "p = era_year doe div 4" "q = era_year doe div 100" by blast
  have "0 \<le> p \<and> p \<le> 100 \<and> 0 \<le> q \<and> q \<le> 4"
    using era_year_bounds [OF assms] div_bounds [of 4 0 "era_year doe" 400] div_bounds [of 100 0 "era_year doe" 400] by (simp add: pq)
  then have "year_day doe \<le> 300000" "- 300000 \<le> year_day doe"
    using assms era_year_bounds [OF assms] unfolding year_day_def Let_def pq [symmetric] by simp_all
  then show ?thesis by simp
qed

lemma march_month_bounds: "\<bar>doy\<bar> \<le> 300000 \<Longrightarrow> \<bar>march_month doy\<bar> \<le> 10000"
  using div_bounds [of 153 "-1500000" "5 * doy + 2" 1500010] by (simp add: march_month_def abs_le_iff)

lemma civil_date_bounds:
  assumes "civil_date days = (y, m, d)" "\<bar>days\<bar> \<le> 10 ^ 12"
  shows "\<bar>y\<bar> < 10 ^ 12" "\<bar>m\<bar> < 10 ^ 12" "\<bar>d\<bar> < 10 ^ 12"
proof -
  define z where "z = days + 719468"
  define doe where "doe = z mod 146097"
  define mp where "mp = march_month (year_day doe)"
  have doe: "0 \<le> doe" "doe \<le> 146096" using pos_mod_bound [of 146097 z] by (simp_all add: doe_def)
  have era: "\<bar>z div 146097\<bar> \<le> 10 ^ 7"
    using div_bounds [of 146097 "-1000000000000" z "1000001000000"] assms(2) by (simp add: z_def abs_le_iff)
  note yd = year_day_bounds [OF doe]
  have mp: "\<bar>mp\<bar> \<le> 10000" unfolding mp_def by (rule march_month_bounds [OF yd])
  have t: "\<bar>(153 * mp + 2) div 5\<bar> \<le> 400000"
    using mp div_bounds [of 5 "-1600000" "153 * mp + 2" 1600000] by (simp add: abs_le_iff)
  have e: "y = era_year doe + z div 146097 * 400 + (if m \<le> 2 then 1 else 0)" "m = (if mp < 10 then mp + 3 else mp - 9)"
    "d = year_day doe - (153 * mp + 2) div 5 + 1"
    using assms(1) unfolding civil_date_def Let_def z_def [symmetric] doe_def [symmetric] mp_def [symmetric] by auto
  have "\<bar>m\<bar> \<le> 10009" using mp unfolding e(2) by (auto simp: abs_le_iff)
  then show "\<bar>m\<bar> < 10 ^ 12" by simp
  have "\<bar>d\<bar> \<le> 800000" using yd t unfolding e(3) by linarith
  then show "\<bar>d\<bar> < 10 ^ 12" by simp
  have "\<bar>y\<bar> \<le> 400 + 10 ^ 7 * 400 + 1"
    using era_year_bounds [OF doe] era unfolding e(1) by (simp add: abs_le_iff)
  then show "\<bar>y\<bar> < 10 ^ 12" by simp
qed

lemma format_millis_length:
  assumes "in_int64 ms"
  shows "length (format_millis ms) \<le> 99"
proof -
  obtain y m d where c: "civil_date (ms div 86400000) = (y, m, d)" by (cases "civil_date (ms div 86400000)")
  have "\<bar>ms div 86400000\<bar> \<le> 10 ^ 12"
    using div_bounds [of 86400000 "-9223372036854775808" ms 9223372036854775807] assms
    by (simp add: in_int64_def abs_le_iff)
  note b = civil_date_bounds [OF c this]
  have small: "0 < c \<Longrightarrow> \<bar>x mod c\<bar> < c" for x c :: int by simp
  define t where "t = ms mod 86400000"
  define h mi s f where "h = t div 3600000" and "mi = t div 60000 mod 60" and "s = t div 1000 mod 60" and "f = t mod 1000"
  have t: "0 \<le> t" "t \<le> 86400000" using pos_mod_bound [of 86400000 ms] by (simp_all add: t_def)
  have p: "\<bar>h\<bar> < 10 ^ 12" "\<bar>mi\<bar> < 10 ^ 12" "\<bar>s\<bar> < 10 ^ 12" "\<bar>f\<bar> < 10 ^ 12"
    using div_bounds [of 3600000 0 t 86400000, OF _ t] small [of 60 "t div 60000"] small [of 60 "t div 1000"] small [of 1000 t]
    by (simp_all add: h_def mi_def s_def f_def)
  have "length (format_millis ms) = length (zero_padded 4 y) + length (zero_padded 2 m) + length (zero_padded 2 d)
      + length (zero_padded 2 h) + length (zero_padded 2 mi) + length (zero_padded 2 s) + length (zero_padded 3 f) + 7"
    by (simp add: format_millis_def c t_def [symmetric] h_def [symmetric] mi_def [symmetric] s_def [symmetric] f_def [symmetric])
  then show ?thesis
    using zero_padded_length [OF b(1), of 4] zero_padded_length [OF b(2), of 2] zero_padded_length [OF b(3), of 2]
      zero_padded_length [OF p(1), of 2] zero_padded_length [OF p(2), of 2] zero_padded_length [OF p(3), of 2]
      zero_padded_length [OF p(4), of 3]
    by linarith
qed

definition payload_sized :: "terminalWebhookPayload \<Rightarrow> bool" where
  "payload_sized p \<longleftrightarrow> in_int64 (pl_OccurredAt p) \<and> pred_option result_sized (pl_Result p)"

lemma text_member_bound: "length s \<le> n \<Longrightarrow> members_bound (text_member k s) \<le> 6 * length k + 6 * n + 6"
  using json_quote_length [of s] by (auto simp: text_member_def)

lemma failure_code_length: "infrastructureCodePattern s \<Longrightarrow> length s \<le> 64"
  by (cases s) (auto simp: infrastructureCodePattern_def)

lemma encoded_form:
  assumes "EncodeTerminalWebhookEvent eventID occurredAt job = Some (eventType, p)"
  shows "\<exists>r code. p = terminal_payload eventID occurredAt job eventType r code \<and> length eventType \<le> 19 \<and> length code \<le> 64
    \<and> pred_option validateDurableJobResult r \<and> length (job_status_text (ej_Status job)) \<le> 9"
  using assms failure_code_length [of "ej_FailureCode job"]
  by (cases "ej_Status job"; cases "ej_Result job")
    (auto simp: EncodeTerminalWebhookEvent_def job_status_text_def terminal_payload_def split: if_splits)

lemma encoded_ids:
  assumes "EncodeTerminalWebhookEvent eventID occurredAt job = Some (eventType, p)"
  shows "externalIDPattern eventID" "externalIDPattern (ej_TenantExternalID job)" "externalIDPattern (ej_ExternalID job)"
    "length (ej_ClientReference job) \<le> 255"
  using assms by (simp_all add: EncodeTerminalWebhookEvent_def split: if_splits)

lemma payload_fits:
  assumes enc: "EncodeTerminalWebhookEvent eventID occurredAt job = Some (eventType, p)" and sized: "payload_sized p"
  shows "payload_body p \<noteq> []" "length (payload_body p) \<le> maximumWebhookBodyBytes"
proof -
  from encoded_form [OF enc] obtain r code where p: "p = terminal_payload eventID occurredAt job eventType r code"
    and e: "length eventType \<le> 19" "length code \<le> 64" "pred_option validateDurableJobResult r"
      "length (job_status_text (ej_Status job)) \<le> 9" by blast
  have i: "length eventID \<le> 26" "length (ej_TenantExternalID job) \<le> 26" "length (ej_ExternalID job) \<le> 26"
    using encoded_ids [OF enc] by (simp_all add: externalIDPattern_def)
  have r: "members_bound (case r of None \<Rightarrow> [] | Some r \<Rightarrow> [(''result'', result_json r)]) \<le> 412040"
    using e(3) sized result_length by (cases r) (auto simp: payload_sized_def p terminal_payload_def)
  have t: "members_bound (text_member ''clientReference'' (ej_ClientReference job)) \<le> 1626"
    "members_bound (text_member ''failureCode'' code) \<le> 456"
    using text_member_bound [OF encoded_ids(4) [OF enc], of "''clientReference''"] text_member_bound [OF e(2), of "''failureCode''"]
    by simp_all
  have s: "length (int_decimal 1) \<le> 20" using int_decimal_length [of 1] by (simp add: in_int64_def)
  have f: "length (json_quote (format_millis occurredAt)) \<le> 596"
    using string_text_length [OF format_millis_length, of occurredAt] sized by (simp add: payload_sized_def p terminal_payload_def)
  have "members_bound (payload_members p) \<le> 500000"
    unfolding payload_members_def
    using r t s f string_text_length [OF i(1)] string_text_length [OF i(2)] string_text_length [OF i(3)]
      string_text_length [OF e(1)] string_text_length [OF e(4)]
    by (simp add: json_int_def p terminal_payload_def terminalWebhookSchemaVersion_def)
  then show "length (payload_body p) \<le> maximumWebhookBodyBytes"
    using object_bound [of "payload_members p"] by (simp add: payload_body_def maximumWebhookBodyBytes_def)
  show "payload_body p \<noteq> []" by (simp add: payload_body_def)
qed

section \<open>Outcomes can be settled\<close>

lemma retry_after_range:
  "0 < maximum \<Longrightarrow> 0 \<le> parseWebhookRetryAfter http_date raw now maximum \<and> parseWebhookRetryAfter http_date raw now maximum \<le> maximum"
proof -
  assume m: "0 < maximum"
  have "int n * second \<le> maximum" if "\<not> int n > maximum div second" for n
  proof -
    have "int n * second \<le> maximum div second * second" using that by (simp add: second_def)
    also have "\<dots> \<le> maximum" by (simp add: second_def minus_mod_eq_div_mult [symmetric])
    finally show ?thesis .
  qed
  then show ?thesis using m by (auto simp: parseWebhookRetryAfter_def Let_def second_def split: option.splits)
qed

definition settlement_of :: "WebhookOutcome \<Rightarrow> int \<Rightarrow> WebhookSettlement" where
  "settlement_of outcome delay =
     \<lparr>ws_Disposition = wo_Disposition outcome, ws_HTTPStatus = wo_HTTPStatus outcome, ws_ErrorCode = wo_ErrorCode outcome,
      ws_RetryAt = zero_time, ws_RetryDelay = (if wo_Disposition outcome = WebhookRetry then delay else 0)\<rparr>"

lemmas webhook_codes = WebhookErrorConfiguration_def WebhookErrorCallbackDecrypt_def WebhookErrorHTTPPermanent_def
  WebhookErrorHTTPRetryable_def WebhookErrorInvalidDelivery_def WebhookErrorNetwork_def WebhookErrorUnsafeDestination_def
  WebhookErrorDeliveryExpired_def

lemma permanent_settles:
  "code \<in> {WebhookErrorUnsafeDestination, WebhookErrorConfiguration, WebhookErrorInvalidDelivery, WebhookErrorCallbackDecrypt,
     WebhookErrorDeliveryExpired} \<Longrightarrow> validWebhookSettlement (settlement_of (permanentWebhookOutcome code) delay)"
  by (auto simp: validWebhookSettlement_def settlement_of_def permanentWebhookOutcome_def webhook_codes)

lemma retry_settles:
  assumes "0 < delay" "delay \<le> maximumWebhookRetryAfter"
    and "code = WebhookErrorNetwork \<and> status = 0 \<or> code = WebhookErrorHTTPRetryable \<and> retryableWebhookHTTPStatus status"
  shows "validWebhookSettlement (settlement_of (retry_outcome status after code) delay)"
  using assms by (auto simp: validWebhookSettlement_def settlement_of_def retry_outcome_def retryableWebhookHTTPStatus_def)

lemma classified_settles:
  assumes "0 < delay" "delay \<le> maximumWebhookRetryAfter"
  shows "validWebhookSettlement (settlement_of (classify_response http_date t m response) delay)"
proof -
  let ?s = "rs_StatusCode response"
  consider "?s < 200 \<or> ?s > 599" | "200 \<le> ?s" "?s < 300" | "300 \<le> ?s" "?s \<le> 599" "retryableWebhookHTTPStatus ?s"
    | "300 \<le> ?s" "?s \<le> 599" "\<not> retryableWebhookHTTPStatus ?s" by linarith
  then show ?thesis
  proof cases
    case 1
    then show ?thesis using permanent_settles [of WebhookErrorInvalidDelivery] by (simp add: classify_response_def Let_def)
  next
    case 2
    then show ?thesis by (simp add: classify_response_def Let_def settlement_of_def validWebhookSettlement_def)
  next
    case 3
    then have "classify_response http_date t m response
        = retry_outcome ?s (parseWebhookRetryAfter http_date (rs_RetryAfter response) t m) WebhookErrorHTTPRetryable"
      by (simp add: classify_response_def Let_def retryableWebhookHTTPStatus_def)
    then show ?thesis using retry_settles [OF assms] 3(3) by simp
  next
    case 4
    then show ?thesis
      by (auto simp: classify_response_def Let_def settlement_of_def validWebhookSettlement_def permanentWebhookHTTPStatus_def
          retryableWebhookHTTPStatus_def)
  qed
qed

lemma outcome_settles:
  assumes "0 < delay" "delay \<le> maximumWebhookRetryAfter"
  shows "validWebhookSettlement (settlement_of (DeliverOutcome env trip delivery m) delay)"
proof -
  have net: "validWebhookSettlement (settlement_of (retry_outcome 0 0 WebhookErrorNetwork) delay)"
    by (rule retry_settles [OF assms]) simp
  show ?thesis
    unfolding DeliverOutcome_def
    by (simp add: permanent_settles classified_settles [OF assms] net split: sum.split option.split trip_error.split)
qed

lemma outcome_delivered:
  assumes "wo_Disposition (DeliverOutcome env trip delivery m) = WebhookDelivered"
  shows "validateWebhookDelivery (de_parse env) (de_casing env) delivery"
    and "\<exists>response. trip (webhook_request_of env delivery) = Inr (Some response)
      \<and> 200 \<le> rs_StatusCode response \<and> rs_StatusCode response \<le> 299"
  using assms
  by (auto simp: DeliverOutcome_def permanentWebhookOutcome_def retry_outcome_def classify_response_def Let_def
      split: if_splits sum.splits option.splits trip_error.splits)

text \<open>Nothing of a delivery can be moved between the fields the signature covers.\<close>

lemma signed_message_inj:
  assumes "signed_message e t b = signed_message e' t' b'" and "CHR 0x0A \<notin> set t" "CHR 0x0A \<notin> set t'"
  shows "e = e' \<and> t = t' \<and> b = b'"
proof -
  have nl: "CHR 0x0A \<notin> set (nat_decimal n)" for n using nat_decimal_digits [of "CHR 0x0A" n] by auto
  from assms(1) have "nat_decimal (length e) @ CHR 0x0A # e @ CHR 0x0A # t @ CHR 0x0A # b
      = nat_decimal (length e') @ CHR 0x0A # e' @ CHR 0x0A # t' @ CHR 0x0A # b'"
    by (simp add: signed_message_def)
  from first_separator [OF this nl nl] have "length e = length e'" and "e @ CHR 0x0A # t @ CHR 0x0A # b = e' @ CHR 0x0A # t' @ CHR 0x0A # b'"
    using nat_decimal_inj by auto
  then have "e = e'" and "t @ CHR 0x0A # b = t' @ CHR 0x0A # b'" by simp_all
  with first_separator [OF this(2) assms(2,3)] show ?thesis by simp
qed

end
