(* ===== verification/Webhook_Cache.thy ===== *)
theory Webhook_Cache
  imports Safe_Transport "HOL-Library.Multiset"
begin

text \<open>
  The bounded cache of transports of the webhook worker, one per registered host and port
  (\<^verbatim>\<open>webhookAuthorityCache\<close> of \<^verbatim>\<open>internal/external/webhook_worker.go\<close>). A transport comes with a closer, named by
  a number; operations report the closers they close. Under every interleaving of the operations each
  closer stays usable or is closed exactly once.
\<close>

section \<open>The authority cache\<close>

record webhookAuthorityEntry =
  ae_key :: string
  ae_deliverer :: safeCallbackTransport
  ae_closer :: nat

record webhookAuthorityCache =
  ac_limit :: int
  ac_closed :: bool
  ac_entries :: "(string \<times> webhookAuthorityEntry) list"
  ac_lru :: "webhookAuthorityEntry list"

definition newWebhookAuthorityCache :: "int \<Rightarrow> webhookAuthorityCache" where
  "newWebhookAuthorityCache limit = \<lparr>ac_limit = limit, ac_closed = False, ac_entries = [], ac_lru = []\<rparr>"

definition move_to_front :: "webhookAuthorityEntry \<Rightarrow> webhookAuthorityEntry list \<Rightarrow> webhookAuthorityEntry list" where
  "move_to_front e lru = e # filter (\<lambda>x. ae_key x \<noteq> ae_key e) lru"

definition cache_Get :: "string \<Rightarrow> webhookAuthorityCache \<Rightarrow> safeCallbackTransport option \<times> webhookAuthorityCache" where
  "cache_Get key cache =
     (if ac_closed cache then (None, cache)
      else case map_of (ac_entries cache) key of
        None \<Rightarrow> (None, cache)
      | Some e \<Rightarrow> (Some (ae_deliverer e), cache\<lparr>ac_lru := move_to_front e (ac_lru cache)\<rparr>))"

text \<open>\<open>None\<close> is \<^verbatim>\<open>ErrWebhookWorkerClosed\<close>; the second component lists the closers that were closed.\<close>

definition cache_Add ::
  "string \<Rightarrow> safeCallbackTransport \<Rightarrow> nat \<Rightarrow> webhookAuthorityCache
     \<Rightarrow> safeCallbackTransport option \<times> nat list \<times> webhookAuthorityCache" where
  "cache_Add key deliverer closer cache =
     (if ac_closed cache then (None, [], cache)
      else case map_of (ac_entries cache) key of
        Some e \<Rightarrow> (Some (ae_deliverer e), [closer], cache\<lparr>ac_lru := move_to_front e (ac_lru cache)\<rparr>)
      | None \<Rightarrow>
          let element = \<lparr>ae_key = key, ae_deliverer = deliverer, ae_closer = closer\<rparr>;
              lru = element # ac_lru cache;
              entries = (key, element) # ac_entries cache in
          if int (length lru) > ac_limit cache then
            let evicted = last lru in
            (Some deliverer, [ae_closer evicted],
             cache\<lparr>ac_entries := filter (\<lambda>p. fst p \<noteq> ae_key evicted) entries, ac_lru := butlast lru\<rparr>)
          else (Some deliverer, [], cache\<lparr>ac_entries := entries, ac_lru := lru\<rparr>))"

definition cache_Close :: "webhookAuthorityCache \<Rightarrow> nat list \<times> webhookAuthorityCache" where
  "cache_Close cache =
     (if ac_closed cache then ([], cache)
      else (map ae_closer (ac_lru cache), cache\<lparr>ac_closed := True, ac_entries := [], ac_lru := []\<rparr>))"

definition authority_key :: "(string \<Rightarrow> string) \<Rightarrow> string \<Rightarrow> nat \<Rightarrow> string" where
  "authority_key casing host port = ToLower casing host @ '':'' @ nat_decimal port"

definition NewSafeWebhookDeliverer ::
  "(string \<Rightarrow> string) \<Rightarrow> string \<Rightarrow> nat \<Rightarrow> int \<Rightarrow> int \<Rightarrow> safeCallbackTransport option" where
  "NewSafeWebhookDeliverer casing host port requestTimeout dialTimeout =
     (case NewSafeCallbackClient casing host port requestTimeout dialTimeout of
        None \<Rightarrow> None
      | Some transport \<Rightarrow> if requestTimeout \<le> 0 then None else Some transport)"


section \<open>Concurrent use\<close>

text \<open>
  Callers look up, create a transport, add it and close the cache in any order: \<open>cs_pending\<close> are the closers
  created but not yet added, \<open>cs_closed\<close> those closed by the cache or by a caller whose add was refused.
\<close>

record authority_system =
  cs_cache :: webhookAuthorityCache
  cs_pending :: "nat list"
  cs_closed :: "nat list"
  cs_next :: nat

inductive authority_step :: "authority_system \<Rightarrow> authority_system \<Rightarrow> bool" where
  authority_get: "authority_step s (s\<lparr>cs_cache := snd (cache_Get key (cs_cache s))\<rparr>)"
| authority_create: "authority_step s (s\<lparr>cs_pending := cs_next s # cs_pending s, cs_next := Suc (cs_next s)\<rparr>)"
| authority_add: "c \<in> set (cs_pending s) \<Longrightarrow> cache_Add key transport c (cs_cache s) = (r, closed, cache) \<Longrightarrow>
    authority_step s (s\<lparr>cs_cache := cache, cs_pending := remove1 c (cs_pending s),
      cs_closed := (if r = None then [c] else []) @ closed @ cs_closed s\<rparr>)"
| authority_close: "cache_Close (cs_cache s) = (closed, cache) \<Longrightarrow>
    authority_step s (s\<lparr>cs_cache := cache, cs_closed := closed @ cs_closed s\<rparr>)"

definition authority_start :: "int \<Rightarrow> authority_system" where
  "authority_start limit = \<lparr>cs_cache = newWebhookAuthorityCache limit, cs_pending = [], cs_closed = [], cs_next = 0\<rparr>"

definition cache_ok :: "webhookAuthorityCache \<Rightarrow> bool" where
  "cache_ok cache \<longleftrightarrow> distinct (map ae_key (ac_lru cache)) \<and> int (length (ac_lru cache)) \<le> ac_limit cache
     \<and> (\<forall>k e. map_of (ac_entries cache) k = Some e \<longleftrightarrow> e \<in> set (ac_lru cache) \<and> ae_key e = k)
     \<and> (ac_closed cache \<longrightarrow> ac_lru cache = [])"

definition live_closers :: "webhookAuthorityCache \<Rightarrow> nat multiset" where
  "live_closers cache = mset (map ae_closer (ac_lru cache))"

lemma mset_move_to_front:
  assumes "e \<in> set lru" "distinct (map ae_key lru)"
  shows "mset (move_to_front e lru) = mset lru"
  using assms
proof (induction lru)
  case (Cons x lru)
  show ?case
  proof (cases "x = e")
    case True
    then have "ae_key e \<notin> ae_key ` set lru" using Cons.prems(2) by simp
    then have "\<forall>y\<in>set lru. ae_key y \<noteq> ae_key e" by (metis imageI)
    then have "filter (\<lambda>y. ae_key y \<noteq> ae_key e) lru = lru" by (rule filter_True)
    then show ?thesis using True by (simp add: move_to_front_def)
  next
    case False
    then have mem: "e \<in> set lru" using Cons.prems(1) by simp
    then have "ae_key x \<noteq> ae_key e" using Cons.prems(2) by force
    moreover have "mset (move_to_front e lru) = mset lru" using Cons.IH mem Cons.prems(2) by simp
    ultimately show ?thesis by (simp add: move_to_front_def)
  qed
qed simp

lemma cache_ok_touch:
  assumes "cache_ok cache" "map_of (ac_entries cache) key = Some e"
  shows "cache_ok (cache\<lparr>ac_lru := move_to_front e (ac_lru cache)\<rparr>)"
    and "live_closers (cache\<lparr>ac_lru := move_to_front e (ac_lru cache)\<rparr>) = live_closers cache"
proof -
  let ?lru = "move_to_front e (ac_lru cache)"
  have mem: "e \<in> set (ac_lru cache)" and dist: "distinct (map ae_key (ac_lru cache))"
    using assms by (auto simp: cache_ok_def)
  have ms: "mset ?lru = mset (ac_lru cache)" by (rule mset_move_to_front [OF mem dist])
  then have "mset (map ae_key ?lru) = mset (map ae_key (ac_lru cache))" by simp
  then have d: "distinct (map ae_key ?lru)" using dist by (metis distinct_count_atmost_1 set_mset_mset)
  have "set ?lru = set (ac_lru cache)" "length ?lru = length (ac_lru cache)"
    using mset_eq_setD [OF ms] mset_eq_length [OF ms] by simp_all
  moreover have "ac_lru cache \<noteq> []" using mem by auto
  ultimately show "cache_ok (cache\<lparr>ac_lru := ?lru\<rparr>)" using assms(1) d by (simp add: cache_ok_def)
  show "live_closers (cache\<lparr>ac_lru := ?lru\<rparr>) = live_closers cache" using ms by (simp add: live_closers_def)
qed

lemma cache_Get_ok:
  assumes "cache_ok cache"
  shows "cache_ok (snd (cache_Get key cache))" "live_closers (snd (cache_Get key cache)) = live_closers cache"
    "ac_limit (snd (cache_Get key cache)) = ac_limit cache" "ac_closed (snd (cache_Get key cache)) = ac_closed cache"
  using assms cache_ok_touch [OF assms] by (simp_all add: cache_Get_def split: option.split)

lemma cache_ok_push:
  assumes "cache_ok cache" "\<not> ac_closed cache" "map_of (ac_entries cache) key = None" "ae_key e = key"
  shows "distinct (map ae_key (e # ac_lru cache))"
    and "map_of ((key, e) # ac_entries cache) k = Some x \<longleftrightarrow> x \<in> set (e # ac_lru cache) \<and> ae_key x = k"
proof -
  have new: "ae_key x \<noteq> key" if "x \<in> set (ac_lru cache)" for x
    using assms(1,3) that unfolding cache_ok_def by (metis option.distinct(1))
  then have "key \<notin> ae_key ` set (ac_lru cache)" by blast
  then show "distinct (map ae_key (e # ac_lru cache))" using assms(1,4) by (simp add: cache_ok_def)
  show "map_of ((key, e) # ac_entries cache) k = Some x \<longleftrightarrow> x \<in> set (e # ac_lru cache) \<and> ae_key x = k"
    using assms(1,4) new [of x] by (cases "k = key") (auto simp: cache_ok_def)
qed

lemma cache_ok_evict:
  assumes "distinct (map ae_key lru)" "lru \<noteq> []" "\<And>k x. map_of entries k = Some x \<longleftrightarrow> x \<in> set lru \<and> ae_key x = k"
  shows "distinct (map ae_key (butlast lru))"
    and "map_of (filter (\<lambda>p. fst p \<noteq> ae_key (last lru)) entries) k = Some x \<longleftrightarrow> x \<in> set (butlast lru) \<and> ae_key x = k"
proof -
  obtain ys y where lru: "lru = ys @ [y]" using assms(2) by (metis rev_exhaust)
  show "distinct (map ae_key (butlast lru))" using assms(1) by (simp add: lru)
  have "map_of (filter (\<lambda>p. fst p \<noteq> ae_key y) entries) k = (if k = ae_key y then None else map_of entries k)"
    by (induction entries) auto
  moreover have "ae_key y \<notin> ae_key ` set ys" using assms(1) by (simp add: lru)
  then have "x \<in> set ys \<Longrightarrow> ae_key x \<noteq> ae_key y" by (metis imageI)
  moreover have "map_of entries k = Some x \<longleftrightarrow> (x \<in> set ys \<or> x = y) \<and> ae_key x = k"
    unfolding assms(3) lru by auto
  ultimately show "map_of (filter (\<lambda>p. fst p \<noteq> ae_key (last lru)) entries) k = Some x
      \<longleftrightarrow> x \<in> set (butlast lru) \<and> ae_key x = k" unfolding lru butlast_snoc last_snoc by (metis option.distinct(1))
qed

lemma cache_Add_ok:
  assumes "cache_ok cache" "cache_Add key transport c cache = (r, closed, cache')" "1 \<le> ac_limit cache"
  shows "cache_ok cache'" "ac_limit cache' = ac_limit cache"
    "mset closed + live_closers cache' + (if r = None then {#c#} else {#}) = live_closers cache + {#c#}"
proof -
  have "cache_ok cache' \<and> ac_limit cache' = ac_limit cache
    \<and> mset closed + live_closers cache' + (if r = None then {#c#} else {#}) = live_closers cache + {#c#}"
  proof (cases "ac_closed cache")
    case True
    then show ?thesis using assms(1,2) by (auto simp: cache_Add_def)
  next
    case False
    show ?thesis
    proof (cases "map_of (ac_entries cache) key")
      case (Some e)
      then show ?thesis using assms(2) False cache_ok_touch [OF assms(1) Some] by (auto simp: cache_Add_def)
    next
      case None
      define e where "e = \<lparr>ae_key = key, ae_deliverer = transport, ae_closer = c\<rparr>"
      define lru where "lru = e # ac_lru cache"
      note push = cache_ok_push [OF assms(1) False None, of e, folded lru_def]
      have k: "ae_key e = key" "ae_closer e = c" by (simp_all add: e_def)
      show ?thesis
      proof (cases "int (length lru) > ac_limit cache")
        case True
        then have c': "closed = [ae_closer (last lru)]" "r \<noteq> None"
          "cache' = cache\<lparr>ac_entries := filter (\<lambda>p. fst p \<noteq> ae_key (last lru)) ((key, e) # ac_entries cache), ac_lru := butlast lru\<rparr>"
          using assms(2) False None by (auto simp: cache_Add_def Let_def e_def lru_def)
        have ne: "lru \<noteq> []" by (simp add: lru_def)
        note evict = cache_ok_evict [OF push(1) [OF k(1)] ne push(2) [OF k(1)]]
        have "mset lru = mset (butlast lru) + {#last lru#}" using ne by (metis append_butlast_last_id mset_append mset_single_iff_right)
        then have "mset (map ae_closer lru) = mset (map ae_closer (butlast lru)) + {#ae_closer (last lru)#}" by simp
        then have ms: "live_closers cache + {#c#} = mset (map ae_closer (butlast lru)) + {#ae_closer (last lru)#}"
          by (simp add: live_closers_def lru_def k)
        have "int (length (butlast lru)) \<le> ac_limit cache" using assms(1) by (simp add: lru_def cache_ok_def)
        then have "cache_ok cache'" using evict False by (simp add: cache_ok_def c'(3))
        then show ?thesis using ms c' by (simp add: live_closers_def)
      next
        case fits: False
        then have c': "closed = []" "r \<noteq> None" "cache' = cache\<lparr>ac_entries := (key, e) # ac_entries cache, ac_lru := lru\<rparr>"
          using assms(2) False None by (auto simp: cache_Add_def Let_def e_def lru_def)
        then show ?thesis using push [OF k(1)] fits False by (simp add: cache_ok_def live_closers_def k lru_def)
      qed
    qed
  qed
  then show "cache_ok cache'" "ac_limit cache' = ac_limit cache"
    "mset closed + live_closers cache' + (if r = None then {#c#} else {#}) = live_closers cache + {#c#}" by simp_all
qed

lemma cache_Close_ok:
  assumes "cache_ok cache" "cache_Close cache = (closed, cache')" "1 \<le> ac_limit cache"
  shows "cache_ok cache'" "ac_limit cache' = ac_limit cache" "mset closed + live_closers cache' = live_closers cache"
  using assms by (auto simp: cache_Close_def cache_ok_def live_closers_def split: if_splits)

definition authority_inv :: "int \<Rightarrow> authority_system \<Rightarrow> bool" where
  "authority_inv limit s \<longleftrightarrow> cache_ok (cs_cache s) \<and> ac_limit (cs_cache s) = limit
     \<and> mset (cs_pending s) + live_closers (cs_cache s) + mset (cs_closed s) = mset [0..<cs_next s]"

lemma authority_step_inv: "authority_step s s' \<Longrightarrow> 1 \<le> limit \<Longrightarrow> authority_inv limit s \<Longrightarrow> authority_inv limit s'"
proof (induction rule: authority_step.induct)
  case (authority_get s key)
  then show ?case using cache_Get_ok [of "cs_cache s" key] by (simp add: authority_inv_def)
next
  case (authority_create s)
  then show ?case by (simp add: authority_inv_def)
next
  case (authority_add c s key transport r closed cache)
  have ok: "cache_ok (cs_cache s)" "1 \<le> ac_limit (cs_cache s)" using authority_add by (simp_all add: authority_inv_def)
  obtain extra where ex: "extra = (if r = None then [c] else [])" by simp
  note add = cache_Add_ok [OF ok(1) authority_add(2) ok(2)]
  have p: "mset (cs_pending s) = mset (remove1 c (cs_pending s)) + {#c#}" using authority_add(1) by simp
  have "mset (remove1 c (cs_pending s)) + live_closers cache + (mset ((if r = None then [c] else []) @ closed @ cs_closed s))
      = mset (remove1 c (cs_pending s)) + (mset closed + live_closers cache + (if r = None then {#c#} else {#})) + mset (cs_closed s)"
    by simp
  also have "\<dots> = mset (cs_pending s) + live_closers (cs_cache s) + mset (cs_closed s)" unfolding add(3) p by (simp add: ac_simps)
  also have "\<dots> = mset [0..<cs_next s]" using authority_add(4) by (simp add: authority_inv_def)
  finally have "mset (remove1 c (cs_pending s)) + live_closers cache
      + mset ((if r = None then [c] else []) @ closed @ cs_closed s) = mset [0..<cs_next s]" .
  moreover have "ac_limit cache = limit" using authority_add(4) add(2) by (simp add: authority_inv_def)
  ultimately show ?case using add(1) by (simp add: authority_inv_def flip: ex)
next
  case (authority_close s closed cache)
  have ok: "cache_ok (cs_cache s)" "1 \<le> ac_limit (cs_cache s)" using authority_close by (simp_all add: authority_inv_def)
  note close = cache_Close_ok [OF ok(1) authority_close(1) ok(2)]
  have "mset (cs_pending s) + live_closers cache + mset (closed @ cs_closed s)
      = mset (cs_pending s) + (mset closed + live_closers cache) + mset (cs_closed s)" by (simp add: ac_simps)
  also have "\<dots> = mset [0..<cs_next s]" using authority_close(3) by (simp add: authority_inv_def close(3))
  finally show ?case using authority_close(3) close(1,2) by (simp add: authority_inv_def)
qed

lemma authority_steps_inv:
  "authority_step\<^sup>*\<^sup>* s s' \<Longrightarrow> 1 \<le> limit \<Longrightarrow> authority_inv limit s \<Longrightarrow> authority_inv limit s'"
  by (induction rule: rtranclp_induct) (auto intro: authority_step_inv)

lemma authority_start_inv: "1 \<le> limit \<Longrightarrow> authority_inv limit (authority_start limit)"
  by (simp add: authority_inv_def authority_start_def newWebhookAuthorityCache_def cache_ok_def live_closers_def)

end
