(* ===== verification/Webhook_Worker.thy ===== *)
theory Webhook_Worker
  imports Webhook_Delivery Webhook_Cache
begin

text \<open>
  The webhook worker (\<^verbatim>\<open>internal/external/webhook_worker.go\<close>): its configuration, the retry backoff, the
  bounded cache of transports per authority, and the cycle that claims an event, delivers it and settles
  it. What the worker reads from outside (clocks, randomness, the cipher, the network, cancellation of its
  context) is a field of \<open>cycle_env\<close>; durations and instants are in nanoseconds.
\<close>

section \<open>Configuration\<close>

record WebhookWorkerConfig =
  ww_WorkerID :: string
  ww_LeaseDuration :: int
  ww_RequestTimeout :: int
  ww_DialTimeout :: int
  ww_BaseRetryDelay :: int
  ww_MaximumRetryDelay :: int
  ww_MaximumAttempts :: nat
  ww_IdleDelay :: int
  ww_TerminalRetention :: int
  ww_MaximumAuthorities :: int

definition minute :: int where "minute = 60 * second"
definition hour :: int where "hour = 60 * minute"

definition or_default :: "'a::zero \<Rightarrow> 'a \<Rightarrow> 'a" where "or_default d x = (if x = 0 then d else x)"

definition applyWebhookWorkerDefaults :: "WebhookWorkerConfig \<Rightarrow> WebhookWorkerConfig" where
  "applyWebhookWorkerDefaults config = config\<lparr>
     ww_LeaseDuration := or_default minute (ww_LeaseDuration config),
     ww_RequestTimeout := or_default (30 * second) (ww_RequestTimeout config),
     ww_DialTimeout := or_default (5 * second) (ww_DialTimeout config),
     ww_BaseRetryDelay := or_default (5 * second) (ww_BaseRetryDelay config),
     ww_MaximumRetryDelay := or_default (15 * minute) (ww_MaximumRetryDelay config),
     ww_MaximumAttempts := or_default 12 (ww_MaximumAttempts config),
     ww_IdleDelay := or_default second (ww_IdleDelay config),
     ww_TerminalRetention := or_default (30 * 24 * hour) (ww_TerminalRetention config),
     ww_MaximumAuthorities := or_default 64 (ww_MaximumAuthorities config)\<rparr>"

definition newWebhookWorker :: "WebhookWorkerConfig \<Rightarrow> WebhookWorkerConfig option" where
  "newWebhookWorker given =
     (let config = applyWebhookWorkerDefaults given in
      if \<not> validWorkerID (ww_WorkerID config) then None
      else if ww_RequestTimeout config \<le> 0 \<or> ww_LeaseDuration config \<le> ww_RequestTimeout config
        \<or> ww_LeaseDuration config > maximumWebhookRetryAfter \<or> ww_DialTimeout config \<le> 0
        \<or> ww_DialTimeout config > ww_RequestTimeout config then None
      else if ww_BaseRetryDelay config \<le> 0 \<or> ww_MaximumRetryDelay config < ww_BaseRetryDelay config
        \<or> ww_MaximumRetryDelay config > maximumWebhookRetryAfter then None
      else if ww_MaximumAttempts config = 0 \<or> ww_MaximumAttempts config > 100 \<or> ww_IdleDelay config \<le> 0
        \<or> ww_IdleDelay config > minute then None
      else if ww_TerminalRetention config \<le> 0 \<or> ww_TerminalRetention config > 365 * 24 * hour
        \<or> ww_MaximumAuthorities config < 1 \<or> ww_MaximumAuthorities config > 1024 then None
      else Some config)"

section \<open>Backoff\<close>

fun backoff_loop :: "int \<Rightarrow> nat \<Rightarrow> int \<Rightarrow> int" where
  "backoff_loop maximum 0 delay = delay"
| "backoff_loop maximum (Suc remaining) delay =
     (if delay < maximum then
        (if delay > maximum div 2 then maximum else backoff_loop maximum remaining (delay * 2))
      else delay)"

text \<open>\<open>entropy\<close> is the eight bytes read from the random source, \<open>None\<close> when the read fails.\<close>

definition webhookBackoff :: "int \<Rightarrow> int \<Rightarrow> nat \<Rightarrow> int \<Rightarrow> string option \<Rightarrow> int option" where
  "webhookBackoff base maximum attempt retryAfter entropy =
     (if base \<le> 0 \<or> maximum < base \<or> maximum > maximumWebhookRetryAfter \<or> attempt = 0 then None
      else
        let delay = backoff_loop maximum (attempt - 1) base in
        case entropy of
          None \<Rightarrow> None
        | Some bytes \<Rightarrow>
            let high = int (be_value bytes) * delay div 2 ^ 64;
                jittered = delay div 2 + high;
                jittered = (if jittered > maximum then maximum else jittered);
                retryAfter = (if retryAfter < 0 then 0 else retryAfter);
                retryAfter = (if retryAfter > maximum then maximum else retryAfter);
                jittered = (if retryAfter > jittered then retryAfter else jittered) in
            if jittered < 0 then Some 0 else Some jittered)"

lemma backoff_loop_form:
  assumes "0 < delay" "delay \<le> maximum"
  shows "backoff_loop maximum n delay = min maximum (delay * 2 ^ n)"
  using assms
proof (induction n arbitrary: delay)
  case (Suc n)
  show ?case
  proof (cases "delay < maximum")
    case True
    have p: "delay * 2 ^ Suc n \<ge> delay * 2"
    proof -
      have "(1 :: int) \<le> 2 ^ n" by simp
      then show ?thesis using Suc.prems by simp
    qed
    show ?thesis
    proof (cases "delay > maximum div 2")
      case over: True
      then have "maximum < delay * 2" by linarith
      then have "maximum \<le> delay * 2 ^ Suc n" using p by linarith
      then show ?thesis using True over by (simp add: min_absorb1)
    next
      case False
      then have "delay * 2 \<le> maximum" by linarith
      then show ?thesis using True False Suc.IH [of "delay * 2"] Suc.prems by (simp add: mult.assoc)
    qed
  next
    case False
    have "(1 :: int) \<le> 2 ^ Suc n" by (rule one_le_power) simp
    then have "delay * 1 \<le> delay * 2 ^ Suc n" using Suc.prems by (intro mult_left_mono) simp_all
    then show ?thesis using False Suc.prems by simp
  qed
qed simp

lemma backoff_value:
  assumes "0 < base" "base \<le> maximum" "maximum \<le> maximumWebhookRetryAfter" "0 < attempt"
  shows "webhookBackoff base maximum attempt retryAfter (Some bytes) =
    (let delay = min maximum (base * 2 ^ (attempt - 1)) in
     Some (max (min maximum (delay div 2 + int (be_value bytes) * delay div 2 ^ 64)) (min maximum (max 0 retryAfter))))"
proof -
  have b: "backoff_loop maximum (attempt - 1) base = min maximum (base * 2 ^ (attempt - 1))"
    by (rule backoff_loop_form [OF assms(1,2)])
  have guard: "\<not> (base \<le> 0 \<or> maximum < base \<or> maximum > maximumWebhookRetryAfter \<or> attempt = 0)" using assms by simp
  obtain delay where delay: "delay = min maximum (base * 2 ^ (attempt - 1))" by blast
  obtain high where high: "high = int (be_value bytes) * delay div 2 ^ 64" by blast
  have "0 \<le> maximum" using assms by simp
  then show ?thesis
    unfolding webhookBackoff_def if_not_P [OF guard] b Let_def delay [symmetric] option.case high [symmetric]
    by (auto simp: min_def max_def)
qed

lemma backoff_range:
  assumes "webhookBackoff base maximum attempt retryAfter entropy = Some delay" "2 \<le> base"
  shows "0 < delay" "delay \<le> maximumWebhookRetryAfter"
proof -
  have ok: "0 < base" "base \<le> maximum" "maximum \<le> maximumWebhookRetryAfter" "0 < attempt"
    using assms(1) by (auto simp: webhookBackoff_def split: if_splits)
  obtain bytes where e: "entropy = Some bytes" using assms(1) by (cases entropy) (auto simp: webhookBackoff_def Let_def split: if_splits)
  obtain d where d: "d = min maximum (base * 2 ^ (attempt - 1))" by blast
  have "base * 1 \<le> base * 2 ^ (attempt - 1)" using ok(1) by (intro mult_left_mono) simp_all
  then have "2 \<le> base * 2 ^ (attempt - 1)" using assms(2) by linarith
  then have d2: "2 \<le> d" using assms(2) ok(2) unfolding d by (intro min.boundedI) linarith+
  then have h: "0 \<le> int (be_value bytes) * d div 2 ^ 64" by (simp add: pos_imp_zdiv_nonneg_iff)
  obtain j where j: "j = d div 2 + int (be_value bytes) * d div 2 ^ 64" by blast
  have "1 \<le> d div 2" using d2 by simp
  then have "1 \<le> j" using h unfolding j by linarith
  moreover have "delay = max (min maximum j) (min maximum (max 0 retryAfter))"
    using assms(1) unfolding e backoff_value [OF ok] Let_def d [symmetric] j [symmetric] by simp
  ultimately show "0 < delay" "delay \<le> maximumWebhookRetryAfter" using ok by auto
qed

section \<open>Deliverers\<close>

text \<open>\<open>closer\<close> names the closer that the factory would make.\<close>

definition cachedDeliverer ::
  "(string \<Rightarrow> string) \<Rightarrow> WebhookWorkerConfig \<Rightarrow> nat \<Rightarrow> string \<Rightarrow> nat \<Rightarrow> webhookAuthorityCache
     \<Rightarrow> safeCallbackTransport option \<times> nat list \<times> webhookAuthorityCache" where
  "cachedDeliverer casing worker closer host port cache =
     (let key = authority_key casing host port in
      case cache_Get key cache of
        (Some deliverer, cache') \<Rightarrow> (Some deliverer, [], cache')
      | (None, cache') \<Rightarrow>
          (case NewSafeWebhookDeliverer casing host port (ww_RequestTimeout worker) (ww_DialTimeout worker) of
             None \<Rightarrow> (None, [], cache')
           | Some deliverer \<Rightarrow>
               (case cache_Add key deliverer closer cache' of
                  (None, closed, cache'') \<Rightarrow> (None, closed @ [closer], cache'')
                | (Some authoritative, closed, cache'') \<Rightarrow> (Some authoritative, closed, cache''))))"

section \<open>A delivery cycle\<close>

record cycle_env =
  cy_cancelled :: bool
  cy_claim :: "nat \<Rightarrow> webhook_env"
  cy_claim_elapsed :: int
  cy_decrypt :: "string \<Rightarrow> string \<Rightarrow> string \<Rightarrow> string \<times> string \<times> nat \<Rightarrow> string option"
  cy_closer :: nat
  cy_before :: int
  cy_delivery :: delivery_env
  cy_trip :: "safeCallbackTransport \<Rightarrow> webhook_request \<Rightarrow> trip_error + webhook_response option"
  cy_cancelled_after :: bool
  cy_after :: int
  cy_entropy :: "string option"
  cy_settle_now :: int
  cy_round :: "int \<Rightarrow> int"

datatype worker_error = WorkerCancelled | WorkerRepository webhook_error | WorkerEntropy

definition estimatedWebhookDatabaseTime :: "int \<Rightarrow> int \<Rightarrow> int" where
  "estimatedWebhookDatabaseTime databaseClaimTime elapsed = databaseClaimTime + (if elapsed < 0 then 0 else elapsed)"

definition worker_settle ::
  "nat \<Rightarrow> cycle_env \<Rightarrow> WebhookClaim \<Rightarrow> WebhookSettlement \<Rightarrow> db \<Rightarrow> worker_error option \<times> db" where
  "worker_settle m env claim settlement d =
     (case SettleWebhook m (cy_round env) (cy_settle_now env) claim settlement d of
        Inl ErrWebhookLeaseLost \<Rightarrow> (None, d)
      | Inl e \<Rightarrow> (Some (WorkerRepository e), d)
      | Inr d' \<Rightarrow> (None, d'))"

definition permanent_settlement :: "string \<Rightarrow> WebhookSettlement" where
  "permanent_settlement code =
     \<lparr>ws_Disposition = WebhookPermanentFailure, ws_HTTPStatus = 0, ws_ErrorCode = code, ws_RetryAt = zero_time, ws_RetryDelay = 0\<rparr>"

definition claim_delivery :: "WebhookClaim \<Rightarrow> string \<Rightarrow> WebhookDelivery" where
  "claim_delivery claim secret =
     \<lparr>wd_EventID = wb_EventID claim, wd_DestinationURL = wb_DestinationURL claim, wd_Secret = secret,
      wd_Body = payload_body (wb_Body claim)\<rparr>"

text \<open>The delay of a settlement that asks for a retry; \<open>None\<close> when the random source fails.\<close>

definition retry_delay :: "WebhookWorkerConfig \<Rightarrow> cycle_env \<Rightarrow> WebhookClaim \<Rightarrow> WebhookOutcome \<Rightarrow> int option" where
  "retry_delay worker env claim outcome =
     (if wb_AttemptCount claim < ww_MaximumAttempts worker then
        webhookBackoff (ww_BaseRetryDelay worker) (ww_MaximumRetryDelay worker) (wb_AttemptCount claim)
          (wo_RetryAfter outcome) (cy_entropy env)
      else Some (ww_BaseRetryDelay worker div 2))"

definition deliver_claim ::
  "nat \<Rightarrow> WebhookWorkerConfig \<Rightarrow> cycle_env \<Rightarrow> safeCallbackTransport \<Rightarrow> string \<Rightarrow> int \<Rightarrow> WebhookClaim \<Rightarrow> db
     \<Rightarrow> worker_error option \<times> db" where
  "deliver_claim m worker env deliverer secret databaseReceiveTime claim d =
     (let databaseBeforeDelivery = estimatedWebhookDatabaseTime databaseReceiveTime (cy_before env) in
      if wb_LeaseUntil claim - databaseBeforeDelivery \<le> 0 then (None, d)
      else
        let outcome = DeliverOutcome (cy_delivery env) (cy_trip env deliverer) (claim_delivery claim secret)
              (ww_MaximumRetryDelay worker) in
        if cy_cancelled_after env then (Some WorkerCancelled, d)
        else
          let databaseNow = estimatedWebhookDatabaseTime databaseReceiveTime (cy_after env) in
          if \<not> wb_LeaseUntil claim > databaseNow then (None, d)
          else if wo_Disposition outcome = WebhookRetry then
            (case retry_delay worker env claim outcome of
               None \<Rightarrow> (Some WorkerEntropy, d)
             | Some delay \<Rightarrow> worker_settle m env claim (settlement_of outcome delay) d)
          else worker_settle m env claim (settlement_of outcome 0) d)"

definition process_claim ::
  "nat \<Rightarrow> WebhookWorkerConfig \<Rightarrow> cycle_env \<Rightarrow> WebhookClaim \<Rightarrow> db \<Rightarrow> webhookAuthorityCache
     \<Rightarrow> worker_error option \<times> db \<times> nat list \<times> webhookAuthorityCache" where
  "process_claim m worker env claim d cache =
     (let databaseClaimTime = wb_LeaseUntil claim - ww_LeaseDuration worker;
          databaseReceiveTime = databaseClaimTime + (if cy_claim_elapsed env < 0 then 0 else cy_claim_elapsed env);
          ended = (\<lambda>(e, d'). (e, d', [], cache)) in
      if \<not> wb_LeaseUntil claim > databaseClaimTime then (None, d, [], cache)
      else if \<not> wb_ExpiresAt claim > databaseClaimTime then
        ended (worker_settle m env claim (permanent_settlement WebhookErrorDeliveryExpired) d)
      else if validateCallbackDestination (de_parse (cy_delivery env)) (de_casing (cy_delivery env))
          (wb_DestinationURL claim) (wb_AllowedHost claim) (wb_AllowedPort claim) = None then
        ended (worker_settle m env claim (permanent_settlement WebhookErrorUnsafeDestination) d)
      else case cy_decrypt env (wb_TenantID claim) (wb_CallbackID claim) (wb_DestinationURL claim)
          (wb_Ciphertext claim, wb_Nonce claim, wb_KeyVersion claim) of
        None \<Rightarrow> ended (worker_settle m env claim (permanent_settlement WebhookErrorCallbackDecrypt) d)
      | Some secret \<Rightarrow>
          (case cachedDeliverer (de_casing (cy_delivery env)) worker (cy_closer env) (wb_AllowedHost claim) (wb_AllowedPort claim) cache of
             (None, closed, cache') \<Rightarrow>
               (case worker_settle m env claim (permanent_settlement WebhookErrorConfiguration) d of
                  (e, d') \<Rightarrow> (e, d', closed, cache'))
           | (Some deliverer, closed, cache') \<Rightarrow>
               (case deliver_claim m worker env deliverer secret databaseReceiveTime claim d of
                  (e, d') \<Rightarrow> (e, d', closed, cache'))))"

definition processNext ::
  "nat \<Rightarrow> WebhookWorkerConfig \<Rightarrow> cycle_env \<Rightarrow> db \<Rightarrow> webhookAuthorityCache
     \<Rightarrow> worker_error option \<times> db \<times> nat list \<times> webhookAuthorityCache" where
  "processNext m worker env d cache =
     (if cy_cancelled env then (Some WorkerCancelled, d, [], cache)
      else case ClaimNextWebhook m (cy_claim env) (ww_WorkerID worker) (ww_LeaseDuration worker) d of
        (Inl e, d') \<Rightarrow> (Some (WorkerRepository e), d', [], cache)
      | (Inr claim, d') \<Rightarrow> process_claim m worker env claim d' cache)"

section \<open>The worker loop\<close>

definition webhookRetentionSweepBatch :: int where "webhookRetentionSweepBatch = 100"
definition webhookRetentionSweepBudget :: nat where "webhookRetentionSweepBudget = 100"
definition webhookRetentionSweepInterval :: int where "webhookRetentionSweepInterval = hour"

text \<open>\<open>env n\<close> gives, for the batch with \<open>n\<close> batches left after it, whether the context is cancelled, the rows
  other transactions hold and the database clock.\<close>

fun sweep_batches ::
  "(nat \<Rightarrow> bool \<times> (nat \<Rightarrow> bool) \<times> int) \<Rightarrow> WebhookWorkerConfig \<Rightarrow> nat \<Rightarrow> db \<Rightarrow> (worker_error + bool) \<times> db" where
  "sweep_batches env worker 0 d = (Inr False, d)"
| "sweep_batches env worker (Suc n) d =
     (case env n of (cancelled, locked, now) \<Rightarrow>
        if cancelled then (Inl WorkerCancelled, d)
        else case SweepTerminal locked now (ww_TerminalRetention worker) webhookRetentionSweepBatch d of
          Inl e \<Rightarrow> (Inl (WorkerRepository e), d)
        | Inr (deleted, d') \<Rightarrow>
            if deleted < webhookRetentionSweepBatch then (Inr True, d') else sweep_batches env worker n d')"

definition sweepTerminal ::
  "(nat \<Rightarrow> bool \<times> (nat \<Rightarrow> bool) \<times> int) \<Rightarrow> WebhookWorkerConfig \<Rightarrow> db \<Rightarrow> (worker_error + bool) \<times> db" where
  "sweepTerminal env worker d = sweep_batches env worker webhookRetentionSweepBudget d"

text \<open>
  One turn of \<open>Run\<close>: \<open>Inr (nextSweep, waits)\<close> goes on, after the idle delay when \<open>waits\<close>; \<open>Inl\<close> ends the
  worker. \<open>transient\<close> is \<^verbatim>\<open>IsTransientDatabaseError\<close>; cancellation during the idle delay ends the next turn.
\<close>

definition run_turn ::
  "(worker_error \<Rightarrow> bool) \<Rightarrow> nat \<Rightarrow> WebhookWorkerConfig \<Rightarrow> int \<Rightarrow> (nat \<Rightarrow> bool \<times> (nat \<Rightarrow> bool) \<times> int) \<Rightarrow> cycle_env \<Rightarrow> int
     \<Rightarrow> db \<times> webhookAuthorityCache \<Rightarrow> (worker_error + int \<times> bool) \<times> nat list \<times> db \<times> webhookAuthorityCache" where
  "run_turn transient m worker now sweeps env nextSweep s =
     (let (d, cache) = s;
          (swept, d1) = (if \<not> now < nextSweep then sweepTerminal sweeps worker d else (Inr False, d)) in
      case swept of
        Inl e \<Rightarrow> ((if transient e then Inr (nextSweep, True) else Inl e), [], d1, cache)
      | Inr drained \<Rightarrow>
          let nextSweep' = (if now < nextSweep then nextSweep
                else if drained then now + webhookRetentionSweepInterval else now + ww_IdleDelay worker) in
          (case processNext m worker env d1 cache of
             (None, d2, closed, cache') \<Rightarrow> (Inr (nextSweep', False), closed, d2, cache')
           | (Some e, d2, closed, cache') \<Rightarrow>
               ((if e = WorkerRepository ErrWebhookNotAvailable \<or> transient e then Inr (nextSweep', True) else Inl e),
                closed, d2, cache')))"

section \<open>A cycle is a sequence of outbox transactions\<close>

lemma claim_rounds_delivery:
  "claim_webhook_rounds m n env w l d = (r, d') \<Longrightarrow> (delivery_step m)\<^sup>*\<^sup>* d d'"
proof (induction n arbitrary: d)
  case (Suc n)
  show ?case
  proof (cases "claimWebhook m (env n) w l d")
    case (Inr p)
    obtain c d1 where p: "p = (c, d1)" by (cases p)
    have step: "delivery_step m d d1" by (rule delivery_claim) (use Inr p in simp)
    show ?thesis
    proof (cases c)
      case None
      then have "claim_webhook_rounds m n env w l d1 = (r, d')" using Suc.prems Inr p by simp
      then show ?thesis using Suc.IH step by (meson converse_rtranclp_into_rtranclp)
    next
      case (Some claim)
      then have "d' = d1" using Suc.prems Inr p by simp
      then show ?thesis using step by blast
    qed
  qed (use Suc.prems in simp)
qed simp

lemma ClaimNext_delivery: "ClaimNextWebhook m env w l d = (r, d') \<Longrightarrow> (delivery_step m)\<^sup>*\<^sup>* d d'"
  by (auto simp: ClaimNextWebhook_def split: if_splits dest: claim_rounds_delivery)

lemma worker_settle_cases:
  assumes "worker_settle m env claim s d = (e, d')"
  shows "d' = d \<and> e \<noteq> Some (WorkerRepository ErrWebhookLeaseLost)
    \<or> e = None \<and> SettleWebhook m (cy_round env) (cy_settle_now env) claim s d = Inr d'"
  using assms by (auto simp: worker_settle_def split: sum.splits webhook_error.splits)

lemma worker_settle_delivery: "worker_settle m env claim s d = (e, d') \<Longrightarrow> (delivery_step m)\<^sup>*\<^sup>* d d'"
  using worker_settle_cases [of m env claim s d e d'] by (auto dest: delivery_settle)

definition idle_error :: "worker_error option \<Rightarrow> bool" where
  "idle_error e \<longleftrightarrow> e = None \<or> e = Some WorkerCancelled \<or> e = Some WorkerEntropy"

definition delivery_settles ::
  "nat \<Rightarrow> WebhookWorkerConfig \<Rightarrow> cycle_env \<Rightarrow> safeCallbackTransport \<Rightarrow> string \<Rightarrow> WebhookClaim \<Rightarrow> db \<Rightarrow> worker_error option \<Rightarrow> db \<Rightarrow> bool" where
  "delivery_settles m worker env deliverer secret claim d e d' \<longleftrightarrow>
     (\<exists>outcome delay. outcome = DeliverOutcome (cy_delivery env) (cy_trip env deliverer) (claim_delivery claim secret) (ww_MaximumRetryDelay worker)
        \<and> (wo_Disposition outcome = WebhookRetry \<longrightarrow> retry_delay worker env claim outcome = Some delay)
        \<and> worker_settle m env claim (settlement_of outcome delay) d = (e, d'))"

text \<open>Every way a claimed event can end: with one settlement, or without touching the store.\<close>

lemma deliver_claim_settles:
  assumes "deliver_claim m worker env deliverer secret t claim d = (e, d')"
  shows "d' = d \<and> idle_error e \<or> delivery_settles m worker env deliverer secret claim d e d'"
proof -
  let ?o = "DeliverOutcome (cy_delivery env) (cy_trip env deliverer) (claim_delivery claim secret) (ww_MaximumRetryDelay worker)"
  show ?thesis
  proof (cases "wo_Disposition ?o = WebhookRetry")
    case True
    then show ?thesis
      using assms unfolding deliver_claim_def Let_def delivery_settles_def idle_error_def
      by (auto split: if_splits option.splits)
  next
    case False
    then show ?thesis
      using assms unfolding deliver_claim_def Let_def delivery_settles_def idle_error_def
      by (auto split: if_splits)
  qed
qed

definition refusal_codes :: "string set" where
  "refusal_codes = {WebhookErrorDeliveryExpired, WebhookErrorUnsafeDestination, WebhookErrorCallbackDecrypt, WebhookErrorConfiguration}"

lemma process_claim_settles:
  assumes "process_claim m worker env claim d cache = (e, d', closed, cache')"
  shows "d' = d \<and> idle_error e
    \<or> (\<exists>code \<in> refusal_codes. worker_settle m env claim (permanent_settlement code) d = (e, d'))
    \<or> (\<exists>secret deliverer. cy_decrypt env (wb_TenantID claim) (wb_CallbackID claim) (wb_DestinationURL claim)
          (wb_Ciphertext claim, wb_Nonce claim, wb_KeyVersion claim) = Some secret
        \<and> delivery_settles m worker env deliverer secret claim d e d')"
  using assms unfolding process_claim_def Let_def
  by (auto simp: idle_error_def refusal_codes_def split: if_splits option.splits prod.splits dest!: deliver_claim_settles)

lemma delivery_settles_steps: "delivery_settles m worker env deliverer secret claim d e d' \<Longrightarrow> (delivery_step m)\<^sup>*\<^sup>* d d'"
  unfolding delivery_settles_def by (blast dest: worker_settle_delivery)

lemma processNext_delivery:
  assumes "processNext m worker env d cache = (e, d', closed, cache')"
  shows "(delivery_step m)\<^sup>*\<^sup>* d d'"
proof (cases "cy_cancelled env")
  case False
  obtain r d1 where r: "ClaimNextWebhook m (cy_claim env) (ww_WorkerID worker) (ww_LeaseDuration worker) d = (r, d1)"
    by (cases "ClaimNextWebhook m (cy_claim env) (ww_WorkerID worker) (ww_LeaseDuration worker) d")
  note claim = ClaimNext_delivery [OF r]
  show ?thesis
  proof (cases r)
    case (Inr c)
    then have "process_claim m worker env c d1 cache = (e, d', closed, cache')" using assms False r by (simp add: processNext_def)
    from process_claim_settles [OF this] have "(delivery_step m)\<^sup>*\<^sup>* d1 d'"
      using worker_settle_delivery delivery_settles_steps by blast
    then show ?thesis using claim by simp
  qed (use assms False r claim in \<open>simp add: processNext_def\<close>)
qed (use assms in \<open>simp add: processNext_def\<close>)

section \<open>Delivered means acknowledged\<close>

definition claim_of_row :: "WebhookClaim \<Rightarrow> outbox_row \<Rightarrow> bool" where
  "claim_of_row claim o' \<longleftrightarrow> ob_id o' = wb_OutboxID claim \<and> ob_event_id o' = wb_EventID claim \<and> ob_payload o' = wb_Body claim"

definition no_new_delivery :: "db \<Rightarrow> db \<Rightarrow> bool" where
  "no_new_delivery d d' \<longleftrightarrow> (\<forall>o' \<in> set (outbox d'). ob_status o' = OutboxDelivered \<longrightarrow> o' \<in> set (outbox d))
     \<and> ob_id ` set (outbox d') \<subseteq> ob_id ` set (outbox d)"

lemma no_new_update:
  assumes "\<And>o'. ob_status (f o') \<noteq> OutboxDelivered \<and> ob_id (f o') = ob_id o'"
  shows "no_new_delivery d (update_outbox i f d)"
  using assms by (auto simp: no_new_delivery_def update_outbox_def sql_update_def)

lemma no_new_trans: "no_new_delivery d1 d2 \<Longrightarrow> no_new_delivery d2 d3 \<Longrightarrow> no_new_delivery d1 d3"
  unfolding no_new_delivery_def using order_trans by blast

lemma claimWebhook_effect:
  assumes "claimWebhook m env w l d = Inr (c, d')"
  shows "no_new_delivery d d'"
    and "c = Some claim \<Longrightarrow> (\<exists>o' \<in> set (outbox d'). claim_of_row claim o') \<and> wb_WorkerID claim = w
      \<and> we_token env = Some (wb_LeaseToken claim) \<and> 0 < wb_AttemptCount claim"
proof -
  from assms obtain o' where o: "select_webhook env d = Some o'" by (auto simp: claimWebhook_def split: option.splits)
  have mem: "o' \<in> set (outbox d)" using select_webhook_due [OF o] by simp
  have dead: "no_new_delivery d (update_outbox (ob_id o') (\<lambda>r. dead_row (ob_last_http_status r) code now r) d)" for code now
    by (rule no_new_update) (simp add: dead_row_def clear_delivery_def)
  have leased: "no_new_delivery d (update_outbox (ob_id o') (leased_row w token until) d)" for token until
    by (rule no_new_update) (simp add: leased_row_def)
  show "no_new_delivery d d'"
    using assms dead leased by (auto simp: claimWebhook_def o Let_def split: if_splits option.splits)
  assume c: "c = Some claim"
  from assms c obtain token where t: "we_token env = Some token"
    and claim: "wb_OutboxID claim = ob_id o'" "wb_EventID claim = ob_event_id o'" "wb_Body claim = ob_payload o'" "wb_WorkerID claim = w"
      "wb_LeaseToken claim = token" "0 < wb_AttemptCount claim"
    and d': "d' = update_outbox (ob_id o') (leased_row w token (we_round env (millis_ns (we_lease_now env) + l))) d"
    by (auto simp: claimWebhook_def o Let_def split: if_splits option.splits)
  let ?r = "leased_row w token (we_round env (millis_ns (we_lease_now env) + l)) o'"
  have "?r \<in> set (outbox d')" unfolding d' update_outbox_def using mem by (auto simp: sql_update_def)
  moreover have "claim_of_row claim ?r" using claim by (simp add: claim_of_row_def leased_row_def)
  ultimately show "(\<exists>o' \<in> set (outbox d'). claim_of_row claim o') \<and> wb_WorkerID claim = w
      \<and> we_token env = Some (wb_LeaseToken claim) \<and> 0 < wb_AttemptCount claim"
    using claim t by blast
qed

lemma claim_rounds_effect:
  assumes "claim_webhook_rounds m n env w l d = (r, d')"
  shows "no_new_delivery d d'"
    and "r = Inr claim \<Longrightarrow> (\<exists>o' \<in> set (outbox d'). claim_of_row claim o') \<and> wb_WorkerID claim = w
      \<and> (\<exists>k. we_token (env k) = Some (wb_LeaseToken claim)) \<and> 0 < wb_AttemptCount claim"
  using assms
proof (induction n arbitrary: d)
  case 0
  { case 1 then show ?case by (simp add: no_new_delivery_def) next case 2 then show ?case by simp }
next
  case (Suc n)
  { case 1
    show ?case
    proof (cases "claimWebhook m (env n) w l d")
      case (Inr p)
      obtain c d1 where p: "p = (c, d1)" by (cases p)
      note one = claimWebhook_effect(1) [OF Inr [unfolded p]]
      show ?thesis
      proof (cases c)
        case None
        then have "no_new_delivery d1 d'" using Suc.IH(1) [of d1] 1 Inr p by simp
        then show ?thesis using one no_new_trans by blast
      qed (use one 1 Inr p in simp)
    qed (use 1 in \<open>simp add: no_new_delivery_def\<close>)
  next
    case 2
    show ?case
    proof (cases "claimWebhook m (env n) w l d")
      case (Inr p)
      obtain c d1 where p: "p = (c, d1)" by (cases p)
      show ?thesis
      proof (cases c)
        case None
        then show ?thesis using Suc.IH(2) [of d1] 2 Inr p by simp
      next
        case (Some k)
        then have "k = claim" "d' = d1" using 2 Inr p by simp_all
        then show ?thesis using claimWebhook_effect(2) [OF Inr [unfolded p] Some] by blast
      qed
    qed (use 2 in simp)
  }
qed

lemma claim_rounds_error:
  "claim_webhook_rounds m n env w l d = (Inl err, d') \<Longrightarrow> err \<noteq> ErrWebhookSettlementInvalid"
proof (induction n arbitrary: d)
  case (Suc n)
  show ?case
  proof (cases "claimWebhook m (env n) w l d")
    case (Inl x)
    then have "x \<noteq> ErrWebhookSettlementInvalid"
      by (auto simp: claimWebhook_def Let_def split: option.splits if_splits)
    then show ?thesis using Suc.prems Inl by simp
  next
    case (Inr p)
    obtain c d1 where p: "p = (c, d1)" by (cases p)
    then show ?thesis using Suc.prems Suc.IH [of d1] Inr by (cases c) simp_all
  qed
qed simp

lemma ClaimNext_claim:
  assumes "ClaimNextWebhook m env w l d = (Inr claim, d')"
  shows "\<exists>o' \<in> set (outbox d'). claim_of_row claim o'" "wb_WorkerID claim = w" "validWorkerID w"
    "\<exists>k. we_token (env k) = Some (wb_LeaseToken claim)" "0 < wb_AttemptCount claim"
proof -
  have v: "validWorkerID w" and r: "claim_webhook_rounds m maintenanceBudget env w l d = (Inr claim, d')"
    using assms by (auto simp: ClaimNextWebhook_def split: if_splits)
  from claim_rounds_effect(2) [OF r refl] v
  show "\<exists>o' \<in> set (outbox d'). claim_of_row claim o'" "wb_WorkerID claim = w" "validWorkerID w"
    "\<exists>k. we_token (env k) = Some (wb_LeaseToken claim)" "0 < wb_AttemptCount claim" by simp_all
qed

lemma settle_effect:
  assumes "SettleWebhook m rnd now claim s d = Inr d'" "distinct (map ob_id (outbox d))"
    and "r \<in> set (outbox d)" "claim_of_row claim r" "o' \<in> set (outbox d')" "ob_status o' = OutboxDelivered" "o' \<notin> set (outbox d)"
  shows "ws_Disposition s = WebhookDelivered \<and> claim_of_row claim o'"
proof -
  have upd: "o' = f r" if "d' = update_outbox (wb_OutboxID claim) f d" for f
  proof -
    have "o' \<in> set (sql_update (\<lambda>x. ob_id x = wb_OutboxID claim) f (outbox d))" using assms(5) that by (simp add: update_outbox_def)
    then obtain x where x: "x \<in> set (outbox d)" "o' = (if ob_id x = wb_OutboxID claim then f x else x)" by (rule mem_sql_updateE)
    then have i: "ob_id x = wb_OutboxID claim" using assms(7) by (auto split: if_splits)
    then have "x = r" using distinct_key_unique [OF assms(2) x(1) assms(3)] assms(4) by (simp add: claim_of_row_def)
    then show ?thesis using x(2) i by simp
  qed
  show ?thesis
  proof (cases "ws_Disposition s")
    case WebhookDelivered
    then have "\<exists>http. d' = update_outbox (wb_OutboxID claim) (delivered_row http now) d"
      using assms(1) by (auto simp: SettleWebhook_def Let_def split: if_splits option.splits)
    then obtain http where "o' = delivered_row http now r" using upd by blast
    then show ?thesis using WebhookDelivered assms(4) by (simp add: claim_of_row_def delivered_row_def clear_delivery_def)
  next
    case WebhookPermanentFailure
    then have "\<exists>http. d' = update_outbox (wb_OutboxID claim) (dead_row http (ws_ErrorCode s) now) d"
      using assms(1) by (auto simp: SettleWebhook_def Let_def split: if_splits option.splits)
    then show ?thesis using upd assms(6) by (auto simp: dead_row_def clear_delivery_def)
  next
    case WebhookRetry
    then have "\<exists>http code t. d' = update_outbox (wb_OutboxID claim) (dead_row http code now) d
        \<or> d' = update_outbox (wb_OutboxID claim) (retry_row http code t) d"
      using assms(1) by (auto simp: SettleWebhook_def settled_retry_def Let_def split: if_splits option.splits)
    then show ?thesis using upd assms(6) by (auto simp: dead_row_def retry_row_def clear_delivery_def)
  next
    case (OtherDisposition x)
    then show ?thesis using assms(1) by (auto simp: SettleWebhook_def validWebhookSettlement_def Let_def split: if_splits)
  qed
qed

lemma process_claim_acknowledged:
  assumes "process_claim m worker env claim d cache = (e, d', closed, cache')" "distinct (map ob_id (outbox d))"
    and "r \<in> set (outbox d)" "claim_of_row claim r" "o' \<in> set (outbox d')" "ob_status o' = OutboxDelivered" "o' \<notin> set (outbox d)"
  shows "claim_of_row claim o'"
    and "\<exists>secret deliverer. cy_decrypt env (wb_TenantID claim) (wb_CallbackID claim) (wb_DestinationURL claim)
        (wb_Ciphertext claim, wb_Nonce claim, wb_KeyVersion claim) = Some secret
      \<and> wo_Disposition (DeliverOutcome (cy_delivery env) (cy_trip env deliverer) (claim_delivery claim secret)
          (ww_MaximumRetryDelay worker)) = WebhookDelivered"
proof -
  have settled: "ws_Disposition s = WebhookDelivered \<and> claim_of_row claim o'" if "worker_settle m env claim s d = (e, d')" for s
    using worker_settle_cases [OF that] settle_effect [OF _ assms(2-7)] assms(5,7) by blast
  have not_permanent: False if "worker_settle m env claim (permanent_settlement code) d = (e, d')" for code
    using settled [OF that] by (simp add: permanent_settlement_def)
  have "d' \<noteq> d" using assms(5,7) by blast
  then obtain secret deliverer outcome delay
    where dec: "cy_decrypt env (wb_TenantID claim) (wb_CallbackID claim) (wb_DestinationURL claim)
        (wb_Ciphertext claim, wb_Nonce claim, wb_KeyVersion claim) = Some secret"
      and out: "outcome = DeliverOutcome (cy_delivery env) (cy_trip env deliverer) (claim_delivery claim secret) (ww_MaximumRetryDelay worker)"
      and ws: "worker_settle m env claim (settlement_of outcome delay) d = (e, d')"
    using process_claim_settles [OF assms(1)] not_permanent unfolding delivery_settles_def by blast
  show "claim_of_row claim o'" using settled [OF ws] by blast
  have "wo_Disposition outcome = WebhookDelivered" using settled [OF ws] by (simp add: settlement_of_def)
  then show "\<exists>secret deliverer. cy_decrypt env (wb_TenantID claim) (wb_CallbackID claim) (wb_DestinationURL claim)
        (wb_Ciphertext claim, wb_Nonce claim, wb_KeyVersion claim) = Some secret
      \<and> wo_Disposition (DeliverOutcome (cy_delivery env) (cy_trip env deliverer) (claim_delivery claim secret)
          (ww_MaximumRetryDelay worker)) = WebhookDelivered"
    using dec out by blast
qed

lemma processNext_acknowledged:
  assumes "delivery_inv m d" and run: "processNext m worker env d cache = (e, d', closed, cache')"
    and o: "o' \<in> set (outbox d')" "ob_status o' = OutboxDelivered" "o' \<notin> set (outbox d)"
  obtains delivery deliverer response where "wd_EventID delivery = ob_event_id o'" "wd_Body delivery = payload_body (ob_payload o')"
    "validateWebhookDelivery (de_parse (cy_delivery env)) (de_casing (cy_delivery env)) delivery"
    "cy_trip env deliverer (webhook_request_of (cy_delivery env) delivery) = Inr (Some response)"
    "200 \<le> rs_StatusCode response" "rs_StatusCode response \<le> 299"
proof -
  obtain r d1 where r: "ClaimNextWebhook m (cy_claim env) (ww_WorkerID worker) (ww_LeaseDuration worker) d = (r, d1)"
    by (cases "ClaimNextWebhook m (cy_claim env) (ww_WorkerID worker) (ww_LeaseDuration worker) d")
  have nc: "\<not> cy_cancelled env" using run o by (auto simp: processNext_def split: if_splits)
  have fresh: "no_new_delivery d d1"
    using r claim_rounds_effect(1) by (auto simp: ClaimNextWebhook_def no_new_delivery_def split: if_splits)
  then have o1: "o' \<notin> set (outbox d1)" using o by (auto simp: no_new_delivery_def)
  obtain claim where c: "r = Inr claim" and p: "process_claim m worker env claim d1 cache = (e, d', closed, cache')"
    using run nc r o(1) o1 by (cases r) (auto simp: processNext_def)
  from r c obtain x where x: "x \<in> set (outbox d1)" "claim_of_row claim x"
    using ClaimNext_claim(1) by blast
  have "delivery_inv m d1" by (rule webhook_row.inv_steps [OF ClaimNext_delivery [OF r] assms(1)])
  then have dist: "distinct (map ob_id (outbox d1))" by (simp add: delivery_inv_def outbox_ok_def)
  note ack = process_claim_acknowledged [OF p dist x o(1,2) o1]
  from ack(2) obtain secret deliverer where del: "wo_Disposition (DeliverOutcome (cy_delivery env) (cy_trip env deliverer)
      (claim_delivery claim secret) (ww_MaximumRetryDelay worker)) = WebhookDelivered" by blast
  from outcome_delivered(2) [OF del] obtain response where
    "cy_trip env deliverer (webhook_request_of (cy_delivery env) (claim_delivery claim secret)) = Inr (Some response)"
    "200 \<le> rs_StatusCode response" "rs_StatusCode response \<le> 299" by blast
  then show ?thesis
    by (intro that [of "claim_delivery claim secret"])
      (use ack(1) outcome_delivered(1) [OF del] in \<open>simp_all add: claim_delivery_def claim_of_row_def\<close>)
qed

section \<open>No settlement is refused as invalid\<close>

lemma permanent_settlement_valid: "code \<in> refusal_codes \<Longrightarrow> validWebhookSettlement (permanent_settlement code)"
  using permanent_settles [of code 0]
  by (auto simp: refusal_codes_def permanent_settlement_def settlement_of_def permanentWebhookOutcome_def)

lemma settlement_of_cong: "wo_Disposition outcome \<noteq> WebhookRetry \<Longrightarrow> settlement_of outcome x = settlement_of outcome y"
  by (simp add: settlement_of_def)

lemma retry_delay_range:
  assumes "newWebhookWorker given = Some worker" "2 \<le> ww_BaseRetryDelay worker" "retry_delay worker env claim outcome = Some delay"
  shows "0 < delay" "delay \<le> maximumWebhookRetryAfter"
proof -
  have b: "ww_BaseRetryDelay worker \<le> maximumWebhookRetryAfter"
    using assms(1) by (auto simp: newWebhookWorker_def Let_def split: if_splits)
  have "0 < delay \<and> delay \<le> maximumWebhookRetryAfter"
  proof (cases "wb_AttemptCount claim < ww_MaximumAttempts worker")
    case True
    then show ?thesis using assms(2,3) backoff_range by (auto simp: retry_delay_def)
  next
    case False
    then have "delay = ww_BaseRetryDelay worker div 2" using assms(3) by (simp add: retry_delay_def)
    then show ?thesis using b assms(2) by auto
  qed
  then show "0 < delay" "delay \<le> maximumWebhookRetryAfter" by simp_all
qed

lemma valid_settle_not_refused:
  assumes "validWebhookClaim claim" "validWebhookSettlement s" "ws_Disposition s = WebhookRetry \<longrightarrow> 0 < ws_RetryDelay s"
  shows "SettleWebhook m rnd now claim s d \<noteq> Inl ErrWebhookSettlementInvalid"
  using assms
  by (auto simp: SettleWebhook_def settled_retry_def Let_def split: if_splits option.splits WebhookDisposition.splits)

lemma worker_settle_not_refused:
  assumes "worker_settle m env claim s d = (e, d')"
    and "validWebhookClaim claim" "validWebhookSettlement s" "ws_Disposition s = WebhookRetry \<longrightarrow> 0 < ws_RetryDelay s"
  shows "e \<noteq> Some (WorkerRepository ErrWebhookSettlementInvalid)"
  using assms(1) valid_settle_not_refused [OF assms(2-4), of m "cy_round env" "cy_settle_now env" d]
  by (auto simp: worker_settle_def split: sum.splits webhook_error.splits)

lemma delivery_settles_not_refused:
  assumes "delivery_settles m worker env deliverer secret claim d e d'" "validWebhookClaim claim"
    and cfg: "newWebhookWorker given = Some worker" "2 \<le> ww_BaseRetryDelay worker"
  shows "e \<noteq> Some (WorkerRepository ErrWebhookSettlementInvalid)"
proof -
  from assms(1) obtain outcome delay
    where out: "outcome = DeliverOutcome (cy_delivery env) (cy_trip env deliverer) (claim_delivery claim secret) (ww_MaximumRetryDelay worker)"
      and ws: "worker_settle m env claim (settlement_of outcome delay) d = (e, d')"
      and rd: "wo_Disposition outcome = WebhookRetry \<longrightarrow> retry_delay worker env claim outcome = Some delay"
    unfolding delivery_settles_def by blast
  obtain x where x: "0 < x" "x \<le> maximumWebhookRetryAfter" "settlement_of outcome delay = settlement_of outcome x"
  proof (cases "wo_Disposition outcome = WebhookRetry")
    case True
    then show ?thesis using retry_delay_range [OF cfg] rd by (intro that [of delay]) blast+
  next
    case False
    then show ?thesis by (intro that [of 1]) (simp_all add: settlement_of_cong maximumWebhookRetryAfter_def)
  qed
  show ?thesis
    by (rule worker_settle_not_refused [OF ws [unfolded x(3)] assms(2)])
      (use x(1) outcome_settles [OF x(1,2)] out in \<open>simp_all add: settlement_of_def\<close>)
qed

lemma process_claim_not_refused:
  assumes "process_claim m worker env claim d cache = (e, d', closed, cache')" "validWebhookClaim claim"
    and "newWebhookWorker given = Some worker" "2 \<le> ww_BaseRetryDelay worker"
  shows "e \<noteq> Some (WorkerRepository ErrWebhookSettlementInvalid)"
proof -
  have "e \<noteq> Some (WorkerRepository ErrWebhookSettlementInvalid)"
    if "code \<in> refusal_codes" "worker_settle m env claim (permanent_settlement code) d = (e, d')" for code
    by (rule worker_settle_not_refused [OF that(2) assms(2) permanent_settlement_valid [OF that(1)]])
      (simp add: permanent_settlement_def)
  moreover have "e \<noteq> Some (WorkerRepository ErrWebhookSettlementInvalid)" if "idle_error e"
    using that by (auto simp: idle_error_def)
  ultimately show ?thesis
    using process_claim_settles [OF assms(1)] delivery_settles_not_refused [OF _ assms(2-4)] by blast
qed

lemma processNext_not_refused:
  assumes run: "processNext m worker env d cache = (e, d', closed, cache')"
    and cfg: "newWebhookWorker given = Some worker" "2 \<le> ww_BaseRetryDelay worker"
    and ids: "\<forall>o' \<in> set (outbox d). 0 < ob_id o'"
    and tokens: "\<forall>n token. we_token (cy_claim env n) = Some token \<longrightarrow> length token = 32"
  shows "e \<noteq> Some (WorkerRepository ErrWebhookSettlementInvalid)"
proof (cases "cy_cancelled env")
  case False
  have lease: "0 < ww_LeaseDuration worker" "ww_LeaseDuration worker \<le> maximumWebhookRetryAfter" "validWorkerID (ww_WorkerID worker)"
    using cfg(1) by (auto simp: newWebhookWorker_def Let_def split: if_splits)
  obtain r d1 where r: "claim_webhook_rounds m maintenanceBudget (cy_claim env) (ww_WorkerID worker) (ww_LeaseDuration worker) d = (r, d1)"
    by (cases "claim_webhook_rounds m maintenanceBudget (cy_claim env) (ww_WorkerID worker) (ww_LeaseDuration worker) d")
  have c: "ClaimNextWebhook m (cy_claim env) (ww_WorkerID worker) (ww_LeaseDuration worker) d = (r, d1)"
    using lease r by (simp add: ClaimNextWebhook_def)
  show ?thesis
  proof (cases r)
    case (Inl err)
    have "err \<noteq> ErrWebhookSettlementInvalid" using claim_rounds_error r Inl by blast
    then show ?thesis using run False c Inl by (auto simp: processNext_def)
  next
    case (Inr claim)
    note k = ClaimNext_claim [OF c [unfolded Inr]]
    have "0 < wb_OutboxID claim"
      using k(1) ids claim_rounds_effect(1) [OF r] by (force simp: claim_of_row_def no_new_delivery_def)
    moreover have "length (wb_LeaseToken claim) = 32" using k(4) tokens by blast
    ultimately have "validWebhookClaim claim" using k(2,3,5) by (simp add: validWebhookClaim_def)
    moreover have "process_claim m worker env claim d1 cache = (e, d', closed, cache')" using run False c Inr by (simp add: processNext_def)
    ultimately show ?thesis using process_claim_not_refused cfg by blast
  qed
qed (use run in \<open>auto simp: processNext_def\<close>)

end
