(* ===== verification/Webhook_Sweep.thy ===== *)
theory Webhook_Sweep
  imports Webhook_Worker
begin

text \<open>
  The retention sweep of the webhook worker (\<^verbatim>\<open>sweepTerminal\<close> of \<^verbatim>\<open>internal/external/webhook_worker.go\<close> over
  \<^verbatim>\<open>SweepTerminal\<close> of \<^verbatim>\<open>internal/external/mysql_webhook_outbox.go\<close>): what one batch deletes, and that the budgeted
  sequence of batches drains the settled events whose retention is over.
\<close>

section \<open>One batch\<close>

lemma length_filter_keys:
  assumes "distinct (map f xs)" "distinct ids" "\<forall>i \<in> set ids. \<exists>x \<in> set xs. P x \<and> f x = i"
  shows "length (filter P (filter (\<lambda>x. f x \<notin> set ids) xs)) + length ids = length (filter P xs)"
proof -
  let ?in = "{x \<in> set xs. P x \<and> f x \<in> set ids}" and ?out = "{x \<in> set xs. P x \<and> f x \<notin> set ids}"
  have d: "distinct xs" and inj: "inj_on f (set xs)" using assms(1) by (simp_all add: distinct_map)
  have "i \<in> f ` ?in" if i: "i \<in> set ids" for i
  proof -
    obtain x where "x \<in> set xs" "P x" "f x = i" using assms(3) i by blast
    then have "x \<in> ?in" using i by simp
    then show ?thesis using \<open>f x = i\<close> by (metis imageI)
  qed
  then have "f ` ?in = set ids" by blast
  moreover have "inj_on f ?in" by (rule inj_on_subset [OF inj]) blast
  ultimately have "card ?in = length ids" using card_image distinct_card [OF assms(2)] by metis
  moreover have "card (?out \<union> ?in) = card ?out + card ?in" by (rule card_Un_disjoint) auto
  moreover have "?out \<union> ?in = {x \<in> set xs. P x}" by blast
  moreover have "length (filter P (filter (\<lambda>x. f x \<notin> set ids) xs)) = card ?out"
    using distinct_card [of "filter P (filter (\<lambda>x. f x \<notin> set ids) xs)"] d by (simp add: conj_ac)
  moreover have "length (filter P xs) = card {x \<in> set xs. P x}" using distinct_card [of "filter P xs"] d by simp
  ultimately show ?thesis by simp
qed

lemma sweep_ids_form:
  assumes "distinct ids" "set ids \<subseteq> ob_id ` set rows" "distinct (map ob_id rows)"
  shows "sweep_ids ids deleted rows = (deleted + int (length ids), filter (\<lambda>o'. ob_id o' \<notin> set ids) rows)"
  using assms
proof (induction ids arbitrary: deleted rows)
  case (Cons i ids)
  have "length (filter (\<lambda>o'. ob_id o' = i) (filter (\<lambda>o'. ob_id o' \<notin> set [i]) rows)) + length [i]
      = length (filter (\<lambda>o'. ob_id o' = i) rows)"
    by (rule length_filter_keys) (use Cons.prems(2,3) in auto)
  then have one: "sql_count (\<lambda>o'. ob_id o' = i) rows = 1" by (simp add: sql_count_def)
  let ?rows = "sql_delete (\<lambda>o'. ob_id o' = i) rows"
  have "set ids \<subseteq> ob_id ` set ?rows"
  proof
    fix k assume k: "k \<in> set ids"
    then obtain o' where "o' \<in> set rows" "ob_id o' = k" using Cons.prems(2) by auto
    moreover have "k \<noteq> i" using k Cons.prems(1) by auto
    ultimately have "o' \<in> set ?rows" by (simp add: table_simps)
    then show "k \<in> ob_id ` set ?rows" using \<open>ob_id o' = k\<close> by (metis imageI)
  qed
  moreover have "distinct (map ob_id ?rows)" using Cons.prems(3) by (simp add: sql_delete_def distinct_map_filter)
  ultimately show ?case
    using Cons.IH [of ?rows "deleted + 1"] Cons.prems(1) by (simp add: one sql_delete_def conj_ac)
qed simp

definition swept_out :: "int \<Rightarrow> (nat \<Rightarrow> bool) \<Rightarrow> outbox_row \<Rightarrow> bool" where
  "swept_out cutoff locked o' \<longleftrightarrow> sweepable cutoff o' \<and> \<not> locked (ob_id o')"

text \<open>A batch deletes exactly as many rows as it reports, all of them settled long enough ago and unlocked,
  and it leaves such rows behind only when it is full.\<close>

lemma SweepTerminal_form:
  assumes "SweepTerminal locked now retention limit d = Inr (deleted, d')" "distinct (map ob_id (outbox d))"
  obtains ids where "d' = d\<lparr>outbox := filter (\<lambda>o'. ob_id o' \<notin> set ids) (outbox d)\<rparr>" "distinct ids" "deleted = int (length ids)"
    "\<forall>i \<in> set ids. \<exists>o' \<in> set (outbox d). swept_out (millis_ns now - retention) locked o' \<and> ob_id o' = i"
    "deleted < limit \<longrightarrow> (\<forall>o' \<in> set (outbox d). swept_out (millis_ns now - retention) locked o' \<longrightarrow> ob_id o' \<in> set ids)"
proof -
  define cand where "cand = filter (\<lambda>o'. sweepable (millis_ns now - retention) o' \<and> \<not> locked (ob_id o')) (outbox d)"
  define rows where "rows = sort_key (\<lambda>o'. (settled_at o', ob_id o')) cand"
  define ids where "ids = map ob_id (take (nat limit) rows)"
  have limit: "1 \<le> limit" using assms(1) by (simp add: SweepTerminal_def split: if_splits)
  have cand: "set rows = {o' \<in> set (outbox d). swept_out (millis_ns now - retention) locked o'}"
    by (auto simp: rows_def cand_def swept_out_def)
  have "mset (map ob_id rows) = mset (map ob_id cand)" by (simp add: rows_def)
  moreover have "distinct (map ob_id cand)" using assms(2) by (simp add: cand_def distinct_map_filter)
  ultimately have "distinct (map ob_id rows)" by (metis mset_eq_imp_distinct_iff)
  then have di: "distinct ids" by (simp add: ids_def take_map [symmetric])
  have sub: "set ids \<subseteq> ob_id ` set rows" using set_take_subset [of "nat limit" rows] by (auto simp: ids_def)
  have "set ids \<subseteq> ob_id ` set (outbox d)" using sub cand by blast
  note form = sweep_ids_form [OF di this assms(2), of 0]
  have d': "deleted = int (length ids)" "d' = d\<lparr>outbox := filter (\<lambda>o'. ob_id o' \<notin> set ids) (outbox d)\<rparr>"
    using assms(1) form by (simp_all add: SweepTerminal_def Let_def flip: cand_def rows_def ids_def split: if_splits)
  have "deleted < limit \<longrightarrow> take (nat limit) rows = rows" using d'(1) limit by (simp add: ids_def)
  then have "deleted < limit \<longrightarrow> set ids = ob_id ` set rows" by (simp add: ids_def)
  then show ?thesis using that [OF d'(2) di d'(1)] sub cand by blast
qed

section \<open>The budgeted sequence of batches\<close>

lemma sweepable_mono: "sweepable a o' \<Longrightarrow> a \<le> b \<Longrightarrow> sweepable b o'"
  by (auto simp: sweepable_def split: option.splits)

definition sweeps_between :: "int \<Rightarrow> int \<Rightarrow> nat \<Rightarrow> (nat \<Rightarrow> bool \<times> (nat \<Rightarrow> bool) \<times> int) \<Rightarrow> bool" where
  "sweeps_between t0 t1 n env \<longleftrightarrow> (\<forall>k < n. \<exists>now. env k = (False, (\<lambda>_. False), now) \<and> t0 \<le> now \<and> now \<le> t1)"

lemma sweep_batches_drain:
  assumes "0 < retention" "retention \<le> 365 * 24 * hour" "retention = ww_TerminalRetention worker"
  shows "sweeps_between t0 t1 n env \<Longrightarrow> distinct (map ob_id (outbox d)) \<Longrightarrow>
    length (filter (sweepable (millis_ns t1 - retention)) (outbox d)) < n * 100 \<Longrightarrow>
    \<exists>d'. sweep_batches env worker n d = (Inr True, d') \<and> jobs d' = jobs d
      \<and> {o' \<in> set (outbox d). \<not> sweepable (millis_ns t1 - retention) o'} \<subseteq> set (outbox d') \<and> set (outbox d') \<subseteq> set (outbox d)
      \<and> (\<forall>o' \<in> set (outbox d'). \<not> sweepable (millis_ns t0 - retention) o')"
proof (induction n arbitrary: d)
  case (Suc n)
  obtain now where now: "env n = (False, (\<lambda>_. False), now)" "t0 \<le> now" "now \<le> t1"
    using Suc.prems(1) unfolding sweeps_between_def by blast
  have ms: "millis_ns t0 \<le> millis_ns now" "millis_ns now \<le> millis_ns t1" using now(2,3) by (simp_all add: millis_ns_def)
  have "\<exists>p. SweepTerminal (\<lambda>_. False) now retention webhookRetentionSweepBatch d = Inr p"
    using assms(1,2)
    by (simp add: SweepTerminal_def webhookRetentionSweepBatch_def hour_def minute_def second_def Let_def split: prod.split)
  then obtain deleted d1 where st: "SweepTerminal (\<lambda>_. False) now retention webhookRetentionSweepBatch d = Inr (deleted, d1)"
    by (metis surj_pair)
  from SweepTerminal_form [OF st Suc.prems(2)] obtain ids where
    d1: "d1 = d\<lparr>outbox := filter (\<lambda>o'. ob_id o' \<notin> set ids) (outbox d)\<rparr>" and di: "distinct ids" and del: "deleted = int (length ids)"
    and gone: "\<forall>i \<in> set ids. \<exists>o' \<in> set (outbox d). swept_out (millis_ns now - retention) (\<lambda>_. False) o' \<and> ob_id o' = i"
    and all: "deleted < webhookRetentionSweepBatch \<longrightarrow>
      (\<forall>o' \<in> set (outbox d). swept_out (millis_ns now - retention) (\<lambda>_. False) o' \<longrightarrow> ob_id o' \<in> set ids)" by blast
  have gone1: "\<forall>i \<in> set ids. \<exists>o' \<in> set (outbox d). sweepable (millis_ns t1 - retention) o' \<and> ob_id o' = i"
    using gone sweepable_mono ms(2) unfolding swept_out_def by (metis diff_right_mono)
  have inj: "inj_on ob_id (set (outbox d))" using Suc.prems(2) by (simp add: distinct_map)
  have kept: "{o' \<in> set (outbox d). \<not> sweepable (millis_ns t1 - retention) o'} \<subseteq> set (outbox d1)"
    using gone1 inj_onD [OF inj] by (fastforce simp: d1)
  show ?case
  proof (cases "deleted < webhookRetentionSweepBatch")
    case True
    have "\<not> sweepable (millis_ns t0 - retention) o'" if "o' \<in> set (outbox d1)" for o'
    proof
      assume "sweepable (millis_ns t0 - retention) o'"
      then have "sweepable (millis_ns now - retention) o'" using sweepable_mono ms(1) by (metis diff_right_mono)
      then show False using all True that by (auto simp: swept_out_def d1)
    qed
    then show ?thesis using True now st kept assms(3) by (auto simp: d1)
  next
    case False
    have "length (filter (sweepable (millis_ns t1 - retention)) (outbox d1)) + length ids
        = length (filter (sweepable (millis_ns t1 - retention)) (outbox d))"
      unfolding d1 using length_filter_keys [OF Suc.prems(2) di gone1] by simp
    then have "length (filter (sweepable (millis_ns t1 - retention)) (outbox d1)) < n * 100"
      using Suc.prems(3) False del by (simp add: webhookRetentionSweepBatch_def)
    moreover have "sweeps_between t0 t1 n env" using Suc.prems(1) by (simp add: sweeps_between_def)
    moreover have "distinct (map ob_id (outbox d1))" using Suc.prems(2) by (simp add: d1 distinct_map_filter)
    ultimately obtain d' where d': "sweep_batches env worker n d1 = (Inr True, d')" "jobs d' = jobs d1"
      "{o' \<in> set (outbox d1). \<not> sweepable (millis_ns t1 - retention) o'} \<subseteq> set (outbox d')" "set (outbox d') \<subseteq> set (outbox d1)"
      "\<forall>o' \<in> set (outbox d'). \<not> sweepable (millis_ns t0 - retention) o'" using Suc.IH by blast
    have "sweep_batches env worker (Suc n) d = (Inr True, d')" using False now st d'(1) assms(3) by simp
    moreover have "{o' \<in> set (outbox d). \<not> sweepable (millis_ns t1 - retention) o'} \<subseteq> set (outbox d')"
      using kept d'(3) by blast
    moreover have "set (outbox d') \<subseteq> set (outbox d)" "jobs d' = jobs d" using d'(2,4) by (auto simp: d1)
    ultimately show ?thesis using d'(5) by blast
  qed
qed simp

end
