(* ===== verification/Webhook_Properties.thy ===== *)
theory Webhook_Properties
  imports Job_Properties Webhook_Sweep
begin

text \<open>
  Properties of the webhook outbox and of its worker, over every interleaving of the transactions of job
  workers, clients and webhook workers, and the databases on which they are exercised: the completed job of
  the job properties, whose event is being delivered for the second time, or waits for a first delivery
  cycle that the endpoint acknowledges.
\<close>

section \<open>An event in delivery\<close>

definition ex_hook_token :: string where "ex_hook_token = ''00112233445566778899aabbccddeeff''"

definition ex_event :: outbox_row where "ex_event = hd (outbox ex_done)"

definition ex_leased :: db where
  "ex_leased = ex_done\<lparr>outbox := [ex_event\<lparr>ob_status := OutboxDelivering, ob_attempt_count := 2,
     ob_worker_id := Some ''w2'', ob_lease_token := Some ex_hook_token, ob_lease_until := Some 9000\<rparr>]\<rparr>"

definition ex_hook_claim :: "nat \<Rightarrow> WebhookClaim" where
  "ex_hook_claim n = \<lparr>wb_OutboxID = 1, wb_EventID = ''eventaaaaaaaaaaaaaaaaaaaaa'', wb_EventType = ''judge.job.completed'',
     wb_TenantID = ''tenantaaaaaaaaaaaaaaaaaaaa'', wb_CallbackID = ''callbackaaaaaaaaaaaaaaaaaa'',
     wb_DestinationURL = ''https://example.org/hook'', wb_AllowedHost = ''example.org'', wb_AllowedPort = 443,
     wb_Body = ob_payload ex_event, wb_AttemptCount = n, wb_WorkerID = ''w2'', wb_LeaseToken = ex_hook_token,
     wb_LeaseUntil = 9000000000, wb_ExpiresAt = 86402000000000, wb_Ciphertext = [], wb_Nonce = [], wb_KeyVersion = 1\<rparr>"

definition ex_success :: WebhookSettlement where
  "ex_success = \<lparr>ws_Disposition = WebhookDelivered, ws_HTTPStatus = 204, ws_ErrorCode = [], ws_RetryAt = zero_time, ws_RetryDelay = 0\<rparr>"

definition ex_delivered :: db where
  "ex_delivered = update_outbox 1 (delivered_row (Some 204) 8000) ex_leased"

lemma ex_event_simps:
  "ob_id ex_event = 1" "ob_status ex_event = OutboxPending" "ob_attempt_count ex_event = 0"
  by (simp_all add: ex_event_def ex_done_def pending_event_def)

lemma ex_leased_inv: "delivery_inv 12 ex_leased"
proof -
  let ?e = "ex_event\<lparr>ob_status := OutboxDelivering, ob_attempt_count := 2,
     ob_worker_id := Some ''w2'', ob_lease_token := Some ex_hook_token, ob_lease_until := Some 9000\<rparr>"
  have "event_of ?e = event_of ex_event" by (simp add: event_of_def)
  then have "map event_of [?e] = map event_of (outbox ex_done)" by (simp add: ex_event_def ex_done_def)
  from outbox_inv_events [OF this, of "{}" "jobs ex_done"] have "store_inv ex_leased"
    using ex_done_inv by (simp add: store_inv_def store_mid_def ex_leased_def)
  then show ?thesis by (simp add: delivery_inv_def outbox_ok_def event_row_ok_def ex_leased_def)
qed

lemma ex_delivery: "SettleWebhook 12 (\<lambda>t. t) 8000 (ex_hook_claim 2) ex_success ex_leased = Inr ex_delivered"
  by (simp add: SettleWebhook_def validWebhookClaim_def validWebhookSettlement_def ex_hook_claim_def ex_hook_token_def
      ex_success_def ex_leased_def webhook_holds_def ex_event_simps ex_patterns nullableWebhookHTTPStatus_def ex_delivered_def)

lemma ex_delivery_step: "(delivery_step 12)\<^sup>*\<^sup>* ex_leased ex_delivered"
  by (rule r_into_rtranclp, rule delivery_settle, rule ex_delivery)

section \<open>A delivery cycle\<close>

definition ex_ready :: db where
  "ex_ready = ex_done\<lparr>callbacks := [\<lparr>cb_id = 5, cb_external_id = ''callbackaaaaaaaaaaaaaaaaaa'', cb_tenant_id = 1,
     cb_destination_url = ''https://a.io/x'', cb_allowed_host = ''a.io'', cb_allowed_port = 443,
     cb_secret_ciphertext = replicate 48 CHR ''c'', cb_secret_nonce = replicate 12 CHR ''n'',
     cb_secret_key_version = 1, cb_disabled_at = None\<rparr>]\<rparr>"

definition ex_worker :: WebhookWorkerConfig where
  "ex_worker = applyWebhookWorkerDefaults \<lparr>ww_WorkerID = ''w2'', ww_LeaseDuration = 0, ww_RequestTimeout = 0, ww_DialTimeout = 0,
     ww_BaseRetryDelay = 0, ww_MaximumRetryDelay = 0, ww_MaximumAttempts = 0, ww_IdleDelay = 0,
     ww_TerminalRetention = 0, ww_MaximumAuthorities = 0\<rparr>"

definition ex_claim_env :: "nat \<Rightarrow> webhook_env" where
  "ex_claim_env n = \<lparr>we_now = 3000, we_lease_now = 3000, we_locked = (\<lambda>_. False), we_token = Some ex_hook_token,
     we_round = (\<lambda>t. t div 1000000)\<rparr>"

definition ex_cycle :: cycle_env where
  "ex_cycle = \<lparr>cy_cancelled = False, cy_claim = ex_claim_env, cy_claim_elapsed = 1000,
     cy_decrypt = (\<lambda>_ _ _ _. Some (replicate 32 CHR ''k'')), cy_closer = 0, cy_before = 2000,
     cy_delivery = \<lparr>de_parse = st_parse, de_casing = (\<lambda>s. s), de_http_date = (\<lambda>_. None), de_request_time = 3000000000,
       de_response_time = 3000000000\<rparr>,
     cy_trip = (\<lambda>_ _. Inr (Some \<lparr>rs_StatusCode = 204, rs_RetryAfter = []\<rparr>)), cy_cancelled_after = False, cy_after = 5000,
     cy_entropy = None, cy_settle_now = 4000, cy_round = (\<lambda>t. t div 1000000)\<rparr>"

definition ex_cycle_claim :: WebhookClaim where
  "ex_cycle_claim = \<lparr>wb_OutboxID = 1, wb_EventID = ''eventaaaaaaaaaaaaaaaaaaaaa'', wb_EventType = ''judge.job.completed'',
     wb_TenantID = ''tenantaaaaaaaaaaaaaaaaaaaa'', wb_CallbackID = ''callbackaaaaaaaaaaaaaaaaaa'',
     wb_DestinationURL = ''https://a.io/x'', wb_AllowedHost = ''a.io'', wb_AllowedPort = 443,
     wb_Body = ob_payload ex_event, wb_AttemptCount = 1, wb_WorkerID = ''w2'', wb_LeaseToken = ex_hook_token,
     wb_LeaseUntil = 63000000000, wb_ExpiresAt = 86402000000000, wb_Ciphertext = replicate 48 CHR ''c'',
     wb_Nonce = replicate 12 CHR ''n'', wb_KeyVersion = 1\<rparr>"

definition ex_taken :: db where
  "ex_taken = ex_ready\<lparr>outbox := [leased_row ''w2'' ex_hook_token 63000 ex_event]\<rparr>"

definition ex_sent :: db where
  "ex_sent = ex_ready\<lparr>outbox := [delivered_row (Some 204) 4000 (leased_row ''w2'' ex_hook_token 63000 ex_event)]\<rparr>"

lemma ex_cycle_simps:
  "cy_cancelled ex_cycle = False" "cy_claim_elapsed ex_cycle = 1000" "cy_before ex_cycle = 2000" "cy_cancelled_after ex_cycle = False"
  "cy_after ex_cycle = 5000" "cy_closer ex_cycle = 0" "cy_decrypt ex_cycle a b c e = Some (replicate 32 CHR ''k'')"
  "de_parse (cy_delivery ex_cycle) = st_parse" "de_casing (cy_delivery ex_cycle) = (\<lambda>s. s)"
  "wb_LeaseUntil ex_cycle_claim = 63000000000" "wb_ExpiresAt ex_cycle_claim = 86402000000000"
  "wb_AllowedHost ex_cycle_claim = ''a.io''" "wb_AllowedPort ex_cycle_claim = 443" "wb_DestinationURL ex_cycle_claim = ''https://a.io/x''"
  by (simp_all add: ex_cycle_def ex_cycle_claim_def)

lemma ex_worker_simps:
  "ww_WorkerID ex_worker = ''w2''" "ww_LeaseDuration ex_worker = 60000000000" "ww_RequestTimeout ex_worker = 30000000000"
  "ww_DialTimeout ex_worker = 5000000000" "ww_BaseRetryDelay ex_worker = 5000000000" "ww_MaximumRetryDelay ex_worker = 900000000000"
  "ww_MaximumAttempts ex_worker = 12" "ww_IdleDelay ex_worker = 1000000000" "ww_TerminalRetention ex_worker = 2592000000000000"
  "ww_MaximumAuthorities ex_worker = 64"
  by (simp_all add: ex_worker_def applyWebhookWorkerDefaults_def or_default_def hour_def minute_def second_def)

lemma ex_worker_new: "newWebhookWorker ex_worker = Some ex_worker"
proof -
  have "applyWebhookWorkerDefaults ex_worker = ex_worker"
    by (simp add: applyWebhookWorkerDefaults_def or_default_def ex_worker_simps)
  then show ?thesis
    by (simp add: newWebhookWorker_def ex_worker_simps ex_patterns maximumWebhookRetryAfter_def hour_def minute_def second_def)
qed

lemma ex_ready_inv: "delivery_inv 12 ex_ready"
proof -
  have "store_inv ex_ready" using ex_done_inv by (simp add: store_inv_def store_mid_def ex_ready_def)
  then show ?thesis
    by (simp add: delivery_inv_def outbox_ok_def event_row_ok_def ex_ready_def ex_done_def pending_event_def)
qed

lemma ex_payload_sized: "payload_sized (ob_payload ex_event)"
  by (simp add: payload_sized_def ex_event_def ex_done_def pending_event_def ex_result_def result_sized_def case_sized_def in_int64_def
      max_int64_def)

lemma ex_body: "webhookBodyEventID (payload_body (ob_payload ex_event)) = Some ''eventaaaaaaaaaaaaaaaaaaaaa''"
  "payload_body (ob_payload ex_event) \<noteq> []" "length (payload_body (ob_payload ex_event)) \<le> maximumWebhookBodyBytes"
  using payload_names_event [of "ob_payload ex_event"] payload_fits [OF ex_encode [folded ex_event_def] ex_payload_sized]
  by (simp_all add: ex_event_def ex_done_def pending_event_def ex_patterns)

lemma ex_take: "ClaimNextWebhook 12 ex_claim_env ''w2'' 60000000000 ex_ready = (Inr ex_cycle_claim, ex_taken)"
proof -
  have o: "outbox ex_ready = [ex_event]" by (simp add: ex_ready_def ex_event_def ex_done_def)
  have e: "ob_next_attempt_at ex_event = 2000" "ob_expires_at ex_event = 86402000" "ob_tenant_id ex_event = 1" "ob_callback_id ex_event = 5"
    "ob_event_id ex_event = ''eventaaaaaaaaaaaaaaaaaaaaa''" "ob_event_type ex_event = ''judge.job.completed''"
    by (simp_all add: ex_event_def ex_done_def pending_event_def)
  have t: "outbox_tenant ex_ready ex_event = Some ex_tenant"
    by (simp add: outbox_tenant_def e ex_ready_def ex_done_def ex_db_def ex_tenant_def)
  have c: "outbox_callback ex_ready ex_event = Some (hd (callbacks ex_ready))"
    by (simp add: outbox_callback_def e ex_ready_def)
  have cb: "tn_external_id ex_tenant = ''tenantaaaaaaaaaaaaaaaaaaaa''" "cb_external_id (hd (callbacks ex_ready)) = ''callbackaaaaaaaaaaaaaaaaaa''"
    "cb_destination_url (hd (callbacks ex_ready)) = ''https://a.io/x''" "cb_allowed_host (hd (callbacks ex_ready)) = ''a.io''"
    "cb_allowed_port (hd (callbacks ex_ready)) = 443" "cb_secret_ciphertext (hd (callbacks ex_ready)) = replicate 48 CHR ''c''"
    "cb_secret_nonce (hd (callbacks ex_ready)) = replicate 12 CHR ''n''" "cb_secret_key_version (hd (callbacks ex_ready)) = 1"
    by (simp_all add: ex_tenant_def ex_ready_def)
  have env: "we_lease_now (ex_claim_env n) = 3000" "we_token (ex_claim_env n) = Some ex_hook_token"
    "we_round (ex_claim_env n) 63000000000 = 63000" for n by (simp_all add: ex_claim_env_def)
  have s: "select_webhook (ex_claim_env n) ex_ready = Some ex_event" for n
    by (simp add: select_webhook_def o webhook_due_def ex_claim_env_def ex_event_simps e t c earlier_due_def sql_exists_def)
  have dead: "dead_code 12 3000 ex_tenant (hd (callbacks ex_ready)) ex_event = []"
    by (simp add: dead_code_def ex_tenant_def ex_ready_def e ex_event_simps callbackSecretNonceBytes_def)
  have upd: "sql_affected (\<lambda>r. ob_id r = 1) (leased_row ''w2'' ex_hook_token 63000) [ex_event] = 1"
    using ex_event_simps(1,2) outbox_row.select_convs(8) by (auto simp: sql_affected_def leased_row_def dest: arg_cong [where f = ob_status])
  have "claimWebhook 12 (ex_claim_env n) ''w2'' 60000000000 ex_ready = Inr (Some ex_cycle_claim, ex_taken)" for n
    using s [of n] dead upd
    by (simp add: claimWebhook_def t c env o ex_event_simps e millis_ns_def update_outbox_def sql_update_def ex_taken_def
        ex_cycle_claim_def cb Let_def)
  then show ?thesis
    by (simp add: ClaimNextWebhook_def ex_patterns maximumWebhookRetryAfter_def maintenanceBudget_def numeral_eq_Suc)
qed

lemma ex_destination:
  "parseHTTPSDestination st_parse (\<lambda>s. s) raw \<noteq> None" "validateCallbackDestination st_parse (\<lambda>s. s) raw ''a.io'' 443 \<noteq> None"
  "NewSafeWebhookDeliverer (\<lambda>s. s) ''a.io'' 443 30000000000 5000000000 = Some st_transport"
proof -
  have "TrimSpace ''a.io'' = ''a.io''" by code_simp
  then show "parseHTTPSDestination st_parse (\<lambda>s. s) raw \<noteq> None" "validateCallbackDestination st_parse (\<lambda>s. s) raw ''a.io'' 443 \<noteq> None"
    "NewSafeWebhookDeliverer (\<lambda>s. s) ''a.io'' 443 30000000000 5000000000 = Some st_transport"
    using st_name
    by (simp_all add: validateCallbackDestination_def parseHTTPSDestination_def st_parse_def ToLower_def trim_dot_def effective_port_def
        NewSafeWebhookDeliverer_def NewSafeCallbackClient_def st_transport_def Let_def)
qed

lemma ex_deliver: "DeliverOutcome (cy_delivery ex_cycle) (cy_trip ex_cycle t) (claim_delivery ex_cycle_claim (replicate 32 CHR ''k'')) 900000000000
   = \<lparr>wo_Disposition = WebhookDelivered, wo_HTTPStatus = 204, wo_RetryAfter = 0, wo_ErrorCode = []\<rparr>"
proof -
  have "validateWebhookDelivery st_parse (\<lambda>s. s) (claim_delivery ex_cycle_claim (replicate 32 CHR ''k''))"
    using ex_body ex_destination(1) by (simp add: validateWebhookDelivery_def claim_delivery_def ex_cycle_claim_def ex_patterns)
  then show ?thesis
    by (simp add: st_parse_def [of "wd_DestinationURL x" for x] DeliverOutcome_def ex_cycle_def maximumWebhookRetryAfter_def classify_response_def)
qed

lemma ex_settle_cycle: "worker_settle 12 ex_cycle ex_cycle_claim
   \<lparr>ws_Disposition = WebhookDelivered, ws_HTTPStatus = 204, ws_ErrorCode = [], ws_RetryAt = zero_time, ws_RetryDelay = 0\<rparr> ex_taken = (None, ex_sent)"
  by (simp add: worker_settle_def SettleWebhook_def validWebhookClaim_def validWebhookSettlement_def ex_cycle_claim_def ex_hook_token_def
      ex_taken_def webhook_holds_def ex_event_simps ex_patterns nullableWebhookHTTPStatus_def ex_sent_def leased_row_def ex_cycle_def
      update_outbox_def sql_update_def)

lemma ex_cycle_run: "\<exists>cache. processNext 12 ex_worker ex_cycle ex_ready (newWebhookAuthorityCache 64) = (None, ex_sent, [], cache)"
proof -
  have c: "ClaimNextWebhook 12 (cy_claim ex_cycle) (ww_WorkerID ex_worker) (ww_LeaseDuration ex_worker) ex_ready = (Inr ex_cycle_claim, ex_taken)"
    using ex_take by (simp add: ex_cycle_def ex_worker_simps)
  obtain cache where del: "cachedDeliverer (\<lambda>s. s) ex_worker 0 ''a.io'' 443 (newWebhookAuthorityCache 64) = (Some st_transport, [], cache)"
    by (simp add: cachedDeliverer_def newWebhookAuthorityCache_def cache_Get_def cache_Add_def ex_worker_simps ex_destination(3) Let_def)
  have "deliver_claim 12 ex_worker ex_cycle st_transport (replicate 32 CHR ''k'') 3000001000 ex_cycle_claim ex_taken = (None, ex_sent)"
    using ex_deliver [of st_transport] ex_settle_cycle
    by (simp add: deliver_claim_def ex_worker_simps ex_cycle_simps estimatedWebhookDatabaseTime_def settlement_of_def Let_def)
  then have "process_claim 12 ex_worker ex_cycle ex_cycle_claim ex_taken (newWebhookAuthorityCache 64) = (None, ex_sent, [], cache)"
    using del ex_destination(2) [of "''https://a.io/x''"]
    by (auto simp add: process_claim_def ex_worker_simps ex_cycle_simps Let_def)
  then show ?thesis using c by (simp add: processNext_def ex_cycle_simps)
qed

section \<open>Properties\<close>



text \<open>C7: deliveries never disturb the job store, and no event is lost, duplicated or altered by them: after any
  interleaving of job transactions, webhook claims and settlements every terminal job with a callback has
  its one event, whose body still describes the job's outcome; an event is marked delivered only with a 2xx
  answer, and no event is attempted more often than configured.\<close>

theorem event_delivery_sound:
  assumes "delivery_inv m d" and "(delivery_step m)\<^sup>*\<^sup>* d d'" and "j \<in> set (jobs d')"
    and "row_terminal j" and "jb_callback_id j \<noteq> None"
  shows "\<exists>!o'. o' \<in> set (outbox d') \<and> event_reports m j o'"
proof -
  have inv: "delivery_inv m d'" by (rule webhook_row.inv_steps [OF assms(2,1)])
  show ?thesis by (rule delivery_unique [OF inv assms(3-5)])
qed

theorem event_delivery_sound_witness:
  "\<exists>!o'. o' \<in> set (outbox ex_delivered) \<and> event_reports 12 (hd (jobs ex_done)) o'"
  by (rule event_delivery_sound [OF ex_leased_inv ex_delivery_step])
    (simp_all add: ex_delivered_def update_outbox_def ex_leased_def ex_done_def row_terminal_def ex_job_def)


text \<open>C8: an event is marked delivered by a worker cycle only when its own body was sent, signed for its own event
  id, to a destination that passed the checks, and the endpoint answered 2xx.\<close>

theorem delivered_means_acknowledged:
  assumes "delivery_inv m d" and "processNext m worker env d cache = (e, d', closed, cache')"
    and "o' \<in> set (outbox d')" and "ob_status o' = OutboxDelivered" and "o' \<notin> set (outbox d)"
  shows "\<exists>delivery deliverer response. wd_EventID delivery = ob_event_id o' \<and> wd_Body delivery = payload_body (ob_payload o')
    \<and> validateWebhookDelivery (de_parse (cy_delivery env)) (de_casing (cy_delivery env)) delivery
    \<and> cy_trip env deliverer (webhook_request_of (cy_delivery env) delivery) = Inr (Some response)
    \<and> 200 \<le> rs_StatusCode response \<and> rs_StatusCode response \<le> 299"
  using processNext_acknowledged [OF assms] by metis

theorem delivered_means_acknowledged_witness:
  "\<exists>o' delivery response. o' \<in> set (outbox ex_sent) \<and> wd_EventID delivery = ob_event_id o'
    \<and> validateWebhookDelivery st_parse (\<lambda>s. s) delivery
    \<and> (Inr (Some \<lparr>rs_StatusCode = 204, rs_RetryAfter = []\<rparr>) :: trip_error + webhook_response option) = Inr (Some response)
    \<and> 200 \<le> rs_StatusCode response"
proof -
  let ?o = "delivered_row (Some 204) 4000 (leased_row ''w2'' ex_hook_token 63000 ex_event)"
  obtain cache where run: "processNext 12 ex_worker ex_cycle ex_ready (newWebhookAuthorityCache 64) = (None, ex_sent, [], cache)"
    using ex_cycle_run by blast
  have o: "?o \<in> set (outbox ex_sent)" "ob_status ?o = OutboxDelivered" by (simp_all add: ex_sent_def delivered_row_def clear_delivery_def)
  have "outbox ex_ready = [ex_event]" by (simp add: ex_ready_def ex_event_def ex_done_def)
  then have "?o \<notin> set (outbox ex_ready)" using o(2) ex_event_simps(2) by (auto dest: arg_cong [where f = ob_status])
  from delivered_means_acknowledged [OF ex_ready_inv run o this] show ?thesis
    using o(1) ex_cycle_simps(8,9) by (force simp: ex_cycle_def)
qed

text \<open>C9: every event the store writes can be delivered: the body encoded for a finished job names exactly the event
  it was written for when the deliverer parses it back, and its size is within what the deliverer accepts,
  whatever the client reference and the case results are.\<close>

theorem event_body_accepted:
  assumes "EncodeTerminalWebhookEvent eventID occurredAt job = Some (eventType, p)" and "payload_sized p"
  shows "webhookBodyEventID (payload_body p) = Some eventID \<and> payload_body p \<noteq> [] \<and> length (payload_body p) \<le> maximumWebhookBodyBytes"
proof -
  have "pl_EventID p = eventID" using encoded_form [OF assms(1)] by (auto simp: terminal_payload_def)
  then show ?thesis using payload_names_event [of p] encoded_ids(1) [OF assms(1)] payload_fits [OF assms] by simp
qed

theorem event_body_accepted_witness:
  "webhookBodyEventID (payload_body (ob_payload ex_event)) = Some ''eventaaaaaaaaaaaaaaaaaaaaa''"
  using event_body_accepted [OF ex_encode [folded ex_event_def] ex_payload_sized] by simp





text \<open>C21: no transport is leaked or closed twice. Under every interleaving of lookups, creations, additions and the
  closing of the authority cache, every transport ever created is either still in the hands of its creator,
  or in the cache, or closed, and in exactly one of these places once; the cache never exceeds its limit and
  is empty once closed.\<close>

theorem authority_closers_conserved:
  assumes "1 \<le> limit" and "authority_step\<^sup>*\<^sup>* (authority_start limit) s"
  shows "mset (cs_pending s) + live_closers (cs_cache s) + mset (cs_closed s) = mset [0..<cs_next s]
    \<and> int (length (ac_lru (cs_cache s))) \<le> limit \<and> (ac_closed (cs_cache s) \<longrightarrow> ac_lru (cs_cache s) = [])"
  using authority_steps_inv [OF assms(2,1) authority_start_inv [OF assms(1)]] by (auto simp: authority_inv_def cache_ok_def)

theorem authority_closers_conserved_witness:
  "\<exists>s. authority_step\<^sup>*\<^sup>* (authority_start 1) s \<and> cs_next s = 1
    \<and> mset (cs_pending s) + live_closers (cs_cache s) + mset (cs_closed s) = {#0#}"
proof -
  define s where "s = (authority_start 1)\<lparr>cs_pending := cs_next (authority_start 1) # cs_pending (authority_start 1),
    cs_next := Suc (cs_next (authority_start 1))\<rparr>"
  have step: "authority_step\<^sup>*\<^sup>* (authority_start 1) s"
    unfolding s_def by (rule r_into_rtranclp, rule authority_create)
  from authority_closers_conserved [OF _ step] show ?thesis
    by (intro exI [of _ s]) (simp add: step, simp add: s_def authority_start_def)
qed

text \<open>C19: retention. When fewer than ten thousand settled events are past their retention, no other transaction holds
  them and the context stays alive, one sweep ends within its budget reporting success; it leaves no event
  that was past its retention when the sweep began, and deletes none that was not when it ended.\<close>

theorem webhook_sweep_drains:
  assumes "newWebhookWorker given = Some worker" and "distinct (map ob_id (outbox d))"
    and "sweeps_between t0 t1 webhookRetentionSweepBudget env"
    and "length (filter (sweepable (millis_ns t1 - ww_TerminalRetention worker)) (outbox d)) < 10000"
  shows "\<exists>d'. sweepTerminal env worker d = (Inr True, d') \<and> jobs d' = jobs d
    \<and> {o' \<in> set (outbox d). \<not> sweepable (millis_ns t1 - ww_TerminalRetention worker) o'} \<subseteq> set (outbox d')
    \<and> set (outbox d') \<subseteq> set (outbox d)
    \<and> (\<forall>o' \<in> set (outbox d'). \<not> sweepable (millis_ns t0 - ww_TerminalRetention worker) o')"
proof -
  have "0 < ww_TerminalRetention worker" "ww_TerminalRetention worker \<le> 365 * 24 * hour"
    using assms(1) by (auto simp: newWebhookWorker_def Let_def split: if_splits)
  from sweep_batches_drain [OF this refl assms(3,2)] show ?thesis
    using assms(4) by (simp add: sweepTerminal_def webhookRetentionSweepBudget_def)
qed

theorem webhook_sweep_drains_witness:
  "\<exists>d'. sweepTerminal (\<lambda>_. (False, \<lambda>_. False, 2592005000)) ex_worker ex_sent = (Inr True, d') \<and> outbox d' = []"
proof -
  have sw: "sweepable (millis_ns 2592005000 - ww_TerminalRetention ex_worker) o'" if "o' \<in> set (outbox ex_sent)" for o'
    using that by (simp add: ex_sent_def sweepable_def ex_worker_simps millis_ns_def delivered_row_def clear_delivery_def)
  have "length (filter (sweepable (millis_ns 2592005000 - ww_TerminalRetention ex_worker)) (outbox ex_sent)) < 10000"
    by (rule le_less_trans [OF length_filter_le]) (simp add: ex_sent_def)
  moreover have "distinct (map ob_id (outbox ex_sent))" by (simp add: ex_sent_def)
  moreover have "sweeps_between 2592005000 2592005000 webhookRetentionSweepBudget (\<lambda>_. (False, \<lambda>_. False, 2592005000))"
    by (simp add: sweeps_between_def)
  ultimately obtain d' where d': "sweepTerminal (\<lambda>_. (False, \<lambda>_. False, 2592005000)) ex_worker ex_sent = (Inr True, d')"
    "set (outbox d') \<subseteq> set (outbox ex_sent)"
    "\<forall>o' \<in> set (outbox d'). \<not> sweepable (millis_ns 2592005000 - ww_TerminalRetention ex_worker) o'"
    using webhook_sweep_drains [OF ex_worker_new, of ex_sent 2592005000 2592005000] by blast
  then have "outbox d' = []" using sw by (cases "outbox d'") auto
  with d'(1) show ?thesis by blast
qed

end
