(* ===== verification/Job_Listing.thy ===== *)
theory Job_Listing
  imports Webhook_Delivery
begin

text \<open>
  Listing the jobs of a tenant: the signed cursor (\<^verbatim>\<open>JobCursorCodec\<close> of \<^verbatim>\<open>internal/external/job_repository.go\<close>), the
  keyset query \<^verbatim>\<open>List\<close> of \<^verbatim>\<open>internal/external/mysql_job_repository.go\<close>, and the pages a client obtains by following
  the cursors. A status is the Go string, empty when no filter is given.
\<close>

section \<open>Cursors\<close>

record JobCursor =
  cu_TenantID :: string
  cu_Status :: string
  cu_CreatedAt :: int
  cu_InternalID :: nat

definition validJobStatusFilter :: "string \<Rightarrow> bool" where
  "validJobStatusFilter status \<longleftrightarrow>
     status \<in> {[], ''QUEUED'', ''RUNNING'', ''SUCCEEDED'', ''FAILED'', ''CANCELLED''}"

definition validJobCursor :: "JobCursor \<Rightarrow> bool" where
  "validJobCursor cursor =
     (if \<not> externalIDPattern (cu_TenantID cursor) \<or> cu_CreatedAt cursor = time_zero \<or> cu_InternalID cursor = 0 then False
      else validJobStatusFilter (cu_Status cursor))"

definition cursor_members :: "JobCursor \<Rightarrow> (string \<times> json) list" where
  "cursor_members cursor =
     [(''v'', json_int 1), (''t'', JString (cu_TenantID cursor))] @ text_member ''s'' (cu_Status cursor)
     @ [(''c'', json_int (cu_CreatedAt cursor)), (''i'', json_int (int (cu_InternalID cursor)))]"

definition cursor_payload :: "JobCursor \<Rightarrow> string" where
  "cursor_payload cursor = json_text (JObject (cursor_members cursor))"

definition NewJobCursorCodec :: "string \<Rightarrow> string option" where
  "NewJobCursorCodec key = (if length key < 32 then None else Some key)"

definition cursor_Encode :: "string \<Rightarrow> JobCursor \<Rightarrow> string option" where
  "cursor_Encode key cursor =
     (if length key < 32 \<or> \<not> validJobCursor cursor then None
      else
        let payload = cursor_payload cursor in
        Some (b64_encode payload @ ''.'' @ b64_encode (hmac_sha256 key payload)))"

text \<open>
  The payload struct, and the decoder on it: names match exactly or up to case folding, where the long s folds
  to s; null leaves a field as it is; unknown names are refused.
\<close>

record jobCursorPayload =
  cp_Version :: int
  cp_TenantID :: string
  cp_Status :: string
  cp_CreatedMS :: int
  cp_InternalID :: nat

definition payload_field :: "string \<Rightarrow> char option" where
  "payload_field name =
     (if name = ''v'' \<or> name = ''V'' then Some (CHR ''v'') else if name = ''t'' \<or> name = ''T'' then Some (CHR ''t'')
      else if name = ''s'' \<or> name = ''S'' \<or> name = [CHR 0xC5, CHR 0xBF] then Some (CHR ''s'')
      else if name = ''c'' \<or> name = ''C'' then Some (CHR ''c'') else if name = ''i'' \<or> name = ''I'' then Some (CHR ''i'')
      else None)"

definition decode_int64 :: "json \<Rightarrow> int \<Rightarrow> int option" where
  "decode_int64 v old = (case v of JNumber l \<Rightarrow> ParseInt64 l | JNull \<Rightarrow> Some old | _ \<Rightarrow> None)"

definition decode_uint64 :: "json \<Rightarrow> nat \<Rightarrow> nat option" where
  "decode_uint64 v old = (case v of JNumber l \<Rightarrow> ParseUint l 64 | JNull \<Rightarrow> Some old | _ \<Rightarrow> None)"

definition decode_field :: "string \<times> json \<Rightarrow> jobCursorPayload \<Rightarrow> jobCursorPayload option" where
  "decode_field m p =
     (let v = snd m in
      case payload_field (fst m) of
        None \<Rightarrow> None
      | Some f \<Rightarrow>
          if f = CHR ''v'' then map_option (\<lambda>x. p\<lparr>cp_Version := x\<rparr>) (decode_int64 v (cp_Version p))
          else if f = CHR ''t'' then map_option (\<lambda>x. p\<lparr>cp_TenantID := x\<rparr>) (decode_string v (cp_TenantID p))
          else if f = CHR ''s'' then map_option (\<lambda>x. p\<lparr>cp_Status := x\<rparr>) (decode_string v (cp_Status p))
          else if f = CHR ''c'' then map_option (\<lambda>x. p\<lparr>cp_CreatedMS := x\<rparr>) (decode_int64 v (cp_CreatedMS p))
          else map_option (\<lambda>x. p\<lparr>cp_InternalID := x\<rparr>) (decode_uint64 v (cp_InternalID p)))"

fun decode_fields :: "(string \<times> json) list \<Rightarrow> jobCursorPayload \<Rightarrow> jobCursorPayload option" where
  "decode_fields [] p = Some p"
| "decode_fields (m # ms) p = (case decode_field m p of None \<Rightarrow> None | Some p' \<Rightarrow> decode_fields ms p')"

definition zero_payload :: jobCursorPayload where
  "zero_payload = \<lparr>cp_Version = 0, cp_TenantID = [], cp_Status = [], cp_CreatedMS = 0, cp_InternalID = 0\<rparr>"

definition decode_payload :: "string \<Rightarrow> jobCursorPayload option" where
  "decode_payload payload =
     (case read_value payload of
        Some (JObject ms, _) \<Rightarrow> decode_fields ms zero_payload
      | Some (JNull, _) \<Rightarrow> Some zero_payload
      | _ \<Rightarrow> None)"

text \<open>\<^verbatim>\<open>strings.Split(encoded, ".")\<close>\<close>

fun split_dots :: "string \<Rightarrow> string list" where
  "split_dots [] = [[]]"
| "split_dots (c # s) =
     (if c = CHR ''.'' then [] # split_dots s
      else (case split_dots s of [] \<Rightarrow> [[c]] | p # ps \<Rightarrow> (c # p) # ps))"

definition cursor_of_payload :: "jobCursorPayload \<Rightarrow> JobCursor" where
  "cursor_of_payload p =
     \<lparr>cu_TenantID = cp_TenantID p, cu_Status = cp_Status p, cu_CreatedAt = cp_CreatedMS p, cu_InternalID = cp_InternalID p\<rparr>"

definition cursor_Decode :: "string \<Rightarrow> string \<Rightarrow> string \<Rightarrow> string \<Rightarrow> JobCursor option" where
  "cursor_Decode key encoded tenantID status =
     (if length key < 32 \<or> length encoded = 0 \<or> length encoded > 512 then None
      else case split_dots encoded of
        [part0, part1] \<Rightarrow>
          (case (b64_decode part0, b64_decode part1) of
             (Some payload, Some providedSignature) \<Rightarrow>
               if providedSignature \<noteq> hmac_sha256 key payload then None
               else (case decode_payload payload of
                 None \<Rightarrow> None
               | Some decoded \<Rightarrow>
                   if cp_Version decoded \<noteq> 1 then None
                   else
                     let cursor = cursor_of_payload decoded in
                     if cu_TenantID cursor \<noteq> tenantID \<or> cu_Status cursor \<noteq> status \<or> \<not> validJobCursor cursor then None
                     else Some cursor)
           | _ \<Rightarrow> None)
      | _ \<Rightarrow> None)"

section \<open>Decoding what was encoded\<close>

lemma b64_encode_length: "3 * length (b64_encode s) \<le> 4 * length s + 2"
  by (induction s rule: b64_encode.induct) (simp_all add: Let_def)

lemma split_dots_plain: "CHR ''.'' \<notin> set s \<Longrightarrow> split_dots s = [s]"
  by (induction s) auto

lemma split_dots_append: "CHR ''.'' \<notin> set s \<Longrightarrow> split_dots (s @ CHR ''.'' # t) = s # split_dots t"
  by (induction s) auto

lemma cursor_names:
  "to_valid ''v'' = ''v''" "to_valid ''t'' = ''t''" "to_valid ''s'' = ''s''" "to_valid ''c'' = ''c''" "to_valid ''i'' = ''i''"
  by (rule to_valid_ascii, simp)+

lemma cursor_status_ascii: "validJobStatusFilter s \<Longrightarrow> to_valid s = s"
  by (rule to_valid_ascii) (auto simp: validJobStatusFilter_def)

lemma cursor_clean:
  assumes "validJobCursor c"
  shows "json_clean (JObject (cursor_members c)) = JObject (cursor_members c)"
proof -
  have "externalIDPattern (cu_TenantID c)" "validJobStatusFilter (cu_Status c)" using assms by (auto simp: validJobCursor_def split: if_splits)
  then show ?thesis
    by (simp add: cursor_members_def text_member_def cursor_names externalID_ascii cursor_status_ascii json_int_def)
qed

definition cursor_sized :: "JobCursor \<Rightarrow> bool" where
  "cursor_sized c \<longleftrightarrow> in_int64 (cu_CreatedAt c) \<and> cu_InternalID c < 2 ^ 64"

lemma decode_numbers:
  "in_int64 i \<Longrightarrow> decode_int64 (json_int i) old = Some i" "n < 2 ^ 64 \<Longrightarrow> decode_uint64 (json_int (int n)) k = Some n"
   apply (simp add: decode_int64_def json_int_def)
  apply (simp add: decode_uint64_def json_int_def int_decimal_def)
  done

lemma decode_fields_cursor:
  assumes "cursor_sized c"
  shows "\<exists>p. decode_fields (cursor_members c) zero_payload = Some p \<and> cp_Version p = 1 \<and> cursor_of_payload p = c"
proof -
  have one: "decode_int64 (json_int 1) old = Some 1" for old by (rule decode_numbers) (simp add: in_int64_def max_int64_def)
  have nums: "decode_int64 (json_int (cu_CreatedAt c)) x = Some (cu_CreatedAt c)"
    "decode_uint64 (json_int (int (cu_InternalID c))) y = Some (cu_InternalID c)" for x y
    using assms decode_numbers by (simp_all add: cursor_sized_def)
  show ?thesis
    by (cases "cu_Status c = []")
      (simp_all add: cursor_members_def text_member_def decode_field_def payload_field_def one nums decode_string_def Let_def
        cursor_of_payload_def zero_payload_def)
qed

lemma decode_payload_cursor:
  assumes "validJobCursor c" "cursor_sized c"
  shows "\<exists>p. decode_payload (cursor_payload c) = Some p \<and> cp_Version p = 1 \<and> cursor_of_payload p = c"
proof -
  have "json_ok 1 (JObject (cursor_members c))" by (auto simp: cursor_members_def text_member_def json_int_def)
  from read_value_text [OF this, of "[]"]
  have "read_value (cursor_payload c) = Some (JObject (cursor_members c), [])"
    using cursor_clean [OF assms(1)] by (simp add: cursor_payload_def maxNestingDepth_def)
  then show ?thesis using decode_fields_cursor [OF assms(2)] by (simp add: decode_payload_def)
qed

lemma cursor_payload_length:
  assumes "validJobCursor c" "cursor_sized c"
  shows "length (cursor_payload c) \<le> 330"
proof -
  have i: "length (cu_TenantID c) = 26" "length (cu_Status c) \<le> 9"
    using assms(1) by (auto simp: validJobCursor_def externalIDPattern_def validJobStatusFilter_def split: if_splits)
  have "members_bound (text_member ''s'' (cu_Status c)) \<le> 66" using text_member_bound [OF i(2), of "''s''"] by simp
  moreover have "length (json_quote (cu_TenantID c)) \<le> 158" using json_quote_length [of "cu_TenantID c"] i(1) by simp
  moreover have "length (int_decimal (cu_CreatedAt c)) \<le> 20" using assms(2) int_decimal_length by (simp add: cursor_sized_def)
  moreover have "length (int_decimal (int (cu_InternalID c))) \<le> 20"
    using nat_decimal_length [of "cu_InternalID c" 19] assms(2) by (simp add: cursor_sized_def int_decimal_def)
  moreover have "length (int_decimal 1) \<le> 20" by (rule int_decimal_length) (simp add: in_int64_def max_int64_def)
  ultimately have "members_bound (cursor_members c) \<le> 328"
    unfolding cursor_members_def members_bound_append by (simp add: members_bound_def [of "_ # _"] members_bound_def [of "[]"] json_int_def)
  then show ?thesis using object_bound [of "cursor_members c"] unfolding cursor_payload_def by linarith
qed

lemma cursor_decode_encoded:
  assumes "cursor_Encode key c = Some e" "cursor_sized c"
  shows "cursor_Decode key e tenant status = (if tenant = cu_TenantID c \<and> status = cu_Status c then Some c else None)" "e \<noteq> []"
proof -
  let ?p = "cursor_payload c"
  have v: "validJobCursor c" "\<not> length key < 32" and e: "e = b64_encode ?p @ CHR ''.'' # b64_encode (hmac_sha256 key ?p)"
    using assms(1) by (auto simp: cursor_Encode_def Let_def split: if_splits)
  have "3 * length (b64_encode ?p) \<le> 4 * 330 + 2" using b64_encode_length [of ?p] cursor_payload_length [OF v(1) assms(2)] by simp
  moreover have "3 * length (b64_encode (hmac_sha256 key ?p)) \<le> 130" using b64_encode_length [of "hmac_sha256 key ?p"] by simp
  ultimately have len: "length e \<le> 512" by (simp add: e)
  have parts: "split_dots e = [b64_encode ?p, b64_encode (hmac_sha256 key ?p)]"
    by (simp add: e split_dots_append split_dots_plain b64_encode_no_dot)
  obtain p where p: "decode_payload ?p = Some p" "cp_Version p = 1" "cursor_of_payload p = c"
    using decode_payload_cursor [OF v(1) assms(2)] by blast
  show "e \<noteq> []" by (simp add: e)
  then show "cursor_Decode key e tenant status = (if tenant = cu_TenantID c \<and> status = cu_Status c then Some c else None)"
    using v len parts p by (auto simp: cursor_Decode_def Let_def)
qed

section \<open>Listing\<close>

record JobListOptions =
  lo_Cursor :: string
  lo_Limit :: int
  lo_Status :: string

record JobListResult =
  lr_Jobs :: "ExternalJobRecord list"
  lr_NextCursor :: string

text \<open>\<open>externalJobSelect\<close> joined with the tenant, bundle and source of the row, before the scan\<close>

definition job_listed :: "db \<Rightarrow> string \<Rightarrow> string \<Rightarrow> job_row \<Rightarrow> bool" where
  "job_listed d tenantExternalID status j \<longleftrightarrow>
     (case tenant_of d j of None \<Rightarrow> False | Some t \<Rightarrow> tn_external_id t = tenantExternalID)
     \<and> bundle_of d j \<noteq> None \<and> source_of d j \<noteq> None \<and> (status = [] \<or> job_status_text (jb_status j) = status)"

definition before_cursor :: "JobCursor option \<Rightarrow> job_row \<Rightarrow> bool" where
  "before_cursor cursor j \<longleftrightarrow>
     (case cursor of
        None \<Rightarrow> True
      | Some c \<Rightarrow> jb_created_at j < cu_CreatedAt c \<or> jb_created_at j = cu_CreatedAt c \<and> jb_id j < cu_InternalID c)"

text \<open>\<^verbatim>\<open>ORDER BY job.created_at DESC, job.id DESC\<close>\<close>

definition newest_first :: "job_row \<Rightarrow> int \<times> int" where
  "newest_first j = (- jb_created_at j, - int (jb_id j))"

definition list_rows :: "db \<Rightarrow> string \<Rightarrow> string \<Rightarrow> JobCursor option \<Rightarrow> job_row list" where
  "list_rows d tenantExternalID status cursor =
     sort_key newest_first (filter (\<lambda>j. job_listed d tenantExternalID status j \<and> before_cursor cursor j) (jobs d))"

definition scan_rows :: "db \<Rightarrow> job_row list \<Rightarrow> ExternalJobRecord list option" where
  "scan_rows d rows = those (map (read_job d) rows)"

definition list_page :: "string \<Rightarrow> string \<Rightarrow> JobListOptions \<Rightarrow> ExternalJobRecord list \<Rightarrow> job_error + JobListResult" where
  "list_page key tenantExternalID options records =
     (let limit = nat (lo_Limit options) in
      if length records > limit then
        let last = records ! (limit - 1) in
        (case cursor_Encode key \<lparr>cu_TenantID = tenantExternalID, cu_Status = lo_Status options,
             cu_CreatedAt = ej_CreatedAt last, cu_InternalID = ej_InternalID last\<rparr> of
           None \<Rightarrow> Inl (RepositoryUnavailable ''encode next cursor'')
         | Some next \<Rightarrow> Inr \<lparr>lr_Jobs = take limit records, lr_NextCursor = next\<rparr>)
      else Inr \<lparr>lr_Jobs = records, lr_NextCursor = []\<rparr>)"

definition job_List :: "string \<Rightarrow> string \<Rightarrow> JobListOptions \<Rightarrow> db \<Rightarrow> job_error + JobListResult" where
  "job_List key tenantExternalID options d =
     (if \<not> externalIDPattern tenantExternalID \<or> lo_Limit options < 1 \<or> lo_Limit options > 100
        \<or> \<not> validJobStatusFilter (lo_Status options) then Inl ErrExternalJobInvalid
      else
        let cursor = (if lo_Cursor options = [] then None
              else cursor_Decode key (lo_Cursor options) tenantExternalID (lo_Status options)) in
        if lo_Cursor options \<noteq> [] \<and> cursor = None then Inl ErrInvalidJobCursor
        else case scan_rows d (take (nat (lo_Limit options) + 1) (list_rows d tenantExternalID (lo_Status options) cursor)) of
          None \<Rightarrow> Inl (RepositoryUnavailable ''scan listed job'')
        | Some records \<Rightarrow> list_page key tenantExternalID options records)"

text \<open>A client that follows the cursors, at most \<open>fuel\<close> requests long.\<close>

fun follow :: "nat \<Rightarrow> string \<Rightarrow> string \<Rightarrow> int \<Rightarrow> string \<Rightarrow> string \<Rightarrow> db \<Rightarrow> ExternalJobRecord list option" where
  "follow 0 key tenant limit status cursor d = None"
| "follow (Suc n) key tenant limit status cursor d =
     (case job_List key tenant \<lparr>lo_Cursor = cursor, lo_Limit = limit, lo_Status = status\<rparr> d of
        Inl _ \<Rightarrow> None
      | Inr r \<Rightarrow>
          if lr_NextCursor r = [] then Some (lr_Jobs r)
          else map_option ((@) (lr_Jobs r)) (follow n key tenant limit status (lr_NextCursor r) d))"

section \<open>The pages\<close>

text \<open>What the listing of a tenant relies on: rows have ids of their own and sizes of their columns, and every
  row of the tenant can be read.\<close>

definition listable :: "db \<Rightarrow> string \<Rightarrow> string \<Rightarrow> bool" where
  "listable d tenant status \<longleftrightarrow> distinct (map jb_id (jobs d))
     \<and> (\<forall>j \<in> set (jobs d). job_listed d tenant status j \<longrightarrow> read_job d j \<noteq> None \<and> jb_created_at j \<noteq> time_zero
          \<and> in_int64 (jb_created_at j) \<and> 0 < jb_id j \<and> jb_id j < 2 ^ 64)"

definition all_rows :: "db \<Rightarrow> string \<Rightarrow> string \<Rightarrow> job_row list" where
  "all_rows d tenant status = list_rows d tenant status None"

definition row_cursor :: "string \<Rightarrow> string \<Rightarrow> job_row \<Rightarrow> JobCursor" where
  "row_cursor tenant status j =
     \<lparr>cu_TenantID = tenant, cu_Status = status, cu_CreatedAt = jb_created_at j, cu_InternalID = jb_id j\<rparr>"

lemma before_row: "before_cursor (Some (row_cursor tenant status x)) j \<longleftrightarrow> newest_first x < newest_first j"
  by (auto simp: before_cursor_def row_cursor_def newest_first_def less_prod_def)

lemma filter_sort_key: "filter P (sort_key f xs) = sort_key f (filter P xs)"
  by (rule filter_sort)

lemma strict_filter:
  fixes f :: "'a \<Rightarrow> 'b :: linorder"
  assumes "sorted_wrt (<) (map f xs)" "k < length xs"
  shows "filter (\<lambda>x. f (xs ! k) < f x) xs = drop (Suc k) xs"
proof -
  have lt: "i < j \<Longrightarrow> j < length xs \<Longrightarrow> f (xs ! i) < f (xs ! j)" for i j
    using sorted_wrt_nth_less [OF assms(1), of i j] by simp
  have "filter (\<lambda>x. f (xs ! k) < f x) (take (Suc k) xs) = []"
  proof (rule filter_False, rule ballI)
    fix x assume "x \<in> set (take (Suc k) xs)"
    then obtain i where "i \<le> k" "i < length xs" "x = xs ! i" by (auto simp: in_set_conv_nth less_Suc_eq_le)
    then show "\<not> f (xs ! k) < f x" using lt [of i k] assms(2) by (cases "i = k") auto
  qed
  moreover have "filter (\<lambda>x. f (xs ! k) < f x) (drop (Suc k) xs) = drop (Suc k) xs"
  proof (rule filter_True, rule ballI)
    fix x assume "x \<in> set (drop (Suc k) xs)"
    then obtain i where "i < length (drop (Suc k) xs)" "x = drop (Suc k) xs ! i" by (metis in_set_conv_nth)
    then have "Suc k + i < length xs" "x = xs ! (Suc k + i)" by simp_all
    then show "f (xs ! k) < f x" using lt [of k "Suc k + i"] by simp
  qed
  ultimately show ?thesis using filter_append [of "\<lambda>x. f (xs ! k) < f x" "take (Suc k) xs" "drop (Suc k) xs"] by simp
qed

lemma all_rows_strict:
  assumes "listable d tenant status"
  shows "sorted_wrt (<) (map newest_first (all_rows d tenant status))"
proof -
  let ?rows = "filter (\<lambda>j. job_listed d tenant status j \<and> before_cursor None j) (jobs d)"
  have "distinct (map jb_id ?rows)" using assms by (simp add: listable_def distinct_map_filter)
  then have "distinct (map newest_first ?rows)" by (auto simp: distinct_map inj_on_def newest_first_def)
  then have "distinct (map newest_first (sort_key newest_first ?rows))" by (simp add: distinct_map)
  then show ?thesis using sorted_sort_key [of newest_first ?rows] by (simp add: all_rows_def list_rows_def strict_sorted_iff)
qed

lemma list_rows_after:
  assumes "listable d tenant status" "k < length (all_rows d tenant status)"
  shows "list_rows d tenant status (Some (row_cursor tenant status (all_rows d tenant status ! k)))
    = drop (Suc k) (all_rows d tenant status)"
proof -
  let ?x = "all_rows d tenant status ! k"
  have "list_rows d tenant status (Some (row_cursor tenant status x)) = filter (\<lambda>j. newest_first x < newest_first j) (all_rows d tenant status)" for x
    unfolding all_rows_def list_rows_def filter_sort_key filter_filter before_row by (simp add: before_cursor_def conj_ac)
  then show ?thesis using strict_filter [OF all_rows_strict [OF assms(1)] assms(2)] by simp
qed

lemma those_map: "\<forall>x \<in> set xs. f x \<noteq> None \<Longrightarrow> those (map f xs) = Some (map (\<lambda>x. the (f x)) xs)"
  by (induction xs) (auto split: option.splits)

lemma read_job_key: "read_job d j \<noteq> None \<Longrightarrow> ej_CreatedAt (the (read_job d j)) = jb_created_at j \<and> ej_InternalID (the (read_job d j)) = jb_id j"
  by (auto simp: read_job_def scanExternalJob_def split: option.splits if_splits)

lemma all_rows_listed: "j \<in> set (all_rows d tenant status) \<Longrightarrow> j \<in> set (jobs d) \<and> job_listed d tenant status j"
  by (auto simp: all_rows_def list_rows_def)

definition listing_ok :: "string \<Rightarrow> string \<Rightarrow> int \<Rightarrow> string \<Rightarrow> db \<Rightarrow> bool" where
  "listing_ok key tenant limit status d \<longleftrightarrow> 32 \<le> length key \<and> externalIDPattern tenant \<and> 1 \<le> limit \<and> limit \<le> 100
     \<and> validJobStatusFilter status \<and> listable d tenant status"

lemma listed_row:
  assumes "listing_ok key tenant limit status d" "j \<in> set (all_rows d tenant status)"
  shows "read_job d j \<noteq> None" "\<exists>e. cursor_Encode key (row_cursor tenant status j) = Some e"
    "cursor_sized (row_cursor tenant status j)"
  using assms all_rows_listed [OF assms(2)]
  by (auto simp: listing_ok_def listable_def cursor_Encode_def validJobCursor_def row_cursor_def cursor_sized_def Let_def)

definition page_start :: "string \<Rightarrow> string \<Rightarrow> string \<Rightarrow> db \<Rightarrow> nat \<Rightarrow> string \<Rightarrow> bool" where
  "page_start key tenant status d k cursor \<longleftrightarrow>
     (if k = 0 then cursor = []
      else k \<le> length (all_rows d tenant status)
        \<and> cursor_Encode key (row_cursor tenant status (all_rows d tenant status ! (k - 1))) = Some cursor)"

text \<open>One page: the next \<open>limit\<close> rows, and the cursor of the page after it when there is one.\<close>

lemma job_List_page:
  assumes ok: "listing_ok key tenant limit status d" and at: "page_start key tenant status d k cursor"
  defines "rows \<equiv> drop k (all_rows d tenant status)" and "page \<equiv> \<lambda>xs. map (\<lambda>j. the (read_job d j)) xs"
  shows "\<exists>r. job_List key tenant \<lparr>lo_Cursor = cursor, lo_Limit = limit, lo_Status = status\<rparr> d = Inr r
    \<and> (if length rows > nat limit
       then lr_Jobs r = page (take (nat limit) rows) \<and> lr_NextCursor r \<noteq> [] \<and> page_start key tenant status d (k + nat limit) (lr_NextCursor r)
       else lr_Jobs r = page rows \<and> lr_NextCursor r = [])"
proof -
  let ?all = "all_rows d tenant status"
  have lst: "listable d tenant status" using ok by (simp add: listing_ok_def)
  obtain c where c: "(if cursor = [] then None else cursor_Decode key cursor tenant status) = c" "cursor \<noteq> [] \<longrightarrow> c \<noteq> None"
    "list_rows d tenant status c = rows"
  proof (cases "k = 0")
    case True
    then show ?thesis using at that [of None] by (simp add: page_start_def rows_def all_rows_def)
  next
    case False
    let ?j = "?all ! (k - 1)"
    have k: "k - 1 < length ?all" and e: "cursor_Encode key (row_cursor tenant status ?j) = Some cursor"
      using at False by (auto simp: page_start_def)
    from k have "?j \<in> set ?all" by simp
    note sz = listed_row(3) [OF ok this]
    note dec = cursor_decode_encoded [OF e sz]
    have "list_rows d tenant status (Some (row_cursor tenant status ?j)) = rows"
      using list_rows_after [OF lst k] False by (simp add: rows_def)
    then show ?thesis using dec by (intro that [of "Some (row_cursor tenant status ?j)"]) (simp_all add: row_cursor_def)
  qed
  let ?shown = "take (nat limit + 1) rows"
  have sub: "set rows \<subseteq> set ?all" by (simp add: rows_def set_drop_subset)
  have read: "\<forall>j \<in> set ?shown. read_job d j \<noteq> None"
    using listed_row(1) [OF ok] sub set_take_subset [of "nat limit + 1" rows] by blast
  have scan: "scan_rows d ?shown = Some (page ?shown)" unfolding scan_rows_def page_def by (rule those_map [OF read])
  have guard: "externalIDPattern tenant" "1 \<le> limit" "limit \<le> 100" "validJobStatusFilter status" using ok by (simp_all add: listing_ok_def)
  have l: "job_List key tenant \<lparr>lo_Cursor = cursor, lo_Limit = limit, lo_Status = status\<rparr> d
      = list_page key tenant \<lparr>lo_Cursor = cursor, lo_Limit = limit, lo_Status = status\<rparr> (page ?shown)"
    using guard c scan by (auto simp: job_List_def Let_def)
  show ?thesis
  proof (cases "length rows > nat limit")
    case True
    let ?last = "rows ! (nat limit - 1)"
    have n: "nat limit - 1 < length rows" "nat limit - 1 < length ?shown" using True guard(2) by (auto simp: min_def)
    then have mem: "?last \<in> set ?all" using sub nth_mem by blast
    have lr: "page ?shown ! (nat limit - 1) = the (read_job d ?last)" using n by (simp add: page_def)
    obtain e where e: "cursor_Encode key (row_cursor tenant status ?last) = Some e" using listed_row(2) [OF ok mem] by blast
    have ne: "e \<noteq> []" by (rule cursor_decode_encoded(2) [OF e listed_row(3) [OF ok mem]])
    have "k + (nat limit - 1) < length ?all" using n(1) by (simp add: rows_def)
    then have "?last = ?all ! (k + nat limit - 1)" using guard(2) by (simp add: rows_def)
    then have "page_start key tenant status d (k + nat limit) e" using e True guard(2) by (auto simp: page_start_def rows_def)
    moreover have "list_page key tenant \<lparr>lo_Cursor = cursor, lo_Limit = limit, lo_Status = status\<rparr> (page ?shown)
        = Inr \<lparr>lr_Jobs = page (take (nat limit) rows), lr_NextCursor = e\<rparr>"
      using True lr e read_job_key [OF listed_row(1) [OF ok mem]]
      by (simp add: list_page_def Let_def row_cursor_def page_def take_map min_def)
    ultimately show ?thesis using l ne True by simp
  next
    case False
    then have "length (page ?shown) \<le> nat limit" "?shown = rows" by (simp_all add: page_def)
    then show ?thesis using l False by (simp add: list_page_def Let_def)
  qed
qed

lemma follow_rows:
  assumes "listing_ok key tenant limit status d"
  shows "page_start key tenant status d k cursor \<Longrightarrow> length (all_rows d tenant status) - k < fuel \<Longrightarrow>
    follow fuel key tenant limit status cursor d = Some (map (\<lambda>j. the (read_job d j)) (drop k (all_rows d tenant status)))"
proof (induction fuel arbitrary: k cursor)
  case (Suc n)
  let ?rows = "drop k (all_rows d tenant status)"
  obtain r where r: "job_List key tenant \<lparr>lo_Cursor = cursor, lo_Limit = limit, lo_Status = status\<rparr> d = Inr r"
    "if length ?rows > nat limit
     then lr_Jobs r = map (\<lambda>j. the (read_job d j)) (take (nat limit) ?rows) \<and> lr_NextCursor r \<noteq> []
       \<and> page_start key tenant status d (k + nat limit) (lr_NextCursor r)
     else lr_Jobs r = map (\<lambda>j. the (read_job d j)) ?rows \<and> lr_NextCursor r = []"
    using job_List_page [OF assms Suc.prems(1)] by blast
  show ?case
  proof (cases "length ?rows > nat limit")
    case True
    have "1 \<le> limit" using assms by (simp add: listing_ok_def)
    then have "length (all_rows d tenant status) - (k + nat limit) < n" using Suc.prems(2) True by auto
    from Suc.IH [OF _ this] have "follow n key tenant limit status (lr_NextCursor r) d
        = Some (map (\<lambda>j. the (read_job d j)) (drop (k + nat limit) (all_rows d tenant status)))" using r True by simp
    moreover have "take (nat limit) ?rows @ drop (k + nat limit) (all_rows d tenant status) = ?rows"
      by (metis append_take_drop_id drop_drop add.commute)
    ultimately show ?thesis using r True by (simp flip: map_append)
  next
    case False
    then show ?thesis using r by simp
  qed
qed simp

end
