(* ===== verification/Job_Frame.thy ===== *)
theory Job_Frame
  imports Job_Store
begin

text \<open>
  What the transactions of workers and clients on jobs leave alone: tenants but for their fairness stamp,
  callbacks, bundles and sources. A job that can be read stays readable under the same names.
\<close>

section \<open>Tables the job transactions do not write\<close>

definition tenant_name :: "tenant_row \<Rightarrow> nat \<times> string \<times> string \<times> policy_json" where
  "tenant_name t = (tn_id t, tn_external_id t, tn_status t, tn_policy t)"

definition static :: "db \<Rightarrow> (nat \<times> string \<times> string \<times> policy_json) list \<times> callback_row list \<times> bundle_row list \<times> source_row list" where
  "static d = (map tenant_name (tenants d), callbacks d, bundles d, sources d)"

lemma static_simps [simp]:
  "static (d\<lparr>jobs := js\<rparr>) = static d" "static (d\<lparr>attempts := as\<rparr>) = static d" "static (d\<lparr>daily := ds\<rparr>) = static d"
  "static (d\<lparr>outbox := es\<rparr>) = static d" "static (update_jobs p f d) = static d" "static (wake_deferred t day now d) = static d"
  "static (advanceTenantFairness t now d) = static d" "static (ensure_daily t day d) = static d"
  "static (reserved_db t day m d) = static d"
  by (simp_all add: static_def update_jobs_def wake_deferred_def advanceTenantFairness_def ensure_daily_def reserved_db_def
      map_sql_update tenant_name_def)

lemma insert_static: "insertTerminalWebhookEvent ids w now job d = Inr (e, d') \<Longrightarrow> static d' = static d"
  by (auto dest!: insert_frame)

lemma emit_static: "emit_terminal what ids w now i d = Inr (job, d') \<Longrightarrow> static d' = static d"
  by (auto simp: emit_terminal_def result_simps split: option.splits dest: insert_static)

lemma reserve_static: "reserveDailyExecution t day L m d = Inr (dec, d1) \<Longrightarrow> static d1 = static d"
  by (erule reserve_cases) simp_all

lemma release_static: "releaseAttemptReservation t i n now cs full d = Inr (c, d1) \<Longrightarrow> static d1 = static d"
  by (elim releaseE) simp

lemma expire_static: "expireAttempt t i n now d = Inr d1 \<Longrightarrow> static d1 = static d"
  by (auto simp: expireAttempt_def result_simps split: if_splits dest: release_static)

lemma settle_expired_static: "settle_expired env what f j d = Inr b \<Longrightarrow> static (branch_db b) = static d"
  by (auto simp: settle_expired_def branch_db_def result_simps dest!: emit_static)

lemma fail_impossible_static: "failImpossibleDailyExecution env t i s n d = Inr d' \<Longrightarrow> static d' = static d"
  by (auto simp: failImpossibleDailyExecution_def Let_def result_simps split: if_splits dest!: emit_static)

lemma reserve_or_settle_static:
  assumes "reserve_or_settle env t j L m p f d = Inr b"
  shows "static (branch_db b) = static d"
proof -
  obtain dec d1 where res: "reserveDailyExecution (tn_id t) (ce_day env) L m d = Inr (dec, d1)"
    using assms by (auto simp: reserve_or_settle_def result_simps)
  then have "static (branch_db b) = static d1"
    using assms by (cases dec) (auto simp: reserve_or_settle_def branch_db_def result_simps dest!: fail_impossible_static)
  with reserve_static [OF res] show ?thesis by simp
qed

lemma claim_recover_static:
  assumes "claim_recover env t policy j m d = Inr b"
  shows "static (branch_db b) = static d"
proof -
  obtain d1 where ex: "expireAttempt (tn_id t) (jb_id j) (jb_attempt_no j) (ce_now env) d = Inr d1"
    using assms by (auto simp: claim_recover_def result_simps)
  then have "static (branch_db b) = static d1"
    using assms by (fastforce simp: claim_recover_def split: if_splits dest: settle_expired_static reserve_or_settle_static)
  with expire_static [OF ex] show ?thesis by simp
qed

lemma claim_static:
  assumes "claimOneWithClock env w l d = Inr (c, d')"
  shows "static d' = static d"
proof -
  obtain t policy j where sj: "select_claim_job env t d = Some j"
    and cs: "claim_selected env w l t policy j d = Inr (c, d')"
    using assms by (auto simp: claimOneWithClock_def split: option.splits)
  obtain m b where br: "if jb_status j = JobStatusRunning then claim_recover env t policy j m d = Inr b
      else claim_queued env t policy j m d = Inr b"
    and out: "(\<exists>d1. b = CommitRetry d1 \<and> c = None \<and> d' = d1)
     \<or> (\<exists>d1 claim. b = Proceed d1 \<and> c = Some claim \<and> claim_commit env w l t j m d1 = Inr (claim, d'))"
    using cs select_job_facts(3) [OF sj] by (rule claim_selectedE)
  have "static (branch_db b) = static d"
    using br by (auto simp: claim_queued_def split: if_splits sum.splits dest: claim_recover_static reserve_or_settle_static)
  moreover have "static d' = static d1" if "claim_commit env w l t j m d1 = Inr (claim, d')" for d1 claim
    using that by (auto simp: claim_commit_def Let_def split: if_splits option.splits)
  ultimately show ?thesis using out by (auto simp: branch_db_def)
qed

lemma finish_static:
  assumes "settleAttemptReservation claim now cs full (update_jobs (claim_row claim) f d) = Inr (c, d1)"
    "finishAttempt claim st code c now d1 = Inr d2"
  shows "static d2 = static d"
  using assms release_static [of _ _ _ now cs full "update_jobs (claim_row claim) f d" c d1]
  by (auto simp: settleAttemptReservation_def finishAttempt_def Let_def split: if_splits)

lemma store_step_static: "store_step d d' \<Longrightarrow> static d' = static d"
proof (induction rule: store_step.induct)
  case (store_claim env w l d c d')
  then show ?case by (rule claim_static)
next
  case (store_heartbeat claim l now d d')
  then show ?case by (auto simp: job_Heartbeat_def Let_def split: if_splits)
next
  case (store_complete env claim r d d')
  then show ?case by (rule job_CompleteE) (drule (1) finish_static, drule emit_static, simp)
next
  case (store_fail env claim fl d x d')
  then show ?case
    by (rule job_FailInfrastructureE) (drule (1) finish_static, auto split: if_splits dest: emit_static)
next
  case (store_cancel env te je d job d')
  then show ?case
    by (auto simp: job_Cancel_def Let_def result_simps split: if_splits option.splits JobStatus.splits dest!: insert_static)
qed

section \<open>Readable jobs stay readable\<close>

definition names_job :: "string \<Rightarrow> string \<Rightarrow> db \<Rightarrow> job_row \<Rightarrow> bool" where
  "names_job tenant i d j \<longleftrightarrow> j \<in> set (jobs d) \<and> job_named d tenant i j
     \<and> (\<exists>s. source_of d j = Some s \<and> 0 < so_key_version s \<and> so_key_version s \<le> 65535)"

lemma find_tenant:
  "map tenant_name ts = map tenant_name us \<Longrightarrow>
     map_option tenant_name (List.find (\<lambda>t. tn_id t = i) ts) = map_option tenant_name (List.find (\<lambda>t. tn_id t = i) us)"
proof (induction ts arbitrary: us)
  case (Cons t ts)
  then obtain u vs where us: "us = u # vs" and e: "tenant_name t = tenant_name u" "map tenant_name ts = map tenant_name vs"
    by (cases us) auto
  then have "tn_id t = tn_id u" by (simp add: tenant_name_def)
  then show ?case using Cons.IH [OF e(2)] us e(1) by simp
qed simp

lemma static_reads:
  assumes "static d' = static d" "job_name j' = job_name j"
  shows "map_option tenant_name (tenant_of d' j') = map_option tenant_name (tenant_of d j)"
    "bundle_of d' j' = bundle_of d j" "source_of d' j' = source_of d j" "callback_external_id d' j' = callback_external_id d j"
  using assms find_tenant [of "tenants d'" "tenants d" "jb_tenant_id j"]
  by (simp_all add: static_def job_name_def tenant_of_def bundle_of_def source_of_def callback_external_id_def cong: option.case_cong)

lemma static_named:
  assumes "static d' = static d" "job_name j' = job_name j"
  shows "job_named d' tenant i j' \<longleftrightarrow> job_named d tenant i j"
proof -
  have "(case tenant_of d' j' of None \<Rightarrow> False | Some t \<Rightarrow> tn_external_id t = tenant)
      = (case tenant_of d j of None \<Rightarrow> False | Some t \<Rightarrow> tn_external_id t = tenant)"
    using static_reads(1) [OF assms] by (auto simp: tenant_name_def split: option.splits)
  moreover have "jb_external_id j' = jb_external_id j" using assms(2) by (simp add: job_name_def)
  ultimately show ?thesis using static_reads(2,3) [OF assms] by (simp add: job_named_def)
qed

lemma names_job_step:
  assumes "store_step d d'" "names_job tenant i d j"
  shows "\<exists>j'. names_job tenant i d' j' \<and> job_name j' = job_name j"
proof -
  obtain j' where j': "j' \<in> set (jobs d')" "row_advances j j'"
    using list_all2_mem [OF store_step_advance [OF assms(1)]] assms(2) by (auto simp: names_job_def)
  have n: "job_name j' = job_name j" using j'(2) by (simp add: row_advances_def)
  note st = store_step_static [OF assms(1)]
  show ?thesis
    using assms(2) j'(1) n static_named [OF st n] static_reads(3) [OF st n] by (auto simp: names_job_def)
qed

end
