(* ===== verification/Job_Requests.thy ===== *)
theory Job_Requests
  imports Webhook_Delivery
begin

text \<open>
  Judge requests of clients and their identity (\<^verbatim>\<open>internal/external/job_request.go\<close>): the idempotency key with its
  digest, and the hash of the canonical JSON form by which a repeated request is recognised.
\<close>

section \<open>Requests\<close>

record JudgeJobRequest =
  jr_BundleID :: string
  jr_Language :: string
  jr_SourceCode :: string
  jr_StopOnFailure :: bool
  jr_CallbackID :: string
  jr_ClientReference :: string

definition ValidateIdempotencyKey :: "string \<Rightarrow> bool" where
  "ValidateIdempotencyKey key =
     (if length key < 16 \<or> length key > 128 then False
      else list_all (\<lambda>c. \<not> (byte c < 33 \<or> byte c > 126)) key)"

definition DigestIdempotencyKey :: "string \<Rightarrow> string \<Rightarrow> string option" where
  "DigestIdempotencyKey key pepper =
     (if \<not> ValidateIdempotencyKey key then None
      else if length pepper < 32 then None
      else Some (hmac_sha256 pepper key))"

definition canonical_members :: "JudgeJobRequest \<Rightarrow> (string \<times> json) list" where
  "canonical_members request =
     [(''bundleId'', JString (jr_BundleID request)), (''language'', JString (jr_Language request)),
      (''sourceSha256'', JString (hex_encode (sha256 (jr_SourceCode request)))),
      (''sourceSizeBytes'', json_int (int (length (jr_SourceCode request)))),
      (''stopOnFailure'', JBool (jr_StopOnFailure request))]
     @ text_member ''callbackId'' (jr_CallbackID request) @ text_member ''clientReference'' (jr_ClientReference request)"

definition canonical_text :: "JudgeJobRequest \<Rightarrow> string" where
  "canonical_text request = json_text (JObject (canonical_members request))"

definition CanonicalJobRequestHash :: "JudgeJobRequest \<Rightarrow> int \<Rightarrow> string option" where
  "CanonicalJobRequestHash request maxSourceBytes =
     (if \<not> externalIDPattern (jr_BundleID request) then None
      else if \<not> languageIDPattern (jr_Language request) then None
      else if maxSourceBytes \<le> 0 \<or> jr_SourceCode request = [] \<or> int (length (jr_SourceCode request)) > maxSourceBytes
        \<or> \<not> utf8_valid (jr_SourceCode request) then None
      else if jr_CallbackID request \<noteq> [] \<and> \<not> externalIDPattern (jr_CallbackID request) then None
      else if length (jr_ClientReference request) > 255 \<or> \<not> utf8_valid (jr_ClientReference request) then None
      else Some (sha256 (canonical_text request)))"

section \<open>The canonical form determines the request\<close>

lemma languageID_ascii: "languageIDPattern s \<Longrightarrow> to_valid s = s"
  by (rule to_valid_ascii)
    (auto simp: languageIDPattern_def lower_letter_def digit_def list_all_iff split: list.splits)

lemma hex_ascii: "to_valid (hex_encode s) = hex_encode s"
proof (rule to_valid_ascii)
  have "byte (hex_digit n) < 128" if "n < 16" for n
    using that by (simp add: hex_digit_def byte_char_of)
  then have "byte (hex_digit (byte c div 16)) < 128 \<and> byte (hex_digit (byte c mod 16)) < 128" for c
    using byte_lt [of c] by (simp add: less_mult_imp_div_less)
  then show "list_all (\<lambda>c. byte c < 128) (hex_encode s)"
    by (induction s) (simp_all add: hex_encode_Cons, simp add: hex_encode_def)
qed

lemma canonical_keys:
  "to_valid ''bundleId'' = ''bundleId''" "to_valid ''language'' = ''language''" "to_valid ''sourceSha256'' = ''sourceSha256''"
  "to_valid ''sourceSizeBytes'' = ''sourceSizeBytes''" "to_valid ''stopOnFailure'' = ''stopOnFailure''"
  "to_valid ''callbackId'' = ''callbackId''" "to_valid ''clientReference'' = ''clientReference''"
  by (rule to_valid_ascii, simp)+

lemma canonical_clean:
  assumes "CanonicalJobRequestHash request n = Some h"
  shows "json_clean (JObject (canonical_members request)) = JObject (canonical_members request)"
proof -
  have "externalIDPattern (jr_BundleID request)" "languageIDPattern (jr_Language request)" "utf8_valid (jr_ClientReference request)"
    "jr_CallbackID request = [] \<or> externalIDPattern (jr_CallbackID request)"
    using assms by (auto simp: CanonicalJobRequestHash_def split: if_splits)
  then show ?thesis
    by (auto simp: canonical_members_def text_member_def canonical_keys externalID_ascii languageID_ascii hex_ascii to_valid_id json_int_def)
qed

lemma canonical_text_inj:
  assumes "CanonicalJobRequestHash r n = Some h" "CanonicalJobRequestHash r' n' = Some h'" "canonical_text r = canonical_text r'"
  shows "canonical_members r = canonical_members r'"
proof -
  have ok: "json_ok 1 (JObject (canonical_members q))" for q
    by (auto simp: canonical_members_def text_member_def json_int_def)
  have "read_value (canonical_text q) = Some (json_clean (JObject (canonical_members q)), [])" for q
    using read_value_text [OF ok, of "[]" q] by (simp add: canonical_text_def maxNestingDepth_def)
  from this [of r] this [of r'] assms(3) canonical_clean [OF assms(1)] canonical_clean [OF assms(2)]
  show ?thesis by simp
qed

lemma text_members_inj:
  "k \<noteq> l \<Longrightarrow> text_member k a @ text_member l b = text_member k a' @ text_member l b' \<Longrightarrow> a = a' \<and> b = b'"
  by (auto simp: text_member_def split: if_splits)

lemma canonical_members_inj:
  assumes "canonical_members r = canonical_members r'"
  shows "jr_BundleID r = jr_BundleID r'" "jr_Language r = jr_Language r'" "sha256 (jr_SourceCode r) = sha256 (jr_SourceCode r')"
    "jr_StopOnFailure r = jr_StopOnFailure r'" "jr_CallbackID r = jr_CallbackID r'" "jr_ClientReference r = jr_ClientReference r'"
proof -
  have at: "canonical_members r ! k = canonical_members r' ! k" for k using assms by simp
  show "jr_BundleID r = jr_BundleID r'" "jr_Language r = jr_Language r'" "jr_StopOnFailure r = jr_StopOnFailure r'"
    using at [of 0] at [of 1] at [of 4] by (simp_all add: canonical_members_def)
  show "sha256 (jr_SourceCode r) = sha256 (jr_SourceCode r')"
    using at [of 2] hex_encode_inj by (simp add: canonical_members_def)
  have "drop 5 (canonical_members r) = drop 5 (canonical_members r')" using assms by simp
  then have "text_member ''callbackId'' (jr_CallbackID r) @ text_member ''clientReference'' (jr_ClientReference r)
      = text_member ''callbackId'' (jr_CallbackID r') @ text_member ''clientReference'' (jr_ClientReference r')"
    by (simp add: canonical_members_def)
  from text_members_inj [OF _ this] show "jr_CallbackID r = jr_CallbackID r'" "jr_ClientReference r = jr_ClientReference r'"
    by simp_all
qed

section \<open>Properties\<close>

text \<open>C0: requests are told apart. If two requests have the same canonical hash, they are the same request, unless
  SHA-256 collides on their sources or on their canonical texts: no reordering, escaping or omission of empty
  fields confuses two different requests.\<close>

theorem request_hash_identifies:
  assumes "CanonicalJobRequestHash r n = Some h" and "CanonicalJobRequestHash r' n' = Some h"
  shows "r = r' \<or> jr_SourceCode r \<noteq> jr_SourceCode r' \<and> sha256 (jr_SourceCode r) = sha256 (jr_SourceCode r')
    \<or> canonical_text r \<noteq> canonical_text r' \<and> sha256 (canonical_text r) = sha256 (canonical_text r')"
proof (cases "canonical_text r = canonical_text r'")
  case True
  note same = canonical_members_inj [OF canonical_text_inj [OF assms True]]
  show ?thesis using same by (cases "jr_SourceCode r = jr_SourceCode r'") (simp_all add: JudgeJobRequest.equality)
next
  case False
  then show ?thesis using assms by (auto simp: CanonicalJobRequestHash_def split: if_splits)
qed

definition rq_example :: JudgeJobRequest where
  "rq_example = \<lparr>jr_BundleID = ''bundleaaaaaaaaaaaaaaaaaaaa'', jr_Language = ''cpp17'', jr_SourceCode = ''int main(){}'',
     jr_StopOnFailure = True, jr_CallbackID = [], jr_ClientReference = ''r1''\<rparr>"

lemma rq_example_simps:
  "jr_BundleID rq_example = ''bundleaaaaaaaaaaaaaaaaaaaa''" "jr_Language rq_example = ''cpp17''"
  "jr_SourceCode rq_example = ''int main(){}''" "jr_CallbackID rq_example = []" "jr_ClientReference rq_example = ''r1''"
  by (simp_all add: rq_example_def)

lemma rq_example_hash: "CanonicalJobRequestHash rq_example 12 = Some (sha256 (canonical_text rq_example))"
proof -
  have "externalIDPattern ''bundleaaaaaaaaaaaaaaaaaaaa''" "languageIDPattern ''cpp17''" by code_simp+
  moreover have "utf8_valid ''int main(){}''" "utf8_valid ''r1''" by (rule utf8_valid_ascii, simp)+
  ultimately show ?thesis by (simp add: CanonicalJobRequestHash_def rq_example_simps)
qed

theorem request_hash_identifies_witness:
  "CanonicalJobRequestHash rq_example 12 \<noteq> None
    \<and> (rq_example = rq_example\<lparr>jr_ClientReference := ''r1''\<rparr> \<or> jr_SourceCode rq_example \<noteq> jr_SourceCode rq_example
       \<or> canonical_text rq_example \<noteq> canonical_text (rq_example\<lparr>jr_ClientReference := ''r1''\<rparr>))"
proof -
  have "rq_example\<lparr>jr_ClientReference := ''r1''\<rparr> = rq_example" by (simp add: rq_example_def)
  then show ?thesis using request_hash_identifies [OF rq_example_hash rq_example_hash] rq_example_hash by auto
qed

end
