(* ===== verification/Go_Aes.thy ===== *)
theory Go_Aes
  imports Go_Crypto
begin

text \<open>
  AES-256 in Galois/counter mode with a 12-byte nonce, as \<^verbatim>\<open>crypto/aes\<close> and \<^verbatim>\<open>crypto/cipher\<close> provide it: the block
  cipher by its field arithmetic, counter mode, the authentication tag, sealing and opening.
\<close>

unbundle bit_operations_syntax

type_synonym octets = "8 word list"

section \<open>The block cipher\<close>

definition xtime :: "8 word \<Rightarrow> 8 word" where
  "xtime x = push_bit 1 x XOR (if bit x 7 then 0x1b else 0)"

definition gf_mul :: "8 word \<Rightarrow> 8 word \<Rightarrow> 8 word" where
  "gf_mul a b = fold (\<lambda>i acc. if bit b i then acc XOR (xtime ^^ i) a else acc) [0..<8] 0"

definition gf_inv :: "8 word \<Rightarrow> 8 word" where
  "gf_inv x = (gf_mul x ^^ 253) x"

definition sub_byte :: "8 word \<Rightarrow> 8 word" where
  "sub_byte x = (let i = gf_inv x in i XOR word_rotl 1 i XOR word_rotl 2 i XOR word_rotl 3 i XOR word_rotl 4 i XOR 0x63)"

definition xor_octets :: "octets \<Rightarrow> octets \<Rightarrow> octets" where
  "xor_octets xs ys = map2 (XOR) xs ys"

fun pieces :: "nat \<Rightarrow> nat \<Rightarrow> 'a list \<Rightarrow> 'a list list" where
  "pieces n 0 xs = []"
| "pieces n (Suc k) xs = take n xs # pieces n k (drop n xs)"

definition next_key_word :: "octets list \<Rightarrow> octets list" where
  "next_key_word ws =
     (let i = length ws; temp = last ws;
          temp' = (if i mod 8 = 0 then xor_octets (map sub_byte (rotate1 temp)) [(xtime ^^ (i div 8 - 1)) 1, 0, 0, 0]
                   else if i mod 8 = 4 then map sub_byte temp else temp) in
      ws @ [xor_octets (ws ! (i - 8)) temp'])"

definition round_keys :: "octets \<Rightarrow> octets list" where
  "round_keys key = pieces 16 15 (concat ((next_key_word ^^ 52) (pieces 4 8 key)))"

definition shift_rows :: "octets \<Rightarrow> octets" where
  "shift_rows s = map (\<lambda>i. s ! ((i + 4 * (i mod 4)) mod 16)) [0..<16]"

definition mix_column :: "octets \<Rightarrow> octets" where
  "mix_column c = map (\<lambda>i. xtime (c ! i) XOR (xtime (c ! ((i + 1) mod 4)) XOR c ! ((i + 1) mod 4))
     XOR c ! ((i + 2) mod 4) XOR c ! ((i + 3) mod 4)) [0..<4]"

definition aes_round :: "octets \<Rightarrow> octets \<Rightarrow> octets" where
  "aes_round k s = xor_octets (concat (map mix_column (pieces 4 4 (shift_rows (map sub_byte s))))) k"

definition aes_block :: "octets \<Rightarrow> octets \<Rightarrow> octets" where
  "aes_block key block =
     (let ks = round_keys key; s = fold aes_round (take 13 (tl ks)) (xor_octets block (hd ks)) in
      xor_octets (shift_rows (map sub_byte s)) (last ks))"

section \<open>Counter mode and authentication\<close>

definition octets :: "string \<Rightarrow> octets" where "octets s = map (\<lambda>c. of_nat (byte c)) s"
definition bytes :: "octets \<Rightarrow> string" where "bytes ws = map (\<lambda>w. char_of (unat w)) ws"

definition counter_block :: "octets \<Rightarrow> nat \<Rightarrow> octets" where
  "counter_block nonce n = nonce @ octets (be_bytes 4 (n mod 2 ^ 32))"

definition key_stream :: "octets \<Rightarrow> octets \<Rightarrow> nat \<Rightarrow> octets" where
  "key_stream key nonce n = concat (map (\<lambda>i. aes_block key (counter_block nonce (i + 2))) [0..<(n + 15) div 16])"

text \<open>Exclusive or with the key stream, cut or padded with zeros to the length of the text.\<close>

definition gcm_crypt :: "octets \<Rightarrow> octets \<Rightarrow> octets \<Rightarrow> octets" where
  "gcm_crypt key nonce text =
     (let ks = key_stream key nonce (length text) in
      map (\<lambda>i. text ! i XOR (if i < length ks then ks ! i else 0)) [0..<length text])"

definition block_word :: "octets \<Rightarrow> 128 word" where
  "block_word b = foldl (\<lambda>n w. push_bit 8 n OR ucast w) 0 b"

definition word_block :: "128 word \<Rightarrow> octets" where
  "word_block w = map (\<lambda>i. ucast (drop_bit (8 * (15 - i)) w)) [0..<16]"

definition ghash_mul :: "128 word \<Rightarrow> 128 word \<Rightarrow> 128 word" where
  "ghash_mul x y = fst (fold
     (\<lambda>i (z, v). (if bit x (127 - i) then z XOR v else z,
                 if bit v 0 then drop_bit 1 v XOR push_bit 120 0xe1 else drop_bit 1 v)) [0..<128] (0, y))"

definition pad16 :: "octets \<Rightarrow> octets" where
  "pad16 xs = xs @ replicate ((16 - length xs mod 16) mod 16) 0"

definition ghash :: "128 word \<Rightarrow> octets \<Rightarrow> octets \<Rightarrow> 128 word" where
  "ghash h aad text =
     (let input = pad16 aad @ pad16 text @ octets (be_bytes 8 (8 * length aad)) @ octets (be_bytes 8 (8 * length text)) in
      foldl (\<lambda>y b. ghash_mul (y XOR block_word b) h) 0 (pieces 16 (length input div 16) input))"

definition gcm_tag :: "octets \<Rightarrow> octets \<Rightarrow> octets \<Rightarrow> octets \<Rightarrow> octets" where
  "gcm_tag key nonce aad text =
     (let h = block_word (aes_block key (replicate 16 0)) in
      xor_octets (word_block (ghash h aad text)) (aes_block key (counter_block nonce 1)))"

definition gcm_Seal :: "string \<Rightarrow> string \<Rightarrow> string \<Rightarrow> string \<Rightarrow> string" where
  "gcm_Seal key nonce plaintext aad =
     (let text = gcm_crypt (octets key) (octets nonce) (octets plaintext) in
      bytes (text @ gcm_tag (octets key) (octets nonce) (octets aad) text))"

definition gcm_Open :: "string \<Rightarrow> string \<Rightarrow> string \<Rightarrow> string \<Rightarrow> string option" where
  "gcm_Open key nonce sealed aad =
     (if length sealed < 16 then None
      else
        let n = length sealed - 16; text = octets (take n sealed) in
        if octets (drop n sealed) \<noteq> gcm_tag (octets key) (octets nonce) (octets aad) text then None
        else Some (bytes (gcm_crypt (octets key) (octets nonce) text)))"

section \<open>Opening what was sealed\<close>

lemma octets_bytes [simp]: "octets (bytes ws) = ws"
proof -
  have "byte (char_of (unat w)) = unat w" for w :: "8 word"
    using unsigned_less [of w, where ?'a = nat] by (intro byte_char_of) simp
  then show ?thesis by (simp add: octets_def bytes_def comp_def)
qed

lemma bytes_octets [simp]: "bytes (octets s) = s"
proof -
  have "char_of (unat (of_nat (byte c) :: 8 word)) = c" for c
    using byte_lt [of c] by (simp add: unat_of_nat)
  then show ?thesis by (simp add: octets_def bytes_def comp_def)
qed

lemma length_octets [simp]: "length (octets s) = length s" "length (bytes ws) = length ws"
  by (simp_all add: octets_def bytes_def)

lemma length_gcm_crypt [simp]: "length (gcm_crypt key nonce text) = length text"
  by (simp add: gcm_crypt_def Let_def)

lemma gcm_crypt_twice: "gcm_crypt key nonce (gcm_crypt key nonce text) = text"
  by (rule nth_equalityI) (simp_all add: gcm_crypt_def Let_def xor.assoc)

lemma length_word_block [simp]: "length (word_block w) = 16"
  by (simp add: word_block_def)

lemma length_shift_rows [simp]: "length (shift_rows s) = 16"
  by (simp add: shift_rows_def)

lemma length_pieces [simp]: "length (pieces n k xs) = k"
  by (induction k arbitrary: xs) simp_all

lemma pieces_lengths: "n * k \<le> length xs \<Longrightarrow> p \<in> set (pieces n k xs) \<Longrightarrow> length p = n"
proof (induction k arbitrary: xs)
  case (Suc k)
  have "n * k \<le> length (drop n xs)" using Suc.prems(1) by simp
  then show ?case using Suc.IH [of "drop n xs"] Suc.prems by auto
qed simp

lemma next_key_word_lengths:
  assumes "8 \<le> length ws" "\<forall>w \<in> set ws. length w = 4"
  shows "8 \<le> length (next_key_word ws)" "\<forall>w \<in> set (next_key_word ws). length w = 4" "length (next_key_word ws) = Suc (length ws)"
proof -
  have "ws \<noteq> []" "length ws - 8 < length ws" using assms(1) by auto
  then have "length (last ws) = 4" "length (ws ! (length ws - 8)) = 4" using assms(2) by simp_all
  then show "8 \<le> length (next_key_word ws)" "\<forall>w \<in> set (next_key_word ws). length w = 4" "length (next_key_word ws) = Suc (length ws)"
    using assms by (auto simp: next_key_word_def xor_octets_def Let_def)
qed

lemma key_words_lengths:
  assumes "8 \<le> length ws" "\<forall>w \<in> set ws. length w = 4"
  shows "8 \<le> length ((next_key_word ^^ n) ws) \<and> (\<forall>w \<in> set ((next_key_word ^^ n) ws). length w = 4)
    \<and> length ((next_key_word ^^ n) ws) = length ws + n"
proof (induction n)
  case (Suc n)
  then show ?case using next_key_word_lengths [of "(next_key_word ^^ n) ws"] by simp
qed (use assms in simp)

lemma length_aes_block:
  assumes "length key = 32"
  shows "length (aes_block key b) = 16"
proof -
  have "length w = 4" if "w \<in> set (pieces 4 8 key)" for w by (rule pieces_lengths [OF _ that]) (simp add: assms)
  then have w: "\<forall>w \<in> set ((next_key_word ^^ 52) (pieces 4 8 key)). length w = 4"
    "length ((next_key_word ^^ 52) (pieces 4 8 key)) = 60"
    using key_words_lengths [of "pieces 4 8 key" 52] by simp_all
  have "length (concat ws) = 4 * length ws" if "\<forall>w \<in> set ws. length w = 4" for ws :: "octets list"
    using that by (induction ws) auto
  from this [OF w(1)] w(2) have "length (concat ((next_key_word ^^ 52) (pieces 4 8 key))) = 240" by simp
  then have "length k = 16" if "k \<in> set (round_keys key)" for k
    using pieces_lengths [of 16 15 "concat ((next_key_word ^^ 52) (pieces 4 8 key))" k] that by (simp add: round_keys_def)
  moreover have "last (round_keys key) \<in> set (round_keys key)"
    by (rule last_in_set) (simp add: round_keys_def flip: length_greater_0_conv)
  ultimately show ?thesis by (simp add: aes_block_def xor_octets_def Let_def)
qed

lemma length_gcm_tag: "length key = 32 \<Longrightarrow> length (gcm_tag key nonce aad text) = 16"
  by (simp add: gcm_tag_def xor_octets_def Let_def length_aes_block)

lemma length_gcm_Seal: "length key = 32 \<Longrightarrow> length (gcm_Seal key nonce plaintext aad) = length plaintext + 16"
  by (simp add: gcm_Seal_def Let_def length_gcm_tag)

lemma gcm_Open_Seal:
  assumes "length key = 32"
  shows "gcm_Open key nonce (gcm_Seal key nonce plaintext aad) aad = Some plaintext"
proof -
  define body where "body = gcm_crypt (octets key) (octets nonce) (octets plaintext)"
  define tag where "tag = gcm_tag (octets key) (octets nonce) (octets aad) body"
  have t: "length tag = 16" "length body = length plaintext" by (simp_all add: tag_def body_def length_gcm_tag assms)
  have s: "gcm_Seal key nonce plaintext aad = bytes body @ bytes tag" by (simp add: gcm_Seal_def Let_def body_def tag_def bytes_def)
  then show ?thesis
    using t gcm_crypt_twice [of "octets key" "octets nonce" "octets plaintext", folded body_def]
    by (simp add: gcm_Open_def Let_def tag_def)
qed

end
