(* ===== verification/Secret_Ciphers.thy ===== *)
theory Secret_Ciphers
  imports Go_Aes Webhook_Delivery
begin

text \<open>
  Encryption of sources and callback secrets (\<^verbatim>\<open>internal/external/source_crypto.go\<close> and
  \<^verbatim>\<open>internal/external/callback_crypto.go\<close>): key rings, the authenticated data that binds a ciphertext to its place,
  encryption and decryption with verification of the metadata. A key ring is an association list from version
  to key; the nonce read from the random source is an argument, \<open>None\<close> when the read fails.
\<close>

section \<open>Key rings\<close>

record secret_cipher =
  ci_activeVersion :: nat
  ci_keys :: "(nat \<times> string) list"

definition NewSourceCipher :: "nat \<Rightarrow> (nat \<times> string) list \<Rightarrow> secret_cipher option" where
  "NewSourceCipher activeVersion keys =
     (if activeVersion = 0 then None
      else if list_ex (\<lambda>(version, key). version = 0 \<or> length key \<noteq> 32) keys then None
      else if map_of keys activeVersion = None then None
      else Some \<lparr>ci_activeVersion = activeVersion, ci_keys = keys\<rparr>)"

definition NewCallbackCipher :: "nat \<Rightarrow> (nat \<times> string) list \<Rightarrow> secret_cipher option" where
  "NewCallbackCipher activeVersion keys =
     (if activeVersion = 0 \<or> keys = [] then None
      else if list_ex (\<lambda>(version, key). version = 0 \<or> length key \<noteq> 32) keys then None
      else if map_of keys activeVersion = None then None
      else Some \<lparr>ci_activeVersion = activeVersion, ci_keys = keys\<rparr>)"

text \<open>\<^verbatim>\<open>base64.StdEncoding.DecodeString\<close>: line breaks are skipped, padding is required.\<close>

definition b64_std_decode :: "string \<Rightarrow> string option" where
  "b64_std_decode s =
     (let t = filter (\<lambda>c. byte c \<noteq> 10 \<and> byte c \<noteq> 13) s;
          body = takeWhile (\<lambda>c. c \<noteq> CHR ''='') t; pad = dropWhile (\<lambda>c. c \<noteq> CHR ''='') t in
      if length t mod 4 \<noteq> 0 \<or> length pad > 2 \<or> list_ex (\<lambda>c. c \<noteq> CHR ''='') pad
        \<or> list_ex (\<lambda>c. c = CHR ''-'' \<or> c = CHR ''_'') body then None
      else b64_groups (map (\<lambda>c. if c = CHR ''+'' then CHR ''-'' else if c = CHR ''/'' then CHR ''_'' else c) body))"

function ring_members :: "bool \<Rightarrow> (nat \<times> string) list \<Rightarrow> string \<Rightarrow> ((nat \<times> string) list \<times> string) option" where
  "ring_members start keys s =
     (case next_member start s of
        None \<Rightarrow> None
      | Some (None, r) \<Rightarrow> Some (keys, r)
      | Some (Some (versionText, v), r) \<Rightarrow>
          (case ParseUint versionText 16 of
             None \<Rightarrow> None
           | Some version \<Rightarrow>
               if version = 0 \<or> version \<in> set (map fst keys) then None
               else (case decode_string v [] of
                 None \<Rightarrow> None
               | Some encodedKey \<Rightarrow>
                   (case b64_std_decode encodedKey of
                      None \<Rightarrow> None
                    | Some key \<Rightarrow>
                        if length key \<noteq> 32 then None else ring_members False (keys @ [(version, key)]) r))))"
  by pat_completeness auto
termination
  by (relation "measure (\<lambda>(_, _, s). length s)") (auto dest: next_member_shorter)

declare ring_members.simps [simp del]

definition decode_ring :: "string \<Rightarrow> string \<Rightarrow> (nat \<times> (nat \<times> string) list) option" where
  "decode_ring active encoded =
     (case ParseUint active 16 of
        None \<Rightarrow> None
      | Some parsedActive \<Rightarrow>
          if parsedActive = 0 then None
          else (case next_token encoded of
            Some (BraceOpen, s) \<Rightarrow>
              (case ring_members True [] s of
                 None \<Rightarrow> None
               | Some (keys, rest) \<Rightarrow> if skip_space rest \<noteq> [] then None else Some (parsedActive, keys))
          | _ \<Rightarrow> None))"

definition DecodeSourceKeyRing :: "string \<Rightarrow> string \<Rightarrow> secret_cipher option" where
  "DecodeSourceKeyRing active encoded =
     (case decode_ring active encoded of None \<Rightarrow> None | Some (version, keys) \<Rightarrow> NewSourceCipher version keys)"

definition DecodeCallbackKeyRing :: "string \<Rightarrow> string \<Rightarrow> secret_cipher option" where
  "DecodeCallbackKeyRing active encoded =
     (case decode_ring active encoded of None \<Rightarrow> None | Some (version, keys) \<Rightarrow> NewCallbackCipher version keys)"

definition cipher_ok :: "secret_cipher \<Rightarrow> bool" where
  "cipher_ok ci \<longleftrightarrow> (\<exists>key. map_of (ci_keys ci) (ci_activeVersion ci) = Some key)
     \<and> (\<forall>version key. map_of (ci_keys ci) version = Some key \<longrightarrow> 0 < version \<and> length key = 32)"

lemma NewSourceCipher_ok:
  assumes "NewSourceCipher v keys = Some ci"
  shows "cipher_ok ci"
proof -
  have "\<forall>p \<in> set keys. fst p \<noteq> 0 \<and> length (snd p) = 32"
    using assms by (auto simp: NewSourceCipher_def list_ex_iff split: if_splits)
  then have "0 < version \<and> length key = 32" if "map_of keys version = Some key" for version key
    using map_of_SomeD [OF that] by auto
  then show ?thesis using assms by (auto simp: NewSourceCipher_def cipher_ok_def split: if_splits)
qed

lemma NewCallbackCipher_ok: "NewCallbackCipher v keys = Some ci \<Longrightarrow> cipher_ok ci"
  by (rule NewSourceCipher_ok [of v keys]) (auto simp: NewCallbackCipher_def NewSourceCipher_def split: if_splits)

section \<open>Sources\<close>

definition sourceNonceBytes :: nat where "sourceNonceBytes = 12"

record EncryptedSource =
  es_Ciphertext :: string
  es_Nonce :: string
  es_KeyVersion :: nat
  es_SHA256 :: string
  es_SizeBytes :: int

definition sourceAAD :: "string \<Rightarrow> string \<Rightarrow> nat \<Rightarrow> string" where
  "sourceAAD tenantID sourceObjectID version =
     be_bytes 4 (length tenantID mod 2 ^ 32) @ tenantID @ be_bytes 4 (length sourceObjectID mod 2 ^ 32) @ sourceObjectID
     @ be_bytes 2 version"

definition source_Encrypt :: "secret_cipher \<Rightarrow> string option \<Rightarrow> string \<Rightarrow> string \<Rightarrow> string \<Rightarrow> EncryptedSource option" where
  "source_Encrypt ci random tenantID sourceObjectID plaintext =
     (if plaintext = [] \<or> int (length plaintext) > MaximumSourceBytes \<or> tenantID = [] \<or> sourceObjectID = [] then None
      else case map_of (ci_keys ci) (ci_activeVersion ci) of
        None \<Rightarrow> None
      | Some key \<Rightarrow>
          (case random of
             None \<Rightarrow> None
           | Some nonce \<Rightarrow> Some
               \<lparr>es_Ciphertext = gcm_Seal key nonce plaintext (sourceAAD tenantID sourceObjectID (ci_activeVersion ci)),
                es_Nonce = nonce, es_KeyVersion = ci_activeVersion ci, es_SHA256 = sha256 plaintext,
                es_SizeBytes = int (length plaintext)\<rparr>))"

definition source_Decrypt :: "secret_cipher \<Rightarrow> string \<Rightarrow> string \<Rightarrow> EncryptedSource \<Rightarrow> string option" where
  "source_Decrypt ci tenantID sourceObjectID e =
     (if tenantID = [] \<or> sourceObjectID = [] \<or> es_SizeBytes e \<le> 0 \<or> length (es_SHA256 e) \<noteq> 32 then None
      else case map_of (ci_keys ci) (es_KeyVersion e) of
        None \<Rightarrow> None
      | Some key \<Rightarrow>
          if length (es_Nonce e) \<noteq> sourceNonceBytes \<or> length (es_Ciphertext e) < 16 then None
          else (case gcm_Open key (es_Nonce e) (es_Ciphertext e) (sourceAAD tenantID sourceObjectID (es_KeyVersion e)) of
            None \<Rightarrow> None
          | Some plaintext \<Rightarrow>
              if int (length plaintext) \<noteq> es_SizeBytes e \<or> sha256 plaintext \<noteq> es_SHA256 e then None else Some plaintext))"

lemma source_decrypts:
  assumes "cipher_ok ci" "source_Encrypt ci (Some nonce) t s plaintext = Some e" "length nonce = 12"
    and "map_of (ci_keys ci') (es_KeyVersion e) = map_of (ci_keys ci) (es_KeyVersion e)"
  shows "source_Decrypt ci' t s e = Some plaintext"
proof -
  obtain key where k: "map_of (ci_keys ci) (ci_activeVersion ci) = Some key" "length key = 32"
    using assms(1) by (auto simp: cipher_ok_def)
  have guard: "t \<noteq> []" "s \<noteq> []" "plaintext \<noteq> []"
    using assms(2) by (auto simp: source_Encrypt_def split: if_splits)
  have e: "e = \<lparr>es_Ciphertext = gcm_Seal key nonce plaintext (sourceAAD t s (ci_activeVersion ci)),
      es_Nonce = nonce, es_KeyVersion = ci_activeVersion ci, es_SHA256 = sha256 plaintext, es_SizeBytes = int (length plaintext)\<rparr>"
    using assms(2) k(1) by (auto simp: source_Encrypt_def split: if_splits)
  show ?thesis
    using guard assms(3,4) k by (simp add: source_Decrypt_def e sourceNonceBytes_def gcm_Open_Seal length_gcm_Seal)
qed

lemma sourceAAD_inj:
  assumes "sourceAAD t s v = sourceAAD t' s' v'" "length t < 2 ^ 32" "length t' < 2 ^ 32" "length s < 2 ^ 32" "length s' < 2 ^ 32"
    "v < 2 ^ 16" "v' < 2 ^ 16"
  shows "t = t'" "s = s'" "v = v'"
proof -
  have split: "u = u' \<and> x = x'"
    if "be_bytes 4 (length u) @ u @ x = be_bytes 4 (length u') @ u' @ x'" "length u < 2 ^ 32" "length u' < 2 ^ 32" for u u' x x'
  proof -
    have "be_bytes 4 (length u) = be_bytes 4 (length u')" "u @ x = u' @ x'"
      using that(1) append_eq_append_conv [of "be_bytes 4 (length u)" "be_bytes 4 (length u')" "u @ x" "u' @ x'"] by simp_all
    moreover from this have "length u = length u'" using be_bytes_inj [of 4 "length u" "length u'"] that(2,3) by simp
    ultimately show ?thesis by simp
  qed
  let ?r = "\<lambda>s v. be_bytes 4 (length s) @ s @ be_bytes 2 v"
  have t: "t = t' \<and> ?r s v = ?r s' v'" by (rule split) (use assms in \<open>simp_all add: sourceAAD_def\<close>)
  then have s: "s = s' \<and> be_bytes 2 v = be_bytes 2 v'" using split [OF _ assms(4,5)] by blast
  show "t = t'" "s = s'" using t s by simp_all
  show "v = v'" using be_bytes_inj [of 2 v v'] s assms(6,7) by simp
qed

section \<open>Callback secrets\<close>

record EncryptedCallbackSecret =
  ec_Ciphertext :: string
  ec_Nonce :: string
  ec_KeyVersion :: nat

definition callbackAAD :: "string \<Rightarrow> string \<Rightarrow> string \<Rightarrow> nat \<Rightarrow> string" where
  "callbackAAD tenantID callbackID destination version =
     concat (map (\<lambda>v. be_bytes 4 (length v mod 2 ^ 32) @ v) [tenantID, callbackID, destination]) @ be_bytes 2 version"

text \<open>\<open>canonical\<close> is the normalised URL of \<^verbatim>\<open>CanonicalCallbackDestination\<close>.\<close>

definition callback_Encrypt ::
  "(string \<Rightarrow> string option) \<Rightarrow> secret_cipher \<Rightarrow> string option \<Rightarrow> string \<Rightarrow> string \<Rightarrow> string \<Rightarrow> string
     \<Rightarrow> EncryptedCallbackSecret option" where
  "callback_Encrypt canonical ci random tenantID callbackID destination plaintext =
     (if \<not> externalIDPattern tenantID \<or> \<not> externalIDPattern callbackID \<or> length plaintext < 32 \<or> length plaintext > 1024 then None
      else case canonical destination of
        None \<Rightarrow> None
      | Some url \<Rightarrow>
          (case (map_of (ci_keys ci) (ci_activeVersion ci), random) of
             (Some key, Some nonce) \<Rightarrow> Some
               \<lparr>ec_Ciphertext = gcm_Seal key nonce plaintext (callbackAAD tenantID callbackID url (ci_activeVersion ci)),
                ec_Nonce = nonce, ec_KeyVersion = ci_activeVersion ci\<rparr>
           | _ \<Rightarrow> None))"

definition callback_Decrypt ::
  "(string \<Rightarrow> string option) \<Rightarrow> secret_cipher \<Rightarrow> string \<Rightarrow> string \<Rightarrow> string \<Rightarrow> EncryptedCallbackSecret \<Rightarrow> string option" where
  "callback_Decrypt canonical ci tenantID callbackID destination e =
     (if \<not> externalIDPattern tenantID \<or> \<not> externalIDPattern callbackID then None
      else case canonical destination of
        None \<Rightarrow> None
      | Some url \<Rightarrow>
          (case map_of (ci_keys ci) (ec_KeyVersion e) of
             None \<Rightarrow> None
           | Some key \<Rightarrow>
               if length (ec_Nonce e) \<noteq> callbackSecretNonceBytes \<or> length (ec_Ciphertext e) \<le> 16 then None
               else (case gcm_Open key (ec_Nonce e) (ec_Ciphertext e) (callbackAAD tenantID callbackID url (ec_KeyVersion e)) of
                 None \<Rightarrow> None
               | Some plaintext \<Rightarrow> if length plaintext < 32 \<or> length plaintext > 1024 then None else Some plaintext)))"

lemma callback_decrypts:
  assumes "cipher_ok ci" "callback_Encrypt canonical ci (Some nonce) t c dest plaintext = Some e" "length nonce = 12"
    and "map_of (ci_keys ci') (ec_KeyVersion e) = map_of (ci_keys ci) (ec_KeyVersion e)" "canonical dest' = canonical dest"
  shows "callback_Decrypt canonical ci' t c dest' e = Some plaintext"
proof -
  obtain key where k: "map_of (ci_keys ci) (ci_activeVersion ci) = Some key" "length key = 32"
    using assms(1) by (auto simp: cipher_ok_def)
  obtain url where u: "canonical dest = Some url" using assms(2) by (auto simp: callback_Encrypt_def split: if_splits option.splits)
  have guard: "externalIDPattern t" "externalIDPattern c" "32 \<le> length plaintext" "length plaintext \<le> 1024"
    and e: "e = \<lparr>ec_Ciphertext = gcm_Seal key nonce plaintext (callbackAAD t c url (ci_activeVersion ci)),
      ec_Nonce = nonce, ec_KeyVersion = ci_activeVersion ci\<rparr>"
    using assms(2) k(1) u by (auto simp: callback_Encrypt_def split: if_splits)
  show ?thesis
    using guard assms(3-5) k u
    by (auto simp: callback_Decrypt_def e gcm_Open_Seal length_gcm_Seal callbackSecretNonceBytes_def)
qed

end
