(* ===== verification/Job_Submission.thy ===== *)
theory Job_Submission
  imports Job_Frame Job_Requests Secret_Ciphers
begin

text \<open>
  Submission of jobs (\<^verbatim>\<open>Submit\<close> of \<^verbatim>\<open>internal/external/mysql_job_repository.go\<close>): replay of a known idempotency key, the
  preflight checks, the two fenced reservations, the encrypted source object and the publishing transaction
  with its compensation. Between two steps of a submission other clients and workers may commit anything:
  \<open>su_other\<close> says what. Connection failures within a statement are left out; the outcomes the code treats as
  ambiguous (object creation, begin, commit, compensation) are arguments.
\<close>

section \<open>Identifiers (provision.go)\<close>

definition byte_bits :: "char \<Rightarrow> bool list" where
  "byte_bits c = map (\<lambda>i. bit (byte c) (7 - i)) [0..<8]"

definition bits_value :: "bool list \<Rightarrow> nat" where
  "bits_value bs = foldl (\<lambda>n b. 2 * n + of_bool b) 0 bs"

definition b32_char :: "nat \<Rightarrow> char" where
  "b32_char n = (if n < 26 then char_of (97 + n) else char_of (24 + n))"

text \<open>\<^verbatim>\<open>strings.ToLower(base32.StdEncoding.WithPadding(base32.NoPadding).EncodeToString(s))\<close>\<close>

definition b32_lower :: "string \<Rightarrow> string" where
  "b32_lower s =
     (let bs = concat (map byte_bits s); n = (length bs + 4) div 5 in
      map (\<lambda>g. b32_char (bits_value g)) (pieces 5 n (bs @ replicate (5 * n - length bs) False)))"

definition externalIDRandomBytes :: nat where "externalIDRandomBytes = 16"

text \<open>The argument is what the random source gives, \<open>None\<close> when the read fails.\<close>

definition generateExternalID :: "string option \<Rightarrow> string option" where
  "generateExternalID random =
     (case random of
        None \<Rightarrow> None
      | Some buffer \<Rightarrow> let v = b32_lower buffer in if externalIDPattern v then Some v else None)"

lemma bits_value_lt: "bits_value bs < 2 ^ length bs"
proof (induction bs rule: rev_induct)
  case (snoc b bs)
  then have "bits_value bs + 1 \<le> 2 ^ length bs" by simp
  then have "2 * bits_value bs + 2 \<le> 2 * 2 ^ length bs" by linarith
  then show ?case by (cases b) (simp_all add: bits_value_def)
qed (simp add: bits_value_def)

lemma b32_char_ok: "n < 32 \<Longrightarrow> lower_letter (b32_char n) \<or> 50 \<le> byte (b32_char n) \<and> byte (b32_char n) \<le> 55"
  by (auto simp: b32_char_def lower_letter_def byte_char_of)

lemma b32_lower_pattern:
  assumes "length s = 16"
  shows "externalIDPattern (b32_lower s)"
proof -
  define bs where "bs = concat (map byte_bits s)"
  have len: "length bs = 128" unfolding bs_def using assms by (simp add: length_concat byte_bits_def comp_def sum_list_triv)
  let ?ps = "pieces 5 26 (bs @ replicate 2 False)"
  have ps: "b32_lower s = map (\<lambda>g. b32_char (bits_value g)) ?ps" by (simp add: b32_lower_def len flip: bs_def)
  have "bits_value g < 32" if "g \<in> set ?ps" for g
    using pieces_lengths [OF _ that] bits_value_lt [of g] len by simp
  then show ?thesis using b32_char_ok by (auto simp: externalIDPattern_def ps list_all_iff)
qed

section \<open>Tables and objects\<close>

record idempotency_row =
  ik_id :: nat
  ik_tenant_id :: nat
  ik_scope :: string
  ik_key_digest :: string
  ik_request_hash :: string
  ik_resource_type :: string
  ik_resource :: string
  ik_expires_at :: int

record reservation_row =
  rv_object_key :: string
  rv_owner_token :: string
  rv_lease_until :: int
  rv_created_at :: int

record retention_audit_row =
  ra_tenant_id :: nat
  ra_job_external_id :: string
  ra_source_external_id :: string
  ra_event_type :: string
  ra_event_at :: int

record client_store =
  cl_db :: db
  cl_keys :: "idempotency_row list"
  cl_reservations :: "reservation_row list"
  cl_objects :: "(string \<times> string) list"
  cl_audit :: "retention_audit_row list"

definition submitJobIdempotencyScope :: string where "submitJobIdempotencyScope = ''judge-job-submit''"

record SubmitJobResult =
  sj_Job :: ExternalJobRecord
  sj_Replayed :: bool

definition SourceObjectKey :: "string \<Rightarrow> string \<Rightarrow> string option" where
  "SourceObjectKey tenantID sourceID =
     (if \<not> externalIDPattern tenantID \<or> \<not> externalIDPattern sourceID then None
      else Some (''external/'' @ tenantID @ ''/sources/'' @ sourceID @ ''.bin''))"

definition submissionSourceExternalID :: "string \<Rightarrow> string \<Rightarrow> string" where
  "submissionSourceExternalID tenantExternalID keyDigest =
     b32_lower (take externalIDRandomBytes (sha256 (tenantExternalID @ CHR 0x00 # keyDigest)))"

section \<open>Reservations\<close>

text \<open>
  \<open>rnd\<close> is how the column rounds an instant given in microseconds. The insert is ignored when the key is taken;
  then only an expired reservation is taken over.
\<close>

definition tryAcquireSourceReservation ::
  "(int \<Rightarrow> int) \<Rightarrow> int \<Rightarrow> string \<Rightarrow> string \<Rightarrow> int \<Rightarrow> reservation_row list \<Rightarrow> bool \<times> reservation_row list" where
  "tryAcquireSourceReservation rnd now objectKey ownerToken lease rows =
     (let until = rnd (now * 1000 + lease) in
      if \<not> sql_exists (\<lambda>r. rv_object_key r = objectKey) rows then
        (True, rows @ [\<lparr>rv_object_key = objectKey, rv_owner_token = ownerToken, rv_lease_until = until, rv_created_at = now\<rparr>])
      else
        let p = (\<lambda>r. rv_object_key r = objectKey \<and> rv_lease_until r \<le> now);
            f = (\<lambda>r. r\<lparr>rv_owner_token := ownerToken, rv_lease_until := until, rv_created_at := now\<rparr>) in
        (sql_affected p f rows = 1, sql_update p f rows))"

definition owned_by :: "(string \<times> string) list \<Rightarrow> reservation_row \<Rightarrow> bool" where
  "owned_by claims r \<longleftrightarrow> (rv_object_key r, rv_owner_token r) \<in> set claims"

definition lockSubmissionReservations :: "int \<Rightarrow> (string \<times> string) list \<Rightarrow> reservation_row list \<Rightarrow> bool" where
  "lockSubmissionReservations now claims rows =
     list_all (\<lambda>(key, token). sql_exists (\<lambda>r. rv_object_key r = key \<and> rv_owner_token r = token \<and> rv_lease_until r > now) rows) claims"

definition release_reservations :: "(string \<times> string) list \<Rightarrow> client_store \<Rightarrow> client_store" where
  "release_reservations claims s = s\<lparr>cl_reservations := sql_delete (owned_by claims) (cl_reservations s)\<rparr>"

section \<open>Replay and preflight\<close>

definition same_key :: "nat \<Rightarrow> string \<Rightarrow> idempotency_row \<Rightarrow> bool" where
  "same_key tenant keyDigest k \<longleftrightarrow>
     ik_tenant_id k = tenant \<and> ik_scope k = submitJobIdempotencyScope \<and> ik_key_digest k = keyDigest"

definition read_replay :: "db \<Rightarrow> string \<Rightarrow> string \<Rightarrow> idempotency_row \<Rightarrow> job_error + SubmitJobResult" where
  "read_replay d tenantExternalID requestHash k =
     (if ik_request_hash k \<noteq> requestHash then Inl ErrExternalJobConflict
      else case getExternalJob d tenantExternalID (ik_resource k) of
        Some (_, Some job) \<Rightarrow> Inr \<lparr>sj_Job = job, sj_Replayed = True\<rparr>
      | _ \<Rightarrow> Inl (RepositoryUnavailable ''read replayed job''))"

definition findSubmitReplay ::
  "int \<Rightarrow> string \<Rightarrow> string \<Rightarrow> string \<Rightarrow> client_store \<Rightarrow> job_error + SubmitJobResult option" where
  "findSubmitReplay now tenantExternalID keyDigest requestHash s =
     (case List.find (\<lambda>k. sql_exists (\<lambda>t. tn_id t = ik_tenant_id k \<and> tn_external_id t = tenantExternalID) (tenants (cl_db s))
          \<and> same_key (ik_tenant_id k) keyDigest k \<and> ik_expires_at k > now) (cl_keys s) of
        None \<Rightarrow> Inr None
      | Some k \<Rightarrow> bind_result (read_replay (cl_db s) tenantExternalID requestHash k) (\<lambda>r. Inr (Some r)))"

definition queued_jobs :: "nat \<Rightarrow> db \<Rightarrow> int" where
  "queued_jobs tenant d = int (sql_count (\<lambda>j. jb_tenant_id j = tenant \<and> jb_status j = JobStatusQueued) (jobs d))"

definition bundle_usable :: "nat \<Rightarrow> string \<Rightarrow> bundle_row \<Rightarrow> bool" where
  "bundle_usable tenant bundleID b \<longleftrightarrow> bd_tenant_id b = tenant \<and> bd_external_id b = bundleID
     \<and> bd_publication_status b = ''READY'' \<and> bd_ready_at b \<noteq> None \<and> bd_delete_marked_at b = None \<and> bd_deleted_at b = None"

definition callback_usable :: "nat \<Rightarrow> string \<Rightarrow> callback_row \<Rightarrow> bool" where
  "callback_usable tenant callbackID c \<longleftrightarrow> cb_tenant_id c = tenant \<and> cb_external_id c = callbackID \<and> cb_disabled_at c = None
     \<and> length (cb_secret_nonce c) = 12 \<and> length (cb_secret_ciphertext c) > 16 \<and> cb_secret_key_version c > 0"

definition preflightSubmit :: "string \<Rightarrow> JudgeJobRequest \<Rightarrow> db \<Rightarrow> job_error + unit" where
  "preflightSubmit tenantExternalID request d =
     (case List.find (\<lambda>t. tn_external_id t = tenantExternalID \<and> tn_status t = ''ACTIVE'') (tenants d) of
        None \<Rightarrow> Inl (RepositoryUnavailable ''preflight tenant policy'')
      | Some t \<Rightarrow>
          (case decodeTenantPolicy (tn_policy t) of
             None \<Rightarrow> Inl ErrExternalJobUnavailable
           | Some policy \<Rightarrow>
               if int (length (jr_SourceCode request)) > MaxSourceBytes policy then Inl ErrExternalJobInvalid
               else if queued_jobs (tn_id t) d \<ge> MaxQueuedJobs policy then Inl ErrQueuedQuotaExceeded
               else if \<not> sql_exists (bundle_usable (tn_id t) (jr_BundleID request)) (bundles d) then Inl ErrExternalJobInvalid
               else if jr_CallbackID request \<noteq> []
                 \<and> \<not> sql_exists (callback_usable (tn_id t) (jr_CallbackID request)) (callbacks d) then Inl ErrExternalJobInvalid
               else Inr ()))"

definition lockTenantPolicy :: "string \<Rightarrow> db \<Rightarrow> job_error + (nat \<times> TenantPolicy)" where
  "lockTenantPolicy tenantExternalID d =
     (case List.find (\<lambda>t. tn_external_id t = tenantExternalID) (tenants d) of
        None \<Rightarrow> Inl (RepositoryUnavailable ''lock tenant policy'')
      | Some t \<Rightarrow>
          if tn_status t \<noteq> ''ACTIVE'' then Inl ErrExternalJobUnavailable
          else (case decodeTenantPolicy (tn_policy t) of
            None \<Rightarrow> Inl ErrExternalJobUnavailable
          | Some policy \<Rightarrow> Inr (tn_id t, policy)))"

section \<open>The publishing transaction\<close>

record submission =
  sn_tenant :: string
  sn_keyDigest :: string
  sn_requestHash :: string
  sn_request :: JudgeJobRequest
  sn_jobID :: string
  sn_sourceID :: string
  sn_encrypted :: EncryptedSource
  sn_coordination :: "string \<times> string"
  sn_source :: "string \<times> string"

definition next_key_id :: "idempotency_row list \<Rightarrow> nat" where "next_key_id keys = Suc (fold max (map ik_id keys) 0)"
definition next_source_id :: "db \<Rightarrow> nat" where "next_source_id d = Suc (fold max (map so_id (sources d)) 0)"
definition next_job_id :: "db \<Rightarrow> nat" where "next_job_id d = Suc (fold max (map jb_id (jobs d)) 0)"

definition source_of_submission :: "submission \<Rightarrow> nat \<Rightarrow> db \<Rightarrow> source_row" where
  "source_of_submission sn tenant d =
     \<lparr>so_id = next_source_id d, so_external_id = sn_sourceID sn, so_tenant_id = tenant, so_object_key = fst (sn_source sn),
      so_sha256 = es_SHA256 (sn_encrypted sn), so_size_bytes = es_SizeBytes (sn_encrypted sn),
      so_key_version = es_KeyVersion (sn_encrypted sn), so_nonce = es_Nonce (sn_encrypted sn),
      so_delete_marked_at = None, so_delete_token = None, so_delete_lease_until = None, so_delete_next_attempt_at = None,
      so_delete_attempt_count = 0, so_delete_last_error_code = None, so_deleted_at = None\<rparr>"

definition job_of_submission :: "submission \<Rightarrow> nat \<Rightarrow> nat \<Rightarrow> nat option \<Rightarrow> int \<Rightarrow> db \<Rightarrow> job_row" where
  "job_of_submission sn tenant bundle callback now d =
     \<lparr>jb_id = next_job_id d, jb_external_id = sn_jobID sn, jb_tenant_id = tenant, jb_bundle_id = bundle,
      jb_source_object_id = next_source_id d, jb_callback_id = callback, jb_status = JobStatusQueued,
      jb_language_id = jr_Language (sn_request sn), jb_stop_on_failure = jr_StopOnFailure (sn_request sn),
      jb_client_reference = (if jr_ClientReference (sn_request sn) = [] then None else Some (jr_ClientReference (sn_request sn))),
      jb_attempt_no = 0, jb_worker_id = None, jb_lease_token = None, jb_lease_until = None, jb_next_attempt_at = now,
      jb_cancel_requested_at = None, jb_result = None, jb_failure_code = None, jb_created_at = now,
      jb_started_at = None, jb_completed_at = None\<rparr>"

definition find_callback :: "nat \<Rightarrow> string \<Rightarrow> db \<Rightarrow> job_error + nat option" where
  "find_callback tenant callbackID d =
     (if callbackID = [] then Inr None
      else case List.find (callback_usable tenant callbackID) (callbacks d) of
        None \<Rightarrow> Inl ErrExternalJobInvalid
      | Some c \<Rightarrow> Inr (Some (cb_id c)))"

text \<open>The inserts, refused by the unique keys on external ids and object keys, and the release of both reservations.\<close>

definition publish_submission ::
  "int \<Rightarrow> int \<Rightarrow> submission \<Rightarrow> nat \<Rightarrow> nat \<Rightarrow> nat option \<Rightarrow> idempotency_row list \<Rightarrow> client_store
     \<Rightarrow> job_error + (SubmitJobResult \<times> client_store)" where
  "publish_submission ttl now sn tenant bundle callback keys s =
     (let d = cl_db s; claims = [sn_coordination sn, sn_source sn] in
      if sql_exists (\<lambda>r. so_external_id r = sn_sourceID sn \<or> so_object_key r = fst (sn_source sn)) (sources d)
      then Inl (RepositoryUnavailable ''persist source metadata'')
      else if sql_exists (\<lambda>j. jb_external_id j = sn_jobID sn) (jobs d) then Inl (RepositoryUnavailable ''persist queued job'')
      else
        let d' = d\<lparr>sources := sources d @ [source_of_submission sn tenant d],
                   jobs := jobs d @ [job_of_submission sn tenant bundle callback now d]\<rparr>;
            key = \<lparr>ik_id = next_key_id (cl_keys s), ik_tenant_id = tenant, ik_scope = submitJobIdempotencyScope, ik_key_digest = sn_keyDigest sn,
                   ik_request_hash = sn_requestHash sn,
                   ik_resource_type = ''judge-job'', ik_resource = sn_jobID sn, ik_expires_at = now + ttl\<rparr> in
        if sql_count (owned_by claims) (cl_reservations s) \<noteq> 2
        then Inl (RepositoryUnavailable ''confirm published source reservations'')
        else case getExternalJob d' (sn_tenant sn) (sn_jobID sn) of
          Some (_, Some job) \<Rightarrow>
            Inr (\<lparr>sj_Job = job, sj_Replayed = False\<rparr>,
                 release_reservations claims (s\<lparr>cl_db := d', cl_keys := keys @ [key]\<rparr>))
        | _ \<Rightarrow> Inl (RepositoryUnavailable ''read submitted job''))"

text \<open>\<open>Inr (r, None)\<close> is a replay found inside the transaction, which is then rolled back; \<open>Inr (r, Some s)\<close> is ready to
  commit \<open>s\<close>.\<close>

definition submit_transaction ::
  "int \<Rightarrow> int \<Rightarrow> int \<Rightarrow> submission \<Rightarrow> client_store \<Rightarrow> job_error + (SubmitJobResult \<times> client_store option)" where
  "submit_transaction ttl lockNow now sn s =
     (let d = cl_db s; request = sn_request sn in
      if \<not> lockSubmissionReservations lockNow [sn_coordination sn, sn_source sn] (cl_reservations s)
      then Inl (RepositoryUnavailable ''lock encrypted source reservation'')
      else bind_result (lockTenantPolicy (sn_tenant sn) d) (\<lambda>(tenant, policy).
        let keys = sql_delete (\<lambda>k. same_key tenant (sn_keyDigest sn) k \<and> ik_expires_at k \<le> now) (cl_keys s) in
        case List.find (same_key tenant (sn_keyDigest sn)) keys of
          Some k \<Rightarrow> bind_result (read_replay d (sn_tenant sn) (sn_requestHash sn) k) (\<lambda>r. Inr (r, None))
        | None \<Rightarrow>
            if int (length (jr_SourceCode request)) > MaxSourceBytes policy then Inl ErrExternalJobInvalid
            else if queued_jobs tenant d \<ge> MaxQueuedJobs policy then Inl ErrQueuedQuotaExceeded
            else (case List.find (bundle_usable tenant (jr_BundleID request)) (bundles d) of
              None \<Rightarrow> Inl ErrExternalJobInvalid
            | Some b \<Rightarrow>
                bind_result (find_callback tenant (jr_CallbackID request) d) (\<lambda>callback.
                  bind_result (publish_submission ttl now sn tenant (bd_id b) callback keys s) (\<lambda>(r, s'). Inr (r, Some s'))))))"

section \<open>Submit\<close>

text \<open>Object creation and commit may fail with the effect in place or not.\<close>

datatype create_outcome = CreateDone | CreateFails bool
datatype commit_outcome = CommitDone | CommitLost bool

text \<open>One turn of the wait for the coordination reservation: what others do before each of its two statements, the
  clock, whether the second fails by contention, and the microseconds left of the deadline.\<close>

record coordination_round =
  rd_other :: "client_store \<Rightarrow> client_store"
  rd_between :: "client_store \<Rightarrow> client_store"
  rd_now :: int
  rd_transient :: bool
  rd_remaining :: int

datatype try_failure = TryContended | TryFailed

record reservation_try =
  rt_other :: "client_store \<Rightarrow> client_store"
  rt_now :: int
  rt_failure :: "try_failure option"

record submit_env =
  su_pepper :: string
  su_cipher :: secret_cipher
  su_ttl :: int
  su_round :: "int \<Rightarrow> int"
  su_source_random :: "string option"
  su_job_random :: "string option"
  su_nonce :: "string option"
  su_coordination_token :: "string option"
  su_source_token :: "string option"
  su_other :: "nat \<Rightarrow> client_store \<Rightarrow> client_store"
  su_now :: "nat \<Rightarrow> int"
  su_expired :: "nat \<Rightarrow> bool"
  su_rounds :: "coordination_round list"
  su_tries :: "reservation_try list"
  su_admit :: "job_error option"
  su_create :: create_outcome
  su_begin :: bool
  su_delete :: bool
  su_commit :: commit_outcome

definition submissionCompensationAllowance :: int where "submissionCompensationAllowance = 60000000"
definition sourceReservationAdmissionLease :: int where "sourceReservationAdmissionLease = 25 * 60000000"

definition submissionCoordinationLease :: "int \<Rightarrow> int" where
  "submissionCoordinationLease remaining = (if remaining < 0 then 0 else remaining) + submissionCompensationAllowance"

definition need :: "string \<Rightarrow> 'a option \<Rightarrow> job_error + 'a" where
  "need what v = (case v of None \<Rightarrow> Inl (RepositoryUnavailable what) | Some x \<Rightarrow> Inr x)"

definition prepare_submission :: "submit_env \<Rightarrow> string \<Rightarrow> string \<Rightarrow> JudgeJobRequest \<Rightarrow> job_error + submission" where
  "prepare_submission env tenant key request =
     (if \<not> externalIDPattern tenant then Inl ErrExternalJobInvalid
      else case (DigestIdempotencyKey key (su_pepper env), CanonicalJobRequestHash request (int (length (jr_SourceCode request)))) of
        (Some keyDigest, Some requestHash) \<Rightarrow>
          bind_result (need ''derive submission reservation key''
              (SourceObjectKey tenant (submissionSourceExternalID tenant keyDigest))) (\<lambda>coordinationKey.
          bind_result (need ''generate source object ID'' (generateExternalID (su_source_random env))) (\<lambda>sourceID.
          bind_result (need ''generate job ID'' (generateExternalID (su_job_random env))) (\<lambda>jobID.
          bind_result (need ''derive source object key'' (SourceObjectKey tenant sourceID)) (\<lambda>sourceKey.
          bind_result (need ''encrypt source''
              (source_Encrypt (su_cipher env) (su_nonce env) tenant sourceID (jr_SourceCode request))) (\<lambda>encrypted.
          bind_result (need ''generate submission reservation token'' (su_coordination_token env)) (\<lambda>coordinationToken.
          bind_result (need ''generate source reservation token'' (su_source_token env)) (\<lambda>sourceToken.
            Inr \<lparr>sn_tenant = tenant, sn_keyDigest = keyDigest, sn_requestHash = requestHash, sn_request = request,
              sn_jobID = jobID, sn_sourceID = sourceID, sn_encrypted = encrypted,
              sn_coordination = (coordinationKey, coordinationToken), sn_source = (sourceKey, sourceToken)\<rparr>)))))))
      | _ \<Rightarrow> Inl ErrExternalJobInvalid)"

definition replay_of :: "int \<Rightarrow> submission \<Rightarrow> client_store \<Rightarrow> job_error + SubmitJobResult option" where
  "replay_of now sn s = findSubmitReplay now (sn_tenant sn) (sn_keyDigest sn) (sn_requestHash sn) s"

text \<open>\<open>Inr None\<close> is an acquired reservation; the list ends when the wait context does.\<close>

fun acquireSubmissionCoordination ::
  "(int \<Rightarrow> int) \<Rightarrow> submission \<Rightarrow> coordination_round list \<Rightarrow> client_store \<Rightarrow> (job_error + SubmitJobResult option) \<times> client_store" where
  "acquireSubmissionCoordination rnd sn [] s = (Inl (RepositoryUnavailable ''wait for concurrent idempotent submission''), s)"
| "acquireSubmissionCoordination rnd sn (rd # rds) s =
     (let s1 = rd_other rd s in
      case replay_of (rd_now rd) sn s1 of
        Inl e \<Rightarrow> (Inl e, s1)
      | Inr (Some r) \<Rightarrow> (Inr (Some r), s1)
      | Inr None \<Rightarrow>
          let s2 = rd_between rd s1 in
          if rd_transient rd then acquireSubmissionCoordination rnd sn rds s2
          else (case tryAcquireSourceReservation rnd (rd_now rd) (fst (sn_coordination sn)) (snd (sn_coordination sn))
              (submissionCoordinationLease (rd_remaining rd)) (cl_reservations s2) of
            (True, rows) \<Rightarrow> (Inr None, s2\<lparr>cl_reservations := rows\<rparr>)
          | (False, rows) \<Rightarrow> acquireSubmissionCoordination rnd sn rds (s2\<lparr>cl_reservations := rows\<rparr>)))"

fun acquireSourceReservation ::
  "(int \<Rightarrow> int) \<Rightarrow> submission \<Rightarrow> reservation_try list \<Rightarrow> client_store \<Rightarrow> (job_error + unit) \<times> client_store" where
  "acquireSourceReservation rnd sn [] s = (Inl (RepositoryUnavailable ''wait for source reservation''), s)"
| "acquireSourceReservation rnd sn (t # ts) s =
     (let s1 = rt_other t s in
      case rt_failure t of
        Some TryFailed \<Rightarrow> (Inl (RepositoryUnavailable ''reserve encrypted source object''), s1)
      | Some TryContended \<Rightarrow> acquireSourceReservation rnd sn ts s1
      | None \<Rightarrow>
          (case tryAcquireSourceReservation rnd (rt_now t) (fst (sn_source sn)) (snd (sn_source sn))
              sourceReservationAdmissionLease (cl_reservations s1) of
             (True, rows) \<Rightarrow> (Inr (), s1\<lparr>cl_reservations := rows\<rparr>)
           | (False, rows) \<Rightarrow> acquireSourceReservation rnd sn ts (s1\<lparr>cl_reservations := rows\<rparr>)))"

definition release_all :: "submit_env \<Rightarrow> nat \<Rightarrow> (string \<times> string) list \<Rightarrow> client_store \<Rightarrow> client_store" where
  "release_all env k claims s = (if su_expired env k then s else release_reservations claims (su_other env k s))"

definition delete_object :: "string \<Rightarrow> client_store \<Rightarrow> client_store" where
  "delete_object key s = s\<lparr>cl_objects := filter (\<lambda>(k, _). k \<noteq> key) (cl_objects s)\<rparr>"

text \<open>The deferred compensation of a transaction that was rolled back.\<close>

definition compensate ::
  "submit_env \<Rightarrow> submission \<Rightarrow> job_error + SubmitJobResult \<Rightarrow> client_store \<Rightarrow> (job_error + SubmitJobResult) \<times> client_store" where
  "compensate env sn result s =
     (let s1 = su_other env 10 s in
      if su_delete env
      then (result, release_all env 11 [sn_source sn, sn_coordination sn] (delete_object (fst (sn_source sn)) s1))
      else (Inl ErrExternalJobUnavailable, s1))"

definition submit_publish :: "submit_env \<Rightarrow> submission \<Rightarrow> client_store \<Rightarrow> (job_error + SubmitJobResult) \<times> client_store" where
  "submit_publish env sn s =
     (let s1 = su_other env 8 s in
      if \<not> su_begin env then
        (Inl (RepositoryUnavailable ''begin submit transaction''), snd (compensate env sn (Inl ErrExternalJobUnavailable) s1))
      else case submit_transaction (su_ttl env) (su_now env 8) (su_now env 9) sn s1 of
        Inl e \<Rightarrow> compensate env sn (Inl e) s1
      | Inr (r, None) \<Rightarrow> compensate env sn (Inr r) s1
      | Inr (r, Some s2) \<Rightarrow>
          (case su_commit env of
             CommitDone \<Rightarrow> (Inr r, s2)
           | CommitLost applied \<Rightarrow>
               (Inl (RepositoryUnavailable ''commit submitted job with unknown outcome''), if applied then s2 else s1)))"

definition submit_create :: "submit_env \<Rightarrow> submission \<Rightarrow> client_store \<Rightarrow> (job_error + SubmitJobResult) \<times> client_store" where
  "submit_create env sn s =
     (let s1 = su_other env 5 s; key = fst (sn_source sn);
          s2 = s1\<lparr>cl_objects := cl_objects s1 @ [(key, es_Ciphertext (sn_encrypted sn))]\<rparr> in
      if sql_exists (\<lambda>(k, _). k = key) (cl_objects s1) then
        let s3 = su_other env 6 s1 in
        (case replay_of (su_now env 6) sn s3 of
           Inr (Some r) \<Rightarrow> (Inr r, release_all env 7 [sn_source sn, sn_coordination sn] s3)
         | _ \<Rightarrow> (Inl (RepositoryUnavailable ''persist encrypted source''), s3))
      else case su_create env of
        CreateFails stored \<Rightarrow> (Inl (RepositoryUnavailable ''persist encrypted source''), if stored then s2 else s1)
      | CreateDone \<Rightarrow> submit_publish env sn s2)"

definition submit_reserved :: "submit_env \<Rightarrow> submission \<Rightarrow> client_store \<Rightarrow> (job_error + SubmitJobResult) \<times> client_store" where
  "submit_reserved env sn s =
     (let s1 = su_other env 2 s; undo = release_all env 3 [sn_coordination sn] in
      case replay_of (su_now env 2) sn s1 of
        Inl e \<Rightarrow> (Inl e, undo s1)
      | Inr (Some r) \<Rightarrow> (Inr r, undo s1)
      | Inr None \<Rightarrow>
          (case su_admit env of
             Some e \<Rightarrow> (Inl e, undo s1)
           | None \<Rightarrow>
               (case acquireSourceReservation (su_round env) sn (su_tries env) s1 of
                  (Inl e, s2) \<Rightarrow> (Inl e, release_all env 4 [sn_coordination sn] s2)
                | (Inr _, s2) \<Rightarrow> submit_create env sn s2)))"

definition Submit ::
  "submit_env \<Rightarrow> string \<Rightarrow> string \<Rightarrow> JudgeJobRequest \<Rightarrow> client_store \<Rightarrow> (job_error + SubmitJobResult) \<times> client_store" where
  "Submit env tenant key request s =
     (case prepare_submission env tenant key request of
        Inl e \<Rightarrow> (Inl e, s)
      | Inr sn \<Rightarrow>
          let s0 = su_other env 0 s in
          (case replay_of (su_now env 0) sn s0 of
             Inl e \<Rightarrow> (Inl e, s0)
           | Inr (Some r) \<Rightarrow> (Inr r, s0)
           | Inr None \<Rightarrow>
               let s1 = su_other env 1 s0 in
               (case preflightSubmit tenant request (cl_db s1) of
                  Inl e \<Rightarrow> (Inl e, s1)
                | Inr _ \<Rightarrow>
                    (case acquireSubmissionCoordination (su_round env) sn (su_rounds env) s1 of
                       (Inl e, s2) \<Rightarrow> (Inl e, s2)
                     | (Inr (Some r), s2) \<Rightarrow> (Inr r, s2)
                     | (Inr None, s2) \<Rightarrow> submit_reserved env sn s2))))"

end
