(* ===== verification/Source_Retention.thy ===== *)
theory Source_Retention
  imports Job_Submission
begin

text \<open>
  Retention of submitted data (\<^verbatim>\<open>internal/external/source_retention.go\<close> and its workers): expiry of idempotency keys,
  and the fenced deletion of the source object, the attempts, the job and the source row of a job that ended
  long enough ago. Instants are milliseconds, and durations are taken to be whole milliseconds.
\<close>

section \<open>Object keys (source_object_store.go)\<close>

definition trim_suffix :: "string \<Rightarrow> string \<Rightarrow> string option" where
  "trim_suffix s suffix = (if length suffix \<le> length s \<and> drop (length s - length suffix) s = suffix
     then Some (take (length s - length suffix) s) else None)"

definition validSourceObjectKey :: "string \<Rightarrow> bool" where
  "validSourceObjectKey key \<longleftrightarrow> key \<noteq> [] \<and> path_Clean key = key \<and> CHR 0x5C \<notin> set key
     \<and> (case split_slash key of
          [a, tenant, b, name] \<Rightarrow> a = ''external'' \<and> externalIDPattern tenant \<and> b = ''sources''
            \<and> (case trim_suffix name ''.bin'' of None \<Rightarrow> False | Some source \<Rightarrow> externalIDPattern source)
        | _ \<Rightarrow> False)"

section \<open>Expiry of idempotency keys\<close>

datatype retention_error =
    ErrIdempotencyRetentionNotAvailable
  | ErrSourceRetentionNotAvailable
  | errSourceRetentionContention
  | RetentionUnavailable string

definition ExpireIdempotencyBatch ::
  "(nat \<Rightarrow> bool) \<Rightarrow> int \<Rightarrow> int \<Rightarrow> client_store \<Rightarrow> retention_error + (int \<times> client_store)" where
  "ExpireIdempotencyBatch locked now batch s =
     (if batch < 1 \<or> batch > 1000 then Inl ErrIdempotencyRetentionNotAvailable
      else
        let due = sort_key (\<lambda>k. (ik_expires_at k, ik_id k))
              (filter (\<lambda>k. ik_expires_at k \<le> now \<and> \<not> locked (ik_id k)) (cl_keys s));
            ids = map ik_id (take (nat batch) due) in
        if ids = [] then Inl ErrIdempotencyRetentionNotAvailable
        else
          let affected = sql_count (\<lambda>k. ik_id k \<in> set ids) (cl_keys s) in
          if affected \<noteq> length ids then Inl (RetentionUnavailable ''expire idempotency batch'')
          else Inr (int affected, s\<lparr>cl_keys := sql_delete (\<lambda>k. ik_id k \<in> set ids) (cl_keys s)\<rparr>))"

section \<open>Candidates\<close>

record SourceRetentionClaim =
  rc_TenantInternalID :: nat
  rc_JobInternalID :: nat
  rc_SourceInternalID :: nat
  rc_JobExternalID :: string
  rc_SourceExternalID :: string
  rc_ObjectKey :: string
  rc_DeleteToken :: string

definition at_most :: "int option \<Rightarrow> int \<Rightarrow> bool" where
  "at_most v t = (case v of None \<Rightarrow> False | Some x \<Rightarrow> x \<le> t)"

definition above :: "int option \<Rightarrow> int \<Rightarrow> bool" where
  "above v t = (case v of None \<Rightarrow> False | Some x \<Rightarrow> x > t)"

definition source_free :: "int \<Rightarrow> source_row \<Rightarrow> bool" where
  "source_free now r \<longleftrightarrow> so_deleted_at r = None
     \<and> (so_delete_marked_at r = None \<or> at_most (so_delete_next_attempt_at r) now \<and> at_most (so_delete_lease_until r) now)"

definition key_names_job :: "nat \<Rightarrow> string \<Rightarrow> int \<Rightarrow> idempotency_row \<Rightarrow> bool" where
  "key_names_job tenant job now k \<longleftrightarrow> ik_tenant_id k = tenant \<and> ik_resource_type k = ''judge-job'' \<and> ik_resource k = job
     \<and> ik_expires_at k > now"

definition retention_candidate :: "int \<Rightarrow> int \<Rightarrow> client_store \<Rightarrow> job_row \<times> source_row \<Rightarrow> bool" where
  "retention_candidate now retention s = (\<lambda>(j, r).
     so_id r = jb_source_object_id j \<and> so_tenant_id r = jb_tenant_id j
     \<and> jb_status j \<in> {JobStatusSucceeded, JobStatusFailed, JobStatusCancelled}
     \<and> at_most (jb_completed_at j) (now - retention) \<and> source_free now r
     \<and> \<not> sql_exists (\<lambda>o'. ob_job_id o' = jb_id j) (outbox (cl_db s))
     \<and> \<not> sql_exists (key_names_job (jb_tenant_id j) (jb_external_id j) now) (cl_keys s)
     \<and> \<not> sql_exists (\<lambda>k. jb_source_object_id k = so_id r \<and> jb_id k \<noteq> jb_id j) (jobs (cl_db s)))"

definition completion :: "job_row \<Rightarrow> int \<times> nat" where
  "completion j = (case jb_completed_at j of None \<Rightarrow> 0 | Some t \<Rightarrow> t, jb_id j)"

text \<open>The oldest candidate of each tenant, by completion and id.\<close>

definition sourceRetentionCandidates :: "int \<Rightarrow> int \<Rightarrow> nat \<Rightarrow> client_store \<Rightarrow> SourceRetentionClaim list" where
  "sourceRetentionCandidates now retention limit s =
     (let found = filter (retention_candidate now retention s) (List.product (jobs (cl_db s)) (sources (cl_db s)));
          oldest = filter (\<lambda>(j, _). \<not> list_ex (\<lambda>(k, _). jb_tenant_id k = jb_tenant_id j \<and> completion k < completion j) found) found in
      map (\<lambda>(j, r). \<lparr>rc_TenantInternalID = jb_tenant_id j, rc_JobInternalID = jb_id j, rc_SourceInternalID = so_id r,
          rc_JobExternalID = jb_external_id j, rc_SourceExternalID = so_external_id r, rc_ObjectKey = so_object_key r,
          rc_DeleteToken = []\<rparr>)
        (take limit (sort_key (\<lambda>(j, _). completion j) oldest)))"

section \<open>Claiming a source\<close>

text \<open>What one transaction meets: the clock, the clock of its last statement, rows locked by others (skipped), and the
  random token.\<close>

record retention_env =
  re_now :: int
  re_recheck :: int
  re_locked_tenant :: bool
  re_locked_job :: bool
  re_locked_source :: bool
  re_token :: "string option"

definition retained_job :: "SourceRetentionClaim \<Rightarrow> int option \<Rightarrow> job_row \<Rightarrow> bool" where
  "retained_job claim completedBefore j \<longleftrightarrow>
     jb_status j \<in> {JobStatusSucceeded, JobStatusFailed, JobStatusCancelled}
     \<and> jb_source_object_id j = rc_SourceInternalID claim \<and> jb_external_id j = rc_JobExternalID claim
     \<and> (case jb_completed_at j of
          None \<Rightarrow> False
        | Some t \<Rightarrow> (case completedBefore of None \<Rightarrow> True | Some before \<Rightarrow> \<not> t > before))"

definition claim_names_job :: "SourceRetentionClaim \<Rightarrow> job_row \<Rightarrow> bool" where
  "claim_names_job claim j \<longleftrightarrow> jb_id j = rc_JobInternalID claim \<and> jb_tenant_id j = rc_TenantInternalID claim"

definition claim_names_source :: "SourceRetentionClaim \<Rightarrow> source_row \<Rightarrow> bool" where
  "claim_names_source claim r \<longleftrightarrow> so_id r = rc_SourceInternalID claim \<and> so_tenant_id r = rc_TenantInternalID claim"

definition lockRetentionTenantJobForClaim ::
  "retention_env \<Rightarrow> SourceRetentionClaim \<Rightarrow> int \<Rightarrow> db \<Rightarrow> retention_error + unit" where
  "lockRetentionTenantJobForClaim env claim completedBefore d =
     (if re_locked_tenant env \<or> \<not> sql_exists (\<lambda>t. tn_id t = rc_TenantInternalID claim) (tenants d)
      then Inl errSourceRetentionContention
      else case (if re_locked_job env then None else List.find (claim_names_job claim) (jobs d)) of
        None \<Rightarrow> Inl errSourceRetentionContention
      | Some j \<Rightarrow> if retained_job claim (Some completedBefore) j then Inr () else Inl ErrSourceRetentionNotAvailable)"

definition lockRetentionTenantJob :: "SourceRetentionClaim \<Rightarrow> int option \<Rightarrow> db \<Rightarrow> retention_error + unit" where
  "lockRetentionTenantJob claim completedBefore d =
     (if \<not> sql_exists (\<lambda>t. tn_id t = rc_TenantInternalID claim) (tenants d) then Inl ErrSourceRetentionNotAvailable
      else case List.find (claim_names_job claim) (jobs d) of
        None \<Rightarrow> Inl ErrSourceRetentionNotAvailable
      | Some j \<Rightarrow> if retained_job claim completedBefore j then Inr () else Inl ErrSourceRetentionNotAvailable)"

definition retentionBlockers :: "int \<Rightarrow> SourceRetentionClaim \<Rightarrow> client_store \<Rightarrow> nat" where
  "retentionBlockers now claim s =
     sql_count (\<lambda>o'. ob_job_id o' = rc_JobInternalID claim) (outbox (cl_db s))
     + sql_count (key_names_job (rc_TenantInternalID claim) (rc_JobExternalID claim) now) (cl_keys s)
     + sql_count (\<lambda>j. jb_source_object_id j = rc_SourceInternalID claim \<and> jb_id j \<noteq> rc_JobInternalID claim) (jobs (cl_db s))"

definition insertRetentionAudit :: "SourceRetentionClaim \<Rightarrow> string \<Rightarrow> int \<Rightarrow> client_store \<Rightarrow> client_store" where
  "insertRetentionAudit claim event now s = s\<lparr>cl_audit := cl_audit s @
     [\<lparr>ra_tenant_id = rc_TenantInternalID claim, ra_job_external_id = rc_JobExternalID claim,
       ra_source_external_id = rc_SourceExternalID claim, ra_event_type = event, ra_event_at = now\<rparr>]\<rparr>"

definition update_sources :: "(source_row \<Rightarrow> bool) \<Rightarrow> (source_row \<Rightarrow> source_row) \<Rightarrow> client_store \<Rightarrow> client_store" where
  "update_sources p f s = s\<lparr>cl_db := (cl_db s)\<lparr>sources := sql_update p f (sources (cl_db s))\<rparr>\<rparr>"

definition mark_source :: "string \<Rightarrow> int \<Rightarrow> int \<Rightarrow> source_row \<Rightarrow> source_row" where
  "mark_source token now until r = r\<lparr>so_delete_marked_at := (case so_delete_marked_at r of None \<Rightarrow> Some now | Some t \<Rightarrow> Some t),
     so_delete_token := Some token, so_delete_lease_until := Some until, so_delete_next_attempt_at := Some now,
     so_delete_attempt_count := so_delete_attempt_count r + 1, so_delete_last_error_code := None\<rparr>"

definition claimSourceRetentionCandidate ::
  "retention_env \<Rightarrow> SourceRetentionClaim \<Rightarrow> int \<Rightarrow> int \<Rightarrow> client_store \<Rightarrow> retention_error + (SourceRetentionClaim \<times> client_store)" where
  "claimSourceRetentionCandidate env candidate retention leaseDuration s =
     (let now = re_now env; d = cl_db s in
      bind_result (lockRetentionTenantJobForClaim env candidate (now - retention) d) (\<lambda>_.
        case (if re_locked_source env then None
              else List.find (\<lambda>r. claim_names_source candidate r \<and> source_free now r) (sources d)) of
          None \<Rightarrow> Inl errSourceRetentionContention
        | Some r \<Rightarrow>
            let claim = candidate\<lparr>rc_SourceExternalID := so_external_id r, rc_ObjectKey := so_object_key r\<rparr> in
            if retentionBlockers (re_recheck env) claim s \<noteq> 0 then Inl ErrSourceRetentionNotAvailable
            else (case re_token env of
              None \<Rightarrow> Inl (RetentionUnavailable ''generate source retention fence'')
            | Some token \<Rightarrow>
                let claim = claim\<lparr>rc_DeleteToken := token\<rparr>;
                    p = (\<lambda>r. claim_names_source claim r \<and> so_deleted_at r = None);
                    f = mark_source token now (now + leaseDuration);
                    s1 = update_sources p f s in
                if sql_affected p f (sources d) \<noteq> 1 then Inl ErrSourceRetentionNotAvailable
                else Inr (claim, if so_delete_marked_at r = None then insertRetentionAudit claim ''MARKED'' now s1 else s1))))"

text \<open>The candidates are tried in turn; between two of them others may commit.\<close>

fun claim_candidates ::
  "(nat \<Rightarrow> client_store \<Rightarrow> client_store) \<Rightarrow> (nat \<Rightarrow> retention_env) \<Rightarrow> nat \<Rightarrow> int \<Rightarrow> int \<Rightarrow> SourceRetentionClaim list
     \<Rightarrow> client_store \<Rightarrow> (retention_error + SourceRetentionClaim) \<times> client_store" where
  "claim_candidates other env n retention leaseDuration [] s = (Inl ErrSourceRetentionNotAvailable, s)"
| "claim_candidates other env n retention leaseDuration (c # cs) s =
     (let s1 = other n s in
      case claimSourceRetentionCandidate (env n) c retention leaseDuration s1 of
        Inr (claim, s2) \<Rightarrow> (Inr claim, s2)
      | Inl e \<Rightarrow>
          if e = errSourceRetentionContention \<or> e = ErrSourceRetentionNotAvailable
          then claim_candidates other env (Suc n) retention leaseDuration cs s1
          else (Inl e, s1))"

definition day_millis :: int where "day_millis = 24 * 3600 * 1000"

definition ClaimSourceRetention ::
  "int \<Rightarrow> (nat \<Rightarrow> client_store \<Rightarrow> client_store) \<Rightarrow> (nat \<Rightarrow> retention_env) \<Rightarrow> int \<Rightarrow> int \<Rightarrow> client_store
     \<Rightarrow> (retention_error + SourceRetentionClaim) \<times> client_store" where
  "ClaimSourceRetention now other env retention leaseDuration s =
     (if retention \<le> 0 \<or> retention > 365 * day_millis \<or> leaseDuration \<le> 0 \<or> leaseDuration > 15 * 60000
      then (Inl ErrSourceRetentionNotAvailable, s)
      else claim_candidates other env 0 retention leaseDuration (sourceRetentionCandidates now retention 32 s) s)"

section \<open>Settling a claim\<close>

definition validSourceRetentionClaim :: "SourceRetentionClaim \<Rightarrow> bool" where
  "validSourceRetentionClaim claim \<longleftrightarrow> rc_TenantInternalID claim > 0 \<and> rc_JobInternalID claim > 0 \<and> rc_SourceInternalID claim > 0
     \<and> externalIDPattern (rc_JobExternalID claim) \<and> externalIDPattern (rc_SourceExternalID claim)
     \<and> validSourceObjectKey (rc_ObjectKey claim) \<and> length (rc_DeleteToken claim) = 32"

definition RecordSourceRetentionFailure ::
  "int \<Rightarrow> SourceRetentionClaim \<Rightarrow> int \<Rightarrow> client_store \<Rightarrow> retention_error + client_store" where
  "RecordSourceRetentionFailure now claim retryDelay s =
     (if \<not> validSourceRetentionClaim claim \<or> retryDelay \<le> 0 \<or> retryDelay > 3600000 then Inl ErrSourceRetentionNotAvailable
      else bind_result (lockRetentionTenantJob claim None (cl_db s)) (\<lambda>_.
        let p = (\<lambda>r. claim_names_source claim r \<and> so_delete_token r = Some (rc_DeleteToken claim)
              \<and> above (so_delete_lease_until r) now \<and> so_deleted_at r = None);
            f = (\<lambda>r. r\<lparr>so_delete_last_error_code := Some ''OBJECT_DELETE_FAILED'', so_delete_lease_until := Some now,
              so_delete_next_attempt_at := Some (now + retryDelay)\<rparr>) in
        if sql_affected p f (sources (cl_db s)) \<noteq> 1 then Inl ErrSourceRetentionNotAvailable
        else Inr (insertRetentionAudit claim ''DELETE_RETRY'' now (update_sources p f s))))"

definition drop_retained :: "SourceRetentionClaim \<Rightarrow> db \<Rightarrow> db" where
  "drop_retained claim d =
     d\<lparr>attempts := sql_delete (\<lambda>a. at_tenant_id a = rc_TenantInternalID claim \<and> at_job_id a = rc_JobInternalID claim) (attempts d),
       jobs := sql_delete (claim_names_job claim) (jobs d),
       sources := sql_delete (\<lambda>r. claim_names_source claim r \<and> so_delete_token r = Some (rc_DeleteToken claim)) (sources d)\<rparr>"

definition FinalizeSourceRetention ::
  "int \<Rightarrow> int \<Rightarrow> SourceRetentionClaim \<Rightarrow> client_store \<Rightarrow> retention_error + client_store" where
  "FinalizeSourceRetention now recheck claim s =
     (if \<not> validSourceRetentionClaim claim then Inl ErrSourceRetentionNotAvailable
      else let d = cl_db s in
        bind_result (lockRetentionTenantJob claim None d) (\<lambda>_.
          case List.find (\<lambda>r. claim_names_source claim r \<and> so_delete_token r = Some (rc_DeleteToken claim)
              \<and> so_delete_marked_at r \<noteq> None \<and> above (so_delete_lease_until r) now \<and> so_deleted_at r = None) (sources d) of
            None \<Rightarrow> Inl ErrSourceRetentionNotAvailable
          | Some r \<Rightarrow>
              if so_object_key r \<noteq> rc_ObjectKey claim then Inl ErrSourceRetentionNotAvailable
              else if retentionBlockers recheck claim s \<noteq> 0 then Inl ErrSourceRetentionNotAvailable
              else if sql_count (claim_names_job claim) (jobs d) \<noteq> 1 then Inl ErrSourceRetentionNotAvailable
              else if sql_count (\<lambda>r. claim_names_source claim r \<and> so_delete_token r = Some (rc_DeleteToken claim)) (sources d) \<noteq> 1
              then Inl ErrSourceRetentionNotAvailable
              else Inr (insertRetentionAudit claim ''DELETED'' now (s\<lparr>cl_db := drop_retained claim d\<rparr>))))"

section \<open>The retention worker\<close>

record SourceRetentionWorkerConfig =
  rw_Retention :: int
  rw_IdleDelay :: int
  rw_DeleteTimeout :: int
  rw_ClaimLease :: int
  rw_RetryDelay :: int

definition or_default :: "int \<Rightarrow> int \<Rightarrow> int" where "or_default v d = (if v = 0 then d else v)"

definition NewSourceRetentionWorker :: "SourceRetentionWorkerConfig \<Rightarrow> SourceRetentionWorkerConfig option" where
  "NewSourceRetentionWorker config =
     (let w = \<lparr>rw_Retention = or_default (rw_Retention config) (30 * day_millis), rw_IdleDelay = or_default (rw_IdleDelay config) 60000,
            rw_DeleteTimeout = or_default (rw_DeleteTimeout config) 30000, rw_ClaimLease = or_default (rw_ClaimLease config) (2 * 60000),
            rw_RetryDelay = or_default (rw_RetryDelay config) 60000\<rparr> in
      if rw_Retention w < 3600000 \<or> rw_Retention w > 365 * day_millis \<or> rw_IdleDelay w \<le> 0 \<or> rw_IdleDelay w > 3600000
         \<or> rw_DeleteTimeout w \<le> 0 \<or> rw_DeleteTimeout w > 60000 \<or> rw_ClaimLease w \<le> rw_DeleteTimeout w
         \<or> rw_ClaimLease w > 15 * 60000 \<or> rw_RetryDelay w \<le> 0 \<or> rw_RetryDelay w > 3600000
      then None else Some w)"

text \<open>\<open>ErrSourceRetentionDeleteFailed\<close> comes with the error of recording the failure, if any.\<close>

datatype process_outcome =
    ProcessDone
  | ProcessFailed retention_error
  | ErrSourceRetentionDeleteFailed "retention_error option"

text \<open>A failed deletion may have removed the object or not.\<close>

datatype delete_outcome = DeleteDone | DeleteFails bool

record process_env =
  pe_now :: int
  pe_others :: "nat \<Rightarrow> client_store \<Rightarrow> client_store"
  pe_envs :: "nat \<Rightarrow> retention_env"
  pe_delete :: delete_outcome
  pe_during :: "client_store \<Rightarrow> client_store"
  pe_settle :: int
  pe_recheck :: int

definition ProcessNext :: "process_env \<Rightarrow> SourceRetentionWorkerConfig \<Rightarrow> client_store \<Rightarrow> process_outcome \<times> client_store" where
  "ProcessNext env worker s =
     (case ClaimSourceRetention (pe_now env) (pe_others env) (pe_envs env) (rw_Retention worker) (rw_ClaimLease worker) s of
        (Inl e, s1) \<Rightarrow> (ProcessFailed e, s1)
      | (Inr claim, s1) \<Rightarrow>
          (case pe_delete env of
             DeleteFails gone \<Rightarrow>
               let s2 = pe_during env (if gone then delete_object (rc_ObjectKey claim) s1 else s1) in
               (case RecordSourceRetentionFailure (pe_settle env) claim (rw_RetryDelay worker) s2 of
                  Inr s3 \<Rightarrow> (ErrSourceRetentionDeleteFailed None, s3)
                | Inl e \<Rightarrow>
                    if e \<noteq> ErrSourceRetentionNotAvailable then (ProcessFailed e, s2)
                    else (ErrSourceRetentionDeleteFailed (Some e), s2))
           | DeleteDone \<Rightarrow>
               let s2 = pe_during env (delete_object (rc_ObjectKey claim) s1) in
               (case FinalizeSourceRetention (pe_settle env) (pe_recheck env) claim s2 of
                  Inr s3 \<Rightarrow> (ProcessDone, s3)
                | Inl e \<Rightarrow> (ProcessFailed e, s2))))"

text \<open>Whether \<open>Run\<close> goes on after an outcome, and whether it waits first; other errors end it.\<close>

datatype run_next = RunAgain | RunAfterDelay | RunStops

definition retention_run_next :: "process_outcome \<Rightarrow> run_next" where
  "retention_run_next out =
     (case out of
        ProcessDone \<Rightarrow> RunAgain
      | ErrSourceRetentionDeleteFailed _ \<Rightarrow> RunAfterDelay
      | ProcessFailed e \<Rightarrow> if e = ErrSourceRetentionNotAvailable then RunAfterDelay else RunStops)"

section \<open>What settling keeps\<close>

lemma split_slash_join: "CHR ''/'' \<notin> set a \<Longrightarrow> split_slash (a @ CHR ''/'' # b) = a # split_slash b"
  by (induction a) auto

lemma split_slash_whole: "CHR ''/'' \<notin> set a \<Longrightarrow> split_slash a = [a]"
  by (induction a) auto

lemma external_id_chars:
  assumes "externalIDPattern s"
  shows "CHR ''/'' \<notin> set s" "CHR 0x5C \<notin> set s" "length s = 26"
  using assms by (auto simp: externalIDPattern_def list_all_iff lower_letter_def)

lemma SourceObjectKey_valid:
  assumes "SourceObjectKey tenant source = Some key"
  shows "validSourceObjectKey key"
proof -
  have p: "externalIDPattern tenant" "externalIDPattern source"
    and k: "key = ''external'' @ CHR ''/'' # tenant @ CHR ''/'' # ''sources'' @ CHR ''/'' # source @ ''.bin''"
    using assms by (auto simp: SourceObjectKey_def split: if_splits)
  note t = external_id_chars [OF p(1)] and s = external_id_chars [OF p(2)]
  have sp: "split_slash key = [''external'', tenant, ''sources'', source @ ''.bin'']"
    unfolding k using t(1) s(1) by (simp add: split_slash_join split_slash_whole del: append_Cons append_Nil)
  have "tenant \<noteq> []" "tenant \<noteq> ''.''" "tenant \<noteq> ''..''" "source @ ''.bin'' \<noteq> ''.''" "source @ ''.bin'' \<noteq> ''..''"
    using t(3) s(3) by auto
  then have "path_Clean key = key" by (simp add: path_Clean_def sp Let_def) (simp add: k)
  moreover have "CHR 0x5C \<notin> set key" using t(2) s(2) by (simp add: k)
  ultimately show ?thesis using p sp s(3) by (simp add: validSourceObjectKey_def k trim_suffix_def)
qed

lemma finalizeE:
  assumes "FinalizeSourceRetention now recheck claim s = Inr s'"
  obtains j r where "j \<in> set (jobs (cl_db s))" "claim_names_job claim j" "retained_job claim None j"
    "r \<in> set (sources (cl_db s))" "claim_names_source claim r" "so_delete_marked_at r \<noteq> None" "so_object_key r = rc_ObjectKey claim"
    "\<forall>o' \<in> set (outbox (cl_db s)). ob_job_id o' \<noteq> rc_JobInternalID claim"
    "\<forall>k \<in> set (cl_keys s). \<not> key_names_job (rc_TenantInternalID claim) (rc_JobExternalID claim) recheck k"
    "\<forall>k \<in> set (jobs (cl_db s)). jb_source_object_id k = rc_SourceInternalID claim \<longrightarrow> jb_id k = rc_JobInternalID claim"
    "cl_db s' = drop_retained claim (cl_db s)" "cl_keys s' = cl_keys s" "cl_reservations s' = cl_reservations s" "cl_objects s' = cl_objects s"
  using assms
  by (auto simp: FinalizeSourceRetention_def lockRetentionTenantJob_def retentionBlockers_def insertRetentionAudit_def Let_def
      result_simps sql_count_def filter_empty_conv split: if_splits option.splits dest!: find_Some_mem)

lemma drop_lease:
  assumes "rows_ok js" "lease_inv {} js as" "j \<in> set js" "row_terminal j" "jb_id j = i" "jb_tenant_id j = t"
  shows "lease_inv {} (sql_delete (\<lambda>k. jb_id k = i \<and> jb_tenant_id k = t) js) (sql_delete (\<lambda>a. at_tenant_id a = t \<and> at_job_id a = i) as)"
proof -
  have only: "k = j" if "k \<in> set js" "jb_id k = i" for k
    by (rule job_by_id [of js]) (use assms(1,3,5) that in \<open>auto simp: rows_ok_def\<close>)
  have nr: "jb_status j \<noteq> JobStatusRunning" using assms(4) by (auto simp: row_terminal_def)
  have "\<exists>a \<in> set (sql_delete (\<lambda>a. at_tenant_id a = t \<and> at_job_id a = i) as). at_status a = AttemptRunning \<and> at_job_id a = jb_id k"
    if k: "k \<in> set js" "jb_status k = JobStatusRunning" for k
  proof -
    obtain a where a: "a \<in> set as" "at_status a = AttemptRunning" "at_job_id a = jb_id k"
      using assms(2) k by (auto simp: lease_inv_def)
    have "jb_id k \<noteq> i" using only [OF k(1)] k(2) nr by auto
    then show ?thesis using a by (auto simp: sql_delete_def)
  qed
  moreover have "attempt_ok {} (sql_delete (\<lambda>k. jb_id k = i \<and> jb_tenant_id k = t) js) a"
    if "a \<in> set as" "\<not> (at_tenant_id a = t \<and> at_job_id a = i)" for a
    using assms(2) that by (fastforce simp: lease_inv_def attempt_ok_def sql_delete_def)
  ultimately show ?thesis by (auto simp: lease_inv_def sql_delete_def)
qed

lemma drop_ledger:
  assumes "ledger_inv as ds" "\<forall>a \<in> set as. p a \<longrightarrow> at_status a \<noteq> AttemptRunning"
  shows "ledger_inv (sql_delete p as) ds"
proof -
  have z: "at_reserved a = 0" if "a \<in> set as" "p a" for a
    using ledger_invD(3) [OF assms(1) that(1)] assms(2) that by (auto simp: attempt_funded_def)
  have "reserved_for t day (sql_delete p as) = reserved_for t day as" for t day
    using z unfolding reserved_for_def sql_delete_def by (induction as) (auto simp: share_def)
  then show ?thesis using assms(1) by (auto simp: ledger_inv_def sql_delete_def distinct_map_filter)
qed

lemma drop_outbox:
  assumes "outbox_inv Y js es" "\<forall>e \<in> set es. ob_job_id e \<noteq> i"
  shows "outbox_inv Y (sql_delete (\<lambda>k. jb_id k = i \<and> jb_tenant_id k = t) js) es"
  using assms unfolding outbox_inv_def event_ok_def sql_delete_def by fastforce

lemma retained_terminal: "retained_job claim b j \<Longrightarrow> row_terminal j"
  by (simp add: retained_job_def row_terminal_def)

lemma finalize_mid:
  assumes "FinalizeSourceRetention now recheck claim s = Inr s'" "store_mid {} Y (cl_db s)"
  shows "store_mid {} Y (cl_db s')"
proof -
  let ?d = "cl_db s"
  note I = store_midD [OF assms(2)]
  obtain j where j: "j \<in> set (jobs ?d)" "claim_names_job claim j" "retained_job claim None j"
    and ob: "\<forall>o' \<in> set (outbox ?d). ob_job_id o' \<noteq> rc_JobInternalID claim" and s': "cl_db s' = drop_retained claim ?d"
    by (rule finalizeE [OF assms(1)]) blast
  have ids: "jb_id j = rc_JobInternalID claim" "jb_tenant_id j = rc_TenantInternalID claim" using j(2) by (simp_all add: claim_names_job_def)
  have t: "row_terminal j" by (rule retained_terminal [OF j(3)])
  have p: "claim_names_job claim = (\<lambda>k. jb_id k = rc_JobInternalID claim \<and> jb_tenant_id k = rc_TenantInternalID claim)"
    by (simp add: claim_names_job_def fun_eq_iff)
  have "at_status a \<noteq> AttemptRunning" if a: "a \<in> set (attempts ?d)" "at_job_id a = rc_JobInternalID claim" for a
  proof
    assume run: "at_status a = AttemptRunning"
    obtain k where k: "k \<in> set (jobs ?d)" "jb_id k = at_job_id a" "held_by k a"
      using lease_invD(1) [OF I(2) a(1)] run by (auto simp: attempt_ok_def)
    have "k = j" by (rule job_by_id [OF I(6) k(1) j(1)]) (simp add: k(2) a(2) ids)
    then show False using k(3) t by (auto simp: held_by_def row_terminal_def)
  qed
  then have "ledger_inv (attempts (cl_db s')) (daily (cl_db s'))"
    unfolding s' drop_retained_def using drop_ledger [OF I(3)] by simp
  moreover have "rows_ok (jobs (cl_db s'))"
    using I(1) by (auto simp: s' drop_retained_def rows_ok_def sql_delete_def distinct_map_filter)
  ultimately show ?thesis
    using drop_lease [OF I(1,2) j(1) t ids] drop_outbox [OF I(4) ob] I(5)
    by (simp add: store_mid_def s' drop_retained_def p)
qed

end
