(* ===== verification/Client_Steps.thy ===== *)
theory Client_Steps
  imports Source_Retention
begin

text \<open>
  Submissions among everything else: the committed steps of clients, judging workers, webhook workers and
  retention workers on the job store, the idempotency keys, the reservations and the source objects. A published
  key is found again with its job until it expires, and a submission is a sequence of such steps.
\<close>

section \<open>What publishing does\<close>

lemma fold_max_bound: "x \<in> set xs \<Longrightarrow> x \<le> fold max xs (a :: nat)"
proof (induction xs arbitrary: a)
  case (Cons y ys)
  have "a' \<le> fold max zs a'" for a' :: nat and zs by (induction zs arbitrary: a') (auto intro: le_trans [OF max.cobounded2])
  from this [of "max y a" ys] show ?case using Cons by auto
qed simp

lemma next_job_id_fresh: "next_job_id d \<notin> jb_id ` set (jobs d)"
  using fold_max_bound [of _ "map jb_id (jobs d)" 0] by (force simp: next_job_id_def)

lemma submit_mid:
  assumes "store_mid {} Y d"
  shows "store_mid {} Y (d\<lparr>sources := ss, jobs := jobs d @ [job_of_submission sn tenant bundle callback now d]\<rparr>)"
proof -
  let ?j = "job_of_submission sn tenant bundle callback now d"
  note I = store_midD [OF assms]
  have j: "row_ok ?j" "jb_status ?j = JobStatusQueued" "jb_id ?j = next_job_id d"
    by (simp_all add: job_of_submission_def row_ok_def row_terminal_def)
  have "rows_ok (jobs d @ [?j])" using I(1) j next_job_id_fresh [of d] by (auto simp: rows_ok_def)
  moreover have "lease_inv {} (jobs d @ [?j]) (attempts d)"
    using I(2) j(2) by (auto simp: lease_inv_def attempt_ok_def)
  moreover have "outbox_inv Y (jobs d @ [?j]) (outbox d)"
    using I(4) j(2) by (auto simp: outbox_inv_def event_ok_def row_terminal_def)
  ultimately show ?thesis using assms by (simp add: store_mid_def)
qed

lemma lockTenantPolicyE:
  assumes "lockTenantPolicy te d = Inr (tenant, policy)"
  obtains t where "t \<in> set (tenants d)" "tn_external_id t = te" "tn_id t = tenant" "tn_status t = ''ACTIVE''"
    "decodeTenantPolicy (tn_policy t) = Some policy"
  using assms
  by (auto simp: lockTenantPolicy_def find_Some_iff split: option.splits if_splits intro: nth_mem)

lemma publishE:
  assumes "publish_submission ttl now sn tenant bundle callback keys s = Inr (r, s')"
  obtains key j where
    "cl_db s' = (cl_db s)\<lparr>sources := sources (cl_db s) @ [source_of_submission sn tenant (cl_db s)],
       jobs := jobs (cl_db s) @ [job_of_submission sn tenant bundle callback now (cl_db s)]\<rparr>"
    "cl_keys s' = keys @ [key]" "same_key tenant (sn_keyDigest sn) key" "ik_request_hash key = sn_requestHash sn"
    "ik_resource_type key = ''judge-job'' \<and> ik_resource key = sn_jobID sn" "ik_expires_at key = now + ttl" "\<not> sj_Replayed r"
    "getExternalJob (cl_db s') (sn_tenant sn) (sn_jobID sn) = Some (j, Some (sj_Job r))"
    "\<forall>j \<in> set (jobs (cl_db s)). jb_external_id j \<noteq> sn_jobID sn"
    "\<forall>x \<in> set (sources (cl_db s)). so_external_id x \<noteq> sn_sourceID sn \<and> so_object_key x \<noteq> fst (sn_source sn)"
    "cl_reservations s' = sql_delete (owned_by [sn_coordination sn, sn_source sn]) (cl_reservations s)"
    "cl_objects s' = cl_objects s"
  using assms
  by (auto simp: publish_submission_def Let_def release_reservations_def same_key_def sql_exists_def list_ex_iff
      split: if_splits option.splits)

lemma transactionE:
  assumes "submit_transaction ttl lockNow now sn s = Inr (r, Some s')"
  obtains tenant policy b callback keys where
    "lockSubmissionReservations lockNow [sn_coordination sn, sn_source sn] (cl_reservations s)"
    "lockTenantPolicy (sn_tenant sn) (cl_db s) = Inr (tenant, policy)"
    "keys = sql_delete (\<lambda>k. same_key tenant (sn_keyDigest sn) k \<and> ik_expires_at k \<le> now) (cl_keys s)"
    "\<forall>k \<in> set keys. \<not> same_key tenant (sn_keyDigest sn) k"
    "int (length (jr_SourceCode (sn_request sn))) \<le> MaxSourceBytes policy"
    "queued_jobs tenant (cl_db s) < MaxQueuedJobs policy"
    "b \<in> set (bundles (cl_db s))" "bundle_usable tenant (jr_BundleID (sn_request sn)) b"
    "find_callback tenant (jr_CallbackID (sn_request sn)) (cl_db s) = Inr callback"
    "publish_submission ttl now sn tenant (bd_id b) callback keys s = Inr (r, s')"
proof -
  from assms obtain tenant policy where a: "lockSubmissionReservations lockNow [sn_coordination sn, sn_source sn] (cl_reservations s)"
    "lockTenantPolicy (sn_tenant sn) (cl_db s) = Inr (tenant, policy)"
    by (auto simp: submit_transaction_def Let_def result_simps split: if_splits)
  define keys where "keys = sql_delete (\<lambda>k. same_key tenant (sn_keyDigest sn) k \<and> ik_expires_at k \<le> now) (cl_keys s)"
  have f: "List.find (same_key tenant (sn_keyDigest sn)) keys = None"
    using assms a by (auto simp: submit_transaction_def Let_def result_simps keys_def split: option.splits)
  then have nk: "\<forall>k \<in> set keys. \<not> same_key tenant (sn_keyDigest sn) k" by (simp add: find_None_iff)
  from assms a f obtain b callback where b: "List.find (bundle_usable tenant (jr_BundleID (sn_request sn))) (bundles (cl_db s)) = Some b"
    "find_callback tenant (jr_CallbackID (sn_request sn)) (cl_db s) = Inr callback"
    "publish_submission ttl now sn tenant (bd_id b) callback keys s = Inr (r, s')"
    "int (length (jr_SourceCode (sn_request sn))) \<le> MaxSourceBytes policy" "queued_jobs tenant (cl_db s) < MaxQueuedJobs policy"
    by (auto simp: submit_transaction_def Let_def result_simps simp flip: keys_def split: if_splits option.splits)
  have "b \<in> set (bundles (cl_db s))" "bundle_usable tenant (jr_BundleID (sn_request sn)) b"
    using b(1) by (auto simp: find_Some_iff)
  then show ?thesis using that [OF a keys_def nk b(4,5) _ _ b(2,3)] by blast
qed

section \<open>Known jobs\<close>

definition rows_readable :: "db \<Rightarrow> bool" where
  "rows_readable d \<longleftrightarrow> distinct (map jb_id (jobs d)) \<and> (\<forall>j \<in> set (jobs d). result_ok j)"

lemma mid_readable: "store_mid X Y d \<Longrightarrow> rows_readable d"
  by (auto simp: store_mid_def rows_ok_def row_ok_def rows_readable_def result_ok_def)

definition known :: "string \<Rightarrow> string \<Rightarrow> db \<Rightarrow> bool" where
  "known te i d \<longleftrightarrow> (\<exists>j. names_job te i d j \<and> (\<forall>k \<in> set (jobs d). jb_external_id k = i \<longrightarrow> jb_id k = jb_id j))"

lemma known_reads:
  assumes "known te i d" "rows_readable d"
  shows "\<exists>j job. getExternalJob d te i = Some (j, Some job) \<and> ej_ExternalID job = i"
proof -
  obtain j where j: "names_job te i d j" "\<forall>k \<in> set (jobs d). jb_external_id k = i \<longrightarrow> jb_id k = jb_id j"
    using assms(1) unfolding known_def by blast
  have named: "job_named d te i j" "j \<in> set (jobs d)" using j(1) by (simp_all add: names_job_def)
  have inv: "distinct (map jb_id (jobs d))" "result_ok j" using assms(2) named(2) by (auto simp: rows_readable_def)
  obtain k where k: "List.find (job_named d te i) (jobs d) = Some k"
    using named by (cases "List.find (job_named d te i) (jobs d)") (auto simp: find_None_iff)
  then have "k \<in> set (jobs d)" "jb_external_id k = i" by (auto simp: find_Some_iff job_named_def)
  then have "k = j" using j(2) named(2) inv(1) by (auto simp: distinct_map dest: inj_onD)
  moreover obtain job where "read_job d j = Some job" "ej_ExternalID job = i"
  proof -
    obtain t b s where r: "tenant_of d j = Some t" "bundle_of d j = Some b" "source_of d j = Some s"
      "0 < so_key_version s" "so_key_version s \<le> 65535" "jb_external_id j = i"
      using j(1) by (auto simp: names_job_def job_named_def split: option.splits)
    have ok: "\<not> (case jb_result j of None \<Rightarrow> False | Some r \<Rightarrow> \<not> validateDurableJobResult r)"
      using inv(2) by (simp add: result_ok_def split: option.split)
    have "\<exists>job. read_job d j = Some job \<and> ej_ExternalID job = i" using r ok by (simp add: read_job_def scanExternalJob_def)
    then show ?thesis using that by blast
  qed
  ultimately show ?thesis using k by (simp add: getExternalJob_def)
qed

lemma list_all2_mem_right: "list_all2 R xs ys \<Longrightarrow> y \<in> set ys \<Longrightarrow> \<exists>x \<in> set xs. R x y"
  by (induction rule: list_all2_induct) auto

lemma known_step:
  assumes "store_step d d'" "known te i d"
  shows "known te i d'"
proof -
  obtain j where j: "names_job te i d j" "\<forall>k \<in> set (jobs d). jb_external_id k = i \<longrightarrow> jb_id k = jb_id j"
    using assms(2) unfolding known_def by blast
  from names_job_step [OF assms(1) j(1)] obtain j' where j': "names_job te i d' j'" "job_name j' = job_name j" by blast
  have "jb_id k' = jb_id j'" if m: "k' \<in> set (jobs d')" "jb_external_id k' = i" for k'
  proof -
    obtain k where k: "k \<in> set (jobs d)" "row_advances k k'"
      using list_all2_mem_right [OF store_step_advance [OF assms(1)] m(1)] by blast
    then have "jb_id k' = jb_id k" "jb_external_id k' = jb_external_id k" by (simp_all add: row_advances_def job_name_def)
    then show ?thesis using j(2) k(1) m(2) j'(2) by (simp add: job_name_def)
  qed
  then show ?thesis using j'(1) unfolding known_def by blast
qed

lemma readable_step:
  assumes "store_step d d'" "rows_readable d"
  shows "rows_readable d'"
proof -
  note adv = store_step_advance [OF assms(1)]
  have "map jb_id (jobs d') = map jb_id (jobs d)"
    using adv by (induction rule: list_all2_induct) (auto simp: row_advances_def job_name_def)
  moreover have "result_ok j'" if "j' \<in> set (jobs d')" for j'
    using list_all2_mem_right [OF adv that] assms(2) by (auto simp: rows_readable_def row_advances_def)
  ultimately show ?thesis using assms(2) by (simp add: rows_readable_def)
qed

lemma readable_publish:
  "rows_readable d \<Longrightarrow> rows_readable (d\<lparr>sources := ss, jobs := jobs d @ [job_of_submission sn tenant bundle callback now d]\<rparr>)"
  using next_job_id_fresh [of d] by (auto simp: rows_readable_def job_of_submission_def result_ok_def)

lemma find_appended:
  "List.find p (xs @ ys) = (case List.find p xs of None \<Rightarrow> List.find p ys | Some x \<Rightarrow> Some x)"
  by (induction xs) auto

lemma names_job_grow:
  assumes "names_job te i d j"
  shows "names_job te i (d\<lparr>sources := sources d @ ss, jobs := jobs d @ js\<rparr>) j"
  using assms
  by (auto simp: names_job_def job_named_def tenant_of_def bundle_of_def source_of_def find_appended split: option.splits)

lemma known_publish:
  assumes "known te i d" "\<forall>j \<in> set (jobs d). jb_external_id j \<noteq> jb_external_id new"
  shows "known te i (d\<lparr>sources := sources d @ ss, jobs := jobs d @ [new]\<rparr>)"
proof -
  obtain j where j: "names_job te i d j" "\<forall>k \<in> set (jobs d). jb_external_id k = i \<longrightarrow> jb_id k = jb_id j"
    using assms(1) unfolding known_def by blast
  have "jb_external_id j = i" "j \<in> set (jobs d)" using j(1) by (auto simp: names_job_def job_named_def)
  then have "jb_external_id new \<noteq> i" using assms(2) by auto
  then show ?thesis using names_job_grow [OF j(1)] j(2) unfolding known_def by (intro exI [of _ j]) auto
qed

text \<open>Marking a source changes its deletion columns only.\<close>

lemma known_sources:
  assumes "known te i d" "\<And>r. so_id (f r) = so_id r" "\<And>r. so_tenant_id (f r) = so_tenant_id r"
    "\<And>r. so_key_version (f r) = so_key_version r"
  shows "known te i (d\<lparr>sources := sql_update p f (sources d)\<rparr>)"
proof -
  let ?d = "d\<lparr>sources := sql_update p f (sources d)\<rparr>"
  have src: "source_of ?d j = map_option (\<lambda>r. if p r then f r else r) (source_of d j)" for j
    unfolding source_of_def by (simp add: find_sql_update assms(2,3))
  have same: "job_named ?d te i j \<longleftrightarrow> job_named d te i j" for j
    by (simp add: job_named_def tenant_of_def bundle_of_def src split: option.split)
  have v: "so_key_version (if p r then f r else r) = so_key_version r" for r by (simp add: assms(4))
  have "names_job te i ?d j" if m: "names_job te i d j" for j
  proof -
    obtain r where r: "source_of d j = Some r" "0 < so_key_version r" "so_key_version r \<le> 65535"
      using m by (auto simp: names_job_def)
    have "source_of ?d j = Some (if p r then f r else r)" by (simp add: src r(1))
    then show ?thesis using m r(2,3) v [of r] unfolding names_job_def same by simp
  qed
  then show ?thesis using assms(1) unfolding known_def by auto
qed

lemma find_kept: "(\<And>x. P x \<Longrightarrow> Q x) \<Longrightarrow> List.find P (filter Q xs) = List.find P xs"
  by (induction xs) auto

text \<open>A job outlives the retention of every other job.\<close>

lemma known_drop:
  assumes "known te i d" "rows_readable d" "j0 \<in> set (jobs d)" "claim_names_job claim j0" "jb_external_id j0 \<noteq> i"
    "\<forall>k \<in> set (jobs d). jb_source_object_id k = rc_SourceInternalID claim \<longrightarrow> jb_id k = rc_JobInternalID claim"
  shows "known te i (drop_retained claim d)"
proof -
  let ?d = "drop_retained claim d"
  obtain j where j: "names_job te i d j" "\<forall>k \<in> set (jobs d). jb_external_id k = i \<longrightarrow> jb_id k = jb_id j"
    using assms(1) unfolding known_def by blast
  have n: "j \<in> set (jobs d)" "job_named d te i j" "jb_external_id j = i" using j(1) by (auto simp: names_job_def job_named_def)
  have other: "jb_id j \<noteq> rc_JobInternalID claim"
  proof
    assume "jb_id j = rc_JobInternalID claim"
    then have "j = j0" using assms(2-4) n(1) by (auto simp: rows_readable_def claim_names_job_def distinct_map inj_on_def)
    then show False using assms(5) n(3) by simp
  qed
  then have "jb_source_object_id j \<noteq> rc_SourceInternalID claim" using assms(6) n(1) by auto
  then have src: "source_of ?d j = source_of d j"
    unfolding source_of_def drop_retained_def sql_delete_def by simp (rule find_kept, auto simp: claim_names_source_def)
  have "job_named ?d te i j" using n(2) unfolding job_named_def by (simp add: src) (simp add: tenant_of_def bundle_of_def drop_retained_def)
  then have "names_job te i ?d j"
    using j(1) other by (auto simp: names_job_def src) (auto simp: drop_retained_def sql_delete_def claim_names_job_def)
  moreover have "\<forall>k \<in> set (jobs ?d). jb_external_id k = i \<longrightarrow> jb_id k = jb_id j"
    using j(2) by (auto simp: drop_retained_def sql_delete_def)
  ultimately show ?thesis unfolding known_def by blast
qed

section \<open>Steps of clients and workers\<close>

text \<open>\<open>T\<close> bounds the clock of the steps that look at the expiry of keys; webhook rows, reservations and objects may
  change in any way.\<close>

inductive client_step :: "int \<Rightarrow> client_store \<Rightarrow> client_store \<Rightarrow> bool" for T where
  client_job: "store_step (cl_db s) d \<Longrightarrow> client_step T s (s\<lparr>cl_db := d\<rparr>)"
| client_publish: "submit_transaction ttl lockNow now sn s = Inr (r, Some s') \<Longrightarrow> now \<le> T \<Longrightarrow> client_step T s s'"
| client_expire: "ExpireIdempotencyBatch locked now batch s = Inr (n, s') \<Longrightarrow> now \<le> T \<Longrightarrow> client_step T s s'"
| client_mark: "claimSourceRetentionCandidate env candidate retention leaseDuration s = Inr (claim, s') \<Longrightarrow> client_step T s s'"
| client_retry: "RecordSourceRetentionFailure now claim retryDelay s = Inr s' \<Longrightarrow> client_step T s s'"
| client_finalize: "FinalizeSourceRetention now recheck claim s = Inr s' \<Longrightarrow> recheck \<le> T \<Longrightarrow> client_step T s s'"
| client_webhook: "client_step T s (s\<lparr>cl_db := (cl_db s)\<lparr>outbox := es\<rparr>\<rparr>)"
| client_outside: "client_step T s (s\<lparr>cl_reservations := rows, cl_objects := os\<rparr>)"

definition tenant_is :: "string \<Rightarrow> nat \<Rightarrow> db \<Rightarrow> bool" where
  "tenant_is te tenant d \<longleftrightarrow> (\<exists>t \<in> set (tenants d). tn_external_id t = te)
     \<and> (\<forall>t \<in> set (tenants d). tn_external_id t = te \<longrightarrow> tn_id t = tenant)"

definition key_held :: "int \<Rightarrow> string \<Rightarrow> nat \<Rightarrow> string \<Rightarrow> string \<Rightarrow> string \<Rightarrow> client_store \<Rightarrow> bool" where
  "key_held T te tenant kd h i s \<longleftrightarrow> rows_readable (cl_db s) \<and> tenant_is te tenant (cl_db s) \<and> known te i (cl_db s)
     \<and> distinct (map ik_id (cl_keys s))
     \<and> (\<exists>k \<in> set (cl_keys s). same_key tenant kd k \<and> ik_request_hash k = h
          \<and> (ik_resource_type k = ''judge-job'' \<and> ik_resource k = i) \<and> T < ik_expires_at k
          \<and> (\<forall>k' \<in> set (cl_keys s). same_key tenant kd k' \<longrightarrow> k' = k))"

lemma tenant_is_static:
  assumes "static d' = static d" "tenant_is te tenant d"
  shows "tenant_is te tenant d'"
proof -
  have "map tenant_name (tenants d') = map tenant_name (tenants d)" using assms(1) by (simp add: static_def)
  then have "tenant_name ` set (tenants d') = tenant_name ` set (tenants d)" by (metis set_map)
  then have "(\<lambda>t. (tn_id t, tn_external_id t)) ` set (tenants d') = (\<lambda>t. (tn_id t, tn_external_id t)) ` set (tenants d)"
    by (auto simp: tenant_name_def image_iff set_eq_iff) metis+
  then show ?thesis using assms(2) unfolding tenant_is_def by (auto simp: image_iff set_eq_iff) metis+
qed

lemma expire_keeps:
  assumes "ExpireIdempotencyBatch locked now batch s = Inr (n, s')" "distinct (map ik_id (cl_keys s))"
  shows "\<forall>k \<in> set (cl_keys s). now < ik_expires_at k \<longrightarrow> k \<in> set (cl_keys s')"
    "set (cl_keys s') \<subseteq> set (cl_keys s)" "distinct (map ik_id (cl_keys s'))" "cl_db s' = cl_db s"
proof -
  define due where "due = sort_key (\<lambda>k. (ik_expires_at k, ik_id k)) (filter (\<lambda>k. ik_expires_at k \<le> now \<and> \<not> locked (ik_id k)) (cl_keys s))"
  define ids where "ids = map ik_id (take (nat batch) due)"
  have s': "s' = s\<lparr>cl_keys := sql_delete (\<lambda>k. ik_id k \<in> set ids) (cl_keys s)\<rparr>"
    using assms(1) unfolding ExpireIdempotencyBatch_def Let_def due_def [symmetric] ids_def [symmetric] by (simp split: if_splits)
  have "set due \<subseteq> {k \<in> set (cl_keys s). ik_expires_at k \<le> now}" by (auto simp: due_def)
  then have "set ids \<subseteq> ik_id ` {k \<in> set (cl_keys s). ik_expires_at k \<le> now}"
    unfolding ids_def using set_take_subset [of "nat batch" due] by auto
  note ids = s' this
  have "ik_id k \<notin> set ids" if "k \<in> set (cl_keys s)" "now < ik_expires_at k" for k
  proof
    assume "ik_id k \<in> set ids"
    then obtain k' where k': "k' \<in> set (cl_keys s)" "ik_expires_at k' \<le> now" "ik_id k' = ik_id k" using ids(2) by force
    have "inj_on ik_id (set (cl_keys s))" using assms(2) by (simp add: distinct_map)
    then have "k' = k" using k'(1,3) that(1) by (simp add: inj_on_def)
    then show False using k'(2) that(2) by simp
  qed
  then show "\<forall>k \<in> set (cl_keys s). now < ik_expires_at k \<longrightarrow> k \<in> set (cl_keys s')"
    using ids(1) by (simp add: sql_delete_def)
  show "set (cl_keys s') \<subseteq> set (cl_keys s)" "cl_db s' = cl_db s" using ids(1) by (auto simp: sql_delete_def)
  show "distinct (map ik_id (cl_keys s'))" using ids(1) assms(2) by (simp add: sql_delete_def distinct_map_filter)
qed

lemma key_heldE:
  assumes "key_held T te tenant kd h i s"
  obtains k where "k \<in> set (cl_keys s)" "same_key tenant kd k" "ik_request_hash k = h" "ik_resource_type k = ''judge-job'' \<and> ik_resource k = i" "T < ik_expires_at k"
    "\<forall>k' \<in> set (cl_keys s). same_key tenant kd k' \<longrightarrow> k' = k" "distinct (map ik_id (cl_keys s))"
    "rows_readable (cl_db s)" "tenant_is te tenant (cl_db s)" "known te i (cl_db s)"
  using assms unfolding key_held_def by blast

lemma key_heldI:
  assumes "k \<in> set (cl_keys s)" "same_key tenant kd k" "ik_request_hash k = h" "ik_resource_type k = ''judge-job'' \<and> ik_resource k = i" "T < ik_expires_at k"
    "\<forall>k' \<in> set (cl_keys s). same_key tenant kd k' \<longrightarrow> k' = k" "distinct (map ik_id (cl_keys s))"
    "rows_readable (cl_db s)" "tenant_is te tenant (cl_db s)" "known te i (cl_db s)"
  shows "key_held T te tenant kd h i s"
  using assms unfolding key_held_def by blast

lemma publish_keys:
  assumes "publish_submission ttl now sn tenant bundle callback keys s = Inr (r, s')"
  shows "cl_keys s' = keys @ [\<lparr>ik_id = next_key_id (cl_keys s), ik_tenant_id = tenant, ik_scope = submitJobIdempotencyScope,
    ik_key_digest = sn_keyDigest sn, ik_request_hash = sn_requestHash sn,
    ik_resource_type = ''judge-job'', ik_resource = sn_jobID sn, ik_expires_at = now + ttl\<rparr>]"
  using assms by (auto simp: publish_submission_def Let_def release_reservations_def split: if_splits option.splits)

lemma next_key_id_fresh: "next_key_id keys \<notin> ik_id ` set keys"
  using fold_max_bound [of _ "map ik_id keys" 0] by (force simp: next_key_id_def)

lemma publish_held:
  assumes "key_held T te tenant kd h i s" "submit_transaction ttl lockNow now sn s = Inr (r, Some s')" "now \<le> T"
  shows "key_held T te tenant kd h i s'"
proof -
  obtain k where k: "k \<in> set (cl_keys s)" "same_key tenant kd k" "ik_request_hash k = h" "ik_resource_type k = ''judge-job'' \<and> ik_resource k = i" "T < ik_expires_at k"
    "\<forall>k' \<in> set (cl_keys s). same_key tenant kd k' \<longrightarrow> k' = k" "distinct (map ik_id (cl_keys s))"
    "rows_readable (cl_db s)" "tenant_is te tenant (cl_db s)" "known te i (cl_db s)" by (rule key_heldE [OF assms(1)])
  obtain tn keys bd callback where t: "keys = sql_delete (\<lambda>k. same_key tn (sn_keyDigest sn) k \<and> ik_expires_at k \<le> now) (cl_keys s)"
    "\<forall>k \<in> set keys. \<not> same_key tn (sn_keyDigest sn) k"
    "publish_submission ttl now sn tn bd callback keys s = Inr (r, s')"
    by (rule transactionE [OF assms(2)]) blast
  obtain key where p: "cl_db s' = (cl_db s)\<lparr>sources := sources (cl_db s) @ [source_of_submission sn tn (cl_db s)],
       jobs := jobs (cl_db s) @ [job_of_submission sn tn bd callback now (cl_db s)]\<rparr>"
    "cl_keys s' = keys @ [key]" "same_key tn (sn_keyDigest sn) key" "\<forall>j \<in> set (jobs (cl_db s)). jb_external_id j \<noteq> sn_jobID sn"
    by (rule publishE [OF t(3)]) blast
  have key: "ik_id key = next_key_id (cl_keys s)" using publish_keys [OF t(3)] p(2) by simp
  have kin: "k \<in> set keys" using k(1,5) assms(3) by (auto simp: t(1) sql_delete_def)
  have other: "\<not> same_key tenant kd key"
    using t(2) kin k(2) p(3) by (auto simp: same_key_def)
  have sub: "set keys \<subseteq> set (cl_keys s)" by (auto simp: t(1) sql_delete_def)
  show ?thesis
  proof (rule key_heldI [OF _ k(2-5)])
    show "k \<in> set (cl_keys s')" using kin p(2) by simp
    show "\<forall>k' \<in> set (cl_keys s'). same_key tenant kd k' \<longrightarrow> k' = k" using k(6) sub other p(2) by auto
    have "distinct (map ik_id keys)" using k(7) by (simp add: t(1) sql_delete_def distinct_map_filter)
    then show "distinct (map ik_id (cl_keys s'))" using next_key_id_fresh [of "cl_keys s"] sub p(2) key by auto
    show "rows_readable (cl_db s')" unfolding p(1) by (rule readable_publish [OF k(8)])
    show "tenant_is te tenant (cl_db s')" using k(9) by (simp add: p(1) tenant_is_def)
    show "known te i (cl_db s')" unfolding p(1) using p(4) by (intro known_publish [OF k(10)]) (simp add: job_of_submission_def)
  qed
qed

lemma expire_held:
  assumes "key_held T te tenant kd h i s" "ExpireIdempotencyBatch locked now batch s = Inr (n, s')" "now \<le> T"
  shows "key_held T te tenant kd h i s'"
proof -
  obtain k where k: "k \<in> set (cl_keys s)" "same_key tenant kd k" "ik_request_hash k = h" "ik_resource_type k = ''judge-job'' \<and> ik_resource k = i" "T < ik_expires_at k"
    "\<forall>k' \<in> set (cl_keys s). same_key tenant kd k' \<longrightarrow> k' = k" "distinct (map ik_id (cl_keys s))"
    "rows_readable (cl_db s)" "tenant_is te tenant (cl_db s)" "known te i (cl_db s)" by (rule key_heldE [OF assms(1)])
  note e = expire_keeps [OF assms(2) k(7)]
  have "now < ik_expires_at k" using k(5) assms(3) by simp
  then have kin: "k \<in> set (cl_keys s')" using e(1) k(1) by blast
  have "\<forall>k' \<in> set (cl_keys s'). same_key tenant kd k' \<longrightarrow> k' = k" using e(2) k(6) by blast
  then show ?thesis by (rule key_heldI [OF kin k(2-5) _ e(3)]) (simp_all add: e(4) k(8-10))
qed

lemma sources_held:
  assumes "key_held T te tenant kd h i s" "cl_db s' = (cl_db s)\<lparr>sources := sql_update p f (sources (cl_db s))\<rparr>" "cl_keys s' = cl_keys s"
    "\<And>r. so_id (f r) = so_id r" "\<And>r. so_tenant_id (f r) = so_tenant_id r" "\<And>r. so_key_version (f r) = so_key_version r"
  shows "key_held T te tenant kd h i s'"
proof -
  have "known te i (cl_db s')" unfolding assms(2) by (rule known_sources) (use assms(1) in \<open>simp_all add: key_held_def assms(4-6)\<close>)
  then show ?thesis using assms(1) by (simp add: key_held_def assms(2,3) rows_readable_def tenant_is_def)
qed

lemma mark_held:
  assumes "key_held T te tenant kd h i s" "claimSourceRetentionCandidate env candidate retention leaseDuration s = Inr (claim, s')"
  shows "key_held T te tenant kd h i s'"
proof -
  obtain p token now until where "cl_db s' = (cl_db s)\<lparr>sources := sql_update p (mark_source token now until) (sources (cl_db s))\<rparr>"
    "cl_keys s' = cl_keys s"
    using assms(2) by (auto simp: claimSourceRetentionCandidate_def insertRetentionAudit_def update_sources_def Let_def result_simps
        split: if_splits option.splits)
  then show ?thesis by (rule sources_held [OF assms(1)]) (simp_all add: mark_source_def)
qed

lemma retry_held:
  assumes "key_held T te tenant kd h i s" "RecordSourceRetentionFailure now claim retryDelay s = Inr s'"
  shows "key_held T te tenant kd h i s'"
proof -
  obtain p where "cl_db s' = (cl_db s)\<lparr>sources := sql_update p (\<lambda>r. r\<lparr>so_delete_last_error_code := Some ''OBJECT_DELETE_FAILED'',
      so_delete_lease_until := Some now, so_delete_next_attempt_at := Some (now + retryDelay)\<rparr>) (sources (cl_db s))\<rparr>"
    "cl_keys s' = cl_keys s"
    using assms(2) by (auto simp: RecordSourceRetentionFailure_def insertRetentionAudit_def update_sources_def Let_def result_simps
        split: if_splits option.splits)
  then show ?thesis by (rule sources_held [OF assms(1)]) simp_all
qed

lemma finalize_held:
  assumes "key_held T te tenant kd h i s" "FinalizeSourceRetention now recheck claim s = Inr s'" "recheck \<le> T"
  shows "key_held T te tenant kd h i s'"
proof -
  obtain k where k: "k \<in> set (cl_keys s)" "same_key tenant kd k" "ik_request_hash k = h"
    "ik_resource_type k = ''judge-job'' \<and> ik_resource k = i" "T < ik_expires_at k"
    "\<forall>k' \<in> set (cl_keys s). same_key tenant kd k' \<longrightarrow> k' = k" "distinct (map ik_id (cl_keys s))"
    "rows_readable (cl_db s)" "tenant_is te tenant (cl_db s)" "known te i (cl_db s)" by (rule key_heldE [OF assms(1)])
  let ?d = "cl_db s"
  obtain j0 r where j0: "j0 \<in> set (jobs ?d)" "claim_names_job claim j0" "retained_job claim None j0"
    and "r \<in> set (sources ?d)" "claim_names_source claim r" "so_delete_marked_at r \<noteq> None" "so_object_key r = rc_ObjectKey claim"
    and "\<forall>o' \<in> set (outbox ?d). ob_job_id o' \<noteq> rc_JobInternalID claim"
    and nk: "\<forall>k \<in> set (cl_keys s). \<not> key_names_job (rc_TenantInternalID claim) (rc_JobExternalID claim) recheck k"
    and src: "\<forall>k \<in> set (jobs ?d). jb_source_object_id k = rc_SourceInternalID claim \<longrightarrow> jb_id k = rc_JobInternalID claim"
    and s': "cl_db s' = drop_retained claim ?d" "cl_keys s' = cl_keys s"
    by (rule finalizeE [OF assms(2)])
  have "jb_external_id j0 \<noteq> i"
  proof
    assume e: "jb_external_id j0 = i"
    obtain j where j: "names_job te i ?d j" "\<forall>k \<in> set (jobs ?d). jb_external_id k = i \<longrightarrow> jb_id k = jb_id j"
      using k(10) unfolding known_def by blast
    have jm: "j \<in> set (jobs ?d)" using j(1) by (simp add: names_job_def)
    have "distinct (map jb_id (jobs ?d))" using k(8) by (simp add: rows_readable_def)
    from job_by_id [OF this j0(1) jm] have "j0 = j" using j(2) j0(1) e by blast
    then obtain t where t: "tenant_of ?d j0 = Some t" "tn_external_id t = te"
      using j(1) by (auto simp: names_job_def job_named_def split: option.splits)
    have "t \<in> set (tenants ?d)" "tn_id t = jb_tenant_id j0" using find_Some_mem [OF t(1) [unfolded tenant_of_def]] by simp_all
    then have "jb_tenant_id j0 = tenant" using k(9) t(2) by (auto simp: tenant_is_def)
    then have "key_names_job (rc_TenantInternalID claim) (rc_JobExternalID claim) recheck k"
      using j0(2,3) e k(2,4,5) assms(3) by (simp add: key_names_job_def claim_names_job_def retained_job_def same_key_def)
    then show False using nk k(1) by blast
  qed
  then have kn: "known te i (cl_db s')" unfolding s' using known_drop [OF k(10,8) j0(1,2) _ src] by blast
  have re: "rows_readable (cl_db s')"
    using k(8) by (auto simp: s' drop_retained_def rows_readable_def sql_delete_def distinct_map_filter)
  have te: "tenant_is te tenant (cl_db s')" using k(9) by (simp add: s' drop_retained_def tenant_is_def)
  show ?thesis by (rule key_heldI [OF _ k(2-5) _ _ re te kn]) (simp_all only: s'(2) k(1,7), rule k(6))
qed

lemma outbox_held: "key_held T te tenant kd h i s \<Longrightarrow> key_held T te tenant kd h i (s\<lparr>cl_db := (cl_db s)\<lparr>outbox := es\<rparr>\<rparr>)"
  by (simp add: key_held_def known_def names_job_def job_named_def source_of_def tenant_of_def bundle_of_def rows_readable_def tenant_is_def)

lemma client_step_held: "client_step T s s' \<Longrightarrow> key_held T te tenant kd h i s \<Longrightarrow> key_held T te tenant kd h i s'"
proof (induction rule: client_step.induct)
  case (client_job s d)
  then show ?case
    using readable_step [OF client_job.hyps] known_step [OF client_job.hyps] tenant_is_static [OF store_step_static [OF client_job.hyps]]
    by (simp add: key_held_def)
next
  case (client_publish ttl lockNow now sn s r s')
  then show ?case by (rule publish_held [rotated])
next
  case (client_expire locked now batch s n s')
  then show ?case by (rule expire_held [rotated])
next
  case (client_mark env candidate retention leaseDuration s claim s')
  then show ?case by (rule mark_held [rotated])
next
  case (client_retry now claim retryDelay s s')
  then show ?case by (rule retry_held [rotated])
next
  case (client_finalize now recheck claim s s')
  then show ?case by (rule finalize_held [rotated])
next
  case (client_webhook s es)
  then show ?case by (rule outbox_held)
qed (simp add: key_held_def)

lemma client_steps_held: "(client_step T)\<^sup>*\<^sup>* s s' \<Longrightarrow> key_held T te tenant kd h i s \<Longrightarrow> key_held T te tenant kd h i s'"
  by (induction rule: rtranclp_induct) (simp, blast intro: client_step_held)

lemma replay_held:
  assumes "key_held T te tenant kd h i s" "now \<le> T"
  shows "\<exists>job. ej_ExternalID job = i \<and> findSubmitReplay now te kd h' s
    = (if h' = h then Inr (Some \<lparr>sj_Job = job, sj_Replayed = True\<rparr>) else Inl ErrExternalJobConflict)"
proof -
  obtain k where k: "k \<in> set (cl_keys s)" "same_key tenant kd k" "ik_request_hash k = h" "ik_resource_type k = ''judge-job'' \<and> ik_resource k = i" "T < ik_expires_at k"
    "\<forall>k' \<in> set (cl_keys s). same_key tenant kd k' \<longrightarrow> k' = k" "distinct (map ik_id (cl_keys s))"
    "rows_readable (cl_db s)" "tenant_is te tenant (cl_db s)" "known te i (cl_db s)" by (rule key_heldE [OF assms(1)])
  let ?p = "\<lambda>k. sql_exists (\<lambda>t. tn_id t = ik_tenant_id k \<and> tn_external_id t = te) (tenants (cl_db s))
          \<and> same_key (ik_tenant_id k) kd k \<and> ik_expires_at k > now"
  obtain j job where job: "getExternalJob (cl_db s) te i = Some (j, Some job)" "ej_ExternalID job = i"
    using known_reads [OF k(10,8)] by blast
  have tid: "ik_tenant_id k = tenant" using k(2) by (simp add: same_key_def)
  have pk: "?p k" using k(2,5,9) assms(2) tid by (auto simp: tenant_is_def sql_exists_def list_ex_iff)
  have only: "k' = k" if "k' \<in> set (cl_keys s)" "?p k'" for k'
  proof -
    have "ik_tenant_id k' = tenant" using that(2) k(9) by (auto simp: tenant_is_def sql_exists_def list_ex_iff)
    then show ?thesis using that k(6) by auto
  qed
  have "List.find ?p (cl_keys s) = Some k"
  proof (cases "List.find ?p (cl_keys s)")
    case None then show ?thesis using pk k(1) by (auto simp: find_None_all)
  next
    case (Some k') then show ?thesis using only find_Some_mem [OF Some] by simp
  qed
  then have "findSubmitReplay now te kd h' s = bind_result (read_replay (cl_db s) te h' k) (\<lambda>r. Inr (Some r))"
    by (simp add: findSubmitReplay_def)
  then show ?thesis using job k(3,4) by (intro exI [of _ job]) (simp add: read_replay_def result_simps)
qed

section \<open>What a submission leaves behind\<close>

lemma read_replayed: "read_replay d te h k = Inr r \<Longrightarrow> sj_Replayed r"
  by (auto simp: read_replay_def split: option.splits if_splits)

lemma replay_replayed: "findSubmitReplay now te kd h s = Inr (Some r) \<Longrightarrow> sj_Replayed r"
  by (auto simp: findSubmitReplay_def result_simps split: option.splits dest: read_replayed)

lemma transaction_replayed: "submit_transaction ttl lockNow now sn s = Inr (r, None) \<Longrightarrow> sj_Replayed r"
  by (auto simp: submit_transaction_def Let_def result_simps split: option.splits if_splits dest: read_replayed)

lemma coordination_replayed:
  "acquireSubmissionCoordination rnd sn rds s = (Inr (Some r), s') \<Longrightarrow> sj_Replayed r"
  by (induction rnd sn rds s rule: acquireSubmissionCoordination.induct)
    (auto simp: Let_def replay_of_def split: sum.splits option.splits if_splits prod.splits bool.splits dest: replay_replayed)

lemma submit_publish_fresh:
  assumes "submit_publish env sn s = (Inr r, s')" "\<not> sj_Replayed r"
  shows "submit_transaction (su_ttl env) (su_now env 8) (su_now env 9) sn (su_other env 8 s) = Inr (r, Some s')"
  using assms transaction_replayed
  by (auto simp: submit_publish_def compensate_def Let_def split: if_splits sum.splits option.splits commit_outcome.splits prod.splits)

lemma submit_fresh:
  assumes "Submit env te key request s = (Inr r, s')" "\<not> sj_Replayed r"
  obtains sn s1 where "prepare_submission env te key request = Inr sn"
    "submit_transaction (su_ttl env) (su_now env 8) (su_now env 9) sn (su_other env 8 s1) = Inr (r, Some s')"
    "(fst (sn_source sn), es_Ciphertext (sn_encrypted sn)) \<in> set (cl_objects s1)"
proof -
  obtain sn s2 where a: "prepare_submission env te key request = Inr sn" "submit_reserved env sn s2 = (Inr r, s')"
    using assms replay_replayed coordination_replayed
    by (auto simp: Submit_def replay_of_def Let_def split: sum.splits option.splits prod.splits)
  obtain s3 where b: "submit_create env sn s3 = (Inr r, s')"
    using a(2) assms(2) replay_replayed
    by (auto simp: submit_reserved_def replay_of_def Let_def split: sum.splits option.splits prod.splits)
  obtain s4 where c: "submit_publish env sn s4 = (Inr r, s')"
    "(fst (sn_source sn), es_Ciphertext (sn_encrypted sn)) \<in> set (cl_objects s4)"
    using b assms(2) replay_replayed
    by (auto simp: submit_create_def replay_of_def Let_def split: if_splits sum.splits option.splits create_outcome.splits prod.splits)
  show ?thesis using that [OF a(1) submit_publish_fresh [OF c(1) assms(2)] c(2)] .
qed

lemma known_new:
  assumes "getExternalJob d te i = Some (j, Some job)" "\<forall>k \<in> set (jobs d). jb_external_id k = i \<longrightarrow> k = new"
  shows "known te i d" "ej_ExternalID job = i" "j = new"
proof -
  have f: "List.find (job_named d te i) (jobs d) = Some j" "read_job d j = Some job"
    using assms(1) by (auto simp: getExternalJob_def split: option.splits)
  then have j: "j \<in> set (jobs d)" "job_named d te i j" by (auto dest: find_Some_mem)
  then have e: "jb_external_id j = i" by (auto simp: job_named_def)
  then show "j = new" using assms(2) j(1) by blast
  have "names_job te i d j" using j f(2) by (auto simp: names_job_def read_job_def scanExternalJob_def split: option.splits if_splits)
  then show "known te i d" unfolding known_def using assms(2) \<open>j = new\<close> by blast
  show "ej_ExternalID job = i" using f(2) e by (auto simp: read_job_def scanExternalJob_def split: option.splits if_splits)
qed

lemma transaction_held:
  assumes tx: "submit_transaction ttl lockNow now sn s = Inr (r, Some s')" and inv: "rows_readable (cl_db s')"
    and "distinct (map ik_id (cl_keys s'))" "distinct (map tn_external_id (tenants (cl_db s')))" "T < now + ttl"
  shows "\<exists>tenant. key_held T (sn_tenant sn) tenant (sn_keyDigest sn) (sn_requestHash sn) (sn_jobID sn) s'"
    "ej_ExternalID (sj_Job r) = sn_jobID sn"
proof -
  obtain tenant policy keys bd callback where t: "lockTenantPolicy (sn_tenant sn) (cl_db s) = Inr (tenant, policy)"
    "\<forall>k \<in> set keys. \<not> same_key tenant (sn_keyDigest sn) k"
    "publish_submission ttl now sn tenant bd callback keys s = Inr (r, s')"
    by (rule transactionE [OF tx]) blast
  obtain key j where p: "cl_db s' = (cl_db s)\<lparr>sources := sources (cl_db s) @ [source_of_submission sn tenant (cl_db s)],
       jobs := jobs (cl_db s) @ [job_of_submission sn tenant bd callback now (cl_db s)]\<rparr>"
    "cl_keys s' = keys @ [key]" "same_key tenant (sn_keyDigest sn) key" "ik_request_hash key = sn_requestHash sn"
    "ik_resource_type key = ''judge-job'' \<and> ik_resource key = sn_jobID sn" "ik_expires_at key = now + ttl"
    "getExternalJob (cl_db s') (sn_tenant sn) (sn_jobID sn) = Some (j, Some (sj_Job r))"
    "\<forall>j \<in> set (jobs (cl_db s)). jb_external_id j \<noteq> sn_jobID sn"
    by (rule publishE [OF t(3)]) blast
  let ?new = "job_of_submission sn tenant bd callback now (cl_db s)"
  have only: "\<forall>k \<in> set (jobs (cl_db s')). jb_external_id k = sn_jobID sn \<longrightarrow> k = ?new" using p(1,8) by auto
  note n = known_new [OF p(7) only]
  show "ej_ExternalID (sj_Job r) = sn_jobID sn" by (rule n(2))
  obtain t0 where t0: "t0 \<in> set (tenants (cl_db s))" "tn_external_id t0 = sn_tenant sn" "tn_id t0 = tenant"
    by (rule lockTenantPolicyE [OF t(1)])
  have "inj_on tn_external_id (set (tenants (cl_db s)))" using assms(4) p(1) by (simp add: distinct_map)
  then have ten: "tenant_is (sn_tenant sn) tenant (cl_db s')" using t0 p(1) by (auto simp: tenant_is_def inj_on_def)
  have "key_held T (sn_tenant sn) tenant (sn_keyDigest sn) (sn_requestHash sn) (sn_jobID sn) s'"
    by (rule key_heldI [OF _ p(3,4,5) _ _ assms(3) inv ten n(1)]) (use p(2,6) t(2) assms(5) in auto)
  then show "\<exists>tenant. key_held T (sn_tenant sn) tenant (sn_keyDigest sn) (sn_requestHash sn) (sn_jobID sn) s'" by blast
qed

section \<open>A submission is a sequence of steps\<close>

definition polite :: "int \<Rightarrow> submit_env \<Rightarrow> bool" where
  "polite T env \<longleftrightarrow> (\<forall>k s. (client_step T)\<^sup>*\<^sup>* s (su_other env k s))
     \<and> (\<forall>rd \<in> set (su_rounds env). \<forall>s. (client_step T)\<^sup>*\<^sup>* s (rd_other rd s) \<and> (client_step T)\<^sup>*\<^sup>* s (rd_between rd s))
     \<and> (\<forall>t \<in> set (su_tries env). \<forall>s. (client_step T)\<^sup>*\<^sup>* s (rt_other t s))"

lemma outside_steps: "(client_step T)\<^sup>*\<^sup>* s u \<Longrightarrow> (client_step T)\<^sup>*\<^sup>* s (u\<lparr>cl_reservations := rows\<rparr>)"
  "(client_step T)\<^sup>*\<^sup>* s u \<Longrightarrow> (client_step T)\<^sup>*\<^sup>* s (u\<lparr>cl_objects := os\<rparr>)"
proof -
  have "client_step T u (u\<lparr>cl_reservations := rows\<rparr>)" "client_step T u (u\<lparr>cl_objects := os\<rparr>)"
    using client_outside [where s = u and T = T and rows = rows and os = "cl_objects u"]
      client_outside [where s = u and T = T and rows = "cl_reservations u" and os = os] by simp_all
  then show "(client_step T)\<^sup>*\<^sup>* s u \<Longrightarrow> (client_step T)\<^sup>*\<^sup>* s (u\<lparr>cl_reservations := rows\<rparr>)"
    "(client_step T)\<^sup>*\<^sup>* s u \<Longrightarrow> (client_step T)\<^sup>*\<^sup>* s (u\<lparr>cl_objects := os\<rparr>)"
    by (simp_all add: rtranclp.rtrancl_into_rtrancl)
qed

lemma other_steps: "polite T env \<Longrightarrow> (client_step T)\<^sup>*\<^sup>* s u \<Longrightarrow> (client_step T)\<^sup>*\<^sup>* s (su_other env k u)"
  unfolding polite_def by (blast intro: rtranclp_trans)

lemma release_steps: "polite T env \<Longrightarrow> (client_step T)\<^sup>*\<^sup>* s u \<Longrightarrow> (client_step T)\<^sup>*\<^sup>* s (release_all env k claims u)"
  unfolding release_all_def release_reservations_def by (simp add: outside_steps other_steps)

lemma compensate_steps:
  "polite T env \<Longrightarrow> (client_step T)\<^sup>*\<^sup>* s u \<Longrightarrow> (client_step T)\<^sup>*\<^sup>* s (snd (compensate env sn result u))"
  unfolding compensate_def delete_object_def Let_def by (auto intro!: release_steps outside_steps other_steps)

lemma submit_publish_steps:
  assumes "polite T env" "su_now env 9 \<le> T" "(client_step T)\<^sup>*\<^sup>* s u"
  shows "(client_step T)\<^sup>*\<^sup>* s (snd (submit_publish env sn u))"
proof -
  have o: "(client_step T)\<^sup>*\<^sup>* s (su_other env 8 u)" by (rule other_steps [OF assms(1,3)])
  have "(client_step T)\<^sup>*\<^sup>* s u'" if "submit_transaction (su_ttl env) (su_now env 8) (su_now env 9) sn (su_other env 8 u) = Inr (r, Some u')"
    for r u' using rtranclp.rtrancl_into_rtrancl [OF o client_publish [OF that assms(2)]] .
  then show ?thesis
    unfolding submit_publish_def Let_def using o compensate_steps [OF assms(1) o]
    by (auto split: sum.split option.split commit_outcome.split prod.split)
qed

lemma submit_create_steps:
  assumes "polite T env" "su_now env 9 \<le> T" "(client_step T)\<^sup>*\<^sup>* s u"
  shows "(client_step T)\<^sup>*\<^sup>* s (snd (submit_create env sn u))"
proof -
  have o: "(client_step T)\<^sup>*\<^sup>* s (su_other env 5 u)" "(client_step T)\<^sup>*\<^sup>* s (su_other env 6 (su_other env 5 u))"
    by (simp_all add: other_steps [OF assms(1)] assms(3))
  note c = outside_steps(2) [OF o(1), of "cl_objects (su_other env 5 u) @ [(fst (sn_source sn), es_Ciphertext (sn_encrypted sn))]"]
  show ?thesis
    unfolding submit_create_def Let_def using o c submit_publish_steps [OF assms(1,2) c] release_steps [OF assms(1) o(2)]
    by (auto split: sum.split option.split create_outcome.split)
qed

lemma coordination_steps:
  assumes "\<forall>rd \<in> set rds. \<forall>s. (client_step T)\<^sup>*\<^sup>* s (rd_other rd s) \<and> (client_step T)\<^sup>*\<^sup>* s (rd_between rd s)"
    "(client_step T)\<^sup>*\<^sup>* s u"
  shows "(client_step T)\<^sup>*\<^sup>* s (snd (acquireSubmissionCoordination rnd sn rds u))"
  using assms
proof (induction rds arbitrary: u)
  case (Cons rd rds)
  have o1: "(client_step T)\<^sup>*\<^sup>* s (rd_other rd u)" using Cons.prems by (auto intro: rtranclp_trans)
  have "(client_step T)\<^sup>*\<^sup>* (rd_other rd u) (rd_between rd (rd_other rd u))" using Cons.prems(1) by simp
  note o = o1 rtranclp_trans [OF o1 this]
  have ih: "(client_step T)\<^sup>*\<^sup>* s (snd (acquireSubmissionCoordination rnd sn rds v))" if "(client_step T)\<^sup>*\<^sup>* s v" for v
    using Cons.IH [OF _ that] Cons.prems(1) by simp
  show ?case
    using o by (auto simp: Let_def intro!: ih outside_steps split: sum.split option.split prod.split bool.split)
qed simp

lemma source_reservation_steps:
  assumes "\<forall>t \<in> set ts. \<forall>s. (client_step T)\<^sup>*\<^sup>* s (rt_other t s)" "(client_step T)\<^sup>*\<^sup>* s u"
  shows "(client_step T)\<^sup>*\<^sup>* s (snd (acquireSourceReservation rnd sn ts u))"
  using assms
proof (induction ts arbitrary: u)
  case (Cons t ts)
  have o: "(client_step T)\<^sup>*\<^sup>* s (rt_other t u)" using Cons.prems by (auto intro: rtranclp_trans)
  have ih: "(client_step T)\<^sup>*\<^sup>* s (snd (acquireSourceReservation rnd sn ts v))" if "(client_step T)\<^sup>*\<^sup>* s v" for v
    using Cons.IH [OF _ that] Cons.prems(1) by simp
  show ?case
    using o by (auto simp: Let_def intro!: ih outside_steps split: sum.split option.split prod.split bool.split try_failure.split)
qed simp

lemma submit_reserved_steps:
  assumes "polite T env" "su_now env 9 \<le> T" "(client_step T)\<^sup>*\<^sup>* s u"
  shows "(client_step T)\<^sup>*\<^sup>* s (snd (submit_reserved env sn u))"
proof -
  have o: "(client_step T)\<^sup>*\<^sup>* s (su_other env 2 u)" by (rule other_steps [OF assms(1,3)])
  have r: "(client_step T)\<^sup>*\<^sup>* s (snd (acquireSourceReservation (su_round env) sn (su_tries env) (su_other env 2 u)))"
    using assms(1) o by (intro source_reservation_steps) (auto simp: polite_def)
  show ?thesis
    unfolding submit_reserved_def Let_def
    using r release_steps [OF assms(1) o] release_steps [OF assms(1) r] submit_create_steps [OF assms(1,2) r]
    by (auto split: sum.split option.split prod.split)
qed

lemma Submit_steps:
  assumes "polite T env" "su_now env 9 \<le> T"
  shows "(client_step T)\<^sup>*\<^sup>* s (snd (Submit env te key request s))"
proof -
  have o: "(client_step T)\<^sup>*\<^sup>* s (su_other env 0 s)" "(client_step T)\<^sup>*\<^sup>* s (su_other env 1 (su_other env 0 s))"
    by (simp_all add: other_steps [OF assms(1)])
  have c: "(client_step T)\<^sup>*\<^sup>* s (snd (acquireSubmissionCoordination (su_round env) sn (su_rounds env) (su_other env 1 (su_other env 0 s))))" for sn
    using assms(1) o(2) by (intro coordination_steps) (auto simp: polite_def)
  have "(client_step T)\<^sup>*\<^sup>* s (snd (submit_reserved env sn u))"
    if "acquireSubmissionCoordination (su_round env) sn (su_rounds env) (su_other env 1 (su_other env 0 s)) = (x, u)" for sn x u
    using submit_reserved_steps [OF assms] c [of sn] that by simp
  moreover have "(client_step T)\<^sup>*\<^sup>* s u"
    if "acquireSubmissionCoordination (su_round env) sn (su_rounds env) (su_other env 1 (su_other env 0 s)) = (x, u)" for sn x u
    using c [of sn] that by simp
  ultimately show ?thesis
    unfolding Submit_def Let_def using o by (auto split: sum.split option.split prod.split)
qed

end
