(* ===== verification/Client_Examples.thy ===== *)
theory Client_Examples
  imports Job_Properties Job_Listing Client_Steps
begin

text \<open>
  A concrete submission: the request of \<open>rq_example\<close> sent to the example store, with nobody interfering. The digests,
  hashes and the ciphertext stay symbolic; the source id avoids the coordination id, whatever that is.
\<close>

abbreviation ex_te :: string where "ex_te \<equiv> ''tenantaaaaaaaaaaaaaaaaaaaa''"
abbreviation ex_key :: string where "ex_key \<equiv> ''request-0000000001''"

definition ex_pepper :: string where "ex_pepper = replicate 32 CHR ''p''"
definition ex_kd :: string where "ex_kd = hmac_sha256 ex_pepper ex_key"
definition ex_hash :: string where "ex_hash = sha256 (canonical_text rq_example)"
definition ex_coordination_id :: string where "ex_coordination_id = submissionSourceExternalID ex_te ex_kd"

definition ex_random :: string where
  "ex_random = (if b32_lower (replicate 16 CHR 0x00) = ex_coordination_id then replicate 16 CHR 0xFF else replicate 16 CHR 0x00)"

definition ex_source_id :: string where "ex_source_id = b32_lower ex_random"
definition ex_job_id :: string where "ex_job_id = b32_lower (replicate 16 CHR 0x11)"

definition ex_cipher :: secret_cipher where
  "ex_cipher = \<lparr>ci_activeVersion = 1, ci_keys = [(1, replicate 32 CHR ''k'')]\<rparr>"

definition ex_nonce :: string where "ex_nonce = replicate 12 CHR ''n''"

definition ex_sealed :: EncryptedSource where
  "ex_sealed = \<lparr>es_Ciphertext = gcm_Seal (replicate 32 CHR ''k'') ex_nonce (jr_SourceCode rq_example) (sourceAAD ex_te ex_source_id 1),
     es_Nonce = ex_nonce, es_KeyVersion = 1, es_SHA256 = sha256 (jr_SourceCode rq_example), es_SizeBytes = 12\<rparr>"

definition ex_coordination_key :: string where "ex_coordination_key = ''external/'' @ ex_te @ ''/sources/'' @ ex_coordination_id @ ''.bin''"
definition ex_source_key :: string where "ex_source_key = ''external/'' @ ex_te @ ''/sources/'' @ ex_source_id @ ''.bin''"

definition ex_sn :: submission where
  "ex_sn = \<lparr>sn_tenant = ex_te, sn_keyDigest = ex_kd, sn_requestHash = ex_hash, sn_request = rq_example, sn_jobID = ex_job_id,
     sn_sourceID = ex_source_id, sn_encrypted = ex_sealed, sn_coordination = (ex_coordination_key, replicate 32 CHR ''c''),
     sn_source = (ex_source_key, replicate 32 CHR ''s'')\<rparr>"

definition ex_submit :: submit_env where
  "ex_submit = \<lparr>su_pepper = ex_pepper, su_cipher = ex_cipher, su_ttl = 86400000, su_round = (\<lambda>us. us div 1000),
     su_source_random = Some ex_random, su_job_random = Some (replicate 16 CHR 0x11), su_nonce = Some ex_nonce,
     su_coordination_token = Some (replicate 32 CHR ''c''), su_source_token = Some (replicate 32 CHR ''s''),
     su_other = (\<lambda>_ s. s), su_now = (\<lambda>_. 3000), su_expired = (\<lambda>_. False),
     su_rounds = [\<lparr>rd_other = (\<lambda>s. s), rd_between = (\<lambda>s. s), rd_now = 3000, rd_transient = False, rd_remaining = 5000000\<rparr>],
     su_tries = [\<lparr>rt_other = (\<lambda>s. s), rt_now = 3000, rt_failure = None\<rparr>], su_admit = None, su_create = CreateDone,
     su_begin = True, su_delete = True, su_commit = CommitDone\<rparr>"

definition ex_store :: client_store where
  "ex_store = \<lparr>cl_db = ex_db, cl_keys = [], cl_reservations = [], cl_objects = [], cl_audit = []\<rparr>"

lemma ex_ids:
  "externalIDPattern ex_coordination_id" "externalIDPattern ex_source_id" "externalIDPattern ex_job_id" "externalIDPattern ex_te"
  "ex_source_id \<noteq> ex_coordination_id" "ex_source_key \<noteq> ex_coordination_key"
  "ex_job_id \<noteq> ''jobaaaaaaaaaaaaaaaaaaaaaaa''" "ex_source_id \<noteq> ''sourceaaaaaaaaaaaaaaaaaaaa''" "ex_source_key \<noteq> ''s''"
proof -
  have "b32_lower (replicate 16 CHR 0x00) \<noteq> b32_lower (replicate 16 CHR 0xFF)" by code_simp
  then show "ex_source_id \<noteq> ex_coordination_id" by (auto simp: ex_source_id_def ex_random_def)
  then show "ex_source_key \<noteq> ex_coordination_key" by (simp add: ex_source_key_def ex_coordination_key_def)
  show "externalIDPattern ex_coordination_id"
    unfolding ex_coordination_id_def submissionSourceExternalID_def
    by (rule b32_lower_pattern) (simp add: externalIDRandomBytes_def)
  show "externalIDPattern ex_source_id"
    unfolding ex_source_id_def by (rule b32_lower_pattern) (simp add: ex_random_def)
  show "externalIDPattern ex_job_id" unfolding ex_job_id_def by (rule b32_lower_pattern) simp
  show "externalIDPattern ex_te" by (rule ex_patterns)
  show "ex_job_id \<noteq> ''jobaaaaaaaaaaaaaaaaaaaaaaa''" by code_simp
  have "b32_lower (replicate 16 CHR 0x00) \<noteq> ''sourceaaaaaaaaaaaaaaaaaaaa''" "b32_lower (replicate 16 CHR 0xFF) \<noteq> ''sourceaaaaaaaaaaaaaaaaaaaa''"
    by code_simp+
  then show "ex_source_id \<noteq> ''sourceaaaaaaaaaaaaaaaaaaaa''" by (simp add: ex_source_id_def ex_random_def)
  show "ex_source_key \<noteq> ''s''" by (simp add: ex_source_key_def)
qed

lemma ex_prepare: "prepare_submission ex_submit ex_te ex_key rq_example = Inr ex_sn"
proof -
  have v: "ValidateIdempotencyKey ex_key" by code_simp
  have "DigestIdempotencyKey ex_key ex_pepper = Some ex_kd" using v by (simp add: DigestIdempotencyKey_def ex_pepper_def ex_kd_def)
  moreover have "CanonicalJobRequestHash rq_example 12 = Some ex_hash" using rq_example_hash by (simp add: ex_hash_def)
  moreover have "source_Encrypt ex_cipher (Some ex_nonce) ex_te ex_source_id (jr_SourceCode rq_example) = Some ex_sealed"
    using external_id_chars(3) [OF ex_ids(2)]
    by (auto simp: source_Encrypt_def rq_example_simps ex_cipher_def ex_sealed_def MaximumSourceBytes_def)
  moreover have "SourceObjectKey ex_te ex_coordination_id = Some ex_coordination_key" "SourceObjectKey ex_te ex_source_id = Some ex_source_key"
    using ex_ids(1,2,4) by (simp_all add: SourceObjectKey_def ex_coordination_key_def ex_source_key_def)
  moreover have "generateExternalID (Some ex_random) = Some ex_source_id" "generateExternalID (Some (replicate 16 CHR 0x11)) = Some ex_job_id"
    using ex_ids(2,3) by (simp_all add: generateExternalID_def ex_source_id_def ex_job_id_def Let_def)
  moreover have "length (jr_SourceCode rq_example) = 12" by (simp add: rq_example_simps)
  ultimately show ?thesis
    using ex_ids(4) by (simp add: prepare_submission_def ex_submit_def need_def result_simps ex_sn_def flip: ex_coordination_id_def)
qed

lemma ex_sn_simps:
  "sn_tenant ex_sn = ex_te" "sn_keyDigest ex_sn = ex_kd" "sn_requestHash ex_sn = ex_hash" "sn_request ex_sn = rq_example"
  "sn_jobID ex_sn = ex_job_id" "sn_sourceID ex_sn = ex_source_id" "sn_encrypted ex_sn = ex_sealed"
  "sn_coordination ex_sn = (ex_coordination_key, replicate 32 CHR ''c'')" "sn_source ex_sn = (ex_source_key, replicate 32 CHR ''s'')"
  by (simp_all add: ex_sn_def)

definition ex_bundle :: bundle_row where "ex_bundle = hd (bundles ex_db)"
definition ex_source :: source_row where "ex_source = hd (sources ex_db)"

lemma ex_db_simps:
  "tenants ex_db = [ex_tenant]" "jobs ex_db = [ex_job]" "bundles ex_db = [ex_bundle]" "sources ex_db = [ex_source]"
  "bundle_usable 1 ''bundleaaaaaaaaaaaaaaaaaaaa'' ex_bundle" "bd_id ex_bundle = 3" "bd_tenant_id ex_bundle = 1"
  "so_id ex_source = 4" "so_external_id ex_source = ''sourceaaaaaaaaaaaaaaaaaaaa''"
  "so_object_key ex_source = ''s''"
  by (simp_all add: ex_bundle_def ex_source_def ex_db_def bundle_usable_def)

lemma ex_tenant_simps:
  "tn_id ex_tenant = 1" "tn_external_id ex_tenant = ex_te" "tn_status ex_tenant = ''ACTIVE''"
  "decodeTenantPolicy (tn_policy ex_tenant) = Some ex_policy" "MaxQueuedJobs ex_policy = 10" "MaxSourceBytes ex_policy = 1000"
proof -
  have "policy_validate ex_policy" by code_simp
  then show "decodeTenantPolicy (tn_policy ex_tenant) = Some ex_policy" by (simp add: decodeTenantPolicy_def ex_tenant_def)
qed (simp_all add: ex_tenant_def ex_policy_def)

lemma ex_job_simps: "jb_id ex_job = 7" "jb_external_id ex_job = ''jobaaaaaaaaaaaaaaaaaaaaaaa''" "jb_status ex_job = JobStatusRunning"
  by (simp_all add: ex_job_def)

definition ex_reserved :: "reservation_row list" where
  "ex_reserved = [\<lparr>rv_object_key = ex_coordination_key, rv_owner_token = replicate 32 CHR ''c'', rv_lease_until = 68000, rv_created_at = 3000\<rparr>,
     \<lparr>rv_object_key = ex_source_key, rv_owner_token = replicate 32 CHR ''s'', rv_lease_until = 1503000, rv_created_at = 3000\<rparr>]"

definition ex_ready :: client_store where
  "ex_ready = ex_store\<lparr>cl_reservations := ex_reserved, cl_objects := [(ex_source_key, es_Ciphertext ex_sealed)]\<rparr>"

definition ex_new_job :: job_row where "ex_new_job = job_of_submission ex_sn 1 3 None 3000 ex_db"

definition ex_new_source :: source_row where "ex_new_source = source_of_submission ex_sn 1 ex_db"

definition ex_new_db :: db where
  "ex_new_db = ex_db\<lparr>sources := sources ex_db @ [ex_new_source], jobs := jobs ex_db @ [ex_new_job]\<rparr>"

definition ex_new_key :: idempotency_row where
  "ex_new_key = \<lparr>ik_id = 1, ik_tenant_id = 1, ik_scope = submitJobIdempotencyScope, ik_key_digest = ex_kd, ik_request_hash = ex_hash,
     ik_resource_type = ''judge-job'', ik_resource = ex_job_id, ik_expires_at = 86403000\<rparr>"

definition ex_published :: client_store where
  "ex_published = ex_ready\<lparr>cl_db := ex_new_db, cl_keys := [ex_new_key], cl_reservations := []\<rparr>"

definition ex_new_record :: ExternalJobRecord where
  "ex_new_record = the (scanExternalJob ex_new_job ex_tenant ex_bundle ex_new_source None)"

lemma ex_new_simps:
  "jb_id ex_new_job = 8" "jb_external_id ex_new_job = ex_job_id" "jb_tenant_id ex_new_job = 1" "jb_bundle_id ex_new_job = 3"
  "jb_source_object_id ex_new_job = 5" "jb_callback_id ex_new_job = None" "jb_result ex_new_job = None" "jb_status ex_new_job = JobStatusQueued"
  "so_id ex_new_source = 5" "so_tenant_id ex_new_source = 1" "so_key_version ex_new_source = 1"
  by (simp_all add: ex_new_job_def ex_new_source_def job_of_submission_def source_of_submission_def next_job_id_def next_source_id_def
      ex_db_simps ex_job_simps ex_sn_simps rq_example_simps ex_sealed_def)

lemma ex_new_read: "getExternalJob ex_new_db ex_te ex_job_id = Some (ex_new_job, Some ex_new_record)"
proof -
  have "tenant_of ex_new_db ex_new_job = Some ex_tenant" by (simp add: tenant_of_def ex_new_db_def ex_db_simps ex_tenant_simps ex_new_simps)
  moreover have "bundle_of ex_new_db ex_new_job = Some ex_bundle"
    unfolding bundle_of_def ex_new_db_def by (simp add: ex_db_simps ex_new_simps)
  moreover have "source_of ex_new_db ex_new_job = Some ex_new_source"
    unfolding source_of_def ex_new_db_def by (simp add: ex_db_simps ex_new_simps)
  moreover have "callback_external_id ex_new_db ex_new_job = None" by (simp add: callback_external_id_def ex_new_simps)
  ultimately have "job_named ex_new_db ex_te ex_job_id ex_new_job" "read_job ex_new_db ex_new_job = Some ex_new_record"
    by (simp_all add: job_named_def read_job_def ex_new_record_def ex_new_simps ex_tenant_simps scanExternalJob_def)
  moreover have "\<not> job_named ex_new_db ex_te ex_job_id ex_job" using ex_ids(7) by (auto simp: job_named_def ex_job_simps split: option.split)
  ultimately show ?thesis by (simp add: getExternalJob_def ex_new_db_def ex_db_simps)
qed

lemma ex_transaction:
  "submit_transaction 86400000 3000 3000 ex_sn ex_ready = Inr (\<lparr>sj_Job = ex_new_record, sj_Replayed = False\<rparr>, Some ex_published)"
proof -
  have d: "cl_db ex_ready = ex_db" "cl_keys ex_ready = []" "cl_reservations ex_ready = ex_reserved" by (simp_all add: ex_ready_def ex_store_def)
  have l: "lockSubmissionReservations 3000 [sn_coordination ex_sn, sn_source ex_sn] ex_reserved"
    by (simp add: lockSubmissionReservations_def ex_sn_simps ex_reserved_def sql_exists_def)
  have t: "lockTenantPolicy ex_te ex_db = Inr (1, ex_policy)" by (simp add: lockTenantPolicy_def ex_db_simps ex_tenant_simps)
  have q: "queued_jobs 1 ex_db = 0" by (simp add: queued_jobs_def sql_count_def ex_db_simps ex_job_simps)
  have b: "List.find (bundle_usable 1 ''bundleaaaaaaaaaaaaaaaaaaaa'') (bundles ex_db) = Some ex_bundle"
    using ex_db_simps(5) by (simp add: ex_db_simps(3))
  have o: "sql_count (owned_by [sn_coordination ex_sn, sn_source ex_sn]) ex_reserved = 2"
    "sql_delete (owned_by [sn_coordination ex_sn, sn_source ex_sn]) ex_reserved = []"
    by (simp_all add: sql_count_def sql_delete_def owned_by_def ex_reserved_def ex_sn_simps)
  have u: "\<not> sql_exists (\<lambda>r. so_external_id r = ex_source_id \<or> so_object_key r = ex_source_key) (sources ex_db)"
    "\<not> sql_exists (\<lambda>j. jb_external_id j = ex_job_id) (jobs ex_db)"
    using ex_ids(7-9) by (auto simp: sql_exists_def ex_db_simps ex_job_simps)
  have "publish_submission 86400000 3000 ex_sn 1 3 None [] ex_ready = Inr (\<lparr>sj_Job = ex_new_record, sj_Replayed = False\<rparr>, ex_published)"
    using o u ex_new_read
    by (simp add: publish_submission_def Let_def d ex_sn_simps(1-7) release_reservations_def ex_published_def ex_new_key_def next_key_id_def
        ex_new_db_def ex_new_job_def ex_new_source_def fst_conv) (simp add: ex_sn_simps)
  then show ?thesis
    using l t q b by (simp add: submit_transaction_def Let_def d ex_sn_simps(1-7) result_simps sql_delete_def rq_example_simps ex_tenant_simps
        find_callback_def ex_db_simps)
qed

lemma ex_replay_none: "replay_of 3000 ex_sn (ex_store\<lparr>cl_reservations := rows\<rparr>) = Inr None"
  by (simp add: replay_of_def findSubmitReplay_def ex_store_def)

lemma ex_submit_simps:
  "su_other ex_submit = (\<lambda>_ s. s)" "su_now ex_submit = (\<lambda>_. 3000)" "su_round ex_submit = (\<lambda>us. us div 1000)" "su_ttl ex_submit = 86400000"
  "su_rounds ex_submit = [\<lparr>rd_other = (\<lambda>s. s), rd_between = (\<lambda>s. s), rd_now = 3000, rd_transient = False, rd_remaining = 5000000\<rparr>]"
  "su_tries ex_submit = [\<lparr>rt_other = (\<lambda>s. s), rt_now = 3000, rt_failure = None\<rparr>]" "su_admit ex_submit = None"
  "su_create ex_submit = CreateDone" "su_begin ex_submit" "su_commit ex_submit = CommitDone"
  by (simp_all add: ex_submit_def)

lemma ex_submitted:
  "Submit ex_submit ex_te ex_key rq_example ex_store = (Inr \<lparr>sj_Job = ex_new_record, sj_Replayed = False\<rparr>, ex_published)"
proof -
  let ?rows = "[hd ex_reserved]"
  have s: "cl_reservations ex_store = []" "cl_db ex_store = ex_db" "cl_objects ex_store = []" by (simp_all add: ex_store_def)
  have same: "ex_store\<lparr>cl_reservations := []\<rparr> = ex_store" by (simp add: ex_store_def)
  have c: "acquireSubmissionCoordination (su_round ex_submit) ex_sn (su_rounds ex_submit) ex_store
      = (Inr None, ex_store\<lparr>cl_reservations := ?rows\<rparr>)"
    using ex_replay_none [of "[]"]
    by (simp add: same ex_submit_simps Let_def s ex_sn_simps tryAcquireSourceReservation_def sql_exists_def ex_reserved_def
        submissionCoordinationLease_def submissionCompensationAllowance_def)
  have r: "acquireSourceReservation (su_round ex_submit) ex_sn (su_tries ex_submit) (ex_store\<lparr>cl_reservations := ?rows\<rparr>)
      = (Inr (), ex_store\<lparr>cl_reservations := ex_reserved\<rparr>)"
    using ex_ids(6)
    by (simp add: ex_submit_simps Let_def ex_sn_simps tryAcquireSourceReservation_def sql_exists_def ex_reserved_def sourceReservationAdmissionLease_def)
  have p: "preflightSubmit ex_te rq_example ex_db = Inr ()"
    using ex_db_simps(5)
    by (simp add: preflightSubmit_def ex_db_simps(1,2,3) ex_tenant_simps rq_example_simps queued_jobs_def sql_count_def sql_exists_def ex_job_simps)
  have "submit_create ex_submit ex_sn (ex_store\<lparr>cl_reservations := ex_reserved\<rparr>)
      = (Inr \<lparr>sj_Job = ex_new_record, sj_Replayed = False\<rparr>, ex_published)"
    using ex_transaction
    by (simp add: submit_create_def submit_publish_def Let_def ex_submit_simps s sql_exists_def ex_sn_simps ex_ready_def)
  then have "submit_reserved ex_submit ex_sn (ex_store\<lparr>cl_reservations := ?rows\<rparr>)
      = (Inr \<lparr>sj_Job = ex_new_record, sj_Replayed = False\<rparr>, ex_published)"
    using r ex_replay_none [of ?rows] by (simp add: submit_reserved_def Let_def ex_submit_simps(1,2,7))
  then show ?thesis
    using ex_replay_none [of "[]"] p c by (simp add: Submit_def ex_prepare Let_def ex_submit_simps(1,2) same s)
qed

lemma ex_published_inv: "store_inv ex_new_db"
  using submit_mid [OF ex_inv [unfolded store_inv_def], of ex_sn 1 3 None 3000] by (simp add: store_inv_def ex_new_db_def ex_new_job_def)

end
