(* ===== verification/Source_Protocol.thy ===== *)
theory Source_Protocol
  imports Client_Steps "HOL-Library.List_Lexorder" "HOL-Library.Char_ord"
begin

text \<open>
  The life of source objects: the reservation sweeper (\<^verbatim>\<open>internal/external/source_reservation.go\<close> and its worker) and, as
  one transition system, the steps of concurrent submissions, sweepers and retention workers on reservations, source
  rows and objects. Its invariant says that the object of a source stays until all jobs of the source have ended.
\<close>

section \<open>The reservation sweeper\<close>

definition sourceReservationSweepLease :: int where "sourceReservationSweepLease = 15 * 60000"

record sourceReservationClaim =
  sc_objectKey :: string
  sc_ownerToken :: string

text \<open>\<open>Inr (None, s)\<close>: nothing to claim. \<open>locked\<close> are the rows other transactions hold, by key.\<close>

definition claimSourceReservation ::
  "int \<Rightarrow> (string \<Rightarrow> bool) \<Rightarrow> string option \<Rightarrow> int \<Rightarrow> client_store \<Rightarrow> job_error + (sourceReservationClaim option \<times> client_store)" where
  "claimSourceReservation now locked random minimumAge s =
     (case random of
        None \<Rightarrow> Inl (RepositoryUnavailable ''generate source reservation claim token'')
      | Some token \<Rightarrow>
          (case sort_key (\<lambda>r. (rv_created_at r, rv_object_key r))
              (filter (\<lambda>r. rv_lease_until r \<le> now \<and> rv_created_at r \<le> now - minimumAge \<and> \<not> locked (rv_object_key r)) (cl_reservations s)) of
             [] \<Rightarrow> Inr (None, s)
           | r # _ \<Rightarrow>
               let p = (\<lambda>x. rv_object_key x = rv_object_key r \<and> rv_lease_until x \<le> now);
                   f = (\<lambda>x. x\<lparr>rv_owner_token := token, rv_lease_until := now + sourceReservationSweepLease\<rparr>) in
               if sql_affected p f (cl_reservations s) \<noteq> 1 then Inr (None, s)
               else Inr (Some \<lparr>sc_objectKey = rv_object_key r, sc_ownerToken = token\<rparr>,
                         s\<lparr>cl_reservations := sql_update p f (cl_reservations s)\<rparr>)))"

definition referenced :: "string \<Rightarrow> client_store \<Rightarrow> nat" where
  "referenced key s = sql_count (\<lambda>r. so_object_key r = key) (sources (cl_db s))"

definition finalize_reservation :: "sourceReservationClaim \<Rightarrow> client_store \<Rightarrow> nat \<times> client_store" where
  "finalize_reservation claim s =
     (let p = (\<lambda>r. rv_object_key r = sc_objectKey claim \<and> rv_owner_token r = sc_ownerToken claim) in
      (sql_count p (cl_reservations s), s\<lparr>cl_reservations := sql_delete p (cl_reservations s)\<rparr>))"

text \<open>One round of the sweep meets the clock, locks and the random token, and what others commit before each of its
  statements. Deleting an object may fail with the object gone or not.\<close>

record sweep_env =
  sw_now :: int
  sw_locked :: "string \<Rightarrow> bool"
  sw_token :: "string option"
  sw_other :: "nat \<Rightarrow> client_store \<Rightarrow> client_store"
  sw_delete :: delete_outcome

datatype sweep_stop = SweepError job_error | SweepKeyInvalid | SweepDeleteFailed

text \<open>\<open>Inl\<close> ends the sweep with an error or, as \<open>Inl None\<close>, because nothing is left; \<open>Inr\<close> counts what was reaped.\<close>

definition sweep_round :: "sweep_env \<Rightarrow> int \<Rightarrow> client_store \<Rightarrow> (sweep_stop option + nat) \<times> client_store" where
  "sweep_round env minimumAge s =
     (let s0 = sw_other env 0 s in
      case claimSourceReservation (sw_now env) (sw_locked env) (sw_token env) minimumAge s0 of
        Inl e \<Rightarrow> (Inl (Some (SweepError e)), s0)
      | Inr (None, s1) \<Rightarrow> (Inl None, s1)
      | Inr (Some claim, s1) \<Rightarrow>
          let key = sc_objectKey claim; s2 = sw_other env 1 s1;
              finish = (\<lambda>s. let (n, s') = finalize_reservation claim (sw_other env 3 s) in (Inr (if n = 1 then 1 else 0), s')) in
          if referenced key s2 \<noteq> 0 then finish s2
          else if \<not> validSourceObjectKey key then (Inl (Some SweepKeyInvalid), s2)
          else let s3 = sw_other env 2 s2 in
            (case sw_delete env of
               DeleteFails gone \<Rightarrow> (Inl (Some SweepDeleteFailed), if gone then delete_object key s3 else s3)
             | DeleteDone \<Rightarrow> finish (delete_object key s3)))"

text \<open>The loop may go round without reaping when others finish its claims, so its rounds are bounded by \<open>fuel\<close>; the
  result is \<open>None\<close> when they run out.\<close>

fun sweep_rounds :: "nat \<Rightarrow> (nat \<Rightarrow> sweep_env) \<Rightarrow> int \<Rightarrow> int \<Rightarrow> int \<Rightarrow> client_store \<Rightarrow> ((int \<times> sweep_stop option) \<times> client_store) option" where
  "sweep_rounds fuel env minimumAge limit reaped s =
     (if \<not> reaped < limit then Some ((reaped, None), s)
      else case fuel of
        0 \<Rightarrow> None
      | Suc n \<Rightarrow>
          (case sweep_round (env n) minimumAge s of
             (Inl stop, s') \<Rightarrow> Some ((reaped, stop), s')
           | (Inr k, s') \<Rightarrow> sweep_rounds n env minimumAge limit (reaped + int k) s'))"

definition SweepSourceReservations ::
  "nat \<Rightarrow> (nat \<Rightarrow> sweep_env) \<Rightarrow> int \<Rightarrow> int \<Rightarrow> client_store \<Rightarrow> ((int \<times> sweep_stop option) \<times> client_store) option" where
  "SweepSourceReservations fuel env minimumAge limit s =
     (if minimumAge \<le> 0 \<or> minimumAge > 7 * day_millis \<or> limit < 1 \<or> limit > 1000
      then Some ((0, Some (SweepError ErrExternalJobInvalid)), s)
      else sweep_rounds fuel env minimumAge limit 0 s)"

section \<open>The sweeping worker (source_reservation_worker.go)\<close>

definition sourceReservationSweepBatch :: int where "sourceReservationSweepBatch = 100"
definition sourceReservationSweepBudget :: nat where "sourceReservationSweepBudget = 100"

record SourceReservationWorker =
  rs_minimumAge :: int
  rs_sweepInterval :: int
  rs_revisitDelay :: int

definition NewSourceReservationWorker :: "SourceReservationWorker \<Rightarrow> SourceReservationWorker option" where
  "NewSourceReservationWorker config =
     (let w = \<lparr>rs_minimumAge = or_default (rs_minimumAge config) 3600000, rs_sweepInterval = or_default (rs_sweepInterval config) 3600000,
            rs_revisitDelay = or_default (rs_revisitDelay config) 1000\<rparr> in
      if rs_minimumAge w \<le> 0 \<or> rs_minimumAge w > 7 * day_millis \<or> rs_sweepInterval w \<le> 0 \<or> rs_revisitDelay w \<le> 0
         \<or> rs_revisitDelay w > rs_sweepInterval w
      then None else Some w)"

datatype sweep_result = SweepDrained bool | SweepCancelled | SweepFails sweep_stop | SweepInvalidBatch int

text \<open>\<open>batch n\<close> says whether the context is done before a batch and what the rounds of the batch meet; \<open>None\<close> when the rounds
  run out.\<close>

fun reservation_sweep ::
  "nat \<Rightarrow> (nat \<Rightarrow> bool \<times> nat \<times> (nat \<Rightarrow> sweep_env)) \<Rightarrow> SourceReservationWorker \<Rightarrow> client_store \<Rightarrow> (sweep_result \<times> client_store) option" where
  "reservation_sweep 0 batch worker s = Some (SweepDrained False, s)"
| "reservation_sweep (Suc n) batch worker s =
     (case batch n of (cancelled, fuel, env) \<Rightarrow>
        if cancelled then Some (SweepCancelled, s)
        else case SweepSourceReservations fuel env (rs_minimumAge worker) sourceReservationSweepBatch s of
          None \<Rightarrow> None
        | Some ((reaped, stop), s') \<Rightarrow>
            (case stop of
               Some e \<Rightarrow> Some (SweepFails e, s')
             | None \<Rightarrow>
                 if reaped < 0 \<or> reaped > sourceReservationSweepBatch then Some (SweepInvalidBatch reaped, s')
                 else if reaped < sourceReservationSweepBatch then Some (SweepDrained True, s')
                 else reservation_sweep n batch worker s'))"

definition worker_sweep ::
  "(nat \<Rightarrow> bool \<times> nat \<times> (nat \<Rightarrow> sweep_env)) \<Rightarrow> SourceReservationWorker \<Rightarrow> client_store \<Rightarrow> (sweep_result \<times> client_store) option" where
  "worker_sweep = reservation_sweep sourceReservationSweepBudget"

section \<open>Objects (source_object_store.go)\<close>

definition maximumEncryptedSourceObjectBytes :: int where "maximumEncryptedSourceObjectBytes = 67108864"

definition source_Get :: "(string \<times> string) list \<Rightarrow> string \<Rightarrow> int \<Rightarrow> string option" where
  "source_Get os key maximumBytes =
     (if \<not> validSourceObjectKey key \<or> maximumBytes \<le> 0 \<or> maximumBytes > maximumEncryptedSourceObjectBytes then None
      else case map_of os key of
        None \<Rightarrow> None
      | Some payload \<Rightarrow> if int (length payload) > maximumBytes then None else Some payload)"

definition row_decrypt :: "secret_cipher \<Rightarrow> string \<Rightarrow> string \<Rightarrow> string \<Rightarrow> source_row \<Rightarrow> string option" where
  "row_decrypt ci tenant source ciphertext r = source_Decrypt ci tenant source
     \<lparr>es_Ciphertext = ciphertext, es_Nonce = so_nonce r, es_KeyVersion = so_key_version r, es_SHA256 = so_sha256 r,
      es_SizeBytes = so_size_bytes r\<rparr>"

section \<open>The protocol\<close>

datatype sub_phase = Reserving | Creating | Publishing | Compensating
datatype sweep_phase = SweepClaimed | SweepDeleting | SweepFinalizing

text \<open>Submissions are named by the key of their source object. \<open>pr_begun\<close> remembers all of them, \<open>pr_phase\<close> says where the
  active ones are.\<close>

record protocol =
  pr_store :: client_store
  pr_begun :: "string \<Rightarrow> submission option"
  pr_phase :: "string \<Rightarrow> sub_phase option"
  pr_sweeps :: "(sourceReservationClaim \<times> sweep_phase) set"
  pr_retire :: "SourceRetentionClaim set"

abbreviation pr_rows :: "protocol \<Rightarrow> reservation_row list" where "pr_rows p \<equiv> cl_reservations (pr_store p)"
abbreviation pr_objects :: "protocol \<Rightarrow> (string \<times> string) list" where "pr_objects p \<equiv> cl_objects (pr_store p)"
abbreviation pr_sources :: "protocol \<Rightarrow> source_row list" where "pr_sources p \<equiv> sources (cl_db (pr_store p))"
abbreviation pr_jobs :: "protocol \<Rightarrow> job_row list" where "pr_jobs p \<equiv> jobs (cl_db (pr_store p))"

abbreviation source_key :: "submission \<Rightarrow> string" where "source_key sn \<equiv> fst (sn_source sn)"
abbreviation source_token :: "submission \<Rightarrow> string" where "source_token sn \<equiv> snd (sn_source sn)"
abbreviation sealed :: "submission \<Rightarrow> string" where "sealed sn \<equiv> es_Ciphertext (sn_encrypted sn)"

definition prepared :: "secret_cipher \<Rightarrow> submission \<Rightarrow> bool" where
  "prepared ci sn \<longleftrightarrow> (\<exists>env te key request. su_cipher env = ci \<and> prepare_submission env te key request = Inr sn
     \<and> (\<forall>nonce. su_nonce env = Some nonce \<longrightarrow> length nonce = 12))"

text \<open>A new submission draws a key nothing uses yet, and which differs from all coordination keys.\<close>

definition fresh_submission :: "submission \<Rightarrow> protocol \<Rightarrow> bool" where
  "fresh_submission sn p \<longleftrightarrow> pr_begun p (source_key sn) = None
     \<and> source_key sn \<notin> rv_object_key ` set (pr_rows p) \<union> fst ` set (pr_objects p) \<union> so_object_key ` set (pr_sources p)
     \<and> (\<forall>(c, ph) \<in> pr_sweeps p. sc_objectKey c \<noteq> source_key sn) \<and> (\<forall>c \<in> pr_retire p. rc_ObjectKey c \<noteq> source_key sn)
     \<and> (\<forall>K sn'. ((pr_begun p)(source_key sn \<mapsto> sn)) K = Some sn' \<longrightarrow> fst (sn_coordination sn') \<noteq> source_key sn \<and> fst (sn_coordination sn) \<noteq> K)"

definition with_store :: "client_store \<Rightarrow> protocol \<Rightarrow> protocol" where "with_store s p = p\<lparr>pr_store := s\<rparr>"

definition enter :: "string \<Rightarrow> sub_phase option \<Rightarrow> protocol \<Rightarrow> protocol" where "enter K ph p = p\<lparr>pr_phase := (pr_phase p)(K := ph)\<rparr>"

inductive protocol_step :: "secret_cipher \<Rightarrow> protocol \<Rightarrow> protocol \<Rightarrow> bool" for ci where
  sub_begin: "prepared ci sn \<Longrightarrow> fresh_submission sn p \<Longrightarrow>
    protocol_step ci p (enter (source_key sn) (Some Reserving) (p\<lparr>pr_begun := (pr_begun p)(source_key sn \<mapsto> sn)\<rparr>))"
| sub_coordinate: "pr_begun p K = Some sn \<Longrightarrow>
    tryAcquireSourceReservation rnd now (fst (sn_coordination sn)) token lease (pr_rows p) = (ok, rows) \<Longrightarrow>
    protocol_step ci p (with_store ((pr_store p)\<lparr>cl_reservations := rows\<rparr>) p)"
| sub_reserve: "pr_begun p K = Some sn \<Longrightarrow> pr_phase p K = Some Reserving \<Longrightarrow>
    tryAcquireSourceReservation rnd now K (source_token sn) lease (pr_rows p) = (ok, rows) \<Longrightarrow>
    protocol_step ci p (enter K (Some (if ok then Creating else Reserving)) (with_store ((pr_store p)\<lparr>cl_reservations := rows\<rparr>) p))"
| sub_create: "pr_begun p K = Some sn \<Longrightarrow> pr_phase p K = Some Creating \<Longrightarrow> K \<notin> fst ` set (pr_objects p) \<Longrightarrow> ph \<in> {Some Publishing, None} \<Longrightarrow>
    protocol_step ci p (enter K ph (with_store ((pr_store p)\<lparr>cl_objects := pr_objects p @ [(K, sealed sn)]\<rparr>) p))"
| sub_publish: "pr_begun p K = Some sn \<Longrightarrow> pr_phase p K = Some Publishing \<Longrightarrow>
    submit_transaction ttl lockNow now sn (pr_store p) = Inr (r, Some s) \<Longrightarrow> protocol_step ci p (enter K None (with_store s p))"
| sub_compensate: "pr_phase p K = Some Publishing \<Longrightarrow> protocol_step ci p (enter K (Some Compensating) p)"
| sub_delete: "pr_phase p K = Some Compensating \<Longrightarrow> protocol_step ci p (enter K None (with_store (delete_object K (pr_store p)) p))"
| sub_stop: "protocol_step ci p (enter K None p)"
| sub_release: "pr_begun p K = Some sn \<Longrightarrow> set claims \<subseteq> {sn_source sn, sn_coordination sn} \<Longrightarrow>
    protocol_step ci p (with_store (release_reservations claims (pr_store p)) p)"
| sweep_claim: "claimSourceReservation now locked (Some token) minimumAge (pr_store p) = Inr (Some c, s) \<Longrightarrow>
    \<forall>K sn. pr_begun p K = Some sn \<longrightarrow> token \<noteq> source_token sn \<Longrightarrow>
    protocol_step ci p (with_store s (p\<lparr>pr_sweeps := insert (c, SweepClaimed) (pr_sweeps p)\<rparr>))"
| sweep_check: "(c, SweepClaimed) \<in> pr_sweeps p \<Longrightarrow>
    ph = (if referenced (sc_objectKey c) (pr_store p) = 0 then SweepDeleting else SweepFinalizing) \<Longrightarrow>
    protocol_step ci p (p\<lparr>pr_sweeps := insert (c, ph) (pr_sweeps p - {(c, SweepClaimed)})\<rparr>)"
| sweep_delete: "(c, SweepDeleting) \<in> pr_sweeps p \<Longrightarrow>
    protocol_step ci p (with_store (delete_object (sc_objectKey c) (pr_store p))
      (p\<lparr>pr_sweeps := insert (c, SweepFinalizing) (pr_sweeps p - {(c, SweepDeleting)})\<rparr>))"
| sweep_finalize: "(c, SweepFinalizing) \<in> pr_sweeps p \<Longrightarrow>
    protocol_step ci p (with_store (snd (finalize_reservation c (pr_store p))) (p\<lparr>pr_sweeps := pr_sweeps p - {(c, SweepFinalizing)}\<rparr>))"
| sweep_stop: "protocol_step ci p (p\<lparr>pr_sweeps := pr_sweeps p - {(c, ph)}\<rparr>)"
| retire_claim: "claimSourceRetentionCandidate env candidate retention leaseDuration (pr_store p) = Inr (c, s) \<Longrightarrow>
    protocol_step ci p (with_store s (p\<lparr>pr_retire := insert c (pr_retire p)\<rparr>))"
| retire_delete: "c \<in> pr_retire p \<Longrightarrow> protocol_step ci p (with_store (delete_object (rc_ObjectKey c) (pr_store p)) p)"
| retire_retry: "RecordSourceRetentionFailure now c retryDelay (pr_store p) = Inr s \<Longrightarrow> protocol_step ci p (with_store s p)"
| retire_finalize: "FinalizeSourceRetention now recheck c (pr_store p) = Inr s \<Longrightarrow> protocol_step ci p (with_store s p)"
| other_job: "store_step (cl_db (pr_store p)) d \<Longrightarrow> protocol_step ci p (with_store ((pr_store p)\<lparr>cl_db := d\<rparr>) p)"
| other_expire: "ExpireIdempotencyBatch locked now batch (pr_store p) = Inr (n, s) \<Longrightarrow> protocol_step ci p (with_store s p)"
| other_webhook: "protocol_step ci p (with_store ((pr_store p)\<lparr>cl_db := (cl_db (pr_store p))\<lparr>outbox := es\<rparr>\<rparr>) p)"

section \<open>The invariant\<close>

definition swept :: "string \<Rightarrow> protocol \<Rightarrow> bool" where
  "swept K p \<longleftrightarrow> (\<exists>c ph. (c, ph) \<in> pr_sweeps p \<and> sc_objectKey c = K)"

definition fenced :: "submission \<Rightarrow> reservation_row list \<Rightarrow> bool" where
  "fenced sn rows \<longleftrightarrow> (\<forall>r \<in> set rows. (rv_object_key r, rv_owner_token r) \<noteq> sn_source sn)"

text \<open>A source row carries what its submission sealed, for the tenant of the submission.\<close>

definition row_of :: "submission \<Rightarrow> db \<Rightarrow> source_row \<Rightarrow> bool" where
  "row_of sn d r \<longleftrightarrow> so_external_id r = sn_sourceID sn \<and> so_sha256 r = es_SHA256 (sn_encrypted sn)
     \<and> so_size_bytes r = es_SizeBytes (sn_encrypted sn) \<and> so_key_version r = es_KeyVersion (sn_encrypted sn)
     \<and> so_nonce r = es_Nonce (sn_encrypted sn) \<and> (\<forall>t \<in> set (tenants d). tn_id t = so_tenant_id r \<longrightarrow> tn_external_id t = sn_tenant sn)"

definition row_kept :: "protocol \<Rightarrow> source_row \<Rightarrow> bool" where
  "row_kept p r \<longleftrightarrow> (\<forall>sn. pr_begun p (so_object_key r) = Some sn \<longrightarrow>
     pr_phase p (so_object_key r) = None \<and> row_of sn (cl_db (pr_store p)) r
     \<and> (so_delete_marked_at r = None \<longrightarrow> (so_object_key r, sealed sn) \<in> set (pr_objects p)
          \<and> (\<forall>c. (c, SweepDeleting) \<in> pr_sweeps p \<longrightarrow> sc_objectKey c \<noteq> so_object_key r)))"

definition phase_ok :: "protocol \<Rightarrow> string \<Rightarrow> sub_phase \<Rightarrow> submission \<Rightarrow> bool" where
  "phase_ok p K ph sn \<longleftrightarrow> K \<notin> so_object_key ` set (pr_sources p) \<and> (\<forall>c \<in> pr_retire p. rc_ObjectKey c \<noteq> K)
     \<and> (ph = Reserving \<longrightarrow> K \<notin> rv_object_key ` set (pr_rows p) \<and> \<not> swept K p)
     \<and> (ph \<in> {Creating, Publishing} \<longrightarrow> swept K p \<longrightarrow> fenced sn (pr_rows p))
     \<and> (ph = Publishing \<longrightarrow> fenced sn (pr_rows p) \<or> (K, sealed sn) \<in> set (pr_objects p))"

definition marked_idle :: "db \<Rightarrow> bool" where
  "marked_idle d \<longleftrightarrow> (\<forall>r \<in> set (sources d). so_delete_marked_at r \<noteq> None \<longrightarrow>
     (\<forall>j \<in> set (jobs d). jb_source_object_id j = so_id r \<longrightarrow> row_terminal j))"

definition store_ok :: "client_store \<Rightarrow> bool" where
  "store_ok s \<longleftrightarrow> distinct (map rv_object_key (cl_reservations s)) \<and> distinct (map so_object_key (sources (cl_db s)))
     \<and> distinct (map tn_id (tenants (cl_db s))) \<and> rows_readable (cl_db s) \<and> marked_idle (cl_db s)"

definition begun_ok :: "secret_cipher \<Rightarrow> protocol \<Rightarrow> bool" where
  "begun_ok ci p \<longleftrightarrow> (\<forall>K sn. pr_begun p K = Some sn \<longrightarrow> source_key sn = K \<and> prepared ci sn
     \<and> (\<forall>K' sn'. pr_begun p K' = Some sn' \<longrightarrow> fst (sn_coordination sn') \<noteq> K)
     \<and> (\<forall>x. (K, x) \<in> set (pr_objects p) \<longrightarrow> x = sealed sn))"

definition protocol_inv :: "secret_cipher \<Rightarrow> protocol \<Rightarrow> bool" where
  "protocol_inv ci p \<longleftrightarrow> store_ok (pr_store p) \<and> begun_ok ci p
     \<and> (\<forall>r \<in> set (pr_sources p). row_kept p r)
     \<and> (\<forall>K ph. pr_phase p K = Some ph \<longrightarrow> (\<exists>sn. pr_begun p K = Some sn \<and> phase_ok p K ph sn))
     \<and> (\<forall>c \<in> pr_retire p. \<forall>r \<in> set (pr_sources p). so_object_key r = rc_ObjectKey c \<longrightarrow> so_delete_marked_at r \<noteq> None)"

lemma protocol_invD:
  assumes "protocol_inv ci p"
  shows "store_ok (pr_store p)" "begun_ok ci p" "r \<in> set (pr_sources p) \<Longrightarrow> row_kept p r"
    "pr_phase p K = Some ph \<Longrightarrow> pr_begun p K = Some sn \<Longrightarrow> phase_ok p K ph sn"
    "pr_phase p K = Some ph \<Longrightarrow> \<exists>sn. pr_begun p K = Some sn"
    "c \<in> pr_retire p \<Longrightarrow> r \<in> set (pr_sources p) \<Longrightarrow> so_object_key r = rc_ObjectKey c \<Longrightarrow> so_delete_marked_at r \<noteq> None"
  using assms unfolding protocol_inv_def by (blast, blast, blast, fastforce, blast, blast)

text \<open>Steps that leave the submissions alone.\<close>

lemma protocol_inv_frame:
  assumes inv: "protocol_inv ci p" and same: "pr_begun q = pr_begun p" "pr_phase q = pr_phase p"
    and st: "store_ok (pr_store q)"
    and os: "\<And>K sn x. pr_begun p K = Some sn \<Longrightarrow> (K, x) \<in> set (pr_objects q) \<Longrightarrow> (K, x) \<in> set (pr_objects p) \<or> x = sealed sn"
    and rk: "\<And>r. r \<in> set (pr_sources q) \<Longrightarrow> row_kept q r"
    and ph: "\<And>K ph sn. pr_begun p K = Some sn \<Longrightarrow> phase_ok p K ph sn \<Longrightarrow> pr_phase p K = Some ph \<Longrightarrow> phase_ok q K ph sn"
    and rt: "\<And>c r. c \<in> pr_retire q \<Longrightarrow> r \<in> set (pr_sources q) \<Longrightarrow> so_object_key r = rc_ObjectKey c \<Longrightarrow> so_delete_marked_at r \<noteq> None"
  shows "protocol_inv ci q"
proof -
  have "begun_ok ci q"
    using protocol_invD(2) [OF inv] os unfolding begun_ok_def same by blast
  moreover have "\<exists>sn. pr_begun q K = Some sn \<and> phase_ok q K ph' sn" if "pr_phase q K = Some ph'" for K ph'
    using ph protocol_invD(4,5) [OF inv] that unfolding same by metis
  ultimately show ?thesis using st rk rt unfolding protocol_inv_def by blast
qed

lemma with_store_simps [simp]:
  "pr_store (with_store s p) = s" "pr_begun (with_store s p) = pr_begun p" "pr_phase (with_store s p) = pr_phase p"
  "pr_sweeps (with_store s p) = pr_sweeps p" "pr_retire (with_store s p) = pr_retire p"
  "pr_store (enter K ph p) = pr_store p" "pr_begun (enter K ph p) = pr_begun p" "pr_phase (enter K ph p) = (pr_phase p)(K := ph)"
  "pr_sweeps (enter K ph p) = pr_sweeps p" "pr_retire (enter K ph p) = pr_retire p"
  by (simp_all add: with_store_def enter_def)

section \<open>Reservations\<close>

lemma try_acquire_rows:
  assumes "tryAcquireSourceReservation rnd now key token lease rows = (ok, rows')" "distinct (map rv_object_key rows)"
  shows "distinct (map rv_object_key rows')" "{r \<in> set rows'. rv_object_key r \<noteq> key} = {r \<in> set rows. rv_object_key r \<noteq> key}"
proof -
  let ?until = "rnd (now * 1000 + lease)"
  let ?f = "\<lambda>r. r\<lparr>rv_owner_token := token, rv_lease_until := ?until, rv_created_at := now\<rparr>" and ?p = "\<lambda>r. rv_object_key r = key \<and> rv_lease_until r \<le> now"
  consider "key \<notin> rv_object_key ` set rows" "rows' = rows @ [\<lparr>rv_object_key = key, rv_owner_token = token, rv_lease_until = ?until, rv_created_at = now\<rparr>]"
    | "rows' = sql_update ?p ?f rows"
    using assms(1) by (auto simp: tryAcquireSourceReservation_def Let_def sql_exists_iff split: if_splits)
  then have "distinct (map rv_object_key rows') \<and> {r \<in> set rows'. rv_object_key r \<noteq> key} = {r \<in> set rows. rv_object_key r \<noteq> key}"
  proof cases
    case 1
    then show ?thesis using assms(2) by auto
  next
    case 2
    have "map rv_object_key (sql_update ?p ?f rows) = map rv_object_key rows" by (rule map_sql_update) simp
    moreover have "{r \<in> set (sql_update ?p ?f rows). rv_object_key r \<noteq> key} = {r \<in> set rows. rv_object_key r \<noteq> key}"
      by (auto simp: set_sql_update)
    ultimately show ?thesis using assms(2) 2 by simp
  qed
  then show "distinct (map rv_object_key rows')" "{r \<in> set rows'. rv_object_key r \<noteq> key} = {r \<in> set rows. rv_object_key r \<noteq> key}" by simp_all
qed

lemma fenced_other:
  assumes "{r \<in> set rows'. rv_object_key r \<noteq> key} \<subseteq> {r \<in> set rows. rv_object_key r \<noteq> key}" "source_key sn \<noteq> key" "fenced sn rows"
  shows "fenced sn rows'"
  unfolding fenced_def
proof
  fix r assume r: "r \<in> set rows'"
  show "(rv_object_key r, rv_owner_token r) \<noteq> sn_source sn"
  proof (cases "rv_object_key r = key")
    case True then show ?thesis using assms(2) by (metis fst_conv)
  next
    case False then show ?thesis using r assms(1,3) unfolding fenced_def by blast
  qed
qed

lemma unused_other:
  assumes "{r \<in> set rows'. rv_object_key r \<noteq> key} \<subseteq> {r \<in> set rows. rv_object_key r \<noteq> key}" "K \<noteq> key" "K \<notin> rv_object_key ` set rows"
  shows "K \<notin> rv_object_key ` set rows'"
  using assms by blast

text \<open>A change of reservation rows that neither unfences an active submission nor uses the key of one that has not
  reserved yet.\<close>

lemma rows_step:
  assumes inv: "protocol_inv ci p" and q: "q = p\<lparr>pr_store := (pr_store p)\<lparr>cl_reservations := rows\<rparr>, pr_sweeps := sw\<rparr>" and sw: "sw \<subseteq> pr_sweeps p"
    and d: "distinct (map rv_object_key rows)"
    and f: "\<And>K sn ph. pr_begun p K = Some sn \<Longrightarrow> pr_phase p K = Some ph \<Longrightarrow> fenced sn (pr_rows p) \<Longrightarrow> fenced sn rows"
    and n: "\<And>K sn. pr_begun p K = Some sn \<Longrightarrow> pr_phase p K = Some Reserving \<Longrightarrow> K \<notin> rv_object_key ` set (pr_rows p) \<Longrightarrow> K \<notin> rv_object_key ` set rows"
  shows "protocol_inv ci q"
proof (rule protocol_inv_frame [OF inv])
  show "store_ok (pr_store q)" using protocol_invD(1) [OF inv] d by (simp add: q store_ok_def)
  show "row_kept q r" if "r \<in> set (pr_sources q)" for r
    using protocol_invD(3) [OF inv, of r] that sw by (auto simp: q row_kept_def)
  have "swept K q \<Longrightarrow> swept K p" for K using sw by (auto simp: swept_def q)
  then show "phase_ok q K ph sn" if "pr_begun p K = Some sn" "phase_ok p K ph sn" "pr_phase p K = Some ph" for K ph sn
    using that f [OF that(1,3)] n [OF that(1)] unfolding phase_ok_def by (auto simp: q)
  show "so_delete_marked_at r \<noteq> None" if "c \<in> pr_retire q" "r \<in> set (pr_sources q)" "so_object_key r = rc_ObjectKey c" for c r
    using protocol_invD(6) [OF inv] that by (simp add: q)
qed (simp_all add: q)

lemma coordinate_inv:
  assumes inv: "protocol_inv ci p" and b: "pr_begun p K = Some sn"
    and a: "tryAcquireSourceReservation rnd now (fst (sn_coordination sn)) token lease (pr_rows p) = (ok, rows)"
  shows "protocol_inv ci (with_store ((pr_store p)\<lparr>cl_reservations := rows\<rparr>) p)"
proof (rule rows_step [OF inv, where rows = rows and sw = "pr_sweeps p"])
  have d: "distinct (map rv_object_key (pr_rows p))" using protocol_invD(1) [OF inv] by (simp add: store_ok_def)
  note t = try_acquire_rows [OF a d]
  show "distinct (map rv_object_key rows)" by (rule t(1))
  have sub: "{r \<in> set rows. rv_object_key r \<noteq> fst (sn_coordination sn)} \<subseteq> {r \<in> set (pr_rows p). rv_object_key r \<noteq> fst (sn_coordination sn)}"
    unfolding t(2) ..
  have key: "K' \<noteq> fst (sn_coordination sn)" "source_key sn' = K'" if m: "pr_begun p K' = Some sn'" for K' sn'
  proof -
    have "fst (sn_coordination sn) \<noteq> K' \<and> source_key sn' = K'" using protocol_invD(2) [OF inv] m b unfolding begun_ok_def by simp
    then show "K' \<noteq> fst (sn_coordination sn)" "source_key sn' = K'" by auto
  qed
  show "fenced sn' rows" if m: "pr_begun p K' = Some sn'" "pr_phase p K' = Some ph" "fenced sn' (pr_rows p)" for K' sn' ph
    by (rule fenced_other [OF sub _ m(3)]) (use key [OF m(1)] in simp)
  show "K' \<notin> rv_object_key ` set rows" if m: "pr_begun p K' = Some sn'" "pr_phase p K' = Some Reserving" "K' \<notin> rv_object_key ` set (pr_rows p)" for K' sn'
    by (rule unused_other [OF sub key(1) [OF m(1)] m(3)])
qed (simp_all add: with_store_def)

lemma fewer_rows_inv:
  assumes "protocol_inv ci p" "q = p\<lparr>pr_store := (pr_store p)\<lparr>cl_reservations := sql_delete P (pr_rows p)\<rparr>, pr_sweeps := sw\<rparr>" "sw \<subseteq> pr_sweeps p"
  shows "protocol_inv ci q"
  by (rule rows_step [OF assms])
    (use protocol_invD(1) [OF assms(1)] in \<open>auto simp: store_ok_def sql_delete_def distinct_map_filter fenced_def\<close>)

section \<open>Submissions\<close>

text \<open>Moving one submission to another phase, or ending it.\<close>

lemma enter_inv:
  assumes inv: "protocol_inv ci p" and k: "\<And>ph'. ph = Some ph' \<Longrightarrow> \<exists>sn. pr_begun p K = Some sn \<and> phase_ok p K ph' sn"
  shows "protocol_inv ci (enter K ph p)"
proof -
  have pk: "phase_ok (enter K ph p) = phase_ok p" by (simp add: phase_ok_def swept_def fun_eq_iff)
  have "row_kept (enter K ph p) r" if r: "r \<in> set (pr_sources p)" for r
  proof -
    have "ph = None" if e: "so_object_key r = K"
    proof (cases ph)
      case (Some ph')
      then obtain sn where "phase_ok p K ph' sn" using k by blast
      then have "K \<notin> so_object_key ` set (pr_sources p)" by (simp add: phase_ok_def)
      then show ?thesis using r e by blast
    qed
    then show ?thesis using protocol_invD(3) [OF inv r] unfolding row_kept_def with_store_simps by auto
  qed
  moreover have "begun_ok ci (enter K ph p)" using protocol_invD(2) [OF inv] by (simp add: begun_ok_def)
  moreover have "\<exists>sn. pr_begun p K' = Some sn \<and> phase_ok p K' ph' sn" if m: "((pr_phase p)(K := ph)) K' = Some ph'" for K' ph'
  proof (cases "K' = K")
    case True then show ?thesis using k m by simp
  next
    case False
    then have "pr_phase p K' = Some ph'" using m by simp
    then show ?thesis using inv unfolding protocol_inv_def by blast
  qed
  ultimately show ?thesis
    using protocol_invD(1,6) [OF inv] unfolding protocol_inv_def pk with_store_simps by blast
qed

lemma begin_inv:
  assumes inv: "protocol_inv ci p" and pr: "prepared ci sn" and fr: "fresh_submission sn p"
  shows "protocol_inv ci (enter (source_key sn) (Some Reserving) (p\<lparr>pr_begun := (pr_begun p)(source_key sn \<mapsto> sn)\<rparr>))"
proof -
  let ?K = "source_key sn" and ?q = "p\<lparr>pr_begun := (pr_begun p)(source_key sn \<mapsto> sn)\<rparr>"
  have new: "pr_begun p ?K = None" "?K \<notin> rv_object_key ` set (pr_rows p)" "?K \<notin> fst ` set (pr_objects p)" "?K \<notin> so_object_key ` set (pr_sources p)"
    using fr by (auto simp: fresh_submission_def)
  have co: "fst (sn_coordination sn') \<noteq> ?K \<and> fst (sn_coordination sn) \<noteq> K" if "((pr_begun p)(?K \<mapsto> sn)) K = Some sn'" for K sn'
    using fr that unfolding fresh_submission_def by blast
  have b: "begun_ok ci ?q"
    unfolding begun_ok_def
  proof (intro allI impI)
    fix K sn' assume K: "pr_begun ?q K = Some sn'"
    show "source_key sn' = K \<and> prepared ci sn' \<and> (\<forall>K' sn''. pr_begun ?q K' = Some sn'' \<longrightarrow> fst (sn_coordination sn'') \<noteq> K)
        \<and> (\<forall>x. (K, x) \<in> set (pr_objects ?q) \<longrightarrow> x = sealed sn')"
    proof (cases "K = ?K")
      case True
      then have "sn' = sn" using K by simp
      then show ?thesis using True pr new(3) co by (auto simp: image_iff)
    next
      case False
      then have "pr_begun p K = Some sn'" using K by simp
      then show ?thesis using protocol_invD(2) [OF inv] False co [of K sn'] unfolding begun_ok_def by (auto split: if_splits)
    qed
  qed
  have pk: "phase_ok ?q = phase_ok p" by (simp add: phase_ok_def swept_def fun_eq_iff)
  have "protocol_inv ci ?q"
    unfolding protocol_inv_def
  proof (intro conjI)
    show "store_ok (pr_store ?q)" using protocol_invD(1) [OF inv] by simp
    show "begun_ok ci ?q" by (rule b)
    have "so_object_key r \<noteq> ?K" if "r \<in> set (pr_sources p)" for r using new(4) that by (metis imageI)
    then show "\<forall>r \<in> set (pr_sources ?q). row_kept ?q r" using protocol_invD(3) [OF inv] by (auto simp: row_kept_def)
    show "\<forall>K ph. pr_phase ?q K = Some ph \<longrightarrow> (\<exists>sn. pr_begun ?q K = Some sn \<and> phase_ok ?q K ph sn)"
    proof (intro allI impI)
      fix K ph assume "pr_phase ?q K = Some ph"
      then have a: "pr_phase p K = Some ph" by simp
      then obtain sn' where sn': "pr_begun p K = Some sn'" using protocol_invD(5) [OF inv] by blast
      then have "K \<noteq> ?K" using new(1) by auto
      then show "\<exists>sn. pr_begun ?q K = Some sn \<and> phase_ok ?q K ph sn" unfolding pk using sn' protocol_invD(4) [OF inv a sn'] by simp
    qed
    show "\<forall>c \<in> pr_retire ?q. \<forall>r \<in> set (pr_sources ?q). so_object_key r = rc_ObjectKey c \<longrightarrow> so_delete_marked_at r \<noteq> None"
      using protocol_invD(6) [OF inv] by simp
  qed
  then show ?thesis
  proof (rule enter_inv)
    show "\<exists>sn'. pr_begun ?q ?K = Some sn' \<and> phase_ok ?q ?K ph' sn'" if "Some Reserving = Some ph'" for ph'
      using that fr new(2,4) by (auto simp: pk phase_ok_def fresh_submission_def swept_def)
  qed
qed

lemma reserve_inv:
  assumes inv: "protocol_inv ci p" and b: "pr_begun p K = Some sn" and ph: "pr_phase p K = Some Reserving"
    and a: "tryAcquireSourceReservation rnd now K (source_token sn) lease (pr_rows p) = (ok, rows)"
  shows "protocol_inv ci (enter K (Some (if ok then Creating else Reserving)) (with_store ((pr_store p)\<lparr>cl_reservations := rows\<rparr>) p))"
proof -
  have pok: "phase_ok p K Reserving sn" by (rule protocol_invD(4) [OF inv ph b])
  then have free: "K \<notin> rv_object_key ` set (pr_rows p)" "\<not> swept K p" by (simp_all add: phase_ok_def)
  then have ok: "ok" using a by (auto simp: tryAcquireSourceReservation_def Let_def sql_exists_iff split: if_splits)
  have d: "distinct (map rv_object_key (pr_rows p))" using protocol_invD(1) [OF inv] by (simp add: store_ok_def)
  note t = try_acquire_rows [OF a d]
  have sub: "{r \<in> set rows. rv_object_key r \<noteq> K} \<subseteq> {r \<in> set (pr_rows p). rv_object_key r \<noteq> K}" unfolding t(2) ..
  let ?p = "enter K None p"
  let ?q = "with_store ((pr_store p)\<lparr>cl_reservations := rows\<rparr>) ?p"
  have key: "source_key sn' = K'" if "pr_begun p K' = Some sn'" for K' sn'
    using protocol_invD(2) [OF inv] that unfolding begun_ok_def by blast
  have "protocol_inv ci ?p" by (rule enter_inv [OF inv]) simp
  then have "protocol_inv ci ?q"
  proof (rule rows_step [where rows = rows and sw = "pr_sweeps p"])
    show "distinct (map rv_object_key rows)" by (rule t(1))
    show "fenced sn' rows" if m: "pr_begun ?p K' = Some sn'" "pr_phase ?p K' = Some ph'" "fenced sn' (pr_rows ?p)" for K' sn' ph'
    proof (rule fenced_other [OF sub])
      show "source_key sn' \<noteq> K" using m(1,2) key [of K' sn'] by (auto split: if_splits)
      show "fenced sn' (pr_rows p)" using m(3) by simp
    qed
    show "K' \<notin> rv_object_key ` set rows" if m: "pr_begun ?p K' = Some sn'" "pr_phase ?p K' = Some Reserving" "K' \<notin> rv_object_key ` set (pr_rows ?p)" for K' sn'
    proof -
      have "K' \<noteq> K" using m(2) by (auto split: if_splits)
      then show ?thesis using unused_other [OF sub] m(3) by simp
    qed
  qed (simp_all add: with_store_def enter_def)
  then have "protocol_inv ci (enter K (Some Creating) ?q)"
    by (rule enter_inv) (use b pok free in \<open>auto simp: phase_ok_def swept_def\<close>)
  moreover have "enter K (Some Creating) ?q = enter K (Some Creating) (with_store ((pr_store p)\<lparr>cl_reservations := rows\<rparr>) p)"
    by (simp add: enter_def with_store_def)
  ultimately show ?thesis using ok by simp
qed

section \<open>Objects\<close>

lemma objects_step:
  assumes inv: "protocol_inv ci p" and q: "q = p\<lparr>pr_store := (pr_store p)\<lparr>cl_objects := os\<rparr>, pr_sweeps := sw\<rparr>"
    and sw: "\<And>c. (c, SweepDeleting) \<in> sw \<Longrightarrow> (c, SweepDeleting) \<in> pr_sweeps p" "\<And>K. swept K q \<Longrightarrow> swept K p"
    and os: "\<And>K sn x. pr_begun p K = Some sn \<Longrightarrow> (K, x) \<in> set os \<Longrightarrow> (K, x) \<in> set (pr_objects p) \<or> x = sealed sn"
    and rk: "\<And>r x. r \<in> set (pr_sources p) \<Longrightarrow> so_delete_marked_at r = None \<Longrightarrow> row_kept p r \<Longrightarrow> pr_begun p (so_object_key r) \<noteq> None \<Longrightarrow>
      (so_object_key r, x) \<in> set (pr_objects p) \<Longrightarrow> (so_object_key r, x) \<in> set os"
    and pb: "\<And>K sn x. pr_phase p K = Some Publishing \<Longrightarrow> pr_begun p K = Some sn \<Longrightarrow> phase_ok p K Publishing sn \<Longrightarrow> \<not> fenced sn (pr_rows p) \<Longrightarrow>
      (K, x) \<in> set (pr_objects p) \<Longrightarrow> (K, x) \<in> set os"
  shows "protocol_inv ci q"
proof (rule protocol_inv_frame [OF inv])
  show "store_ok (pr_store q)" using protocol_invD(1) [OF inv] by (simp add: q store_ok_def)
  show "(K, x) \<in> set (pr_objects p) \<or> x = sealed sn" if "pr_begun p K = Some sn" "(K, x) \<in> set (pr_objects q)" for K sn x
    using os [OF that(1)] that(2) by (simp add: q)
  show "row_kept q r" if r: "r \<in> set (pr_sources q)" for r
  proof -
    have rp: "r \<in> set (pr_sources p)" using r by (simp add: q)
    note k = protocol_invD(3) [OF inv rp]
    have "(so_object_key r, sealed sn) \<in> set os" if "pr_begun p (so_object_key r) = Some sn" "so_delete_marked_at r = None" for sn
      using rk [OF rp that(2) k] k that unfolding row_kept_def by auto
    then show ?thesis using k sw(1) unfolding row_kept_def q by auto
  qed
  show "phase_ok q K ph sn" if m: "pr_begun p K = Some sn" "phase_ok p K ph sn" "pr_phase p K = Some ph" for K ph sn
  proof -
    have "ph = Publishing \<Longrightarrow> fenced sn (pr_rows p) \<or> (K, sealed sn) \<in> set os" using pb m unfolding phase_ok_def by blast
    then show ?thesis using m(2) sw(2) unfolding phase_ok_def by (auto simp: q)
  qed
  show "so_delete_marked_at r \<noteq> None" if "c \<in> pr_retire q" "r \<in> set (pr_sources q)" "so_object_key r = rc_ObjectKey c" for c r
    using protocol_invD(6) [OF inv] that by (simp add: q)
qed (simp_all add: q)

lemma create_inv:
  assumes inv: "protocol_inv ci p" and b: "pr_begun p K = Some sn" and c: "pr_phase p K = Some Creating" and ph: "ph \<in> {Some Publishing, None}"
  shows "protocol_inv ci (enter K ph (with_store ((pr_store p)\<lparr>cl_objects := pr_objects p @ [(K, sealed sn)]\<rparr>) p))"
proof -
  let ?q = "with_store ((pr_store p)\<lparr>cl_objects := pr_objects p @ [(K, sealed sn)]\<rparr>) p"
  have "protocol_inv ci ?q"
    by (rule objects_step [OF inv, where os = "pr_objects p @ [(K, sealed sn)]" and sw = "pr_sweeps p"])
      (use b in \<open>auto simp: with_store_def swept_def\<close>)
  moreover have "phase_ok ?q K Publishing sn"
    using protocol_invD(4) [OF inv c b] by (auto simp: phase_ok_def swept_def)
  ultimately show ?thesis using ph b by (intro enter_inv) auto
qed

lemma delete_step:
  assumes inv: "protocol_inv ci p" and q: "q = p\<lparr>pr_store := delete_object D (pr_store p), pr_sweeps := sw\<rparr>"
    and sw: "\<And>c. (c, SweepDeleting) \<in> sw \<Longrightarrow> (c, SweepDeleting) \<in> pr_sweeps p" "\<And>K. swept K q \<Longrightarrow> swept K p"
    and rk: "\<And>r. r \<in> set (pr_sources p) \<Longrightarrow> so_delete_marked_at r = None \<Longrightarrow> row_kept p r \<Longrightarrow> pr_begun p (so_object_key r) \<noteq> None \<Longrightarrow> so_object_key r \<noteq> D"
    and pb: "\<And>K sn. pr_phase p K = Some Publishing \<Longrightarrow> pr_begun p K = Some sn \<Longrightarrow> phase_ok p K Publishing sn \<Longrightarrow> \<not> fenced sn (pr_rows p) \<Longrightarrow> K \<noteq> D"
  shows "protocol_inv ci q"
proof (rule objects_step [OF inv])
  show "q = p\<lparr>pr_store := (pr_store p)\<lparr>cl_objects := filter (\<lambda>(k, _). k \<noteq> D) (pr_objects p)\<rparr>, pr_sweeps := sw\<rparr>"
    by (simp add: q delete_object_def)
  show "(so_object_key r, x) \<in> set (filter (\<lambda>(k, _). k \<noteq> D) (pr_objects p))"
    if "r \<in> set (pr_sources p)" "so_delete_marked_at r = None" "row_kept p r" "pr_begun p (so_object_key r) \<noteq> None"
      "(so_object_key r, x) \<in> set (pr_objects p)" for r x using rk [OF that(1-4)] that(5) by simp
  show "(K, x) \<in> set (filter (\<lambda>(k, _). k \<noteq> D) (pr_objects p))"
    if "pr_phase p K = Some Publishing" "pr_begun p K = Some sn" "phase_ok p K Publishing sn" "\<not> fenced sn (pr_rows p)"
      "(K, x) \<in> set (pr_objects p)" for K sn x using pb [OF that(1-4)] that(5) by simp
qed (use sw in auto)

lemma sub_delete_inv:
  assumes inv: "protocol_inv ci p" and c: "pr_phase p K = Some Compensating"
  shows "protocol_inv ci (enter K None (with_store (delete_object K (pr_store p)) p))"
proof -
  obtain sn where b: "pr_begun p K = Some sn" using protocol_invD(5) [OF inv c] by blast
  have "K \<notin> so_object_key ` set (pr_sources p)" using protocol_invD(4) [OF inv c b] by (simp add: phase_ok_def)
  then have "protocol_inv ci (with_store (delete_object K (pr_store p)) p)"
    by (intro delete_step [OF inv, where D = K and sw = "pr_sweeps p"]) (use c in \<open>auto simp: with_store_def swept_def\<close>)
  then show ?thesis by (rule enter_inv) simp
qed

lemma sweep_delete_inv:
  assumes inv: "protocol_inv ci p" and c: "(c, SweepDeleting) \<in> pr_sweeps p"
  shows "protocol_inv ci (with_store (delete_object (sc_objectKey c) (pr_store p))
    (p\<lparr>pr_sweeps := insert (c, SweepFinalizing) (pr_sweeps p - {(c, SweepDeleting)})\<rparr>))"
proof (rule delete_step [OF inv, where D = "sc_objectKey c" and sw = "insert (c, SweepFinalizing) (pr_sweeps p - {(c, SweepDeleting)})"])
  show "so_object_key r \<noteq> sc_objectKey c" if "so_delete_marked_at r = None" "row_kept p r" "pr_begun p (so_object_key r) \<noteq> None" for r
    using that c by (auto simp: row_kept_def)
  show "K \<noteq> sc_objectKey c" if "phase_ok p K Publishing sn" "\<not> fenced sn (pr_rows p)" for K sn
    using that c by (auto simp: phase_ok_def swept_def)
qed (use c in \<open>auto simp: with_store_def swept_def\<close>)

lemma retire_delete_inv:
  assumes inv: "protocol_inv ci p" and c: "c \<in> pr_retire p"
  shows "protocol_inv ci (with_store (delete_object (rc_ObjectKey c) (pr_store p)) p)"
proof (rule delete_step [OF inv, where D = "rc_ObjectKey c" and sw = "pr_sweeps p"])
  show "so_object_key r \<noteq> rc_ObjectKey c" if "r \<in> set (pr_sources p)" "so_delete_marked_at r = None" for r
    using protocol_invD(6) [OF inv c that(1)] that(2) by auto
  show "K \<noteq> rc_ObjectKey c" if "phase_ok p K Publishing sn" for K sn using that c by (auto simp: phase_ok_def)
qed (auto simp: with_store_def swept_def)

section \<open>Sweeps\<close>

lemma sweeps_inv:
  assumes inv: "protocol_inv ci p" and sw: "\<And>K. swept K (p\<lparr>pr_sweeps := sw\<rparr>) \<Longrightarrow> swept K p"
    and del: "\<And>c r. (c, SweepDeleting) \<in> sw \<Longrightarrow> (c, SweepDeleting) \<notin> pr_sweeps p \<Longrightarrow> r \<in> set (pr_sources p) \<Longrightarrow> sc_objectKey c \<noteq> so_object_key r"
  shows "protocol_inv ci (p\<lparr>pr_sweeps := sw\<rparr>)"
proof (rule protocol_inv_frame [OF inv])
  show "row_kept (p\<lparr>pr_sweeps := sw\<rparr>) r" if "r \<in> set (pr_sources (p\<lparr>pr_sweeps := sw\<rparr>))" for r
    using protocol_invD(3) [OF inv, of r] that del unfolding row_kept_def by auto
  show "phase_ok (p\<lparr>pr_sweeps := sw\<rparr>) K ph sn" if "phase_ok p K ph sn" for K ph sn
    using that sw [of K] unfolding phase_ok_def by auto
qed (use protocol_invD(1,6) [OF inv] in simp_all)

lemma sweep_check_inv:
  assumes inv: "protocol_inv ci p" and c: "(c, SweepClaimed) \<in> pr_sweeps p"
    and ph: "ph = (if referenced (sc_objectKey c) (pr_store p) = 0 then SweepDeleting else SweepFinalizing)"
  shows "protocol_inv ci (p\<lparr>pr_sweeps := insert (c, ph) (pr_sweeps p - {(c, SweepClaimed)})\<rparr>)"
proof (rule sweeps_inv [OF inv])
  show "swept K p" if "swept K (p\<lparr>pr_sweeps := insert (c, ph) (pr_sweeps p - {(c, SweepClaimed)})\<rparr>)" for K
    using that c by (auto simp: swept_def)
  show "sc_objectKey c' \<noteq> so_object_key r"
    if "(c', SweepDeleting) \<in> insert (c, ph) (pr_sweeps p - {(c, SweepClaimed)})" "(c', SweepDeleting) \<notin> pr_sweeps p" "r \<in> set (pr_sources p)" for c' r
    using that ph by (auto simp: referenced_def sql_count_def filter_empty_conv split: if_splits)
qed

lemma claim_reservationE:
  assumes "claimSourceReservation now locked (Some token) minimumAge s = Inr (Some c, s')"
  obtains r p f where "r \<in> set (cl_reservations s)" "sc_objectKey c = rv_object_key r" "p r"
    "s' = s\<lparr>cl_reservations := sql_update p f (cl_reservations s)\<rparr>"
    "\<forall>x. p x \<longrightarrow> rv_object_key x = rv_object_key r" "\<forall>x. rv_object_key (f x) = rv_object_key x" "\<forall>x. rv_owner_token (f x) = token"
proof -
  define due where "due = filter (\<lambda>r. rv_lease_until r \<le> now \<and> rv_created_at r \<le> now - minimumAge \<and> \<not> locked (rv_object_key r)) (cl_reservations s)"
  define f where "f = (\<lambda>x :: reservation_row. x\<lparr>rv_owner_token := token, rv_lease_until := now + sourceReservationSweepLease\<rparr>)"
  obtain r rs where rs: "sort_key (\<lambda>r. (rv_created_at r, rv_object_key r)) due = r # rs"
    and c: "c = \<lparr>sc_objectKey = rv_object_key r, sc_ownerToken = token\<rparr>"
    and s': "s' = s\<lparr>cl_reservations := sql_update (\<lambda>x. rv_object_key x = rv_object_key r \<and> rv_lease_until x \<le> now) f (cl_reservations s)\<rparr>"
    using assms unfolding claimSourceReservation_def due_def f_def by (auto simp: Let_def split: list.splits if_splits)
  have "r \<in> set (sort_key (\<lambda>r. (rv_created_at r, rv_object_key r)) due)" using rs by simp
  then have "r \<in> set due" by simp
  then have r: "r \<in> set (cl_reservations s)" "rv_lease_until r \<le> now" by (simp_all add: due_def)
  show ?thesis by (rule that [OF r(1) _ _ s']) (use c r(2) in \<open>simp_all add: f_def\<close>)
qed

lemma sweep_claim_inv:
  assumes inv: "protocol_inv ci p" and c: "claimSourceReservation now locked (Some token) minimumAge (pr_store p) = Inr (Some c, s)"
    and fresh: "\<forall>K sn. pr_begun p K = Some sn \<longrightarrow> token \<noteq> source_token sn"
  shows "protocol_inv ci (with_store s (p\<lparr>pr_sweeps := insert (c, SweepClaimed) (pr_sweeps p)\<rparr>))" (is "protocol_inv ci ?q")
proof -
  obtain r P f where r: "r \<in> set (pr_rows p)" "sc_objectKey c = rv_object_key r" "P r"
    and s: "s = (pr_store p)\<lparr>cl_reservations := sql_update P f (pr_rows p)\<rparr>"
    and Pf: "\<forall>x. P x \<longrightarrow> rv_object_key x = rv_object_key r" "\<forall>x. rv_object_key (f x) = rv_object_key x" "\<forall>x. rv_owner_token (f x) = token"
    by (rule claim_reservationE [OF c])
  have ok: "store_ok (pr_store p)" by (rule protocol_invD(1) [OF inv])
  have keys: "map rv_object_key (sql_update P f (pr_rows p)) = map rv_object_key (pr_rows p)" by (rule map_sql_update) (simp add: Pf(2))
  have fen: "fenced sn (sql_update P f (pr_rows p))" if b: "pr_begun p K = Some sn" and e: "fenced sn (pr_rows p) \<or> K = sc_objectKey c" for K sn
    unfolding fenced_def
  proof
    fix y assume "y \<in> set (sql_update P f (pr_rows p))"
    then obtain x where x: "x \<in> set (pr_rows p)" "y = (if P x then f x else x)" by (rule mem_sql_updateE)
    show "(rv_object_key y, rv_owner_token y) \<noteq> sn_source sn"
    proof (cases "P x")
      case True
      then have "rv_owner_token y \<noteq> source_token sn" using x(2) Pf(3) fresh b by auto
      then show ?thesis by (metis snd_conv)
    next
      case False
      have "rv_object_key x \<noteq> rv_object_key r"
        using ok x(1) r(1,3) False by (auto simp: store_ok_def distinct_map inj_on_def)
      moreover have "source_key sn = K" using protocol_invD(2) [OF inv] b by (simp add: begun_ok_def)
      ultimately show ?thesis using e x False r(2) unfolding fenced_def by (metis fst_conv)
    qed
  qed
  show ?thesis
  proof (rule protocol_inv_frame [OF inv])
    show "store_ok (pr_store ?q)" using ok by (simp add: store_ok_def s keys)
    show "row_kept ?q r'" if "r' \<in> set (pr_sources ?q)" for r'
      using protocol_invD(3) [OF inv, of r'] that by (auto simp: row_kept_def s)
    show "phase_ok ?q K ph sn" if m: "pr_begun p K = Some sn" "phase_ok p K ph sn" "pr_phase p K = Some ph" for K ph sn
    proof -
      have sw: "swept K ?q \<longleftrightarrow> swept K p \<or> K = sc_objectKey c" by (auto simp: swept_def)
      have ks: "rv_object_key ` set (sql_update P f (pr_rows p)) = rv_object_key ` set (pr_rows p)" using keys by (metis list.set_map)
      have "sc_objectKey c \<in> rv_object_key ` set (pr_rows p)" using r(1,2) by simp
      then have "ph = Reserving \<Longrightarrow> K \<noteq> sc_objectKey c" using m(2) unfolding phase_ok_def by blast
      moreover have "ph \<in> {Creating, Publishing} \<Longrightarrow> swept K ?q \<Longrightarrow> fenced sn (sql_update P f (pr_rows p))"
        using m(2) fen [OF m(1)] sw unfolding phase_ok_def by blast
      moreover have "ph = Publishing \<Longrightarrow> fenced sn (sql_update P f (pr_rows p)) \<or> (K, sealed sn) \<in> set (pr_objects p)"
        using m(2) fen [OF m(1)] unfolding phase_ok_def by blast
      ultimately show ?thesis using m(2) sw unfolding phase_ok_def by (simp add: s ks)
    qed
  qed (use protocol_invD(6) [OF inv] in \<open>simp_all add: s\<close>)
qed

section \<open>The database\<close>

definition src_name :: "source_row \<Rightarrow> string \<times> string \<times> nat \<times> string \<times> int \<times> nat \<times> string" where
  "src_name r = (so_object_key r, so_external_id r, so_tenant_id r, so_sha256 r, so_size_bytes r, so_key_version r, so_nonce r)"

text \<open>A transaction that adds no source: rows may be marked or removed, and further retention claims may arise for sources
  that are marked.\<close>

lemma db_step:
  assumes inv: "protocol_inv ci p" and q: "q = p\<lparr>pr_store := s, pr_retire := R\<rparr>"
    and st: "store_ok s" "cl_reservations s = pr_rows p" "cl_objects s = pr_objects p"
    and src: "\<And>r'. r' \<in> set (sources (cl_db s)) \<Longrightarrow>
      \<exists>r \<in> set (pr_sources p). src_name r' = src_name r \<and> (so_delete_marked_at r \<noteq> None \<longrightarrow> so_delete_marked_at r' \<noteq> None)"
    and ten: "\<And>t'. t' \<in> set (tenants (cl_db s)) \<Longrightarrow> \<exists>t \<in> set (tenants (cl_db (pr_store p))). tn_id t = tn_id t' \<and> tn_external_id t = tn_external_id t'"
    and rt: "\<And>c. c \<in> R \<Longrightarrow> c \<in> pr_retire p \<or> rc_ObjectKey c \<in> so_object_key ` set (pr_sources p)
      \<and> (\<forall>r' \<in> set (sources (cl_db s)). so_object_key r' = rc_ObjectKey c \<longrightarrow> so_delete_marked_at r' \<noteq> None)"
  shows "protocol_inv ci q"
proof (rule protocol_inv_frame [OF inv])
  show "store_ok (pr_store q)" using st(1) by (simp add: q)
  show "(K, x) \<in> set (pr_objects p) \<or> x = sealed sn" if "(K, x) \<in> set (pr_objects q)" for K sn x using that st(3) by (simp add: q)
  show "row_kept q r'" if m: "r' \<in> set (pr_sources q)" for r'
  proof -
    have "r' \<in> set (sources (cl_db s))" using m by (simp add: q)
    from src [OF this] obtain r where r: "r \<in> set (pr_sources p)" "src_name r' = src_name r" "so_delete_marked_at r \<noteq> None \<longrightarrow> so_delete_marked_at r' \<noteq> None"
      by blast
    have f: "so_object_key r' = so_object_key r" "so_external_id r' = so_external_id r" "so_tenant_id r' = so_tenant_id r" "so_sha256 r' = so_sha256 r"
      "so_size_bytes r' = so_size_bytes r" "so_key_version r' = so_key_version r" "so_nonce r' = so_nonce r"
      using r(2) by (simp_all add: src_name_def)
    have "row_of sn (cl_db (pr_store p)) r \<Longrightarrow> row_of sn (cl_db s) r'" for sn
      unfolding row_of_def f using ten by metis
    then show ?thesis
      using protocol_invD(3) [OF inv r(1)] r(3) st(3) unfolding row_kept_def f by (auto simp: q)
  qed
  show "phase_ok q K ph sn" if "phase_ok p K ph sn" for K ph sn
  proof -
    have "so_object_key ` set (sources (cl_db s)) \<subseteq> so_object_key ` set (pr_sources p)"
    proof
      fix k assume "k \<in> so_object_key ` set (sources (cl_db s))"
      then obtain r' where "r' \<in> set (sources (cl_db s))" "k = so_object_key r'" by blast
      then show "k \<in> so_object_key ` set (pr_sources p)" using src [of r'] by (auto simp: src_name_def)
    qed
    moreover have "swept K q = swept K p" by (simp add: swept_def q)
    moreover have "\<forall>c \<in> R. rc_ObjectKey c \<noteq> K" using rt that unfolding phase_ok_def by blast
    ultimately show ?thesis using that st(2,3) unfolding phase_ok_def by (auto simp: q)
  qed
  show "so_delete_marked_at r' \<noteq> None" if m: "c \<in> pr_retire q" "r' \<in> set (pr_sources q)" "so_object_key r' = rc_ObjectKey c" for c r'
  proof (cases "c \<in> pr_retire p")
    case True
    have "r' \<in> set (sources (cl_db s))" using m(2) by (simp add: q)
    from src [OF this] obtain r where r: "r \<in> set (pr_sources p)" "src_name r' = src_name r" "so_delete_marked_at r \<noteq> None \<longrightarrow> so_delete_marked_at r' \<noteq> None"
      by blast
    then show ?thesis using protocol_invD(6) [OF inv True r(1)] m(3) by (simp add: src_name_def)
  next
    case False
    then show ?thesis using rt [of c] m by (simp add: q)
  qed
qed (simp_all add: q)

lemma marked_mono:
  assumes "marked_idle d" "sources d' = sources d" "\<And>j'. j' \<in> set (jobs d') \<Longrightarrow>
    \<exists>j \<in> set (jobs d). jb_source_object_id j' = jb_source_object_id j \<and> (row_terminal j \<longrightarrow> row_terminal j')"
  shows "marked_idle d'"
  unfolding marked_idle_def assms(2)
proof (intro ballI impI)
  fix r j' assume r: "r \<in> set (sources d)" "so_delete_marked_at r \<noteq> None" and j': "j' \<in> set (jobs d')" "jb_source_object_id j' = so_id r"
  obtain j where j: "j \<in> set (jobs d)" "jb_source_object_id j' = jb_source_object_id j" "row_terminal j \<longrightarrow> row_terminal j'"
    using assms(3) [OF j'(1)] by blast
  then have "row_terminal j" using assms(1) r j'(2) unfolding marked_idle_def by simp
  then show "row_terminal j'" using j(3) by blast
qed

lemma job_inv:
  assumes inv: "protocol_inv ci p" and step: "store_step (cl_db (pr_store p)) d"
  shows "protocol_inv ci (with_store ((pr_store p)\<lparr>cl_db := d\<rparr>) p)"
proof (rule db_step [OF inv, where s = "(pr_store p)\<lparr>cl_db := d\<rparr>" and R = "pr_retire p"])
  let ?d = "cl_db (pr_store p)"
  have st: "sources d = sources ?d" "map tenant_name (tenants d) = map tenant_name (tenants ?d)"
    using store_step_static [OF step] by (simp_all add: static_def)
  have ids: "map tn_id (tenants d) = map tn_id (tenants ?d)"
    using arg_cong [OF st(2), of "map fst"] by (simp add: tenant_name_def comp_def)
  have ok: "store_ok (pr_store p)" by (rule protocol_invD(1) [OF inv])
  have "marked_idle d"
  proof (rule marked_mono [OF _ st(1)])
    show "marked_idle ?d" using ok by (simp add: store_ok_def)
    show "\<exists>j \<in> set (jobs ?d). jb_source_object_id j' = jb_source_object_id j \<and> (row_terminal j \<longrightarrow> row_terminal j')" if "j' \<in> set (jobs d)" for j'
      using list_all2_mem_right [OF store_step_advance [OF step] that] by (auto simp: row_advances_def job_name_def)
  qed
  then show "store_ok ((pr_store p)\<lparr>cl_db := d\<rparr>)"
    using ok readable_step [OF step] by (simp add: store_ok_def st(1) ids)
  show "\<exists>t \<in> set (tenants ?d). tn_id t = tn_id t' \<and> tn_external_id t = tn_external_id t'"
    if "t' \<in> set (tenants (cl_db ((pr_store p)\<lparr>cl_db := d\<rparr>)))" for t'
  proof -
    have "tenant_name t' \<in> set (map tenant_name (tenants d))" using that by simp
    then obtain t where "t \<in> set (tenants ?d)" "tenant_name t = tenant_name t'" unfolding st(2) by auto
    then show ?thesis by (auto simp: tenant_name_def)
  qed
qed (use store_step_static [OF step] in \<open>auto simp: with_store_def static_def\<close>)

lemma same_db_inv:
  assumes inv: "protocol_inv ci p" and s: "cl_db s = (cl_db (pr_store p))\<lparr>outbox := es\<rparr>" "cl_reservations s = pr_rows p" "cl_objects s = pr_objects p"
  shows "protocol_inv ci (with_store s p)"
proof (rule db_step [OF inv, where s = s and R = "pr_retire p"])
  show "store_ok s" using protocol_invD(1) [OF inv] by (simp add: store_ok_def s rows_readable_def marked_idle_def)
qed (use s in \<open>auto simp: with_store_def\<close>)

text \<open>Updates of the deletion columns.\<close>

lemma sources_inv:
  assumes inv: "protocol_inv ci p" and s: "cl_db s = (cl_db (pr_store p))\<lparr>sources := sql_update P f (pr_sources p)\<rparr>"
      "cl_reservations s = pr_rows p" "cl_objects s = pr_objects p"
    and f: "\<And>r. src_name (f r) = src_name r" "\<And>r. so_id (f r) = so_id r" "\<And>r. so_delete_marked_at r \<noteq> None \<Longrightarrow> so_delete_marked_at (f r) \<noteq> None"
    and idle: "\<And>r j. r \<in> set (pr_sources p) \<Longrightarrow> P r \<Longrightarrow> so_delete_marked_at r = None \<Longrightarrow> so_delete_marked_at (f r) \<noteq> None \<Longrightarrow>
      j \<in> set (pr_jobs p) \<Longrightarrow> jb_source_object_id j = so_id r \<Longrightarrow> row_terminal j"
    and rt: "\<And>c. c \<in> R \<Longrightarrow> c \<in> pr_retire p \<or> (\<exists>r \<in> set (pr_sources p). rc_ObjectKey c = so_object_key r \<and> P r \<and> so_delete_marked_at (f r) \<noteq> None)"
  shows "protocol_inv ci (p\<lparr>pr_store := s, pr_retire := R\<rparr>)"
proof (rule db_step [OF inv refl _ s(2,3)])
  have ok: "store_ok (pr_store p)" by (rule protocol_invD(1) [OF inv])
  have key: "so_object_key (f r) = so_object_key r" for r using f(1) [of r] by (simp add: src_name_def)
  have keys: "map so_object_key (sql_update P f (pr_sources p)) = map so_object_key (pr_sources p)" by (rule map_sql_update) (rule key)
  have "marked_idle (cl_db s)"
    unfolding marked_idle_def s(1)
  proof (intro ballI impI, simp)
    fix r' j assume r': "r' \<in> set (sql_update P f (pr_sources p))" "\<exists>y. so_delete_marked_at r' = Some y"
      and j: "j \<in> set (pr_jobs p)" "jb_source_object_id j = so_id r'"
    obtain r where r: "r \<in> set (pr_sources p)" "r' = (if P r then f r else r)" by (rule mem_sql_updateE [OF r'(1)])
    have j': "jb_source_object_id j = so_id r" using j(2) r(2) f(2) by simp
    show "row_terminal j"
    proof (cases "so_delete_marked_at r")
      case None
      then have "P r" "so_delete_marked_at (f r) \<noteq> None" using r(2) r'(2) by (auto split: if_splits)
      then show ?thesis using idle [OF r(1) _ None _ j(1) j'] by blast
    next
      case (Some t)
      then show ?thesis using ok r(1) j(1) j' unfolding store_ok_def marked_idle_def by blast
    qed
  qed
  then show "store_ok s" using ok by (simp add: store_ok_def s keys rows_readable_def)
  show "\<exists>r \<in> set (pr_sources p). src_name r' = src_name r \<and> (so_delete_marked_at r \<noteq> None \<longrightarrow> so_delete_marked_at r' \<noteq> None)"
    if m: "r' \<in> set (sources (cl_db s))" for r'
  proof -
    have "r' \<in> set (sql_update P f (pr_sources p))" using m by (simp add: s)
    then obtain r where r: "r \<in> set (pr_sources p)" "r' = (if P r then f r else r)" by (rule mem_sql_updateE)
    then show ?thesis using f(1) [of r] f(3) [of r] by (intro bexI [of _ r]) simp_all
  qed
  show "c \<in> pr_retire p \<or> rc_ObjectKey c \<in> so_object_key ` set (pr_sources p)
      \<and> (\<forall>r' \<in> set (sources (cl_db s)). so_object_key r' = rc_ObjectKey c \<longrightarrow> so_delete_marked_at r' \<noteq> None)" if c: "c \<in> R" for c
  proof (cases "c \<in> pr_retire p")
    case False
    obtain r where r: "r \<in> set (pr_sources p)" "rc_ObjectKey c = so_object_key r" "P r" "so_delete_marked_at (f r) \<noteq> None"
      using rt [OF c] False by blast
    have "so_delete_marked_at r' \<noteq> None" if m: "r' \<in> set (sources (cl_db s))" "so_object_key r' = rc_ObjectKey c" for r'
    proof -
      have "r' \<in> set (sql_update P f (pr_sources p))" using m(1) by (simp add: s)
      then obtain x where x: "x \<in> set (pr_sources p)" "r' = (if P x then f x else x)" by (rule mem_sql_updateE)
      have "so_object_key x = so_object_key r" using m(2) r(2) x(2) key by (simp split: if_splits)
      then have "x = r" using ok x(1) r(1) by (auto simp: store_ok_def distinct_map inj_on_def)
      then show ?thesis using x(2) r(3,4) by simp
    qed
    then show ?thesis using r(1,2) by auto
  qed blast
qed (auto simp: s)

lemma candidateE:
  assumes "claimSourceRetentionCandidate env candidate retention leaseDuration s = Inr (c, s')"
  obtains j r token now until where "j \<in> set (jobs (cl_db s))" "claim_names_job c j" "row_terminal j" "jb_source_object_id j = rc_SourceInternalID c"
    "r \<in> set (sources (cl_db s))" "claim_names_source c r" "so_deleted_at r = None" "rc_ObjectKey c = so_object_key r"
    "\<forall>k \<in> set (jobs (cl_db s)). jb_source_object_id k = rc_SourceInternalID c \<longrightarrow> jb_id k = rc_JobInternalID c"
    "cl_db s' = (cl_db s)\<lparr>sources := sql_update (\<lambda>r. claim_names_source c r \<and> so_deleted_at r = None) (mark_source token now until) (sources (cl_db s))\<rparr>"
    "cl_reservations s' = cl_reservations s" "cl_objects s' = cl_objects s"
proof -
  have nm: "claim_names_source (x\<lparr>rc_SourceExternalID := a, rc_ObjectKey := b\<rparr>) = claim_names_source x"
    "claim_names_source (x\<lparr>rc_SourceExternalID := a, rc_ObjectKey := b, rc_DeleteToken := t\<rparr>) = claim_names_source x"
    "claim_names_job (x\<lparr>rc_SourceExternalID := a, rc_ObjectKey := b, rc_DeleteToken := t\<rparr>) = claim_names_job x" for x a b t
    by (simp_all add: claim_names_source_def claim_names_job_def fun_eq_iff)
  define d where "d = cl_db s"
  obtain u where "lockRetentionTenantJobForClaim env candidate (re_now env - retention) d = Inr u"
    using assms by (auto simp: claimSourceRetentionCandidate_def Let_def result_simps d_def)
  then obtain j where j: "j \<in> set (jobs d)" "claim_names_job candidate j" "retained_job candidate (Some (re_now env - retention)) j"
    by (auto simp: lockRetentionTenantJobForClaim_def split: if_splits option.splits dest: find_Some_mem)
  obtain r token where r: "r \<in> set (sources d)" "claim_names_source candidate r" "source_free (re_now env) r"
    and c: "c = candidate\<lparr>rc_SourceExternalID := so_external_id r, rc_ObjectKey := so_object_key r, rc_DeleteToken := token\<rparr>"
    and bl: "retentionBlockers (re_recheck env) (candidate\<lparr>rc_SourceExternalID := so_external_id r, rc_ObjectKey := so_object_key r\<rparr>) s = 0"
    and s': "cl_db s' = d\<lparr>sources := sql_update (\<lambda>r. claim_names_source candidate r \<and> so_deleted_at r = None)
        (mark_source token (re_now env) (re_now env + leaseDuration)) (sources d)\<rparr>"
      "cl_reservations s' = cl_reservations s" "cl_objects s' = cl_objects s"
    using assms unfolding claimSourceRetentionCandidate_def Let_def d_def
    by (auto simp: nm result_simps update_sources_def insertRetentionAudit_def split: if_splits option.splits dest!: find_Some_mem)
  show ?thesis
  proof (rule that)
    show "j \<in> set (jobs (cl_db s))" "claim_names_job c j" "row_terminal j" "jb_source_object_id j = rc_SourceInternalID c"
      using j retained_terminal [OF j(3)] by (simp_all add: d_def c nm retained_job_def)
    show "r \<in> set (sources (cl_db s))" "claim_names_source c r" "so_deleted_at r = None" "rc_ObjectKey c = so_object_key r"
      using r by (simp_all add: d_def c nm source_free_def)
    show "\<forall>k \<in> set (jobs (cl_db s)). jb_source_object_id k = rc_SourceInternalID c \<longrightarrow> jb_id k = rc_JobInternalID c"
      using bl by (auto simp: retentionBlockers_def sql_count_def filter_empty_conv c)
    show "cl_db s' = (cl_db s)\<lparr>sources := sql_update (\<lambda>r. claim_names_source c r \<and> so_deleted_at r = None)
        (mark_source token (re_now env) (re_now env + leaseDuration)) (sources (cl_db s))\<rparr>"
      "cl_reservations s' = cl_reservations s" "cl_objects s' = cl_objects s"
      using s' by (simp_all add: c nm d_def)
  qed
qed

lemma retire_claim_inv:
  assumes inv: "protocol_inv ci p" and c: "claimSourceRetentionCandidate env candidate retention leaseDuration (pr_store p) = Inr (c, s)"
  shows "protocol_inv ci (with_store s (p\<lparr>pr_retire := insert c (pr_retire p)\<rparr>))"
proof -
  obtain j r token now until where j: "j \<in> set (pr_jobs p)" "claim_names_job c j" "row_terminal j" "jb_source_object_id j = rc_SourceInternalID c"
    and r: "r \<in> set (pr_sources p)" "claim_names_source c r" "so_deleted_at r = None" "rc_ObjectKey c = so_object_key r"
    and only: "\<forall>k \<in> set (pr_jobs p). jb_source_object_id k = rc_SourceInternalID c \<longrightarrow> jb_id k = rc_JobInternalID c"
    and s: "cl_db s = (cl_db (pr_store p))\<lparr>sources := sql_update (\<lambda>r. claim_names_source c r \<and> so_deleted_at r = None) (mark_source token now until) (pr_sources p)\<rparr>"
      "cl_reservations s = pr_rows p" "cl_objects s = pr_objects p"
    by (rule candidateE [OF c])
  have ids: "distinct (map jb_id (pr_jobs p))" using protocol_invD(1) [OF inv] by (simp add: store_ok_def rows_readable_def)
  have mk: "so_delete_marked_at (mark_source token now until x) \<noteq> None" for x by (simp add: mark_source_def split: option.split)
  have "protocol_inv ci (p\<lparr>pr_store := s, pr_retire := insert c (pr_retire p)\<rparr>)"
  proof (rule sources_inv [OF inv s])
    show "row_terminal k" if m: "claim_names_source c x \<and> so_deleted_at x = None" "k \<in> set (pr_jobs p)" "jb_source_object_id k = so_id x" for x k
    proof -
      have "jb_id k = jb_id j" using only m j(2) by (simp add: claim_names_source_def claim_names_job_def)
      then show ?thesis using job_by_id [OF ids m(2) j(1)] j(3) by simp
    qed
    show "c' \<in> pr_retire p \<or> (\<exists>x \<in> set (pr_sources p). rc_ObjectKey c' = so_object_key x \<and> (claim_names_source c x \<and> so_deleted_at x = None)
        \<and> so_delete_marked_at (mark_source token now until x) \<noteq> None)" if "c' \<in> insert c (pr_retire p)" for c'
      using that r mk by blast
  qed (auto simp: mark_source_def src_name_def)
  moreover have "with_store s (p\<lparr>pr_retire := insert c (pr_retire p)\<rparr>) = p\<lparr>pr_store := s, pr_retire := insert c (pr_retire p)\<rparr>"
    by (cases p) (simp add: with_store_def)
  ultimately show ?thesis by (simp only:)
qed

lemma retire_retry_inv:
  assumes inv: "protocol_inv ci p" and r: "RecordSourceRetentionFailure now c retryDelay (pr_store p) = Inr s"
  shows "protocol_inv ci (with_store s p)"
proof -
  obtain P where s: "cl_db s = (cl_db (pr_store p))\<lparr>sources := sql_update P (\<lambda>r. r\<lparr>so_delete_last_error_code := Some ''OBJECT_DELETE_FAILED'',
      so_delete_lease_until := Some now, so_delete_next_attempt_at := Some (now + retryDelay)\<rparr>) (pr_sources p)\<rparr>"
    "cl_reservations s = pr_rows p" "cl_objects s = pr_objects p"
    using r by (auto simp: RecordSourceRetentionFailure_def insertRetentionAudit_def update_sources_def Let_def result_simps
        split: if_splits option.splits)
  have "protocol_inv ci (p\<lparr>pr_store := s, pr_retire := pr_retire p\<rparr>)" by (rule sources_inv [OF inv s]) (simp_all add: src_name_def)
  then show ?thesis by (simp add: with_store_def)
qed

lemma retire_finalize_inv:
  assumes inv: "protocol_inv ci p" and f: "FinalizeSourceRetention now recheck c (pr_store p) = Inr s"
  shows "protocol_inv ci (with_store s p)"
proof -
  let ?d = "cl_db (pr_store p)"
  have s: "cl_db s = drop_retained c ?d" "cl_reservations s = pr_rows p" "cl_objects s = pr_objects p"
    by (rule finalizeE [OF f], assumption)+
  have ok: "store_ok (pr_store p)" by (rule protocol_invD(1) [OF inv])
  then have "store_ok s"
    by (auto simp: store_ok_def s drop_retained_def sql_delete_def distinct_map_filter rows_readable_def marked_idle_def)
  then have "protocol_inv ci (p\<lparr>pr_store := s, pr_retire := pr_retire p\<rparr>)"
    by (rule db_step [OF inv refl _ s(2,3)]) (auto simp: s drop_retained_def sql_delete_def)
  then show ?thesis by (simp add: with_store_def)
qed

section \<open>Publishing\<close>

lemma next_source_id_fresh: "r \<in> set (sources d) \<Longrightarrow> so_id r \<noteq> next_source_id d"
  using fold_max_bound [of "so_id r" "map so_id (sources d)" 0] by (auto simp: next_source_id_def)

lemma publish_store_ok:
  assumes "store_ok s" "source_key sn \<notin> so_object_key ` set (sources (cl_db s))"
    and s': "cl_db s' = (cl_db s)\<lparr>sources := sources (cl_db s) @ [source_of_submission sn tenant (cl_db s)],
      jobs := jobs (cl_db s) @ [job_of_submission sn tenant b callback now (cl_db s)]\<rparr>"
      "cl_reservations s' = sql_delete P (cl_reservations s)"
  shows "store_ok s'"
proof -
  let ?d = "cl_db s" and ?r = "source_of_submission sn tenant (cl_db s)" and ?j = "job_of_submission sn tenant b callback now (cl_db s)"
  have f: "so_object_key ?r = source_key sn" "so_delete_marked_at ?r = None" "jb_source_object_id ?j = next_source_id ?d"
    by (simp_all add: source_of_submission_def job_of_submission_def)
  have "marked_idle (cl_db s')"
    using assms(1) next_source_id_fresh [of _ ?d] f(2,3) unfolding store_ok_def marked_idle_def s'(1) by fastforce
  moreover have "rows_readable (cl_db s')" using assms(1) readable_publish [of ?d] by (simp add: store_ok_def s'(1))
  ultimately show ?thesis
    using assms(1,2) f(1) by (auto simp: store_ok_def s' sql_delete_def distinct_map_filter)
qed

lemma publish_inv:
  assumes inv: "protocol_inv ci p" and b: "pr_begun p K = Some sn" and ph: "pr_phase p K = Some Publishing"
    and tx: "submit_transaction ttl lockNow now sn (pr_store p) = Inr (r, Some s)"
  shows "protocol_inv ci (enter K None (with_store s p))" (is "protocol_inv ci ?q")
proof -
  let ?d = "cl_db (pr_store p)" and ?p = "enter K None p"
  obtain tenant policy keys bd callback where lock: "lockSubmissionReservations lockNow [sn_coordination sn, sn_source sn] (pr_rows p)"
    and t: "lockTenantPolicy (sn_tenant sn) ?d = Inr (tenant, policy)"
    "publish_submission ttl now sn tenant bd callback keys (pr_store p) = Inr (r, s)"
    by (rule transactionE [OF tx]) blast
  let ?r = "source_of_submission sn tenant ?d" and ?j = "job_of_submission sn tenant bd callback now ?d"
  have s: "cl_db s = ?d\<lparr>sources := sources ?d @ [?r], jobs := jobs ?d @ [?j]\<rparr>"
    "cl_reservations s = sql_delete (owned_by [sn_coordination sn, sn_source sn]) (pr_rows p)" "cl_objects s = pr_objects p"
    by (rule publishE [OF t(2)], assumption)+
  have K: "source_key sn = K" using protocol_invD(2) [OF inv] b by (simp add: begun_ok_def)
  have pok: "phase_ok p K Publishing sn" by (rule protocol_invD(4) [OF inv ph b])
  have "\<not> fenced sn (pr_rows p)" using lock by (auto simp: lockSubmissionReservations_def sql_exists_iff fenced_def prod_eq_iff split: prod.splits)
  then have safe: "\<not> swept K p" "(K, sealed sn) \<in> set (pr_objects p)" "K \<notin> so_object_key ` set (pr_sources p)" "\<forall>c \<in> pr_retire p. rc_ObjectKey c \<noteq> K"
    using pok by (auto simp: phase_ok_def)
  have ok: "store_ok (pr_store p)" by (rule protocol_invD(1) [OF inv])
  have rf: "so_object_key ?r = K" "so_tenant_id ?r = tenant" "so_delete_marked_at ?r = None" by (simp_all add: source_of_submission_def K)
  obtain t0 where t0: "t0 \<in> set (tenants ?d)" "tn_external_id t0 = sn_tenant sn" "tn_id t0 = tenant" by (rule lockTenantPolicyE [OF t(1)])
  have "row_of sn (cl_db s) ?r"
    using ok t0 by (auto simp: row_of_def s(1) rf(2) source_of_submission_def store_ok_def distinct_map inj_on_def)
  then have new: "row_kept ?q ?r" using safe(1,2) b s(3) by (auto simp: row_kept_def rf swept_def)
  have inv1: "protocol_inv ci ?p" by (rule enter_inv [OF inv]) simp
  show ?thesis
  proof (rule protocol_inv_frame [OF inv1])
    show "store_ok (pr_store ?q)" using publish_store_ok [OF ok _ s(1,2)] safe(3) K by simp
    show "row_kept ?q x" if m: "x \<in> set (pr_sources ?q)" for x
    proof (cases "x = ?r")
      case True then show ?thesis using new by simp
    next
      case False
      then have "x \<in> set (pr_sources ?p)" using m by (simp add: s(1))
      note k = protocol_invD(3) [OF inv1 this]
      have "row_of sn' (cl_db s) x = row_of sn' ?d x" for sn' by (simp add: row_of_def s(1))
      then show ?thesis using k by (simp add: row_kept_def s(3))
    qed
    show "phase_ok ?q K' ph' sn'" if m: "pr_begun ?p K' = Some sn'" "phase_ok ?p K' ph' sn'" "pr_phase ?p K' = Some ph'" for K' ph' sn'
    proof -
      have ne: "K' \<noteq> K" using m(3) by (auto split: if_splits)
      have "fenced sn' (pr_rows p) \<Longrightarrow> fenced sn' (cl_reservations s)" by (auto simp: fenced_def s(2) sql_delete_def)
      moreover have "rv_object_key ` set (cl_reservations s) \<subseteq> rv_object_key ` set (pr_rows p)" by (auto simp: s(2) sql_delete_def)
      ultimately show ?thesis using m(2) ne rf(1) unfolding phase_ok_def by (auto simp: s(1,3) swept_def)
    qed
    show "so_delete_marked_at x \<noteq> None" if m: "c \<in> pr_retire ?q" "x \<in> set (pr_sources ?q)" "so_object_key x = rc_ObjectKey c" for c x
    proof -
      have "x \<noteq> ?r" using m safe(4) rf(1) by auto
      then have "x \<in> set (pr_sources p)" using m(2) by (simp add: s(1))
      then show ?thesis using protocol_invD(6) [OF inv] m(1,3) by simp
    qed
  qed (simp_all add: s(3))
qed

section \<open>Every reachable state\<close>

lemma protocol_step_inv: "protocol_step ci p q \<Longrightarrow> protocol_inv ci p \<Longrightarrow> protocol_inv ci q"
proof (induction rule: protocol_step.induct)
  case (sub_begin sn p) then show ?case by (intro begin_inv)
next
  case (sub_coordinate p K sn rnd now token lease ok rows) then show ?case by (intro coordinate_inv)
next
  case (sub_reserve p K sn rnd now lease ok rows) then show ?case by (intro reserve_inv)
next
  case (sub_create p K sn ph) then show ?case by (intro create_inv)
next
  case (sub_publish p K sn ttl lockNow now r s) then show ?case by (intro publish_inv)
next
  case (sub_compensate p K)
  obtain sn where b: "pr_begun p K = Some sn" using protocol_invD(5) [OF sub_compensate.prems sub_compensate.hyps] by blast
  have "phase_ok p K Compensating sn"
    using protocol_invD(4) [OF sub_compensate.prems sub_compensate.hyps b] by (simp add: phase_ok_def)
  then show ?case using b by (intro enter_inv [OF sub_compensate.prems]) auto
next
  case (sub_delete p K) then show ?case by (intro sub_delete_inv)
next
  case (sub_stop p K) then show ?case by (rule enter_inv) simp
next
  case (sub_release p K sn claims)
  show ?case
    by (rule fewer_rows_inv [OF sub_release.prems, where P = "owned_by claims" and sw = "pr_sweeps p"])
      (simp_all add: with_store_def release_reservations_def)
next
  case (sweep_claim now locked token minimumAge p c s) then show ?case by (intro sweep_claim_inv)
next
  case (sweep_check c p ph) then show ?case by (intro sweep_check_inv)
next
  case (sweep_delete c p) then show ?case by (intro sweep_delete_inv)
next
  case (sweep_finalize c p)
  show ?case
    by (rule fewer_rows_inv [OF sweep_finalize.prems, where sw = "pr_sweeps p - {(c, SweepFinalizing)}"
        and P = "\<lambda>r. rv_object_key r = sc_objectKey c \<and> rv_owner_token r = sc_ownerToken c"])
      (auto simp: with_store_def finalize_reservation_def Let_def)
next
  case (sweep_stop p c ph) show ?case by (rule sweeps_inv [OF sweep_stop.prems]) (auto simp: swept_def)
next
  case (retire_claim env candidate retention leaseDuration p c s) then show ?case by (intro retire_claim_inv)
next
  case (retire_delete c p) then show ?case by (intro retire_delete_inv)
next
  case (retire_retry now c retryDelay p s) then show ?case by (intro retire_retry_inv)
next
  case (retire_finalize now recheck c p s) then show ?case by (intro retire_finalize_inv)
next
  case (other_job p d) then show ?case by (intro job_inv)
next
  case (other_expire locked now batch p n s)
  have s: "cl_db s = cl_db (pr_store p)" "cl_reservations s = pr_rows p" "cl_objects s = pr_objects p"
    using other_expire.hyps by (auto simp: ExpireIdempotencyBatch_def Let_def split: if_splits)
  show ?case by (rule same_db_inv [OF other_expire.prems, where es = "outbox (cl_db (pr_store p))"]) (simp_all add: s)
next
  case (other_webhook p es) show ?case by (rule same_db_inv [OF other_webhook.prems, where es = es]) simp_all
qed

definition protocol_start :: "client_store \<Rightarrow> protocol" where
  "protocol_start s = \<lparr>pr_store = s, pr_begun = (\<lambda>_. None), pr_phase = (\<lambda>_. None), pr_sweeps = {}, pr_retire = {}\<rparr>"

lemma protocol_start_inv: "store_ok s \<Longrightarrow> protocol_inv ci (protocol_start s)"
  by (simp add: protocol_inv_def protocol_start_def begun_ok_def row_kept_def)

lemma protocol_reachable_inv:
  assumes "store_ok s" "(protocol_step ci)\<^sup>*\<^sup>* (protocol_start s) p"
  shows "protocol_inv ci p"
  using assms(2) by (induction rule: rtranclp_induct) (auto intro: protocol_start_inv [OF assms(1)] protocol_step_inv)

lemma prepared_source:
  assumes "prepared ci sn"
  obtains nonce where "SourceObjectKey (sn_tenant sn) (sn_sourceID sn) = Some (source_key sn)" "length nonce = 12"
    "source_Encrypt ci (Some nonce) (sn_tenant sn) (sn_sourceID sn) (jr_SourceCode (sn_request sn)) = Some (sn_encrypted sn)"
proof -
  obtain env te key request where e: "su_cipher env = ci" "prepare_submission env te key request = Inr sn"
    "\<forall>nonce. su_nonce env = Some nonce \<longrightarrow> length nonce = 12" using assms by (auto simp: prepared_def)
  have f: "SourceObjectKey (sn_tenant sn) (sn_sourceID sn) = Some (source_key sn)"
    "source_Encrypt ci (su_nonce env) (sn_tenant sn) (sn_sourceID sn) (jr_SourceCode (sn_request sn)) = Some (sn_encrypted sn)"
    using e(1,2) by (auto simp: prepare_submission_def need_def result_simps split: if_splits option.splits)
  then obtain nonce where "su_nonce env = Some nonce" by (cases "su_nonce env") (auto simp: source_Encrypt_def split: if_splits option.splits)
  then show ?thesis using that f e(3) by simp
qed

lemma sealed_length:
  assumes "source_Encrypt ci (Some nonce) t i plaintext = Some e" "cipher_ok ci" "length nonce = 12"
  shows "int (length (es_Ciphertext e)) = es_SizeBytes e + 16" "0 < es_SizeBytes e" "es_SizeBytes e + 16 \<le> maximumEncryptedSourceObjectBytes"
    "es_KeyVersion e = ci_activeVersion ci"
proof -
  obtain key where k: "map_of (ci_keys ci) (ci_activeVersion ci) = Some key" "length key = 32" using assms(2) by (auto simp: cipher_ok_def)
  then have e: "e = \<lparr>es_Ciphertext = gcm_Seal key nonce plaintext (sourceAAD t i (ci_activeVersion ci)),
      es_Nonce = nonce, es_KeyVersion = ci_activeVersion ci, es_SHA256 = sha256 plaintext, es_SizeBytes = int (length plaintext)\<rparr>"
    and l: "plaintext \<noteq> []" "int (length plaintext) \<le> MaximumSourceBytes"
    using assms(1) by (auto simp: source_Encrypt_def split: if_splits)
  show "int (length (es_Ciphertext e)) = es_SizeBytes e + 16" "0 < es_SizeBytes e" "es_SizeBytes e + 16 \<le> maximumEncryptedSourceObjectBytes"
    "es_KeyVersion e = ci_activeVersion ci"
    using l k(2) assms(3) by (simp_all add: e length_gcm_Seal MaximumSourceBytes_def maximumEncryptedSourceObjectBytes_def)
qed

text \<open>What is stored for an unmarked source is what its submission sealed, and opens to the submitted source.\<close>

lemma stored_source_opens:
  assumes inv: "protocol_inv ci p" and ci: "cipher_ok ci" "\<forall>v. map_of (ci_keys ci) v \<noteq> None \<longrightarrow> map_of (ci_keys ci') v = map_of (ci_keys ci) v"
    and r: "r \<in> set (pr_sources p)" "so_delete_marked_at r = None" "pr_begun p (so_object_key r) = Some sn"
  shows "source_Get (pr_objects p) (so_object_key r) (so_size_bytes r + sourceCiphertextOverheadBytes) = Some (sealed sn)"
    "row_decrypt ci' (sn_tenant sn) (so_external_id r) (sealed sn) r = Some (jr_SourceCode (sn_request sn))"
proof -
  have b: "prepared ci sn" "source_key sn = so_object_key r" "\<And>x. (so_object_key r, x) \<in> set (pr_objects p) \<Longrightarrow> x = sealed sn"
    using protocol_invD(2) [OF inv] r(3) by (simp_all add: begun_ok_def)
  have k: "row_of sn (cl_db (pr_store p)) r" "(so_object_key r, sealed sn) \<in> set (pr_objects p)"
    using protocol_invD(3) [OF inv r(1)] r(2,3) by (simp_all add: row_kept_def)
  obtain nonce where p: "SourceObjectKey (sn_tenant sn) (sn_sourceID sn) = Some (source_key sn)" "length nonce = 12"
    "source_Encrypt ci (Some nonce) (sn_tenant sn) (sn_sourceID sn) (jr_SourceCode (sn_request sn)) = Some (sn_encrypted sn)"
    by (rule prepared_source [OF b(1)])
  note row = k(1) [unfolded row_of_def]
  obtain x where x: "map_of (pr_objects p) (so_object_key r) = Some x" using k(2) weak_map_of_SomeI by fastforce
  then have "x = sealed sn" using b(3) map_of_SomeD by fastforce
  then show "source_Get (pr_objects p) (so_object_key r) (so_size_bytes r + sourceCiphertextOverheadBytes) = Some (sealed sn)"
    using x SourceObjectKey_valid [OF p(1)] b(2) sealed_length [OF p(3) ci(1) p(2)] row by (simp add: source_Get_def sourceCiphertextOverheadBytes_def)
  have "map_of (ci_keys ci') (es_KeyVersion (sn_encrypted sn)) = map_of (ci_keys ci) (es_KeyVersion (sn_encrypted sn))"
    using ci sealed_length(4) [OF p(3) ci(1) p(2)] by (auto simp: cipher_ok_def)
  from source_decrypts [OF ci(1) p(3,2) this]
  show "row_decrypt ci' (sn_tenant sn) (so_external_id r) (sealed sn) r = Some (jr_SourceCode (sn_request sn))"
    using row by (cases "sn_encrypted sn") (simp add: row_decrypt_def)
qed

end
