(* ===== verification/Client_Properties.thy ===== *)
theory Client_Properties
  imports Client_Examples Source_Protocol
begin

text \<open>
  The properties of the client side: submissions, replays under the same idempotency key, retention and listing.
\<close>

section \<open>Submissions\<close>

lemma prepare_fields:
  assumes "prepare_submission env te key request = Inr sn"
  shows "sn_tenant sn = te" "sn_request sn = request" "DigestIdempotencyKey key (su_pepper env) = Some (sn_keyDigest sn)"
    "CanonicalJobRequestHash request (int (length (jr_SourceCode request))) = Some (sn_requestHash sn)"
  using assms by (auto simp: prepare_submission_def need_def result_simps split: if_splits option.splits)

text \<open>C0: a repeated submission is answered with the first job. After a submission that created a job, and until its
  idempotency key expires, the same tenant and key get that job back as a replay when the request has the same
  canonical hash and a conflict otherwise, and nothing is created; whatever clients, judging workers, webhook workers
  and retention workers commit in between.\<close>

theorem resubmission_replays:
  assumes "Submit env te key request s = (Inr r, s1)" and "\<not> sj_Replayed r"
    and "rows_readable (cl_db s1)" and "distinct (map ik_id (cl_keys s1))" and "distinct (map tn_external_id (tenants (cl_db s1)))"
    and "(client_step T)\<^sup>*\<^sup>* s1 (su_other env' 0 s2)" and "su_now env' 0 \<le> T" and "T < su_now env 9 + su_ttl env"
    and "su_pepper env' = su_pepper env" and "prepare_submission env' te key request' = Inr sn'"
  shows "\<exists>job. ej_ExternalID job = ej_ExternalID (sj_Job r)
    \<and> Submit env' te key request' s2
      = (if CanonicalJobRequestHash request' (int (length (jr_SourceCode request')))
            = CanonicalJobRequestHash request (int (length (jr_SourceCode request)))
         then Inr \<lparr>sj_Job = job, sj_Replayed = True\<rparr> else Inl ErrExternalJobConflict, su_other env' 0 s2)"
proof -
  obtain sn u where sn: "prepare_submission env te key request = Inr sn"
    and tx: "submit_transaction (su_ttl env) (su_now env 8) (su_now env 9) sn (su_other env 8 u) = Inr (r, Some s1)"
    by (rule submit_fresh [OF assms(1,2)]) blast
  note f = prepare_fields [OF sn] and f' = prepare_fields [OF assms(10)]
  have kd: "sn_keyDigest sn' = sn_keyDigest sn" using f(3) f'(3) assms(9) by simp
  obtain tenant where "key_held T (sn_tenant sn) tenant (sn_keyDigest sn) (sn_requestHash sn) (sn_jobID sn) s1"
    using transaction_held(1) [OF tx assms(3-5,8)] by blast
  then have held: "key_held T te tenant (sn_keyDigest sn') (sn_requestHash sn) (sn_jobID sn) (su_other env' 0 s2)"
    using client_steps_held [OF assms(6)] f(1) kd by simp
  obtain job where job: "ej_ExternalID job = sn_jobID sn"
    "findSubmitReplay (su_now env' 0) te (sn_keyDigest sn') (sn_requestHash sn') (su_other env' 0 s2)
      = (if sn_requestHash sn' = sn_requestHash sn then Inr (Some \<lparr>sj_Job = job, sj_Replayed = True\<rparr>) else Inl ErrExternalJobConflict)"
    using replay_held [OF held assms(7), of "sn_requestHash sn'"] by blast
  have "ej_ExternalID (sj_Job r) = sn_jobID sn" by (rule transaction_held(2) [OF tx assms(3-5,8)])
  then show ?thesis
    using job f(4) f'(1,4) by (intro exI [of _ job]) (simp add: Submit_def assms(10) replay_of_def Let_def)
qed

lemma ex_published_facts:
  "rows_readable (cl_db ex_published)" "distinct (map ik_id (cl_keys ex_published))"
  "distinct (map tn_external_id (tenants (cl_db ex_published)))"
  using mid_readable [OF ex_published_inv [unfolded store_inv_def]] by (simp_all add: ex_published_def ex_new_db_def ex_db_simps)

text \<open>In the witness the webhook worker and the retention worker run before the client repeats its request.\<close>

theorem resubmission_replays_witness:
  "\<exists>job. ej_ExternalID job = ex_job_id
    \<and> Submit ex_submit ex_te ex_key rq_example (ex_published\<lparr>cl_db := (cl_db ex_published)\<lparr>outbox := []\<rparr>\<rparr>)
      = (Inr \<lparr>sj_Job = job, sj_Replayed = True\<rparr>, ex_published\<lparr>cl_db := (cl_db ex_published)\<lparr>outbox := []\<rparr>\<rparr>)"
proof -
  let ?s = "ex_published\<lparr>cl_db := (cl_db ex_published)\<lparr>outbox := []\<rparr>\<rparr>"
  have "(client_step 3000)\<^sup>*\<^sup>* ex_published (su_other ex_submit 0 ?s)"
    by (rule r_into_rtranclp) (simp add: ex_submit_simps client_webhook)
  moreover have "ej_ExternalID ex_new_record = ex_job_id"
    by (simp add: ex_new_record_def scanExternalJob_def ex_new_simps)
  ultimately show ?thesis
    using resubmission_replays [OF ex_submitted _ ex_published_facts _ _ _ _ ex_prepare] by (simp add: ex_submit_simps)
qed

text \<open>C0: a created job is the requested one. When a submission creates a job, the tenant was active and within its limits
  on source size and queued jobs, the bundle was ready, and exactly one source row and one queued job are added: with ids of
  their own, for that tenant, bundle, language and stop flag, linked to each other, and returned to the client.\<close>

theorem submitted_as_requested:
  assumes "Submit env te key request s = (Inr r, s')" and "\<not> sj_Replayed r"
  shows "\<exists>(u :: client_store) t policy b j src. t \<in> set (tenants (cl_db u)) \<and> tn_external_id t = te \<and> tn_status t = ''ACTIVE''
    \<and> decodeTenantPolicy (tn_policy t) = Some policy \<and> int (length (jr_SourceCode request)) \<le> MaxSourceBytes policy
    \<and> b \<in> set (bundles (cl_db u)) \<and> bundle_usable (tn_id t) (jr_BundleID request) b
    \<and> cl_db s' = (cl_db u)\<lparr>sources := sources (cl_db u) @ [src], jobs := jobs (cl_db u) @ [j]\<rparr>
    \<and> queued_jobs (tn_id t) (cl_db s') \<le> MaxQueuedJobs policy
    \<and> jb_status j = JobStatusQueued \<and> jb_tenant_id j = tn_id t \<and> jb_bundle_id j = bd_id b \<and> jb_language_id j = jr_Language request
    \<and> jb_stop_on_failure j = jr_StopOnFailure request \<and> jb_source_object_id j = so_id src \<and> so_tenant_id src = tn_id t
    \<and> jb_id j \<notin> jb_id ` set (jobs (cl_db u)) \<and> jb_external_id j \<notin> jb_external_id ` set (jobs (cl_db u))
    \<and> so_object_key src \<notin> so_object_key ` set (sources (cl_db u)) \<and> ej_ExternalID (sj_Job r) = jb_external_id j"
proof -
  obtain sn u0 where sn: "prepare_submission env te key request = Inr sn"
    and tx: "submit_transaction (su_ttl env) (su_now env 8) (su_now env 9) sn (su_other env 8 u0) = Inr (r, Some s')"
    by (rule submit_fresh [OF assms]) blast
  let ?u = "su_other env 8 u0"
  note f = prepare_fields [OF sn]
  obtain tenant policy keys b callback where t: "lockTenantPolicy te (cl_db ?u) = Inr (tenant, policy)"
    "int (length (jr_SourceCode request)) \<le> MaxSourceBytes policy" "queued_jobs tenant (cl_db ?u) < MaxQueuedJobs policy"
    "b \<in> set (bundles (cl_db ?u))" "bundle_usable tenant (jr_BundleID request) b"
    "publish_submission (su_ttl env) (su_now env 9) sn tenant (bd_id b) callback keys ?u = Inr (r, s')"
    by (rule transactionE [OF tx]) (use f(1,2) in simp)
  let ?src = "source_of_submission sn tenant (cl_db ?u)" and ?j = "job_of_submission sn tenant (bd_id b) callback (su_now env 9) (cl_db ?u)"
  obtain j' where p: "cl_db s' = (cl_db ?u)\<lparr>sources := sources (cl_db ?u) @ [?src], jobs := jobs (cl_db ?u) @ [?j]\<rparr>"
    "getExternalJob (cl_db s') (sn_tenant sn) (sn_jobID sn) = Some (j', Some (sj_Job r))"
    "\<forall>j \<in> set (jobs (cl_db ?u)). jb_external_id j \<noteq> sn_jobID sn"
    "\<forall>x \<in> set (sources (cl_db ?u)). so_external_id x \<noteq> sn_sourceID sn \<and> so_object_key x \<noteq> fst (sn_source sn)"
    by (rule publishE [OF t(6)]) blast
  obtain x where x: "x \<in> set (tenants (cl_db ?u))" "tn_external_id x = te" "tn_id x = tenant" "tn_status x = ''ACTIVE''"
    "decodeTenantPolicy (tn_policy x) = Some policy" by (rule lockTenantPolicyE [OF t(1)])
  have j: "jb_status ?j = JobStatusQueued" "jb_tenant_id ?j = tenant" "jb_bundle_id ?j = bd_id b" "jb_language_id ?j = jr_Language request"
    "jb_stop_on_failure ?j = jr_StopOnFailure request" "jb_source_object_id ?j = so_id ?src" "so_tenant_id ?src = tenant"
    "jb_id ?j = next_job_id (cl_db ?u)" "jb_external_id ?j = sn_jobID sn" "so_object_key ?src = fst (sn_source sn)"
    by (simp_all add: job_of_submission_def source_of_submission_def f(2))
  have q: "queued_jobs tenant (cl_db s') = queued_jobs tenant (cl_db ?u) + 1" using j(1,2) by (simp add: queued_jobs_def sql_count_def p(1))
  have "\<forall>k \<in> set (jobs (cl_db s')). jb_external_id k = sn_jobID sn \<longrightarrow> k = ?j" using p(1,3) by auto
  then have "ej_ExternalID (sj_Job r) = jb_external_id ?j" using known_new(2) [OF p(2)] j(9) by simp
  then show ?thesis
    using x t(2,3,4,5) q j p(1,3,4) next_job_id_fresh [of "cl_db ?u"]
    by (intro exI [of _ ?u] exI [of _ x] exI [of _ policy] exI [of _ b] exI [of _ ?j] exI [of _ ?src]) auto
qed

theorem submitted_as_requested_witness:
  "Submit ex_submit ex_te ex_key rq_example ex_store = (Inr \<lparr>sj_Job = ex_new_record, sj_Replayed = False\<rparr>, ex_published)
    \<and> (\<exists>(u :: client_store) t policy j src. t \<in> set (tenants (cl_db u)) \<and> tn_external_id t = ex_te \<and> decodeTenantPolicy (tn_policy t) = Some policy
      \<and> cl_db ex_published = (cl_db u)\<lparr>sources := sources (cl_db u) @ [src], jobs := jobs (cl_db u) @ [j]\<rparr>
      \<and> queued_jobs (tn_id t) (cl_db ex_published) \<le> MaxQueuedJobs policy \<and> jb_language_id j = ''cpp17''
      \<and> ej_ExternalID ex_new_record = jb_external_id j)"
proof -
  have "\<not> sj_Replayed \<lparr>sj_Job = ex_new_record, sj_Replayed = False\<rparr>" by simp
  from submitted_as_requested [OF ex_submitted this] show ?thesis
    using ex_submitted unfolding rq_example_simps SubmitJobResult.simps by blast
qed

section \<open>Sources\<close>

text \<open>C0: a job is judged on the submitted source. However submissions, compensations, reservation sweepers, retention
  workers, judging workers and key expiry interleave, as long as a job has not ended the object of its source is in
  store and opens, under any key ring that still has the old keys, to the source code that was submitted; so a worker
  that loads its input for the job gets that source and never a decryption failure.\<close>

theorem submitted_source_judged:
  assumes "store_ok s" and "cipher_ok ci" and "(protocol_step ci)\<^sup>*\<^sup>* (protocol_start s) p"
    and "\<forall>v. map_of (ci_keys ci) v \<noteq> None \<longrightarrow> map_of (ci_keys ci') v = map_of (ci_keys ci) v"
    and "j \<in> set (jobs (cl_db (pr_store p)))" and "\<not> row_terminal j" and "source_of (cl_db (pr_store p)) j = Some r"
    and "tenant_of (cl_db (pr_store p)) j = Some t" and "pr_begun p (so_object_key r) = Some sn"
  shows "(\<exists>ciphertext. source_Get (cl_objects (pr_store p)) (so_object_key r) (so_size_bytes r + sourceCiphertextOverheadBytes) = Some ciphertext
      \<and> row_decrypt ci' (tn_external_id t) (so_external_id r) ciphertext r = Some (jr_SourceCode (sn_request sn)))
    \<and> (\<forall>claim now. claim_row claim j \<longrightarrow>
      (case LoadClaimInput (source_Get (cl_objects (pr_store p))) (row_decrypt ci') claim now (cl_db (pr_store p)) of
         Inr input \<Rightarrow> wi_SourceCode input = jr_SourceCode (sn_request sn)
       | Inl e \<Rightarrow> e \<noteq> ErrSourceEncryption))"
proof -
  let ?d = "cl_db (pr_store p)"
  have inv: "protocol_inv ci p" by (rule protocol_reachable_inv [OF assms(1,3)])
  have ok: "store_ok (pr_store p)" by (rule protocol_invD(1) [OF inv])
  have r: "r \<in> set (sources ?d)" "jb_source_object_id j = so_id r" "so_tenant_id r = jb_tenant_id j"
    using find_Some_mem [OF assms(7) [unfolded source_of_def]] by simp_all
  have t: "t \<in> set (tenants ?d)" "tn_id t = jb_tenant_id j" using find_Some_mem [OF assms(8) [unfolded tenant_of_def]] by simp_all
  have un: "so_delete_marked_at r = None"
    using ok assms(5,6) r(1,2) unfolding store_ok_def marked_idle_def by blast
  have te: "tn_external_id t = sn_tenant sn"
    using protocol_invD(3) [OF inv r(1)] assms(9) t r(3) unfolding row_kept_def row_of_def by metis
  note open_ = stored_source_opens [OF inv assms(2,4) r(1) un assms(9)]
  have "case LoadClaimInput (source_Get (cl_objects (pr_store p))) (row_decrypt ci') claim now ?d of
      Inr input \<Rightarrow> wi_SourceCode input = jr_SourceCode (sn_request sn) | Inl e \<Rightarrow> e \<noteq> ErrSourceEncryption" if c: "claim_row claim j" for claim now
  proof (cases "List.find (\<lambda>j. claim_row claim j \<and> lease_after j now) (jobs ?d)")
    case None
    then show ?thesis by (simp add: LoadClaimInput_def)
  next
    case (Some k)
    then have k: "k \<in> set (jobs ?d)" "claim_row claim k" using find_Some_mem [OF Some] by simp_all
    have "distinct (map jb_id (jobs ?d))" using ok by (simp add: store_ok_def rows_readable_def)
    then have "k = j" by (rule job_by_id [OF _ k(1) assms(5)]) (use k(2) c in \<open>simp add: claim_row_def\<close>)
    then show ?thesis
      using Some assms(7,8) open_ te by (simp add: LoadClaimInput_def split: option.split)
  qed
  then show ?thesis using open_ te by auto
qed

lemma ex_store_ok: "store_ok ex_store"
proof -
  have "rows_readable ex_db" using mid_readable [OF ex_inv [unfolded store_inv_def]] .
  moreover have "marked_idle ex_db" by (simp add: marked_idle_def ex_db_def)
  ultimately show ?thesis by (simp add: store_ok_def ex_store_def ex_db_simps)
qed

lemma ex_run_submitted:
  "\<exists>p. (protocol_step ex_cipher)\<^sup>*\<^sup>* (protocol_start ex_store) p \<and> pr_store p = ex_published \<and> pr_begun p ex_source_key = Some ex_sn"
proof -
  let ?K = ex_source_key
  let ?b = "(\<lambda>_. None)(?K \<mapsto> ex_sn) :: string \<Rightarrow> submission option"
  let ?p = "\<lambda>s ph. \<lparr>pr_store = s, pr_begun = ?b, pr_phase = (\<lambda>_. None)(?K := ph), pr_sweeps = {}, pr_retire = {}\<rparr>"
  let ?R = "(protocol_step ex_cipher)\<^sup>*\<^sup>*"
  have K: "source_key ex_sn = ?K" by (simp add: ex_sn_simps)
  have "prepared ex_cipher ex_sn"
    unfolding prepared_def by (intro exI [of _ ex_submit] exI [of _ ex_te] exI [of _ ex_key] exI [of _ rq_example])
      (simp add: ex_prepare, simp add: ex_submit_def ex_nonce_def)
  moreover have "fresh_submission ex_sn (protocol_start ex_store)"
    using ex_ids(6,9) by (auto simp: fresh_submission_def protocol_start_def ex_store_def ex_db_simps ex_sn_simps split: if_splits)
  ultimately have 1: "?R (protocol_start ex_store) (?p ex_store (Some Reserving))"
    using sub_begin [of ex_cipher ex_sn "protocol_start ex_store"] by (intro r_into_rtranclp) (simp add: enter_def protocol_start_def K)
  have "tryAcquireSourceReservation (\<lambda>us. us div 1000) 3000 ex_coordination_key (replicate 32 CHR ''c'') 65000000 [] = (True, [hd ex_reserved])"
    by (simp add: tryAcquireSourceReservation_def sql_exists_def ex_reserved_def)
  then have 2: "?R (?p ex_store (Some Reserving)) (?p (ex_store\<lparr>cl_reservations := [hd ex_reserved]\<rparr>) (Some Reserving))"
    using sub_coordinate [of "?p ex_store (Some Reserving)" ?K ex_sn] by (intro r_into_rtranclp) (simp add: with_store_def ex_sn_simps ex_store_def)
  have "tryAcquireSourceReservation (\<lambda>us. us div 1000) 3000 ?K (replicate 32 CHR ''s'') 1500000000 [hd ex_reserved] = (True, ex_reserved)"
    using ex_ids(6) by (simp add: tryAcquireSourceReservation_def sql_exists_def ex_reserved_def)
  then have 3: "?R (?p (ex_store\<lparr>cl_reservations := [hd ex_reserved]\<rparr>) (Some Reserving)) (?p (ex_store\<lparr>cl_reservations := ex_reserved\<rparr>) (Some Creating))"
    using sub_reserve [of "?p (ex_store\<lparr>cl_reservations := [hd ex_reserved]\<rparr>) (Some Reserving)" ?K ex_sn "\<lambda>us. us div 1000" 3000 1500000000 True ex_reserved ex_cipher]
    by (intro r_into_rtranclp) (simp add: with_store_def enter_def ex_sn_simps)
  have 4: "?R (?p (ex_store\<lparr>cl_reservations := ex_reserved\<rparr>) (Some Creating)) (?p ex_ready (Some Publishing))"
    using sub_create [of "?p (ex_store\<lparr>cl_reservations := ex_reserved\<rparr>) (Some Creating)" ?K ex_sn "Some Publishing" ex_cipher]
    by (intro r_into_rtranclp) (simp add: with_store_def enter_def ex_sn_simps ex_ready_def ex_store_def)
  have 5: "?R (?p ex_ready (Some Publishing)) (?p ex_published None)"
    using sub_publish [OF _ _ _, of "?p ex_ready (Some Publishing)" ?K ex_sn] ex_transaction
    by (intro r_into_rtranclp) (simp add: with_store_def enter_def)
  show ?thesis using rtranclp_trans [OF rtranclp_trans [OF rtranclp_trans [OF rtranclp_trans [OF 1 2] 3] 4] 5]
    by (intro exI [of _ "?p ex_published None"]) simp
qed

theorem submitted_source_judged_witness:
  "\<exists>p sn r. (protocol_step ex_cipher)\<^sup>*\<^sup>* (protocol_start ex_store) p \<and> ex_new_job \<in> set (jobs (cl_db (pr_store p)))
    \<and> pr_begun p (so_object_key r) = Some sn \<and> source_of (cl_db (pr_store p)) ex_new_job = Some r
    \<and> (\<exists>ciphertext. source_Get (cl_objects (pr_store p)) (so_object_key r) (so_size_bytes r + sourceCiphertextOverheadBytes) = Some ciphertext
        \<and> row_decrypt ex_cipher ex_te (so_external_id r) ciphertext r = Some (jr_SourceCode rq_example))"
proof -
  obtain p where p: "(protocol_step ex_cipher)\<^sup>*\<^sup>* (protocol_start ex_store) p" "pr_store p = ex_published" "pr_begun p ex_source_key = Some ex_sn"
    using ex_run_submitted by blast
  have k: "so_object_key ex_new_source = ex_source_key" by (simp add: ex_new_source_def source_of_submission_def ex_sn_simps)
  have ci: "cipher_ok ex_cipher" by (simp add: cipher_ok_def ex_cipher_def)
  have d: "cl_db (pr_store p) = ex_new_db" by (simp add: p(2) ex_published_def)
  have j: "ex_new_job \<in> set (jobs (cl_db (pr_store p)))" "\<not> row_terminal ex_new_job" by (simp_all add: d ex_new_db_def ex_new_simps row_terminal_def)
  have so: "source_of (cl_db (pr_store p)) ex_new_job = Some ex_new_source"
    unfolding d source_of_def ex_new_db_def by (simp add: ex_db_simps ex_new_simps)
  have te: "tenant_of (cl_db (pr_store p)) ex_new_job = Some ex_tenant"
    by (simp add: d tenant_of_def ex_new_db_def ex_db_simps ex_tenant_simps ex_new_simps)
  have b: "pr_begun p (so_object_key ex_new_source) = Some ex_sn" by (simp add: k p(3))
  show ?thesis
    using submitted_source_judged [OF ex_store_ok ci p(1) _ j so te b, of ex_cipher] p(1) j(1) so b
    by (intro exI [of _ p] exI [of _ ex_sn] exI [of _ ex_new_source]) (simp add: ex_tenant_simps ex_sn_simps)
qed

section \<open>Retention\<close>

text \<open>C0: retention removes finished work only. Finalizing a retention claim deletes exactly one job with its attempts and its
  source row: a terminal one, without webhook event, named by no unexpired idempotency key, whose source no other job uses;
  all other jobs stay and the job store stays consistent.\<close>

theorem retention_removes_finished:
  assumes "FinalizeSourceRetention now recheck claim s = Inr s'" and "store_mid {} Y (cl_db s)"
  shows "store_mid {} Y (cl_db s') \<and> (\<exists>j \<in> set (jobs (cl_db s)). row_terminal j
    \<and> set (jobs (cl_db s')) = set (jobs (cl_db s)) - {j}
    \<and> (\<forall>e \<in> set (outbox (cl_db s)). ob_job_id e \<noteq> jb_id j)
    \<and> (\<forall>k \<in> set (cl_keys s). \<not> key_names_job (jb_tenant_id j) (jb_external_id j) recheck k)
    \<and> (\<forall>k \<in> set (jobs (cl_db s')). source_of (cl_db s') k = source_of (cl_db s) k))"
proof -
  let ?d = "cl_db s"
  obtain j r where j: "j \<in> set (jobs ?d)" "claim_names_job claim j" "retained_job claim None j"
    and "r \<in> set (sources ?d)" "claim_names_source claim r" "so_delete_marked_at r \<noteq> None" "so_object_key r = rc_ObjectKey claim"
    and ob: "\<forall>o' \<in> set (outbox ?d). ob_job_id o' \<noteq> rc_JobInternalID claim"
    and nk: "\<forall>k \<in> set (cl_keys s). \<not> key_names_job (rc_TenantInternalID claim) (rc_JobExternalID claim) recheck k"
    and src: "\<forall>k \<in> set (jobs ?d). jb_source_object_id k = rc_SourceInternalID claim \<longrightarrow> jb_id k = rc_JobInternalID claim"
    and s': "cl_db s' = drop_retained claim ?d" "cl_keys s' = cl_keys s"
    by (rule finalizeE [OF assms(1)])
  have ids: "jb_id j = rc_JobInternalID claim" "jb_tenant_id j = rc_TenantInternalID claim" "jb_external_id j = rc_JobExternalID claim"
    using j(2,3) by (simp_all add: claim_names_job_def retained_job_def)
  have named: "claim_names_job claim k \<longleftrightarrow> k = j" if "k \<in> set (jobs ?d)" for k
    using job_by_id [OF store_midD(6) [OF assms(2)] that j(1)] ids j(2) by (auto simp: claim_names_job_def)
  have left: "set (jobs (cl_db s')) = set (jobs ?d) - {j}" using named by (auto simp: s' drop_retained_def sql_delete_def)
  have "source_of (cl_db s') k = source_of ?d k" if k: "k \<in> set (jobs (cl_db s'))" for k
  proof -
    have m: "k \<in> set (jobs ?d)" "k \<noteq> j" using k left by auto
    then have "jb_id k \<noteq> jb_id j" using job_by_id [OF store_midD(6) [OF assms(2)] m(1) j(1)] by blast
    then have "jb_source_object_id k \<noteq> rc_SourceInternalID claim" using src m(1) ids(1) by auto
    then show ?thesis
      unfolding source_of_def s' drop_retained_def sql_delete_def by simp (rule find_kept, auto simp: claim_names_source_def)
  qed
  then show ?thesis
    using finalize_mid [OF assms] j(1) retained_terminal [OF j(3)] left ob nk unfolding ids [symmetric] by blast
qed

definition ex_old_job :: job_row where
  "ex_old_job = ex_job\<lparr>jb_callback_id := None, jb_status := JobStatusCancelled, jb_worker_id := None, jb_lease_token := None,
     jb_lease_until := None, jb_cancel_requested_at := Some 2000, jb_completed_at := Some 2000\<rparr>"

definition ex_old_key :: string where "ex_old_key = ''external/tenantaaaaaaaaaaaaaaaaaaaa/sources/sourceaaaaaaaaaaaaaaaaaaaa.bin''"

definition ex_old_source :: source_row where
  "ex_old_source = ex_source\<lparr>so_object_key := ex_old_key, so_delete_marked_at := Some 9000, so_delete_token := Some (replicate 32 CHR ''d''),
     so_delete_lease_until := Some 129000, so_delete_next_attempt_at := Some 9000, so_delete_attempt_count := 1\<rparr>"

definition ex_old_store :: client_store where
  "ex_old_store = ex_store\<lparr>cl_db := ex_db\<lparr>jobs := [ex_old_job], sources := [ex_old_source], attempts := [ex_first], daily := []\<rparr>\<rparr>"

definition ex_old_claim :: SourceRetentionClaim where
  "ex_old_claim = \<lparr>rc_TenantInternalID = 1, rc_JobInternalID = 7, rc_SourceInternalID = 4, rc_JobExternalID = ''jobaaaaaaaaaaaaaaaaaaaaaaa'',
     rc_SourceExternalID = ''sourceaaaaaaaaaaaaaaaaaaaa'', rc_ObjectKey = ex_old_key, rc_DeleteToken = replicate 32 CHR ''d''\<rparr>"

lemma ex_old_inv: "store_mid {} {} (cl_db ex_old_store)"
  by (simp add: ex_old_store_def ex_store_def ex_old_job_def store_mid_def rows_ok_def row_ok_def lease_inv_def attempt_ok_def held_by_def
      ledger_inv_def attempt_funded_def att_key_def outbox_inv_def row_terminal_def ex_db_def ex_job_def ex_first_def)

lemma ex_old_finalized: "\<exists>s'. FinalizeSourceRetention 10000 10000 ex_old_claim ex_old_store = Inr s'"
proof -
  have p: "externalIDPattern ''sourceaaaaaaaaaaaaaaaaaaaa''" by code_simp
  have "SourceObjectKey ex_te ''sourceaaaaaaaaaaaaaaaaaaaa'' = Some ex_old_key" using p ex_ids(4) by (simp add: SourceObjectKey_def ex_old_key_def)
  then have "validSourceObjectKey ex_old_key" by (rule SourceObjectKey_valid)
  then have v: "validSourceRetentionClaim ex_old_claim" using p ex_patterns(2) by (simp add: validSourceRetentionClaim_def ex_old_claim_def)
  have d: "cl_keys ex_old_store = []" "jobs (cl_db ex_old_store) = [ex_old_job]" "sources (cl_db ex_old_store) = [ex_old_source]"
    "outbox (cl_db ex_old_store) = []" "tenants (cl_db ex_old_store) = [ex_tenant]"
    by (simp_all add: ex_old_store_def ex_store_def ex_db_def)
  have j: "claim_names_job ex_old_claim ex_old_job" "retained_job ex_old_claim None ex_old_job" "jb_id ex_old_job = rc_JobInternalID ex_old_claim"
    by (simp_all add: claim_names_job_def retained_job_def ex_old_claim_def ex_old_job_def ex_job_def)
  have r: "claim_names_source ex_old_claim ex_old_source" "so_delete_token ex_old_source = Some (rc_DeleteToken ex_old_claim)"
    "so_delete_marked_at ex_old_source = Some 9000" "so_delete_lease_until ex_old_source = Some 129000" "so_deleted_at ex_old_source = None"
    "so_object_key ex_old_source = rc_ObjectKey ex_old_claim"
    by (simp_all add: claim_names_source_def ex_old_claim_def ex_old_source_def ex_source_def ex_db_def)
  have t: "tn_id ex_tenant = rc_TenantInternalID ex_old_claim" by (simp add: ex_tenant_simps ex_old_claim_def)
  show ?thesis
    using v by (simp add: FinalizeSourceRetention_def lockRetentionTenantJob_def retentionBlockers_def d j r t sql_exists_def sql_count_def above_def
        result_simps Let_def)
qed

theorem retention_removes_finished_witness:
  "\<exists>s'. FinalizeSourceRetention 10000 10000 ex_old_claim ex_old_store = Inr s' \<and> store_mid {} {} (cl_db s') \<and> jobs (cl_db s') = []"
proof -
  obtain s' where f: "FinalizeSourceRetention 10000 10000 ex_old_claim ex_old_store = Inr s'" using ex_old_finalized by blast
  from retention_removes_finished [OF this ex_old_inv] have "store_mid {} {} (cl_db s')" "set (jobs (cl_db s')) \<subset> {ex_old_job}"
    by (auto simp: ex_old_store_def)
  then show ?thesis using f by (metis set_empty subset_singletonD psubset_eq)
qed

section \<open>Listing\<close>

text \<open>C0: a client that follows the cursors sees everything once. Starting without a cursor and following the next cursors
  until there is none, a client gets every job of its tenant with the wanted status exactly once, newest first, in pages of
  the chosen size; one request more than there are jobs is always enough.\<close>

theorem listing_complete:
  assumes "listing_ok key tenant limit status d"
  shows "\<exists>rows. set rows = {j \<in> set (jobs d). job_listed d tenant status j} \<and> distinct (map jb_id rows)
    \<and> sorted_wrt (\<lambda>j k. newest_first j < newest_first k) rows
    \<and> follow (Suc (length rows)) key tenant limit status [] d = Some (map (\<lambda>j. the (read_job d j)) rows)"
proof (intro exI conjI)
  let ?rows = "all_rows d tenant status"
  have l: "listable d tenant status" using assms by (simp add: listing_ok_def)
  have "sorted_wrt (<) (map newest_first ?rows)" by (rule all_rows_strict [OF l])
  then show sw: "sorted_wrt (\<lambda>j k. newest_first j < newest_first k) ?rows" by (simp add: sorted_wrt_map)
  show "set ?rows = {j \<in> set (jobs d). job_listed d tenant status j}" by (auto simp: all_rows_def list_rows_def before_cursor_def)
  have "distinct ?rows" using all_rows_strict [OF l] by (auto simp: strict_sorted_iff distinct_map)
  moreover have "inj_on jb_id (set (jobs d))" using l by (simp add: listable_def distinct_map)
  moreover have "set ?rows \<subseteq> set (jobs d)" using all_rows_listed by blast
  ultimately show "distinct (map jb_id ?rows)" by (simp add: distinct_map inj_on_subset)
  show "follow (Suc (length ?rows)) key tenant limit status [] d = Some (map (\<lambda>j. the (read_job d j)) ?rows)"
    using follow_rows [OF assms, of 0 "[]" "Suc (length ?rows)"] by (simp add: page_start_def)
qed

lemma ex_listing: "listing_ok ex_pepper ex_te 1 [] ex_new_db"
proof -
  have r: "read_job ex_new_db ex_new_job \<noteq> None"
    using ex_new_read by (auto simp: getExternalJob_def split: option.splits)
  have v: "so_key_version ex_source = 1" "so_tenant_id ex_source = 1" by (simp_all add: ex_source_def ex_db_def)
  have j: "jb_tenant_id ex_job = 1" "jb_bundle_id ex_job = 3" "jb_source_object_id ex_job = 4" "jb_result ex_job = None" "jb_created_at ex_job = 500"
    by (simp_all add: ex_job_def)
  have "read_job ex_new_db ex_job \<noteq> None"
    by (simp add: read_job_def tenant_of_def bundle_of_def source_of_def ex_new_db_def ex_db_simps ex_tenant_simps j v scanExternalJob_def)
  moreover have "jb_created_at ex_new_job = 3000" by (simp add: ex_new_job_def job_of_submission_def)
  ultimately show ?thesis
    using r ex_ids(4)
    by (auto simp: listing_ok_def listable_def ex_pepper_def validJobStatusFilter_def ex_new_db_def ex_db_simps ex_job_simps ex_new_simps j
        time_zero_def in_int64_def max_int64_def)
qed

theorem listing_complete_witness:
  "\<exists>rows. ex_job \<in> set rows \<and> ex_new_job \<in> set rows
    \<and> follow (Suc (length rows)) ex_pepper ex_te 1 [] [] ex_new_db = Some (map (\<lambda>j. the (read_job ex_new_db j)) rows)"
proof -
  have "job_listed ex_new_db ex_te [] ex_job" "job_listed ex_new_db ex_te [] ex_new_job"
    by (simp_all add: job_listed_def tenant_of_def bundle_of_def source_of_def ex_new_db_def ex_db_simps ex_tenant_simps ex_new_simps ex_job_def
        ex_source_def ex_db_def)
  then show ?thesis
    using listing_complete [OF ex_listing] by (auto simp: ex_new_db_def ex_db_simps)
qed

end
