(* ===== verification/Spec2Isabelle.thy ===== *)
theory Spec2Isabelle
  imports Judging_Properties Task_Registry Webhook_Properties Client_Properties
begin

text \<open>
  A verification of the judging server: problem bundles, durable jobs with leases, the sandbox
  pipeline and the delivery of results. (Header completed below as the library grows.)
\<close>

end
